(* ===== verification/Forwarder_Prelude.thy ===== *)
theory Forwarder_Prelude
  imports Main
begin

text \<open>
  Shared vocabulary of the development: Go's fixed-width integers written out over
  \<open>int\<close> and \<open>nat\<close>, \<open>time.Time\<close> as an instant, and the generic lemmas on lists and
  options that the component theories use.

  Go's \<open>int64\<close> arithmetic wraps modulo \<open>2 ^ 64\<close>; \<open>i64\<close> maps the mathematical result of an
  operation to the value the program keeps.  \<open>u64\<close> and \<open>u32\<close> do the same for the unsigned
  types.  A \<open>time.Time\<close> is the number of nanoseconds after Go's zero time, so that
  \<open>IsZero\<close> is equality with 0, \<open>Before\<close> is \<open><\<close> and \<open>After\<close> is \<open>>\<close>; \<open>time.Now()\<close> is an
  argument of every operation that reads the clock.
\<close>

named_theorems go_int \<open>reading back wrapped integers that are in range\<close>

type_synonym go_time = int

definition isZeroTime :: "go_time \<Rightarrow> bool" where
  "isZeroTime t \<longleftrightarrow> t = 0"

definition i64 :: "int \<Rightarrow> int" where
  "i64 x = (x + 2 ^ 63) mod 2 ^ 64 - 2 ^ 63"

definition i32 :: "int \<Rightarrow> int" where
  "i32 x = (x + 2 ^ 31) mod 2 ^ 32 - 2 ^ 31"

definition u64 :: "nat \<Rightarrow> nat" where
  "u64 n = n mod 2 ^ 64"

definition u32 :: "nat \<Rightarrow> nat" where
  "u32 n = n mod 2 ^ 32"

definition in_i64 :: "int \<Rightarrow> bool" where
  "in_i64 x \<longleftrightarrow> - (2 ^ 63) \<le> x \<and> x < 2 ^ 63"

abbreviation max_i64 :: int where
  "max_i64 \<equiv> 2 ^ 63 - 1"

lemma i64_id [go_int]: "in_i64 x \<Longrightarrow> i64 x = x"
  by (simp add: i64_def in_i64_def)

lemma in_i64_i64 [simp]: "in_i64 (i64 x)"
proof -
  have "0 \<le> (x + 2 ^ 63) mod 2 ^ 64" "(x + 2 ^ 63) mod 2 ^ 64 < (2 ^ 64 :: int)"
    by simp_all
  then show ?thesis by (simp add: i64_def in_i64_def)
qed

lemma i64_idem [simp]: "i64 (i64 x) = i64 x"
  by (simp add: i64_id)

lemma i64_small [go_int]: "0 \<le> x \<Longrightarrow> x \<le> max_i64 \<Longrightarrow> i64 x = x"
  by (rule i64_id) (simp add: in_i64_def)

lemma u64_id [go_int]: "n < 2 ^ 64 \<Longrightarrow> u64 n = n"
  by (simp add: u64_def)

lemma u64_less [simp]: "u64 n < 2 ^ 64"
  by (simp add: u64_def)

lemma u32_id [go_int]: "n < 2 ^ 32 \<Longrightarrow> u32 n = n"
  by (simp add: u32_def)

lemma u32_less [simp]: "u32 n < 2 ^ 32"
  by (simp add: u32_def)

text \<open>Lists: the element of a contiguous block of sequence numbers, folds as maxima.\<close>

lemma fold_max_ge: "a \<le> fold max xs (a :: 'a :: linorder)"
proof (induction xs arbitrary: a)
  case (Cons x xs)
  have "a \<le> max x a" by simp
  also have "\<dots> \<le> fold max xs (max x a)" by (rule Cons.IH)
  finally show ?case by simp
qed simp

lemma fold_max_mem: "x \<in> set xs \<Longrightarrow> x \<le> fold max xs (a :: 'a :: linorder)"
proof (induction xs arbitrary: a)
  case (Cons y ys)
  then show ?case
    by (cases "x = y") (auto intro: order_trans [OF _ fold_max_ge])
qed simp

lemma fold_max_in: "fold max xs (a :: 'a :: linorder) \<in> insert a (set xs)"
  by (induction xs arbitrary: a) (auto simp: max_def)

end
