(* ===== verification/Go_Strings.thy ===== *)
theory Go_Strings
  imports Forwarder_Prelude "HOL-Library.Char_ord" "HOL-Library.List_Lexorder"
begin

text \<open>
  Go strings are byte sequences, modelled as \<open>string\<close> (a \<open>char\<close> is a byte).  This theory
  defines the functions of \<open>strings\<close>, \<open>strconv\<close> and \<open>unicode/utf8\<close> that the program calls.

  \<open>trim_space\<close> is \<open>strings.TrimSpace\<close>: it removes the UTF-8 encodings of the Unicode white
  space characters at both ends.  \<open>to_lower\<close> is \<open>strings.ToLower\<close> on ASCII letters and on
  the two other characters whose lower case is an ASCII letter (U+0130 and U+212A); a
  further non-ASCII character keeps its bytes, which is enough because the program only
  compares the result with ASCII text.
\<close>

subsection \<open>White space\<close>

definition space1 :: "char list" where
  "space1 = [CHR 0x09, CHR 0x0A, CHR 0x0B, CHR 0x0C, CHR 0x0D, CHR 0x20]"

definition space2 :: "string list" where
  "space2 = [[CHR 0xC2, CHR 0x85], [CHR 0xC2, CHR 0xA0]]"

definition space3 :: "string list" where
  "space3 = [[CHR 0xE1, CHR 0x9A, CHR 0x80],
     [CHR 0xE2, CHR 0x80, CHR 0x80], [CHR 0xE2, CHR 0x80, CHR 0x81], [CHR 0xE2, CHR 0x80, CHR 0x82],
     [CHR 0xE2, CHR 0x80, CHR 0x83], [CHR 0xE2, CHR 0x80, CHR 0x84], [CHR 0xE2, CHR 0x80, CHR 0x85],
     [CHR 0xE2, CHR 0x80, CHR 0x86], [CHR 0xE2, CHR 0x80, CHR 0x87], [CHR 0xE2, CHR 0x80, CHR 0x88],
     [CHR 0xE2, CHR 0x80, CHR 0x89], [CHR 0xE2, CHR 0x80, CHR 0x8A], [CHR 0xE2, CHR 0x80, CHR 0xA8],
     [CHR 0xE2, CHR 0x80, CHR 0xA9], [CHR 0xE2, CHR 0x80, CHR 0xAF], [CHR 0xE2, CHR 0x81, CHR 0x9F],
     [CHR 0xE3, CHR 0x80, CHR 0x80]]"

text \<open>The number of bytes of the white space character at the front of a byte sequence, 0 for none.\<close>

definition space_front :: "string \<Rightarrow> nat" where
  "space_front s =
     (case s of [] \<Rightarrow> 0
      | c # _ \<Rightarrow> if c \<in> set space1 then 1
                 else if take 2 s \<in> set space2 then 2
                 else if take 3 s \<in> set space3 then 3 else 0)"

definition space_back :: "string \<Rightarrow> nat" where
  "space_back r =
     (case r of [] \<Rightarrow> 0
      | c # _ \<Rightarrow> if c \<in> set space1 then 1
                 else if rev (take 2 r) \<in> set space2 then 2
                 else if rev (take 3 r) \<in> set space3 then 3 else 0)"

function trim_left :: "string \<Rightarrow> string" where
  "trim_left s = (if space_front s = 0 then s else trim_left (drop (space_front s) s))"
  by pat_completeness auto
termination
  by (relation "measure length") (auto simp: space_front_def split: list.splits if_splits)

function trim_back :: "string \<Rightarrow> string" where
  "trim_back r = (if space_back r = 0 then r else trim_back (drop (space_back r) r))"
  by pat_completeness auto
termination
  by (relation "measure length") (auto simp: space_back_def split: list.splits if_splits)

declare trim_left.simps [simp del] trim_back.simps [simp del]

definition trim_right :: "string \<Rightarrow> string" where
  "trim_right s = rev (trim_back (rev s))"

definition trim_space :: "string \<Rightarrow> string" where
  "trim_space s = trim_right (trim_left s)"

subsection \<open>Case, prefixes, search\<close>

definition lower_char :: "char \<Rightarrow> char" where
  "lower_char c = (let n = (of_char c :: nat) in
     if 65 \<le> n \<and> n \<le> 90 then char_of (n + 32) else c)"

fun to_lower :: "string \<Rightarrow> string" where
  "to_lower [] = []"
| "to_lower (c # s) =
     (if take 2 (c # s) = [CHR 0xC4, CHR 0xB0] then CHR ''i'' # to_lower (drop 1 s)
      else if take 3 (c # s) = [CHR 0xE2, CHR 0x84, CHR 0xAA] then CHR ''k'' # to_lower (drop 2 s)
      else lower_char c # to_lower s)"

definition has_prefix :: "string \<Rightarrow> string \<Rightarrow> bool" where
  "has_prefix s p \<longleftrightarrow> take (length p) s = p"

definition has_suffix :: "string \<Rightarrow> string \<Rightarrow> bool" where
  "has_suffix s p \<longleftrightarrow> length p \<le> length s \<and> drop (length s - length p) s = p"

definition trim_prefix :: "string \<Rightarrow> string \<Rightarrow> string" where
  "trim_prefix s p = (if has_prefix s p then drop (length p) s else s)"

text \<open>\<open>strings.Index\<close>: the byte offset of the first occurrence, \<open>None\<close> for Go's \<open>-1\<close>.\<close>

fun index_of :: "string \<Rightarrow> string \<Rightarrow> nat option" where
  "index_of [] sep = (if sep = [] then Some 0 else None)"
| "index_of (c # s) sep =
     (if has_prefix (c # s) sep then Some 0 else map_option Suc (index_of s sep))"

definition contains :: "string \<Rightarrow> string \<Rightarrow> bool" where
  "contains s sep \<longleftrightarrow> index_of s sep \<noteq> None"

text \<open>\<open>strings.Split\<close> for a separator of one byte.\<close>

fun split_on :: "char \<Rightarrow> string \<Rightarrow> string list" where
  "split_on d [] = [[]]"
| "split_on d (c # s) =
     (if c = d then [] # split_on d s
      else (case split_on d s of [] \<Rightarrow> [[c]] | p # ps \<Rightarrow> (c # p) # ps))"

text \<open>\<open>firstNonEmpty\<close> of broker.go: the first argument that is not blank, trimmed.\<close>

fun firstNonEmpty :: "string list \<Rightarrow> string" where
  "firstNonEmpty [] = []"
| "firstNonEmpty (v # vs) = (if trim_space v \<noteq> [] then trim_space v else firstNonEmpty vs)"

subsection \<open>Decimal numbers\<close>

definition digit_char :: "nat \<Rightarrow> char" where
  "digit_char d = char_of (48 + d)"

fun nat_dec :: "nat \<Rightarrow> string" where
  "nat_dec n = (if n < 10 then [digit_char n] else nat_dec (n div 10) @ [digit_char (n mod 10)])"

declare nat_dec.simps [simp del]

text \<open>\<open>%d\<close> of \<open>fmt.Sprintf\<close> and \<open>strconv.Itoa\<close>.\<close>

definition int_dec :: "int \<Rightarrow> string" where
  "int_dec x = (if x < 0 then CHR ''-'' # nat_dec (nat (- x)) else nat_dec (nat x))"

definition digit_value :: "char \<Rightarrow> nat option" where
  "digit_value c = (let n = (of_char c :: nat) in
     if 48 \<le> n \<and> n \<le> 57 then Some (n - 48) else None)"

fun parse_digits :: "nat \<Rightarrow> string \<Rightarrow> nat option" where
  "parse_digits acc [] = Some acc"
| "parse_digits acc (c # s) =
     (case digit_value c of None \<Rightarrow> None | Some d \<Rightarrow> parse_digits (10 * acc + d) s)"

text \<open>\<open>strconv.Atoi\<close> on a 64-bit platform: an optional sign, at least one digit, and a
  value that fits \<open>int64\<close>; anything else is an error.\<close>

definition atoi_go :: "string \<Rightarrow> int option" where
  "atoi_go s =
     (let (neg, body) = (case s of [] \<Rightarrow> (False, []) | c # r \<Rightarrow>
            if c = CHR ''-'' then (True, r) else if c = CHR ''+'' then (False, r) else (False, s))
      in if body = [] then None
         else (case parse_digits 0 body of None \<Rightarrow> None
               | Some n \<Rightarrow> let v = (if neg then - int n else int n)
                           in if in_i64 v then Some v else None))"

subsection \<open>Lemmas: trimming\<close>

lemma trim_left_front [simp]: "space_front (trim_left s) = 0"
  by (induction s rule: trim_left.induct) (subst trim_left.simps, simp)

lemma trim_back_back [simp]: "space_back (trim_back r) = 0"
  by (induction r rule: trim_back.induct) (subst trim_back.simps, simp)

lemma trim_left_id: "space_front s = 0 \<Longrightarrow> trim_left s = s"
  by (subst trim_left.simps) simp

lemma trim_back_id: "space_back s = 0 \<Longrightarrow> trim_back s = s"
  by (subst trim_back.simps) simp

lemma trim_Nil [simp]: "trim_left [] = []" "trim_back [] = []" "trim_space [] = []"
  by (simp_all add: trim_left.simps trim_back.simps space_front_def space_back_def
      trim_space_def trim_right_def)

lemma trim_left_suffix: "\<exists>p. s = p @ trim_left s"
proof (induction s rule: trim_left.induct)
  case (1 s)
  show ?case
  proof (cases "space_front s = 0")
    case False
    with 1 obtain p where "drop (space_front s) s = p @ trim_left (drop (space_front s) s)" by blast
    moreover have "trim_left s = trim_left (drop (space_front s) s)"
      using False by (simp add: trim_left.simps [of s])
    ultimately have "s = (take (space_front s) s @ p) @ trim_left s"
      by (metis append.assoc append_take_drop_id)
    then show ?thesis by blast
  qed (simp add: trim_left_id)
qed

lemma trim_back_suffix: "\<exists>p. s = p @ trim_back s"
proof (induction s rule: trim_back.induct)
  case (1 s)
  show ?case
  proof (cases "space_back s = 0")
    case False
    with 1 obtain p where "drop (space_back s) s = p @ trim_back (drop (space_back s) s)" by blast
    moreover have "trim_back s = trim_back (drop (space_back s) s)"
      using False by (simp add: trim_back.simps [of s])
    ultimately have "s = (take (space_back s) s @ p) @ trim_back s"
      by (metis append.assoc append_take_drop_id)
    then show ?thesis by blast
  qed (simp add: trim_back_id)
qed

text \<open>Cutting bytes off the end cannot create white space at the front.\<close>

lemma space_front_append: "space_front (p @ q) = 0 \<Longrightarrow> space_front p = 0"
  by (cases p; cases "tl p"; cases "tl (tl p)")
    (auto simp: space_front_def space2_def space3_def split: if_splits)

lemma trim_right_prefix: "\<exists>q. s = trim_right s @ q"
proof -
  obtain p where "rev s = p @ trim_back (rev s)" using trim_back_suffix by blast
  then have "s = rev (trim_back (rev s)) @ rev p" by (metis rev_append rev_rev_ident)
  then show ?thesis unfolding trim_right_def by blast
qed

lemma space_front_trim_space [simp]: "space_front (trim_space s) = 0"
proof -
  obtain q where "trim_left s = trim_right (trim_left s) @ q" using trim_right_prefix by blast
  then show ?thesis unfolding trim_space_def by (metis space_front_append trim_left_front)
qed

lemma trim_space_idem [simp]: "trim_space (trim_space s) = trim_space s"
proof -
  have "trim_left (trim_space s) = trim_space s" by (rule trim_left_id) simp
  moreover have "trim_right (trim_space s) = trim_space s"
    by (simp add: trim_space_def trim_right_def trim_back_id)
  ultimately show ?thesis by (metis trim_space_def)
qed

lemma length_trim_space: "length (trim_space s) \<le> length s"
proof -
  obtain p where "s = p @ trim_left s" using trim_left_suffix by blast
  moreover obtain q where "trim_left s = trim_right (trim_left s) @ q" using trim_right_prefix by blast
  ultimately show ?thesis unfolding trim_space_def by (metis length_append le_add1 le_add2 order_trans)
qed

lemma set_trim_space: "set (trim_space s) \<subseteq> set s"
proof -
  obtain p where "s = p @ trim_left s" using trim_left_suffix by blast
  then have "set (trim_left s) \<subseteq> set s" by (metis set_append Un_upper2)
  moreover obtain q where "trim_left s = trim_right (trim_left s) @ q" using trim_right_prefix by blast
  then have "set (trim_right (trim_left s)) \<subseteq> set (trim_left s)" by (metis set_append Un_upper1)
  ultimately show ?thesis unfolding trim_space_def by blast
qed

lemma trim_firstNonEmpty [simp]: "trim_space (firstNonEmpty vs) = firstNonEmpty vs"
  by (induction vs) auto

lemma firstNonEmpty_Nil_iff: "firstNonEmpty vs = [] \<longleftrightarrow> (\<forall>v\<in>set vs. trim_space v = [])"
  by (induction vs) auto

subsection \<open>Lemmas: splitting and decimal numbers\<close>

lemma split_on_not_Nil [simp]: "split_on d s \<noteq> []"
  by (induction s) (auto split: list.splits)

lemma nat_dec_not_Nil [simp]: "nat_dec n \<noteq> []"
  by (subst nat_dec.simps) simp

lemma digit_value_digit_char: "d < 10 \<Longrightarrow> digit_value (digit_char d) = Some d"
  by (simp add: digit_value_def digit_char_def Let_def)

lemma parse_digits_append:
  "parse_digits a (s @ t) = (case parse_digits a s of None \<Rightarrow> None | Some b \<Rightarrow> parse_digits b t)"
  by (induction a s rule: parse_digits.induct) (auto split: option.splits)

lemma parse_nat_dec: "parse_digits 0 (nat_dec n) = Some n"
proof (induction n rule: nat_dec.induct)
  case (1 n)
  then show ?case
    by (subst nat_dec.simps)
      (auto simp: digit_value_digit_char parse_digits_append split: option.splits)
qed

lemma nat_dec_inj: "nat_dec m = nat_dec n \<Longrightarrow> m = n"
  by (metis option.inject parse_nat_dec)

lemma length_nat_dec_mono: "m \<le> n \<Longrightarrow> length (nat_dec m) \<le> length (nat_dec n)"
proof (induction n arbitrary: m rule: nat_dec.induct)
  case (1 n)
  show ?case
  proof (cases "n < 10")
    case True
    with "1.prems" show ?thesis by (simp add: nat_dec.simps [of m] nat_dec.simps [of n])
  next
    case False
    have "length (nat_dec (m div 10)) \<le> length (nat_dec (n div 10))"
      by (rule "1.IH") (use False "1.prems" in \<open>auto intro: div_le_mono\<close>)
    with False show ?thesis
      by (cases "m < 10") (simp_all add: nat_dec.simps [of m] nat_dec.simps [of n])
  qed
qed

lemma nat_dec_hd_digit: "\<exists>d c. nat_dec n = c # d \<and> digit_value c \<noteq> None"
proof (induction n rule: nat_dec.induct)
  case (1 n)
  then show ?case
    by (subst nat_dec.simps) (auto simp: digit_value_digit_char)
qed

lemma atoi_int_dec: "in_i64 x \<Longrightarrow> atoi_go (int_dec x) = Some x"
proof -
  assume x: "in_i64 x"
  obtain c d where nd: "nat_dec (nat x) = c # d" and c: "digit_value c \<noteq> None"
    using nat_dec_hd_digit by blast
  from c have "c \<noteq> CHR ''-''" "c \<noteq> CHR ''+''"
    by (auto simp: digit_value_def Let_def split: if_splits)
  moreover have "parse_digits 0 (c # d) = Some (nat x)" using parse_nat_dec nd by metis
  moreover have "parse_digits 0 (nat_dec (nat (- x))) = Some (nat (- x))" by (rule parse_nat_dec)
  ultimately show ?thesis
    using x nd by (auto simp: atoi_go_def int_dec_def Let_def simp del: parse_digits.simps)
qed

subsection \<open>Lemmas: prefixes and search\<close>

lemma has_prefix_append [simp]: "has_prefix (p @ s) p"
  by (simp add: has_prefix_def)

lemma has_prefix_iff: "has_prefix s p \<longleftrightarrow> (\<exists>r. s = p @ r)"
  by (metis append_take_drop_id has_prefix_append has_prefix_def)

lemma index_of_Some: "index_of s sep = Some i \<Longrightarrow> \<exists>r. s = take i s @ sep @ r"
proof (induction s arbitrary: i)
  case (Cons c s)
  then show ?case
    by (auto simp: has_prefix_iff split: if_splits)
qed (auto split: if_splits)

lemma contains_iff: "contains s sep \<longleftrightarrow> (\<exists>l r. s = l @ sep @ r)"
proof
  assume "contains s sep"
  then show "\<exists>l r. s = l @ sep @ r" unfolding contains_def using index_of_Some by blast
next
  have "index_of (l @ sep @ r) sep \<noteq> None" for l r
  proof (induction l)
    case Nil
    have "has_prefix (sep @ r) sep" by simp
    then show ?case by (cases "sep @ r") auto
  qed simp
  then show "\<exists>l r. s = l @ sep @ r \<Longrightarrow> contains s sep" unfolding contains_def by blast
qed

subsection \<open>Lemmas: visible ASCII\<close>

definition graphic :: "char \<Rightarrow> bool" where
  "graphic c \<longleftrightarrow> 0x21 \<le> (of_char c :: nat) \<and> (of_char c :: nat) \<le> 0x7E"

lemma spaces_not_graphic: "\<forall>c \<in> set space1. \<not> graphic c" "\<forall>x \<in> set space2. \<not> graphic (hd x) \<and> \<not> graphic (last x)"
  "\<forall>x \<in> set space3. \<not> graphic (hd x) \<and> \<not> graphic (last x)"
  by (simp_all add: space1_def space2_def space3_def graphic_def)

lemma space_front_graphic:
  assumes "graphic c" shows "space_front (c # s) = 0"
proof -
  have "hd (take (Suc n) (c # s)) = c" for n by simp
  then have "take 2 (c # s) \<notin> set space2" "take 3 (c # s) \<notin> set space3"
    using assms spaces_not_graphic(2,3) by (metis numeral_2_eq_2 numeral_3_eq_3)+
  then show ?thesis using assms spaces_not_graphic(1) by (auto simp: space_front_def)
qed

lemma space_back_graphic:
  assumes "graphic c" shows "space_back (c # r) = 0"
proof -
  have "last (rev (take (Suc n) (c # r))) = c" for n by simp
  then have "rev (take 2 (c # r)) \<notin> set space2" "rev (take 3 (c # r)) \<notin> set space3"
    using assms spaces_not_graphic(2,3) by (metis numeral_2_eq_2 numeral_3_eq_3)+
  then show ?thesis using assms spaces_not_graphic(1) by (auto simp: space_back_def)
qed

lemma trim_graphic: "s \<noteq> [] \<Longrightarrow> graphic (hd s) \<Longrightarrow> graphic (last s) \<Longrightarrow> trim_space s = s"
proof -
  assume s: "s \<noteq> []" "graphic (hd s)" "graphic (last s)"
  have "trim_left s = s" using s by (intro trim_left_id) (cases s, simp_all add: space_front_graphic)
  moreover have "trim_back (rev s) = rev s"
    using s by (intro trim_back_id) (cases s rule: rev_cases, simp_all add: space_back_graphic)
  ultimately show ?thesis by (simp add: trim_space_def trim_right_def)
qed

lemma set_nat_dec: "c \<in> set (nat_dec n) \<Longrightarrow> 48 \<le> (of_char c :: nat) \<and> (of_char c :: nat) \<le> 57"
proof (induction n rule: nat_dec.induct)
  case (1 n)
  have "d < 10 \<Longrightarrow> (of_char (digit_char d) :: nat) = 48 + d" for d by (simp add: digit_char_def)
  with 1 show ?case by (subst (asm) nat_dec.simps) (auto split: if_splits)
qed

lemma set_int_dec: "c \<in> set (int_dec x) \<Longrightarrow> c = CHR ''-'' \<or> 48 \<le> (of_char c :: nat) \<and> (of_char c :: nat) \<le> 57"
  by (auto simp: int_dec_def dest: set_nat_dec split: if_splits)

lemma split_on_append: "d \<notin> set xs \<Longrightarrow> split_on d (xs @ d # ys) = xs # split_on d ys"
  by (induction xs) auto

text \<open>\<open>strings.Join\<close>.\<close>

fun join_with :: "string \<Rightarrow> string list \<Rightarrow> string" where
  "join_with sep [] = []"
| "join_with sep [x] = x"
| "join_with sep (x # y # xs) = x @ sep @ join_with sep (y # xs)"

end
