(* ===== verification/Append_Seq.thy ===== *)
theory Append_Seq
  imports Go_Strings
begin

text \<open>
  The ordering of BidiAppend calls, \<open>forwarder/append_seq.go\<close>.  A tracker maps a request
  id to a shared \<open>appendSequenceState\<close> object; a call acquires its sequence number, works,
  and releases it, which closes the object's \<open>ready\<close> channel and wakes the waiters.

  State objects and channels have identity (a goroutine keeps its pointer after the tracker
  dropped the map entry), so the model keeps them in a store: \<open>objs\<close> maps object numbers to
  states, \<open>closed\<close> is the set of closed channels, \<open>next_obj\<close> and \<open>next_chan\<close> number the
  next allocation.  Every mutex-protected section is one atomic operation; goroutines are
  the threads of the step relation \<open>as_step\<close>, which interleaves them in any order and reads
  any clock value.
\<close>

subsection \<open>State\<close>

definition appendSequenceRetention :: go_time where
  "appendSequenceRetention = 10 * 60 * 1000000000"

record appendSequenceState =
  next_seq :: int
  processing :: bool
  ready :: "nat option"
  updatedAt :: go_time

record appendSequenceTracker =
  states :: "string \<rightharpoonup> nat"
  objs :: "nat \<rightharpoonup> appendSequenceState"
  next_obj :: nat
  next_chan :: nat
  closed :: "nat set"

definition newAppendSequenceTracker :: appendSequenceTracker where
  "newAppendSequenceTracker =
     \<lparr>states = Map.empty, objs = Map.empty, next_obj = 0, next_chan = 0, closed = {}\<rparr>"

text \<open>What one pass of the acquire loop decides: the call is stale, it owns the number, or
  it sleeps on a channel.\<close>

datatype acquire_result = Stale | Granted | Wait nat

subsection \<open>Operations\<close>

definition expired :: "go_time \<Rightarrow> appendSequenceState option \<Rightarrow> bool" where
  "expired cutoff st = (case st of None \<Rightarrow> True
     | Some s \<Rightarrow> if processing s then False
                 else \<not> isZeroTime (updatedAt s) \<and> updatedAt s < cutoff)"

definition touch :: "go_time \<Rightarrow> nat \<Rightarrow> appendSequenceTracker \<Rightarrow> appendSequenceTracker" where
  "touch now ob w = (case objs w ob of None \<Rightarrow> w
     | Some s \<Rightarrow> w\<lparr>objs := (objs w)(ob \<mapsto> s\<lparr>updatedAt := now\<rparr>)\<rparr>)"

definition drop_expired :: "go_time \<Rightarrow> appendSequenceTracker \<Rightarrow> appendSequenceTracker" where
  "drop_expired cutoff w = w\<lparr>states := (\<lambda>k. case states w k of None \<Rightarrow> None
     | Some ob \<Rightarrow> if expired cutoff (objs w ob) then None else Some ob)\<rparr>"

definition tracker_state :: "go_time \<Rightarrow> string \<Rightarrow> appendSequenceTracker \<Rightarrow> nat \<times> appendSequenceTracker" where
  "tracker_state now requestID w0 =
     (let w = drop_expired (now - appendSequenceRetention) w0 in
      case states w requestID of
        Some ob \<Rightarrow> (ob, touch now ob w)
      | None \<Rightarrow> (let ob = next_obj w in
          (ob, w\<lparr>objs := (objs w)(ob \<mapsto> \<lparr>next_seq = 1, processing = False,
                                        ready = Some (next_chan w), updatedAt = now\<rparr>),
                 states := (states w)(requestID \<mapsto> ob),
                 next_obj := Suc ob, next_chan := Suc (next_chan w)\<rparr>)))"

text \<open>The entry of \<open>Acquire\<close>: \<open>None\<close> is the unordered call (blank request id or no
  sequence number), which returns an empty ticket at once.\<close>

definition Acquire_enter ::
    "go_time \<Rightarrow> string \<Rightarrow> int \<Rightarrow> appendSequenceTracker \<Rightarrow> nat option \<times> appendSequenceTracker" where
  "Acquire_enter now requestID appendSeq w =
     (if trim_space requestID = [] \<or> appendSeq \<le> 0 then (None, w)
      else (let (ob, w') = tracker_state now (trim_space requestID) w in (Some ob, w')))"

text \<open>One pass of the loop of \<open>acquire\<close>, the section under the object's mutex.\<close>

definition acquire_pass ::
    "go_time \<Rightarrow> int \<Rightarrow> nat \<Rightarrow> appendSequenceTracker \<Rightarrow> acquire_result \<times> appendSequenceTracker" where
  "acquire_pass now appendSeq ob w = (case objs w ob of None \<Rightarrow> (Stale, w)
     | Some s0 \<Rightarrow>
       (let s1 = (if next_seq s0 \<le> 0 then s0\<lparr>next_seq := 1\<rparr> else s0);
            (ch, w1) = (case ready s1 of Some c \<Rightarrow> (c, w)
                        | None \<Rightarrow> (next_chan w, w\<lparr>next_chan := Suc (next_chan w)\<rparr>));
            s = s1\<lparr>ready := Some ch, updatedAt := now\<rparr>
        in if appendSeq < next_seq s then (Stale, w1\<lparr>objs := (objs w1)(ob \<mapsto> s)\<rparr>)
           else if appendSeq = next_seq s \<and> \<not> processing s
             then (Granted, w1\<lparr>objs := (objs w1)(ob \<mapsto> s\<lparr>processing := True\<rparr>)\<rparr>)
           else (Wait ch, w1\<lparr>objs := (objs w1)(ob \<mapsto> s)\<rparr>)))"

definition Release :: "go_time \<Rightarrow> int \<Rightarrow> nat \<Rightarrow> appendSequenceTracker \<Rightarrow> appendSequenceTracker" where
  "Release now seq ob w = (if seq \<le> 0 then w else case objs w ob of None \<Rightarrow> w
     | Some s \<Rightarrow>
       if processing s \<and> next_seq s = seq
       then w\<lparr>objs := (objs w)(ob \<mapsto> s\<lparr>processing := False, next_seq := i64 (next_seq s + 1),
                                       ready := Some (next_chan w), updatedAt := now\<rparr>),
              closed := closed w \<union> set_option (ready s),
              next_chan := Suc (next_chan w)\<rparr>
       else w\<lparr>objs := (objs w)(ob \<mapsto> s\<lparr>updatedAt := now\<rparr>)\<rparr>)"

subsection \<open>Goroutines\<close>

datatype pc = Calling | Trying nat int | Waiting nat int nat | Holding nat int
  | Unordered | StaleCall | Canceled | Finished

text \<open>\<open>served ob\<close> is a history variable: the numbers released on an object, oldest first.\<close>

record as_sys =
  tracker :: appendSequenceTracker
  pcs :: "nat \<Rightarrow> pc"
  served :: "nat \<Rightarrow> int list"

definition as_init :: as_sys where
  "as_init = \<lparr>tracker = newAppendSequenceTracker, pcs = (\<lambda>_. Calling), served = (\<lambda>_. [])\<rparr>"

definition after_pass :: "nat \<Rightarrow> int \<Rightarrow> acquire_result \<Rightarrow> pc" where
  "after_pass ob seq r = (case r of Stale \<Rightarrow> StaleCall | Granted \<Rightarrow> Holding ob seq | Wait c \<Rightarrow> Waiting ob seq c)"

inductive as_step :: "as_sys \<Rightarrow> as_sys \<Rightarrow> bool" where
  enter: "pcs s t = Calling \<Longrightarrow> Acquire_enter now rid seq (tracker s) = (Some ob, w) \<Longrightarrow>
     as_step s (s\<lparr>tracker := w, pcs := (pcs s)(t := Trying ob seq)\<rparr>)"
| unordered: "pcs s t = Calling \<Longrightarrow> Acquire_enter now rid seq (tracker s) = (None, w) \<Longrightarrow>
     as_step s (s\<lparr>tracker := w, pcs := (pcs s)(t := Unordered)\<rparr>)"
| attempt: "pcs s t = Trying ob seq \<Longrightarrow> acquire_pass now seq ob (tracker s) = (r, w) \<Longrightarrow>
     as_step s (s\<lparr>tracker := w, pcs := (pcs s)(t := after_pass ob seq r)\<rparr>)"
| wake: "pcs s t = Waiting ob seq c \<Longrightarrow> c \<in> closed (tracker s) \<Longrightarrow>
     as_step s (s\<lparr>pcs := (pcs s)(t := Trying ob seq)\<rparr>)"
| ctx_done: "pcs s t = Waiting ob seq c \<Longrightarrow> as_step s (s\<lparr>pcs := (pcs s)(t := Canceled)\<rparr>)"
| release: "pcs s t = Holding ob seq \<Longrightarrow>
     as_step s (s\<lparr>tracker := Release now seq ob (tracker s), pcs := (pcs s)(t := Finished),
                  served := (served s)(ob := served s ob @ [seq])\<rparr>)"

text \<open>States reached after a number of steps; the number bounds the counters.\<close>

inductive as_reach :: "nat \<Rightarrow> as_sys \<Rightarrow> bool" where
  init: "as_reach 0 as_init"
| step: "as_reach n s \<Longrightarrow> as_step s s' \<Longrightarrow> as_reach (Suc n) s'"

subsection \<open>Invariant\<close>

text \<open>
  The invariant reads an object only through its next number, its processing flag and its
  channel, so operations that refresh the time stamp keep it for free.
\<close>

definition core :: "appendSequenceTracker \<Rightarrow> nat \<Rightarrow> (int \<times> bool \<times> nat option) option" where
  "core w ob = map_option (\<lambda>st. (next_seq st, processing st, ready st)) (objs w ob)"

definition alloc_ok where
  "alloc_ok C no nc cl m srv \<longleftrightarrow>
     (\<forall>ob. C ob = None \<longleftrightarrow> no \<le> ob) \<and> (\<forall>ob. no \<le> ob \<longrightarrow> srv ob = []) \<and>
     (\<forall>c \<in> cl. c < nc) \<and> (\<forall>k ob. m k = Some ob \<longrightarrow> ob < no)"

definition obj_ok where
  "obj_ok n nc cl pc srv ob nx pr r \<longleftrightarrow> 1 \<le> nx \<and> nx \<le> int n + 1 \<and>
     (\<exists>c. r = Some c \<and> c < nc \<and> c \<notin> cl) \<and>
     srv ob = map int [1..<nat nx] \<and> (pr \<longleftrightarrow> (\<exists>t. pc t = Holding ob nx))"

definition objects_ok where
  "objects_ok n C nc cl pc srv \<longleftrightarrow>
     (\<forall>ob nx pr r. C ob = Some (nx, pr, r) \<longrightarrow> obj_ok n nc cl pc srv ob nx pr r)"

definition chans_ok where
  "chans_ok C \<longleftrightarrow> (\<forall>ob nx pr c ob' nx' pr'. C ob = Some (nx, pr, Some c) \<longrightarrow>
     C ob' = Some (nx', pr', Some c) \<longrightarrow> ob' = ob)"

definition holders_ok where
  "holders_ok C no pc \<longleftrightarrow> (\<forall>t ob seq. pc t = Holding ob seq \<longrightarrow>
     (\<exists>pr r. C ob = Some (seq, pr, r)) \<and> (\<forall>t' seq'. pc t' = Holding ob seq' \<longrightarrow> t' = t)) \<and>
     (\<forall>t ob seq. pc t = Trying ob seq \<longrightarrow> ob < no \<and> 0 < seq)"

definition waiters_ok where
  "waiters_ok C nc cl pc \<longleftrightarrow> (\<forall>t ob seq c. pc t = Waiting ob seq c \<longrightarrow> 0 < seq \<and> c < nc \<and>
     (\<exists>nx pr r. C ob = Some (nx, pr, r) \<and>
        (c \<notin> cl \<longrightarrow> r = Some c \<and> nx \<le> seq \<and> (seq = nx \<longrightarrow> pr))))"

definition core_inv where
  "core_inv n C no nc cl m pc srv \<longleftrightarrow> alloc_ok C no nc cl m srv \<and> objects_ok n C nc cl pc srv \<and>
     chans_ok C \<and> holders_ok C no pc \<and> waiters_ok C nc cl pc"

definition as_inv :: "nat \<Rightarrow> as_sys \<Rightarrow> bool" where
  "as_inv n s \<longleftrightarrow> (let w = tracker s in
     core_inv n (core w) (next_obj w) (next_chan w) (closed w) (states w) (pcs s) (served s))"

subsection \<open>The invariant is kept\<close>

lemma core_inv_parts:
  assumes "core_inv n C no nc cl m pc srv"
  shows "alloc_ok C no nc cl m srv" "objects_ok n C nc cl pc srv" "chans_ok C"
    "holders_ok C no pc" "waiters_ok C nc cl pc"
  using assms by (simp_all add: core_inv_def)

lemma objects_okD: "objects_ok n C nc cl pc srv \<Longrightarrow> C ob = Some (nx, pr, r) \<Longrightarrow> obj_ok n nc cl pc srv ob nx pr r"
  by (simp add: objects_ok_def)

lemma objects_okI: "(\<And>ob nx pr r. C ob = Some (nx, pr, r) \<Longrightarrow> obj_ok n nc cl pc srv ob nx pr r) \<Longrightarrow>
    objects_ok n C nc cl pc srv"
  by (simp add: objects_ok_def)

lemma as_inv_init: "as_inv 0 as_init"
  by (simp add: as_inv_def core_inv_def alloc_ok_def objects_ok_def chans_ok_def holders_ok_def
      waiters_ok_def as_init_def newAppendSequenceTracker_def core_def)

lemma core_inv_mono: "core_inv n C no nc cl m pc srv \<Longrightarrow> core_inv (Suc n) C no nc cl m pc srv"
  unfolding core_inv_def by (auto intro!: objects_okI dest!: objects_okD simp: obj_ok_def)

lemma core_inv_states:
  "core_inv n C no nc cl m pc srv \<Longrightarrow> (\<And>k ob. m' k = Some ob \<Longrightarrow> m k = Some ob) \<Longrightarrow>
   core_inv n C no nc cl m' pc srv"
  unfolding core_inv_def alloc_ok_def by blast

lemma holder_obj: "holders_ok C no pc \<Longrightarrow> pc t = Holding ob seq \<Longrightarrow> \<exists>pr r. C ob = Some (seq, pr, r)"
  by (simp add: holders_ok_def)

lemma alloc_ok_upd: "alloc_ok C no nc cl m srv \<Longrightarrow> C ob = Some x \<Longrightarrow> alloc_ok (C(ob \<mapsto> y)) no nc cl m srv"
  unfolding alloc_ok_def by (metis fun_upd_apply option.distinct(1))

text \<open>A fresh object with a fresh channel.\<close>

lemma core_inv_new:
  assumes inv: "core_inv n C no nc cl m pc srv"
  shows "core_inv n (C(no \<mapsto> (1, False, Some nc))) (Suc no) (Suc nc) cl (m(k \<mapsto> no)) pc srv"
proof -
  note d = core_inv_parts [OF inv]
  have no: "C no = None" "srv no = []" and nc: "nc \<notin> cl" using d(1) by (auto simp: alloc_ok_def)
  have h: "\<not> (\<exists>t. pc t = Holding no seq)" for seq using holder_obj [OF d(4)] no by fastforce
  have "alloc_ok (C(no \<mapsto> (1, False, Some nc))) (Suc no) (Suc nc) cl (m(k \<mapsto> no)) srv"
    using d(1) by (fastforce simp: alloc_ok_def)
  moreover have "objects_ok n (C(no \<mapsto> (1, False, Some nc))) (Suc nc) cl pc srv"
    using objects_okD [OF d(2)] h no nc
    by (intro objects_okI) (fastforce simp: obj_ok_def intro: less_SucI split: if_splits)
  moreover have "r \<noteq> Some nc" if "C ob = Some (nx, pr, r)" for ob nx pr r
    using objects_okD [OF d(2) that] by (auto simp: obj_ok_def)
  then have "chans_ok (C(no \<mapsto> (1, False, Some nc)))"
    using d(3) unfolding chans_ok_def by (simp split: if_split) blast
  moreover have "holders_ok (C(no \<mapsto> (1, False, Some nc))) (Suc no) pc"
    using d(4) h unfolding holders_ok_def by (auto simp: less_SucI)
  moreover have "waiters_ok (C(no \<mapsto> (1, False, Some nc))) (Suc nc) cl pc"
    using d(5) no unfolding waiters_ok_def by (simp add: less_SucI) (metis less_SucI option.distinct(1))
  ultimately show ?thesis by (simp add: core_inv_def)
qed

text \<open>A thread that holds nothing moves to a state that claims nothing, or to waiting on the
  channel of an object whose turn is not its own.\<close>

lemma objects_ok_pc:
  assumes "objects_ok n C nc cl pc srv" "\<And>ob seq. pc t \<noteq> Holding ob seq" "\<And>ob seq. p \<noteq> Holding ob seq"
  shows "objects_ok n C nc cl (pc(t := p)) srv"
proof -
  have "(\<exists>t'. (pc(t := p)) t' = Holding ob seq) \<longleftrightarrow> (\<exists>t'. pc t' = Holding ob seq)" for ob seq
    using assms(2,3) by (metis fun_upd_def)
  then show ?thesis using assms(1) unfolding objects_ok_def obj_ok_def by simp
qed

lemma core_inv_pc:
  assumes inv: "core_inv n C no nc cl m pc srv" and old: "\<And>ob seq. pc t \<noteq> Holding ob seq"
    and new: "\<And>ob seq. p \<noteq> Holding ob seq" "\<And>ob seq c. p \<noteq> Waiting ob seq c"
    and tr: "\<And>ob seq. p = Trying ob seq \<Longrightarrow> ob < no \<and> 0 < seq"
  shows "core_inv n C no nc cl m (pc(t := p)) srv"
proof -
  note d = core_inv_parts [OF inv]
  have "holders_ok C no (pc(t := p))" using d(4) new tr unfolding holders_ok_def by simp blast
  moreover have "waiters_ok C nc cl (pc(t := p))" using d(5) new unfolding waiters_ok_def by simp
  ultimately show ?thesis using d objects_ok_pc [OF d(2) old new(1)] by (simp add: core_inv_def)
qed

lemma core_inv_wait:
  assumes inv: "core_inv n C no nc cl m pc srv" and C: "C ob = Some (nx, pr, Some c)"
    and old: "\<And>ob seq. pc t \<noteq> Holding ob seq" and seq: "nx \<le> seq" "seq = nx \<longrightarrow> pr"
  shows "core_inv n C no nc cl m (pc(t := Waiting ob seq c)) srv"
proof -
  note d = core_inv_parts [OF inv]
  have "holders_ok C no (pc(t := Waiting ob seq c))" using d(4) unfolding holders_ok_def by simp blast
  moreover have "c < nc" "1 \<le> nx" using objects_okD [OF d(2) C] by (auto simp: obj_ok_def)
  then have "waiters_ok C nc cl (pc(t := Waiting ob seq c))"
    using d(5) C seq unfolding waiters_ok_def by simp
  ultimately show ?thesis using d objects_ok_pc [OF d(2) old] by (simp add: core_inv_def)
qed

lemma core_inv_grant:
  assumes inv: "core_inv n C no nc cl m pc srv" and C: "C ob = Some (seq, False, r)"
    and old: "\<And>ob seq. pc t \<noteq> Holding ob seq"
  shows "core_inv n (C(ob \<mapsto> (seq, True, r))) no nc cl m (pc(t := Holding ob seq)) srv"
proof -
  note d = core_inv_parts [OF inv]
  note ob = objects_okD [OF d(2) C, unfolded obj_ok_def]
  have none: "pc t' \<noteq> Holding ob seq'" for t' seq' using holder_obj [OF d(4)] C ob by fastforce
  have "alloc_ok (C(ob \<mapsto> (seq, True, r))) no nc cl m srv" using d(1) C by (simp add: alloc_ok_upd)
  moreover have "objects_ok n (C(ob \<mapsto> (seq, True, r))) nc cl (pc(t := Holding ob seq)) srv"
  proof (rule objects_okI)
    fix ob' nx pr r' assume *: "(C(ob \<mapsto> (seq, True, r))) ob' = Some (nx, pr, r')"
    show "obj_ok n nc cl (pc(t := Holding ob seq)) srv ob' nx pr r'"
    proof (cases "ob' = ob")
      case True with * ob show ?thesis by (auto simp: obj_ok_def)
    next
      case False
      with * have "obj_ok n nc cl pc srv ob' nx pr r'" by (auto intro: objects_okD [OF d(2)])
      moreover have "(\<exists>t'. (pc(t := Holding ob seq)) t' = Holding ob' nx) \<longleftrightarrow> (\<exists>t'. pc t' = Holding ob' nx)"
        using False old by (metis fun_upd_def pc.inject(3))
      ultimately show ?thesis by (simp add: obj_ok_def)
    qed
  qed
  moreover have "chans_ok (C(ob \<mapsto> (seq, True, r)))"
    using d(3) C unfolding chans_ok_def by (simp split: if_split) blast
  moreover have "holders_ok (C(ob \<mapsto> (seq, True, r))) no (pc(t := Holding ob seq))"
    using d(4) none unfolding holders_ok_def by simp blast
  moreover have "waiters_ok (C(ob \<mapsto> (seq, True, r))) nc cl (pc(t := Holding ob seq))"
    using d(5) C unfolding waiters_ok_def by (simp split: if_split) (metis option.inject prod.inject)
  ultimately show ?thesis by (simp add: core_inv_def)
qed


lemma waiting_obj:
  assumes inv: "core_inv n C no nc cl m pc srv" and t: "pc t = Waiting ob seq c"
  shows "ob < no \<and> 0 < seq"
proof -
  note d = core_inv_parts [OF inv]
  from d(5) t have "0 < seq" "C ob \<noteq> None" unfolding waiters_ok_def by (metis option.distinct(1))+
  with d(1) show ?thesis unfolding alloc_ok_def by (auto simp: not_le [symmetric])
qed

text \<open>A release passes the turn on, closes the channel of the object and installs a fresh one.\<close>

lemma core_inv_release:
  assumes inv: "core_inv n C no nc cl m pc srv" and t: "pc t = Holding ob seq"
    and C: "C ob = Some (seq, pr, r)"
  shows "core_inv (Suc n) (C(ob \<mapsto> (seq + 1, False, Some nc))) no (Suc nc) (cl \<union> set_option r) m
     (pc(t := Finished)) (srv(ob := srv ob @ [seq]))" (is "core_inv _ ?C _ _ ?cl _ ?pc ?srv")
proof -
  note d = core_inv_parts [OF inv]
  obtain c where ob: "1 \<le> seq" "seq \<le> int n + 1" "r = Some c" "c < nc" "c \<notin> cl"
      "srv ob = map int [1..<nat seq]"
    using objects_okD [OF d(2) C] by (auto simp: obj_ok_def)
  have none: "?pc t' \<noteq> Holding ob seq'" for t' seq'
    using d(4) t unfolding holders_ok_def by auto
  have "[1..<nat (seq + 1)] = [1..<nat seq] @ [nat seq]"
    using ob(1) upt_Suc_append [of 1 "nat seq"] by (simp add: nat_add_distrib)
  then have srv: "?srv ob = map int [1..<nat (seq + 1)]" using ob by simp
  have "ob < no" using d(1) C unfolding alloc_ok_def by (metis not_le option.distinct(1))
  then have "alloc_ok ?C no (Suc nc) ?cl m ?srv"
    using d(1) ob(3,4) unfolding alloc_ok_def by (auto intro: less_SucI)
  moreover have "objects_ok (Suc n) ?C (Suc nc) ?cl ?pc ?srv"
  proof (rule objects_okI)
    fix ob' nx pr' r' assume *: "?C ob' = Some (nx, pr', r')"
    show "obj_ok (Suc n) (Suc nc) ?cl ?pc ?srv ob' nx pr' r'"
    proof (cases "ob' = ob")
      case True
      moreover have "nc \<notin> cl" using d(1) by (auto simp: alloc_ok_def)
      ultimately show ?thesis using * ob srv none by (auto simp: obj_ok_def)
    next
      case False
      with * have C': "C ob' = Some (nx, pr', r')" by simp
      have "?pc t' = Holding ob' nx \<longleftrightarrow> pc t' = Holding ob' nx" for t'
        using False t by (cases "t' = t") auto
      moreover have "r' \<noteq> r" using d(3) C C' False ob(3) unfolding chans_ok_def by metis
      ultimately show ?thesis using objects_okD [OF d(2) C'] False ob(3)
        by (auto simp: obj_ok_def)
    qed
  qed
  moreover have "r' \<noteq> Some nc" if "C ob' = Some (nx, pr', r')" for ob' nx pr' r'
    using objects_okD [OF d(2) that] by (auto simp: obj_ok_def)
  then have "chans_ok ?C" using d(3) unfolding chans_ok_def by (simp split: if_split) blast
  moreover have "holders_ok ?C no ?pc" unfolding holders_ok_def
  proof (intro conjI allI impI)
    fix t' ob' s' assume t': "?pc t' = Holding ob' s'"
    with none have "ob' \<noteq> ob" by blast
    moreover from t' have p: "pc t' = Holding ob' s'" by (auto split: if_splits)
    ultimately show "\<exists>pr r. ?C ob' = Some (s', pr, r)" using holder_obj [OF d(4)] by simp
    fix t'' s'' assume "?pc t'' = Holding ob' s''"
    then show "t'' = t'" using d(4) p unfolding holders_ok_def by (auto split: if_splits)
  next
    fix t' ob' s' assume "?pc t' = Trying ob' s'"
    then show "ob' < no" "0 < s'" using d(4) unfolding holders_ok_def by (auto split: if_splits)
  qed
  moreover have "waiters_ok ?C (Suc nc) ?cl ?pc"
    unfolding waiters_ok_def
  proof (intro allI impI)
    fix t' ob' seq' c' assume "?pc t' = Waiting ob' seq' c'"
    then have "pc t' = Waiting ob' seq' c'" by (auto split: if_splits)
    then obtain nx pr' r' where w: "0 < seq'" "c' < nc" "C ob' = Some (nx, pr', r')"
        "c' \<notin> cl \<longrightarrow> r' = Some c' \<and> nx \<le> seq' \<and> (seq' = nx \<longrightarrow> pr')"
      using d(5) unfolding waiters_ok_def by metis
    then show "0 < seq' \<and> c' < Suc nc \<and> (\<exists>nx pr r'. ?C ob' = Some (nx, pr, r') \<and>
       (c' \<notin> ?cl \<longrightarrow> r' = Some c' \<and> nx \<le> seq' \<and> (seq' = nx \<longrightarrow> pr)))"
      using C by (cases "ob' = ob") auto
  qed
  ultimately show ?thesis by (simp add: core_inv_def)
qed


subsection \<open>Every step keeps the invariant\<close>

lemma core_drop_expired [simp]: "core (drop_expired cutoff w) = core w"
  "next_obj (drop_expired cutoff w) = next_obj w" "next_chan (drop_expired cutoff w) = next_chan w"
  "closed (drop_expired cutoff w) = closed w"
  by (simp_all add: drop_expired_def core_def fun_eq_iff)

lemma core_touch [simp]: "core (touch now ob w) = core w"
  "next_obj (touch now ob w) = next_obj w" "next_chan (touch now ob w) = next_chan w"
  "closed (touch now ob w) = closed w" "states (touch now ob w) = states w"
  by (simp_all add: touch_def core_def fun_eq_iff split: option.split)

lemma core_upd: "core (w\<lparr>objs := (objs w)(ob \<mapsto> st)\<rparr>) =
    (core w)(ob \<mapsto> (next_seq st, processing st, ready st))"
  by (simp add: core_def fun_eq_iff)

definition inv_of :: "nat \<Rightarrow> appendSequenceTracker \<Rightarrow> (nat \<Rightarrow> pc) \<Rightarrow> (nat \<Rightarrow> int list) \<Rightarrow> bool" where
  "inv_of n w pc srv \<longleftrightarrow> core_inv n (core w) (next_obj w) (next_chan w) (closed w) (states w) pc srv"

lemma as_inv_inv_of: "as_inv n s \<longleftrightarrow> inv_of n (tracker s) (pcs s) (served s)"
  by (simp add: as_inv_def inv_of_def Let_def)

lemma inv_of_obj: "inv_of n w pc srv \<Longrightarrow> ob < next_obj w \<Longrightarrow> \<exists>st. objs w ob = Some st"
  by (auto simp: inv_of_def core_inv_def alloc_ok_def core_def) (metis not_le option.exhaust)

lemma tracker_state_inv:
  assumes inv: "inv_of n w pc srv" and eq: "tracker_state now k w = (ob, w')"
  shows "inv_of n w' pc srv \<and> ob < next_obj w'"
proof -
  let ?d = "drop_expired (now - appendSequenceRetention) w"
  have d: "inv_of n ?d pc srv"
    using inv unfolding inv_of_def core_drop_expired
    by (rule core_inv_states) (auto simp: drop_expired_def split: option.splits if_splits)
  show ?thesis
  proof (cases "states ?d k")
    case None
    with eq have w': "ob = next_obj w"
        "w' = ?d\<lparr>objs := (objs ?d)(ob \<mapsto> \<lparr>next_seq = 1, processing = False,
               ready = Some (next_chan w), updatedAt = now\<rparr>),
             states := (states ?d)(k \<mapsto> ob), next_obj := Suc ob, next_chan := Suc (next_chan w)\<rparr>"
      by (auto simp: tracker_state_def Let_def)
    have "core w' = (core w)(next_obj w \<mapsto> (1, False, Some (next_chan w)))"
      by (simp add: w' core_def fun_eq_iff drop_expired_def)
    with core_inv_new [OF d [unfolded inv_of_def], of k] show ?thesis
      by (simp add: inv_of_def w')
  next
    case (Some ob')
    with eq have w': "ob' = ob" "w' = touch now ob ?d" by (auto simp: tracker_state_def Let_def)
    have "ob < next_obj w" using d Some w'(1) by (auto simp: inv_of_def core_inv_def alloc_ok_def)
    with d show ?thesis by (simp add: inv_of_def w')
  qed
qed

lemma acquire_pass_inv:
  assumes inv: "inv_of n w pc srv" and t: "pc t = Trying ob seq"
    and eq: "acquire_pass now seq ob w = (r, w')"
  shows "inv_of n w' (pc(t := after_pass ob seq r)) srv"
proof -
  have "ob < next_obj w" "0 < seq" and old: "\<And>ob seq. pc t \<noteq> Holding ob seq"
    using inv t by (auto simp: inv_of_def core_inv_def holders_ok_def)
  with inv_of_obj [OF inv] obtain st where st: "objs w ob = Some st" by blast
  then have C: "core w ob = Some (next_seq st, processing st, ready st)" by (simp add: core_def)
  then obtain c where c: "1 \<le> next_seq st" "ready st = Some c"
    using inv by (auto simp: inv_of_def core_inv_def obj_ok_def dest!: objects_okD)
  have same: "core (w\<lparr>objs := (objs w)(ob \<mapsto> st\<lparr>ready := Some c, updatedAt := now\<rparr>)\<rparr>) = core w"
    using C c by (simp add: core_upd fun_upd_idem)
  consider (stale) "seq < next_seq st" | (grant) "seq = next_seq st" "\<not> processing st"
    | (wait) "next_seq st \<le> seq" "seq = next_seq st \<longrightarrow> processing st" by linarith
  then show ?thesis
  proof cases
    case stale
    with eq st c have "r = Stale" "w' = w\<lparr>objs := (objs w)(ob \<mapsto> st\<lparr>ready := Some c, updatedAt := now\<rparr>)\<rparr>"
      by (auto simp: acquire_pass_def Let_def)
    with core_inv_pc [OF inv [unfolded inv_of_def] old, of StaleCall] same show ?thesis
      by (simp add: inv_of_def after_pass_def)
  next
    case grant
    with eq st c have "r = Granted"
        "w' = w\<lparr>objs := (objs w)(ob \<mapsto> st\<lparr>ready := Some c, updatedAt := now, processing := True\<rparr>)\<rparr>"
      by (auto simp: acquire_pass_def Let_def)
    with grant C c old core_inv_grant [OF inv [unfolded inv_of_def], of ob seq "ready st" t]
    show ?thesis by (simp add: inv_of_def after_pass_def core_upd)
  next
    case wait
    with eq st c have "r = Wait c" "w' = w\<lparr>objs := (objs w)(ob \<mapsto> st\<lparr>ready := Some c, updatedAt := now\<rparr>)\<rparr>"
      by (auto simp: acquire_pass_def Let_def)
    with wait C c old core_inv_wait [OF inv [unfolded inv_of_def], of ob "next_seq st" "processing st" c t seq]
    show ?thesis using same by (simp add: inv_of_def after_pass_def)
  qed
qed

lemma Release_inv:
  assumes inv: "inv_of n w pc srv" and t: "pc t = Holding ob seq" and n: "int n < max_i64 - 1"
  shows "inv_of (Suc n) (Release now seq ob w) (pc(t := Finished)) (srv(ob := srv ob @ [seq]))"
proof -
  obtain st where st: "objs w ob = Some st" "next_seq st = seq"
    using inv t by (fastforce simp: inv_of_def core_inv_def holders_ok_def core_def)
  then have C: "core w ob = Some (seq, processing st, ready st)" by (simp add: core_def)
  have ob: "obj_ok n (next_chan w) (closed w) pc srv ob seq (processing st) (ready st)"
    using inv C by (auto simp: inv_of_def core_inv_def dest: objects_okD)
  then have "1 \<le> seq" "seq \<le> int n + 1" "processing st" using t by (auto simp: obj_ok_def)
  moreover from this have "i64 (seq + 1) = seq + 1" using n by (simp add: go_int)
  moreover have "core (w\<lparr>objs := (objs w)(ob \<mapsto> st'), closed := x, next_chan := y\<rparr>) =
      (core w)(ob \<mapsto> (next_seq st', processing st', ready st'))" for st' x y
    by (simp add: core_def fun_eq_iff)
  ultimately show ?thesis
    using core_inv_release [OF inv [unfolded inv_of_def] t C] st
    by (simp add: inv_of_def Release_def)
qed

lemma as_step_inv:
  assumes "as_step s s'" "as_inv n s" "int n < max_i64 - 1"
  shows "as_inv (Suc n) s'"
  using assms
proof (cases rule: as_step.cases)
  case (enter t now rid seq ob w)
  then have "inv_of n w (pcs s) (served s) \<and> ob < next_obj w" "0 < seq"
    using assms(2) tracker_state_inv [of n "tracker s" "pcs s" "served s"]
    by (auto simp: Acquire_enter_def as_inv_inv_of split: prod.splits if_splits)
  with enter show ?thesis
    by (auto simp: as_inv_inv_of inv_of_def intro!: core_inv_mono core_inv_pc)
next
  case (attempt t ob seq now r w)
  with assms(2) acquire_pass_inv show ?thesis
    by (auto simp: as_inv_inv_of inv_of_def intro!: core_inv_mono)
next
  case (release t ob seq now)
  with assms(2,3) Release_inv show ?thesis by (simp add: as_inv_inv_of)
next
  case (wake t ob seq c)
  then have "ob < next_obj (tracker s) \<and> 0 < seq"
    by (intro waiting_obj [OF assms(2) [unfolded as_inv_inv_of inv_of_def]]) simp
  with wake assms(2) show ?thesis
    by (auto simp: as_inv_inv_of inv_of_def intro!: core_inv_mono core_inv_pc)
qed (auto simp: as_inv_inv_of inv_of_def Acquire_enter_def split: if_splits prod.splits
    intro!: core_inv_mono core_inv_pc)

lemma as_reach_inv: "as_reach n s \<Longrightarrow> int n < max_i64 \<Longrightarrow> as_inv n s"
proof (induction rule: as_reach.induct)
  case init
  show ?case by (rule as_inv_init)
next
  case (step n s s')
  then have "as_inv n s" by simp
  with step show ?case by (auto intro: as_step_inv)
qed


lemma inv_holder_unique:
  "as_inv n s \<Longrightarrow> pcs s t = Holding ob i \<Longrightarrow> pcs s t' = Holding ob j \<Longrightarrow> t = t' \<and> i = j"
  unfolding as_inv_def Let_def core_inv_def holders_ok_def by (metis pc.inject(3))

lemma inv_served:
  "as_inv n s \<Longrightarrow> objs (tracker s) ob = Some st \<Longrightarrow> served s ob = map int [1..<nat (next_seq st)]"
  unfolding as_inv_def Let_def core_inv_def
  by (auto simp: core_def obj_ok_def dest!: objects_okD [where ob = ob])

lemma inv_waiting:
  assumes "as_inv n s" "pcs s t = Waiting ob seq c" "c \<notin> closed (tracker s)"
  shows "\<exists>st. objs (tracker s) ob = Some st \<and> next_seq st \<le> seq \<and>
    (seq = next_seq st \<longrightarrow> (\<exists>t'. pcs s t' = Holding ob seq))"
proof -
  note d = core_inv_parts [OF assms(1) [unfolded as_inv_inv_of inv_of_def]]
  obtain nx pr r where C: "core (tracker s) ob = Some (nx, pr, r)" and w: "nx \<le> seq" "seq = nx \<longrightarrow> pr"
    using d(5) assms(2,3) unfolding waiters_ok_def by metis
  from objects_okD [OF d(2) C] have "pr \<longleftrightarrow> (\<exists>t. pcs s t = Holding ob nx)" by (simp add: obj_ok_def)
  with C w show ?thesis by (auto simp: core_def)
qed

subsection \<open>Properties\<close>

text \<open>C1. Mutual exclusion of the BidiAppend handlers that go through one append state object: whatever the
  interleaving of calls, passes, wake-ups, cancellations and releases, at most one goroutine at a
  time owns the object (runs longer than 2^63 - 2 steps aside, after which the int64 counter wraps).
  The property is one of the object, not of the request: a request gets a new object when the old one
  has been idle for the retention period (C4), and appends with a number below 1 go through none.\<close>

theorem append_mutual_exclusion:
  assumes "as_reach n s" "int n < max_i64" "pcs s t = Holding ob i" "pcs s t' = Holding ob j"
  shows "t = t' \<and> i = j"
  using as_reach_inv [OF assms(1,2)] assms(3,4) by (rule inv_holder_unique)

text \<open>C2. The numbered appends of one append state object are handled exactly once and in sequence order: the
  numbers released so far through the object are exactly 1, 2, ..., next - 1, in that order.  A new
  object of the same request starts at 1 again (C4).\<close>

theorem append_in_order_exactly_once:
  assumes "as_reach n s" "int n < max_i64" "objs (tracker s) ob = Some st"
  shows "served s ob = map int [1..<nat (next_seq st)]"
  using as_reach_inv [OF assms(1,2)] assms(3) by (rule inv_served)

text \<open>C3. No lost wake-up: a goroutine that sleeps on a channel nobody has closed is not late,
  and when its own number is the next one, the number is held by a running goroutine, whose
  release closes the channel.\<close>

theorem append_no_lost_wakeup:
  assumes "as_reach n s" "int n < max_i64" "pcs s t = Waiting ob seq c" "c \<notin> closed (tracker s)"
  shows "\<exists>st. objs (tracker s) ob = Some st \<and> next_seq st \<le> seq \<and>
    (seq = next_seq st \<longrightarrow> (\<exists>t'. pcs s t' = Holding ob seq))"
  using as_reach_inv [OF assms(1,2)] assms(3,4) by (rule inv_waiting)

text \<open>C4. Once a request's idle append state passed the retention period, the next append of the
  request starts from a fresh state object that expects number 1, and every later number then
  waits on a channel of that object, which no earlier release can close.\<close>

theorem expired_append_restarts_at_one:
  assumes "states w (trim_space rid) = Some ob" "objs w ob = Some st" "\<not> processing st"
    "\<not> isZeroTime (updatedAt st)" "updatedAt st < now - appendSequenceRetention"
    "trim_space rid \<noteq> []" "1 < seq"
  shows "\<exists>ob' w' w''. Acquire_enter now rid seq w = (Some ob', w') \<and>
    acquire_pass now seq ob' w' = (Wait (next_chan w), w'') \<and>
    objs w'' ob' = Some \<lparr>next_seq = 1, processing = False, ready = Some (next_chan w), updatedAt = now\<rparr>"
  using assms
  by (simp add: Acquire_enter_def tracker_state_def drop_expired_def expired_def acquire_pass_def Let_def)

subsection \<open>Witnesses\<close>

definition demo_run :: as_sys where
  "demo_run = \<lparr>tracker = \<lparr>states = [''r'' \<mapsto> 0],
     objs = [0 \<mapsto> \<lparr>next_seq = 1, processing = True, ready = Some 0, updatedAt = 5\<rparr>],
     next_obj = 1, next_chan = 1, closed = {}\<rparr>,
     pcs = (\<lambda>_. Calling)(7 := Holding 0 1), served = (\<lambda>_. [])\<rparr>"

lemma trim_space_r: "trim_space ''r'' = ''r''"
  by (simp add: trim_space_def trim_right_def trim_left.simps trim_back.simps space_front_def
      space_back_def space1_def space2_def space3_def)

definition demo_entered :: as_sys where
  "demo_entered = \<lparr>tracker = \<lparr>states = [''r'' \<mapsto> 0],
     objs = [0 \<mapsto> \<lparr>next_seq = 1, processing = False, ready = Some 0, updatedAt = 5\<rparr>],
     next_obj = 1, next_chan = 1, closed = {}\<rparr>,
     pcs = (\<lambda>_. Calling)(7 := Trying 0 1), served = (\<lambda>_. [])\<rparr>"

lemma demo_entered_step: "as_step as_init demo_entered"
proof -
  have "Acquire_enter 5 ''r'' 1 (tracker as_init) = (Some 0, tracker demo_entered)"
    by (simp add: Acquire_enter_def trim_space_r tracker_state_def drop_expired_def Let_def as_init_def
        newAppendSequenceTracker_def demo_entered_def fun_eq_iff)
  from as_step.enter [OF _ this, of 7] show ?thesis by (simp add: as_init_def demo_entered_def)
qed

lemma demo_run_step: "as_step demo_entered demo_run"
proof -
  have "acquire_pass 5 1 0 (tracker demo_entered) = (Granted, tracker demo_run)"
    by (simp add: acquire_pass_def demo_entered_def demo_run_def Let_def fun_eq_iff)
  from as_step.attempt [OF _ this, of 7] show ?thesis
    by (simp add: demo_entered_def demo_run_def after_pass_def)
qed

lemma demo_run_reach: "as_reach 2 demo_run"
  using as_reach.step [OF as_reach.step [OF as_reach.init demo_entered_step] demo_run_step]
  by (simp add: numeral_2_eq_2)

theorem append_in_order_exactly_once_witness: "served demo_run 0 = map int [1..<nat 1]"
  using append_in_order_exactly_once
    [OF demo_run_reach, of 0 "\<lparr>next_seq = 1, processing = True, ready = Some 0, updatedAt = 5\<rparr>"]
  by (simp add: demo_run_def)

definition demo_second :: as_sys where
  "demo_second = demo_run\<lparr>pcs := (pcs demo_run)(8 := Trying 0 1)\<rparr>"

definition demo_waiting :: as_sys where
  "demo_waiting = demo_run\<lparr>pcs := (pcs demo_run)(8 := Waiting 0 1 0)\<rparr>"

lemma demo_waiting_reach: "as_reach 4 demo_waiting"
proof -
  have "Acquire_enter 5 ''r'' 1 (tracker demo_run) = (Some 0, tracker demo_run)"
    by (simp add: Acquire_enter_def trim_space_r tracker_state_def drop_expired_def expired_def
        touch_def Let_def demo_run_def fun_eq_iff)
  from as_step.enter [OF _ this, of 8] have a: "as_step demo_run demo_second"
    by (simp add: demo_run_def demo_second_def)
  have "acquire_pass 5 1 0 (tracker demo_second) = (Wait 0, tracker demo_second)"
    by (simp add: acquire_pass_def demo_run_def demo_second_def Let_def fun_eq_iff)
  from as_step.attempt [OF _ this, of 8] have b: "as_step demo_second demo_waiting"
    by (simp add: demo_run_def demo_second_def demo_waiting_def after_pass_def)
  show ?thesis
    using as_reach.step [OF as_reach.step [OF demo_run_reach a] b] by (simp add: numeral_eq_Suc)
qed

theorem append_mutual_exclusion_witness: "{t. pcs demo_waiting t = Holding 0 1} = {7}"
proof -
  have h: "pcs demo_waiting 7 = Holding 0 1" by (simp add: demo_waiting_def demo_run_def)
  have "t = 7" if "pcs demo_waiting t = Holding 0 1" for t
    using append_mutual_exclusion [OF demo_waiting_reach _ that h] by simp
  with h show ?thesis by blast
qed

theorem append_no_lost_wakeup_witness:
  "pcs demo_waiting 8 = Waiting 0 1 0 \<and>
   (\<exists>st. objs (tracker demo_waiting) 0 = Some st \<and> next_seq st \<le> 1 \<and>
      (1 = next_seq st \<longrightarrow> (\<exists>t'. pcs demo_waiting t' = Holding 0 1)))"
  using append_no_lost_wakeup [OF demo_waiting_reach, of 8 0 1 0]
  by (simp add: demo_run_def demo_waiting_def)

theorem expired_append_restarts_at_one_witness:
  "\<exists>ob' w' w''. Acquire_enter 600000000006 ''r'' 51 (tracker demo_entered) = (Some ob', w') \<and>
    acquire_pass 600000000006 51 ob' w' = (Wait 1, w'') \<and>
    objs w'' ob' = Some \<lparr>next_seq = 1, processing = False, ready = Some 1, updatedAt = 600000000006\<rparr>"
  using expired_append_restarts_at_one [of "tracker demo_entered" "''r''" 0
      "\<lparr>next_seq = 1, processing = False, ready = Some 0, updatedAt = 5\<rparr>" 600000000006 51]
  by (simp add: trim_space_r demo_entered_def isZeroTime_def appendSequenceRetention_def)

end
