(* ===== verification/Agent_Modes.thy ===== *)
theory Agent_Modes
  imports Go_Strings
begin

text \<open>
  Agent modes, \<open>forwarder/types.go\<close>: the protocol enumeration, the modes a run may be in, and
  the aliases under which history files record them.  The enumeration is open in Go (an
  \<open>int32\<close>), so a value without a name is \<open>AGENT_MODE_OTHER\<close>.
\<close>

datatype AgentMode = AGENT_MODE_UNSPECIFIED | AGENT_MODE_AGENT | AGENT_MODE_ASK | AGENT_MODE_PLAN
  | AGENT_MODE_DEBUG | AGENT_MODE_TRIAGE | AGENT_MODE_PROJECT | AGENT_MODE_MULTITASK | AGENT_MODE_OTHER int

datatype ModeSource = ModeSourceUnknown | ModeSourceUserMessage | ModeSourceExecutePlanAction
  | ModeSourceConversationState | ModeSourceSwitchModeTool

datatype mode_error = UnsupportedActiveMode AgentMode | UnsupportedActiveModeFrom AgentMode ModeSource
  | UnsupportedModeAlias AgentMode | UnsupportedAlias string | UnsupportedTargetModeID string

definition normalizeMode :: "AgentMode \<Rightarrow> AgentMode" where
  "normalizeMode mode = mode"

definition isSupportedActiveMode :: "AgentMode \<Rightarrow> bool" where
  "isSupportedActiveMode mode \<longleftrightarrow> normalizeMode mode \<in>
     set [AGENT_MODE_AGENT, AGENT_MODE_ASK, AGENT_MODE_PLAN, AGENT_MODE_DEBUG, AGENT_MODE_MULTITASK]"

definition validateSupportedActiveMode :: "AgentMode \<Rightarrow> mode_error + AgentMode" where
  "validateSupportedActiveMode mode =
     (let normalized = normalizeMode mode in
      if \<not> isSupportedActiveMode normalized then Inl (UnsupportedActiveMode normalized)
      else Inr normalized)"

text \<open>\<open>resolveExplicitMode\<close> returns mode, source, explicit flag and error together.\<close>

definition resolveExplicitMode ::
    "AgentMode \<Rightarrow> ModeSource \<Rightarrow> AgentMode \<times> ModeSource \<times> bool \<times> mode_error option" where
  "resolveExplicitMode mode source = (case validateSupportedActiveMode mode of
       Inl _ \<Rightarrow> (AGENT_MODE_UNSPECIFIED, source, True, Some (UnsupportedActiveModeFrom mode source))
     | Inr normalized \<Rightarrow> (normalized, source, True, None))"

definition modeAlias :: "AgentMode \<Rightarrow> mode_error + string" where
  "modeAlias mode = (case normalizeMode mode of
       AGENT_MODE_AGENT \<Rightarrow> Inr ''agent''
     | AGENT_MODE_ASK \<Rightarrow> Inr ''ask''
     | AGENT_MODE_PLAN \<Rightarrow> Inr ''plan''
     | AGENT_MODE_DEBUG \<Rightarrow> Inr ''debug''
     | AGENT_MODE_MULTITASK \<Rightarrow> Inr ''multitask''
     | m \<Rightarrow> Inl (UnsupportedModeAlias m))"

definition mode_of_name :: "string \<Rightarrow> AgentMode option" where
  "mode_of_name s =
     (if s = ''agent'' then Some AGENT_MODE_AGENT
      else if s = ''ask'' then Some AGENT_MODE_ASK
      else if s = ''plan'' then Some AGENT_MODE_PLAN
      else if s = ''debug'' then Some AGENT_MODE_DEBUG
      else if s = ''multitask'' then Some AGENT_MODE_MULTITASK
      else None)"

definition parseModeAlias :: "string \<Rightarrow> mode_error + AgentMode" where
  "parseModeAlias raw = (case mode_of_name (to_lower (trim_space raw)) of
       Some m \<Rightarrow> Inr m | None \<Rightarrow> Inl (UnsupportedAlias (trim_space raw)))"

definition parseTargetModeID :: "string \<Rightarrow> mode_error + AgentMode" where
  "parseTargetModeID raw = (case mode_of_name (to_lower (trim_space raw)) of
       Some m \<Rightarrow> Inr m | None \<Rightarrow> Inl (UnsupportedTargetModeID (trim_space raw)))"

lemmas trim_eval = trim_space_def trim_right_def trim_left.simps trim_back.simps space_front_def
  space_back_def space1_def space2_def space3_def

lemma mode_names_trimmed:
  "trim_space ''agent'' = ''agent''" "trim_space ''ask'' = ''ask''" "trim_space ''plan'' = ''plan''"
  "trim_space ''debug'' = ''debug''" "trim_space ''multitask'' = ''multitask''"
  by (simp_all add: trim_eval)

lemma mode_names_lower:
  "to_lower ''agent'' = ''agent''" "to_lower ''ask'' = ''ask''" "to_lower ''plan'' = ''plan''"
  "to_lower ''debug'' = ''debug''" "to_lower ''multitask'' = ''multitask''"
  by (simp_all add: lower_char_def Let_def)

lemma isSupportedActiveMode_iff: "isSupportedActiveMode m \<longleftrightarrow> (\<exists>a. modeAlias m = Inr a)"
  by (cases m) (auto simp: isSupportedActiveMode_def modeAlias_def normalizeMode_def)

lemma mode_of_name_alias: "mode_of_name s = Some m \<longleftrightarrow> modeAlias m = Inr s"
  by (cases m) (auto simp: mode_of_name_def modeAlias_def normalizeMode_def)

lemma modeAlias_normal: "modeAlias m = Inr a \<Longrightarrow> to_lower (trim_space a) = a"
  by (cases m) (auto simp: modeAlias_def normalizeMode_def mode_names_trimmed mode_names_lower
      simp del: to_lower.simps)

lemma parseModeAlias_iff: "parseModeAlias raw = Inr m \<longleftrightarrow> modeAlias m = Inr (to_lower (trim_space raw))"
  by (auto simp: parseModeAlias_def simp flip: mode_of_name_alias split: option.splits)

text \<open>Mode aliases round-trip: writing an active mode to a history file and reading it back
  gives the mode; a mode has an alias exactly when it is an active mode; and whatever text is
  read as a mode denotes an active mode, whose alias is the trimmed, lower-cased text.\<close>

lemma mode_alias_roundtrip:
  "(isSupportedActiveMode m \<longleftrightarrow> (\<exists>a. modeAlias m = Inr a \<and> parseModeAlias a = Inr m)) \<and>
   (parseModeAlias raw = Inr m \<longleftrightarrow> modeAlias m = Inr (to_lower (trim_space raw)))"
  using modeAlias_normal [of m] by (auto simp: parseModeAlias_iff isSupportedActiveMode_iff)

end
