(* ===== verification/Todo_Items.thy ===== *)
theory Todo_Items
  imports Go_Strings
begin

text \<open>
  The todo list of a conversation, \<open>forwarder/state_tools.go\<close> and the TodoWrite and ReadTodos
  handlers of \<open>forwarder/interaction_tools.go\<close>: normalisation, merging by id, the guard against
  dropping active todos, filtering and rendering.  A list of message pointers may hold nil,
  so the inputs are lists of options; the results hold no nil.  \<open>base\<close> is the Unix time in
  milliseconds that \<open>timestampMillis\<close> returns.
\<close>

datatype TodoStatus = TODO_STATUS_UNSPECIFIED | TODO_STATUS_PENDING | TODO_STATUS_IN_PROGRESS
  | TODO_STATUS_COMPLETED | TODO_STATUS_CANCELLED | TODO_STATUS_OTHER int

record TodoItem =
  todo_Id :: string
  todo_Content :: string
  todo_Status :: TodoStatus
  todo_CreatedAt :: int
  todo_UpdatedAt :: int
  todo_Dependencies :: "string list"

datatype todo_error = TodoIdRequired | TodoContentRequired | TodoContentRequiredForNew
  | UnsafeTodoReplace "string list" | UnsupportedTodoStatus string

text \<open>\<open>timestampMillis\<close>: nanoseconds since the zero time to Unix milliseconds; the zero time
  stands for the clock.\<close>

definition timestampMillis :: "go_time \<Rightarrow> go_time \<Rightarrow> int" where
  "timestampMillis now baseTime =
     (let t = (if isZeroTime baseTime then now else baseTime)
      in (t - 62135596800 * 10 ^ 9) div 10 ^ 6)"

definition todoStatusFromString :: "string \<Rightarrow> todo_error + TodoStatus" where
  "todoStatusFromString raw =
     (let s = to_lower (trim_space raw) in
      if s \<in> set ['''', ''unspecified'', ''todo_status_unspecified''] then Inr TODO_STATUS_UNSPECIFIED
      else if s \<in> set [''pending'', ''todo_status_pending''] then Inr TODO_STATUS_PENDING
      else if s \<in> set [''in_progress'', ''in-progress'', ''inprogress'', ''todo_status_in_progress'']
        then Inr TODO_STATUS_IN_PROGRESS
      else if s \<in> set [''completed'', ''complete'', ''todo_status_completed''] then Inr TODO_STATUS_COMPLETED
      else if s \<in> set [''cancelled'', ''canceled'', ''todo_status_cancelled''] then Inr TODO_STATUS_CANCELLED
      else Inl (UnsupportedTodoStatus raw))"

definition todoStatusLabel :: "TodoStatus \<Rightarrow> string" where
  "todoStatusLabel status = (case status of
       TODO_STATUS_PENDING \<Rightarrow> ''pending'' | TODO_STATUS_IN_PROGRESS \<Rightarrow> ''in_progress''
     | TODO_STATUS_COMPLETED \<Rightarrow> ''completed'' | TODO_STATUS_CANCELLED \<Rightarrow> ''cancelled''
     | _ \<Rightarrow> ''unspecified'')"

definition isTerminalTodoStatus :: "TodoStatus \<Rightarrow> bool" where
  "isTerminalTodoStatus st \<longleftrightarrow> st = TODO_STATUS_COMPLETED \<or> st = TODO_STATUS_CANCELLED"

definition normalizeTodo :: "int \<Rightarrow> TodoItem \<Rightarrow> TodoItem" where
  "normalizeTodo base item =
     (let n1 = item\<lparr>todo_Id := trim_space (todo_Id item), todo_Content := trim_space (todo_Content item)\<rparr>;
          n2 = (if todo_Status n1 = TODO_STATUS_UNSPECIFIED then n1\<lparr>todo_Status := TODO_STATUS_PENDING\<rparr> else n1);
          n3 = (if todo_CreatedAt n2 \<le> 0 then n2\<lparr>todo_CreatedAt := base\<rparr> else n2)
      in if todo_UpdatedAt n3 \<le> 0 then n3\<lparr>todo_UpdatedAt := todo_CreatedAt n3\<rparr> else n3)"

fun normalizeTodoItems :: "TodoItem option list \<Rightarrow> int \<Rightarrow> bool \<Rightarrow> todo_error + TodoItem list" where
  "normalizeTodoItems [] base validate = Inr []"
| "normalizeTodoItems (None # items) base validate = normalizeTodoItems items base validate"
| "normalizeTodoItems (Some item # items) base validate =
     (if validate \<and> trim_space (todo_Id item) = [] then Inl TodoIdRequired
      else if validate \<and> trim_space (todo_Content item) = [] then Inl TodoContentRequired
      else (case normalizeTodoItems items base validate of
              Inl e \<Rightarrow> Inl e
            | Inr rest \<Rightarrow> Inr (normalizeTodo base item # rest)))"

text \<open>The index the merge builds: for each non-blank id, the last position that carries it.\<close>

fun index_todos :: "nat \<Rightarrow> TodoItem list \<Rightarrow> (string \<rightharpoonup> nat) \<Rightarrow> (string \<rightharpoonup> nat)" where
  "index_todos i [] m = m"
| "index_todos i (item # items) m = index_todos (Suc i) items
     (if trim_space (todo_Id item) = [] then m else m(trim_space (todo_Id item) \<mapsto> i))"

definition updateTodo :: "int \<Rightarrow> string \<Rightarrow> TodoItem \<Rightarrow> TodoItem \<Rightarrow> todo_error + TodoItem" where
  "updateTodo nowMillis ident current upd =
     (let content = trim_space (todo_Content upd);
          n1 = current\<lparr>todo_Id := ident\<rparr>;
          n2 = (if content \<noteq> [] then n1\<lparr>todo_Content := content\<rparr> else n1);
          n3 = (if todo_Status upd \<noteq> TODO_STATUS_UNSPECIFIED then n2\<lparr>todo_Status := todo_Status upd\<rparr> else n2);
          n4 = (if todo_Dependencies upd \<noteq> [] then n3\<lparr>todo_Dependencies := todo_Dependencies upd\<rparr> else n3)
      in if todo_Content n4 = [] then Inl TodoContentRequired
         else let n5 = (if todo_Status n4 = TODO_STATUS_UNSPECIFIED then n4\<lparr>todo_Status := TODO_STATUS_PENDING\<rparr> else n4);
                  n6 = n5\<lparr>todo_CreatedAt := (if todo_CreatedAt current \<le> 0 then nowMillis else todo_CreatedAt current)\<rparr>
              in Inr (n6\<lparr>todo_UpdatedAt := nowMillis\<rparr>))"

definition newTodo :: "int \<Rightarrow> string \<Rightarrow> TodoItem \<Rightarrow> todo_error + TodoItem" where
  "newTodo nowMillis ident upd =
     (let n1 = upd\<lparr>todo_Id := ident, todo_Content := trim_space (todo_Content upd)\<rparr>
      in if todo_Content n1 = [] then Inl TodoContentRequiredForNew
         else let n2 = (if todo_Status n1 = TODO_STATUS_UNSPECIFIED then n1\<lparr>todo_Status := TODO_STATUS_PENDING\<rparr> else n1);
                  n3 = (if todo_CreatedAt n2 \<le> 0 then n2\<lparr>todo_CreatedAt := nowMillis\<rparr> else n2)
              in Inr (if todo_UpdatedAt n3 \<le> 0 then n3\<lparr>todo_UpdatedAt := todo_CreatedAt n3\<rparr> else n3))"

fun mergeLoop :: "int \<Rightarrow> TodoItem option list \<Rightarrow> TodoItem list \<Rightarrow> (string \<rightharpoonup> nat) \<Rightarrow> todo_error + TodoItem list" where
  "mergeLoop nowMillis [] result idx = Inr result"
| "mergeLoop nowMillis (None # us) result idx = mergeLoop nowMillis us result idx"
| "mergeLoop nowMillis (Some upd # us) result idx =
     (let ident = trim_space (todo_Id upd) in
      if ident = [] then Inl TodoIdRequired
      else (case idx ident of
          Some i \<Rightarrow> (case updateTodo nowMillis ident (result ! i) upd of
              Inl e \<Rightarrow> Inl e
            | Inr n \<Rightarrow> mergeLoop nowMillis us (result[i := n]) idx)
        | None \<Rightarrow> (case newTodo nowMillis ident upd of
              Inl e \<Rightarrow> Inl e
            | Inr n \<Rightarrow> mergeLoop nowMillis us (result @ [n]) (idx(ident \<mapsto> length result)))))"

definition mergeTodoItems :: "TodoItem option list \<Rightarrow> TodoItem option list \<Rightarrow> int \<Rightarrow> todo_error + TodoItem list" where
  "mergeTodoItems existing updates base = (case normalizeTodoItems existing base False of
       Inl e \<Rightarrow> Inl e
     | Inr result \<Rightarrow> mergeLoop base updates result (index_todos 0 result Map.empty))"

definition active_ids :: "TodoItem option list \<Rightarrow> string list" where
  "active_ids items = remdups (filter (\<lambda>i. i \<noteq> [])
     (map (trim_space \<circ> todo_Id) (filter (\<lambda>t. \<not> isTerminalTodoStatus (todo_Status t)) (List.map_filter id items))))"

definition item_ids :: "TodoItem option list \<Rightarrow> string list" where
  "item_ids items = map (\<lambda>t. case t of None \<Rightarrow> [] | Some x \<Rightarrow> trim_space (todo_Id x)) items"

definition missingActiveTodoReplacementIDs :: "TodoItem option list \<Rightarrow> TodoItem option list \<Rightarrow> string list" where
  "missingActiveTodoReplacementIDs existing replacement =
     sort (filter (\<lambda>i. i \<notin> set (item_ids replacement)) (active_ids existing))"

definition shouldMergeTodoUpdate :: "TodoItem option list \<Rightarrow> bool \<Rightarrow> bool \<Rightarrow> TodoItem option list \<Rightarrow> bool" where
  "shouldMergeTodoUpdate todos merge mergeSet existing =
     (if merge then True
      else if mergeSet \<or> existing = [] then False
      else if missingActiveTodoReplacementIDs existing todos \<noteq> [] then True
      else list_ex (\<lambda>t. case t of None \<Rightarrow> False | Some x \<Rightarrow> trim_space (todo_Content x) = []) todos)"

text \<open>The decision of the TodoWrite handler: the next todo list with the merge flag, or the error
  that becomes the tool result.\<close>

definition handleTodoWrite ::
    "TodoItem list \<Rightarrow> TodoItem option list \<Rightarrow> bool \<Rightarrow> bool \<Rightarrow> int \<Rightarrow> todo_error + TodoItem list \<times> bool" where
  "handleTodoWrite existing todos merge mergeSet base =
     (let old = map Some existing;
          applyMerge = shouldMergeTodoUpdate todos merge mergeSet old
      in case (if applyMerge then mergeTodoItems old todos base else normalizeTodoItems todos base True) of
           Inl e \<Rightarrow> Inl e
         | Inr nextTodos \<Rightarrow>
             (let missing = missingActiveTodoReplacementIDs old (map Some nextTodos) in
              if \<not> applyMerge \<and> missing \<noteq> [] then Inl (UnsafeTodoReplace missing)
              else Inr (nextTodos, applyMerge)))"

definition filterTodoItems :: "TodoItem option list \<Rightarrow> TodoStatus list \<Rightarrow> string list \<Rightarrow> TodoItem list" where
  "filterTodoItems items statuses ids =
     (let idFilter = filter (\<lambda>i. i \<noteq> []) (map trim_space ids) in
      filter (\<lambda>t. (statuses = [] \<or> todo_Status t \<in> set statuses) \<and>
                  (idFilter = [] \<or> trim_space (todo_Id t) \<in> set idFilter))
        (List.map_filter id items))"

definition renderTodoLine :: "TodoItem \<Rightarrow> string" where
  "renderTodoLine t = ''- ['' @ todoStatusLabel (todo_Status t) @ ''] '' @ trim_space (todo_Id t) @
     '': '' @ trim_space (todo_Content t)"

fun join_lines :: "string \<Rightarrow> string list \<Rightarrow> string" where
  "join_lines sep [] = []"
| "join_lines sep [x] = x"
| "join_lines sep (x # y # xs) = x @ sep @ join_lines sep (y # xs)"

definition renderTodoList :: "TodoItem option list \<Rightarrow> string" where
  "renderTodoList items = join_lines [CHR 0x0A] (map renderTodoLine (List.map_filter id items))"

subsection \<open>Normal form\<close>

text \<open>What the rest of the program relies on: trimmed ids and contents, a definite status.\<close>

definition todo_normal :: "TodoItem \<Rightarrow> bool" where
  "todo_normal t \<longleftrightarrow> trim_space (todo_Id t) = todo_Id t \<and> trim_space (todo_Content t) = todo_Content t \<and>
     todo_Status t \<noteq> TODO_STATUS_UNSPECIFIED"

lemma normalizeTodo_normal [simp]: "todo_normal (normalizeTodo base t)"
  by (simp add: normalizeTodo_def todo_normal_def Let_def)

lemma normalizeTodo_Id [simp]: "todo_Id (normalizeTodo base t) = trim_space (todo_Id t)"
  by (simp add: normalizeTodo_def Let_def)

lemma map_filter_id_Cons [simp]: "List.map_filter id (None # xs) = List.map_filter id xs"
  "List.map_filter id (Some x # xs) = x # List.map_filter id xs" "List.map_filter id [] = []"
  "List.map_filter id (map Some ys) = ys"
  by (simp_all add: List.map_filter_def o_def)

lemma normalizeTodoItems_Inr:
  "normalizeTodoItems items base validate = Inr ts \<Longrightarrow> ts = map (normalizeTodo base) (List.map_filter id items)"
  by (induction items base validate arbitrary: ts rule: normalizeTodoItems.induct)
    (auto split: if_splits sum.splits)

lemma normalizeTodoItems_novalidate:
  "normalizeTodoItems items base False = Inr (map (normalizeTodo base) (List.map_filter id items))"
  by (induction items base False rule: normalizeTodoItems.induct) auto

subsection \<open>Merging\<close>

definition index_ok :: "TodoItem list \<Rightarrow> (string \<rightharpoonup> nat) \<Rightarrow> bool" where
  "index_ok result idx \<longleftrightarrow> (\<forall>k i. idx k = Some i \<longrightarrow> i < length result \<and> todo_Id (result ! i) = k)"

lemma index_todos_ok:
  assumes "index_ok (pre @ items) m" "list_all todo_normal items" "i = length pre"
  shows "index_ok (pre @ items) (index_todos i items m)"
  using assms
proof (induction items arbitrary: pre m i)
  case (Cons t ts)
  let ?m = "if trim_space (todo_Id t) = [] then m else m(trim_space (todo_Id t) \<mapsto> i)"
  have "index_ok ((pre @ [t]) @ ts) ?m"
    using Cons.prems by (auto simp: index_ok_def todo_normal_def nth_append)
  with Cons.IH [of "pre @ [t]" ?m "Suc i"] Cons.prems show ?case by (auto split: if_splits)
qed simp

lemma updateTodo_Inr: "updateTodo now k cur upd = Inr n \<Longrightarrow> todo_normal cur \<Longrightarrow> trim_space k = k \<Longrightarrow>
    todo_Id n = k \<and> todo_normal n"
  by (auto simp: updateTodo_def Let_def todo_normal_def split: if_splits)

lemma newTodo_Inr: "newTodo now k upd = Inr n \<Longrightarrow> trim_space k = k \<Longrightarrow> todo_Id n = k \<and> todo_normal n"
  by (auto simp: newTodo_def Let_def todo_normal_def split: if_splits)

lemma ids_list_update:
  "i < length xs \<Longrightarrow> todo_Id n = todo_Id (xs ! i) \<Longrightarrow> map todo_Id (xs[i := n]) = map todo_Id xs"
  by (simp add: map_update) (metis list_update_id nth_map)

lemma index_ok_update:
  "index_ok result idx \<Longrightarrow> i < length result \<Longrightarrow> todo_Id n = todo_Id (result ! i) \<Longrightarrow> index_ok (result[i := n]) idx"
  unfolding index_ok_def by (metis length_list_update nth_list_update)

lemma index_ok_append:
  "index_ok result idx \<Longrightarrow> todo_Id n = k \<Longrightarrow> index_ok (result @ [n]) (idx(k \<mapsto> length result))"
  by (fastforce simp: index_ok_def nth_append intro: less_SucI)

text \<open>A merge only rewrites items in place and appends new ones: the old ids stay a prefix of the
  ids of the result, and the result is in normal form.\<close>

lemma mergeLoop_Inr:
  assumes "mergeLoop now us result idx = Inr ts" "index_ok result idx" "list_all todo_normal result"
  shows "(\<exists>new. map todo_Id ts = map todo_Id result @ new) \<and> list_all todo_normal ts"
  using assms
proof (induction us arbitrary: result idx)
  case (Cons u us)
  show ?case
  proof (cases u)
    case None
    with Cons show ?thesis by simp
  next
    case (Some upd)
    define k where "k = trim_space (todo_Id upd)"
    have k: "k \<noteq> []" "trim_space k = k"
      using Cons.prems(1) Some by (auto simp: k_def Let_def split: if_splits)
    show ?thesis
    proof (cases "idx k")
      case None
      with Cons.prems(1) Some k obtain n where n: "newTodo now k upd = Inr n"
        and rest: "mergeLoop now us (result @ [n]) (idx(k \<mapsto> length result)) = Inr ts"
        by (auto simp: k_def [symmetric] Let_def split: sum.splits)
      have nn: "todo_Id n = k" "todo_normal n" using newTodo_Inr [OF n k(2)] by auto
      from Cons.IH [OF rest index_ok_append [OF Cons.prems(2) nn(1)]] Cons.prems(3) nn(2)
      show ?thesis by auto
    next
      case (Some i)
      with Cons.prems(1) \<open>u = Some upd\<close> k obtain n where n: "updateTodo now k (result ! i) upd = Inr n"
        and rest: "mergeLoop now us (result[i := n]) idx = Inr ts"
        by (auto simp: k_def [symmetric] Let_def split: sum.splits)
      from Cons.prems(2) Some have i: "i < length result" "todo_Id (result ! i) = k"
        by (auto simp: index_ok_def)
      have nn: "todo_Id n = todo_Id (result ! i)" "todo_normal n"
        using updateTodo_Inr [OF n _ k(2)] Cons.prems(3) i by (auto simp: list_all_length)
      have "list_all todo_normal (result[i := n])"
        using Cons.prems(3) nn(2) by (metis list_all_iff set_update_subset_insert subsetD insertE)
      from Cons.IH [OF rest index_ok_update [OF Cons.prems(2) i(1) nn(1)] this]
      show ?thesis by (simp add: ids_list_update [OF i(1) nn(1)])
    qed
  qed
qed simp

lemma mergeTodoItems_Inr:
  assumes "mergeTodoItems existing updates base = Inr ts"
  shows "(\<exists>new. map todo_Id ts = map (trim_space \<circ> todo_Id) (List.map_filter id existing) @ new) \<and>
    list_all todo_normal ts"
proof -
  let ?r = "map (normalizeTodo base) (List.map_filter id existing)"
  have "index_ok ([] @ ?r) Map.empty" by (simp add: index_ok_def)
  then have "index_ok ?r (index_todos 0 ?r Map.empty)"
    using index_todos_ok [of "[]" ?r Map.empty 0] by (simp add: list_all_iff)
  with mergeLoop_Inr [of base updates ?r _ ts] assms show ?thesis
    by (simp add: mergeTodoItems_def normalizeTodoItems_novalidate o_def list_all_iff)
qed


lemma set_active_ids: "k \<in> set (active_ids items) \<longleftrightarrow> k \<noteq> [] \<and>
    (\<exists>t \<in> set (List.map_filter id items). \<not> isTerminalTodoStatus (todo_Status t) \<and> trim_space (todo_Id t) = k)"
  by (auto simp: active_ids_def)

lemma item_ids_Some [simp]: "item_ids (map Some ts) = map (trim_space \<circ> todo_Id) ts"
  by (simp add: item_ids_def o_def)

subsection \<open>Properties\<close>

text \<open>C6. A TodoWrite keeps the ids of the unfinished todos: after a successful update, whether it merged or
  replaced the list, every todo that was neither completed nor cancelled before and has a non-blank id
  still has an entry with its id.  The entry may have other contents, and several todos with one id
  may share it; unfinished todos without an id, which \<open>CreatePlan\<close> can leave, are not protected
  (\<open>blank_todo_dropped\<close>).\<close>

theorem todo_write_keeps_active:
  assumes "handleTodoWrite existing todos merge mergeSet base = Inr (nextTodos, merged)"
    and "t \<in> set existing" "\<not> isTerminalTodoStatus (todo_Status t)" "trim_space (todo_Id t) \<noteq> []"
  shows "trim_space (todo_Id t) \<in> todo_Id ` set nextTodos"
proof -
  have active: "trim_space (todo_Id t) \<in> set (active_ids (map Some existing))"
    using assms(2-4) by (auto simp: set_active_ids)
  show ?thesis
  proof (cases "shouldMergeTodoUpdate todos merge mergeSet (map Some existing)")
    case True
    with assms(1) have "mergeTodoItems (map Some existing) todos base = Inr nextTodos"
      by (auto simp: handleTodoWrite_def Let_def split: sum.splits)
    from mergeTodoItems_Inr [OF this] assms(2) show ?thesis
      by (metis (no_types, lifting) UnCI comp_apply image_eqI list.set_map map_filter_id_Cons(4) set_append)
  next
    case False
    with assms(1) have n: "normalizeTodoItems todos base True = Inr nextTodos"
      and m: "missingActiveTodoReplacementIDs (map Some existing) (map Some nextTodos) = []"
      by (auto simp: handleTodoWrite_def Let_def split: sum.splits if_splits)
    from m active have "trim_space (todo_Id t) \<in> set (item_ids (map Some nextTodos))"
      by (auto simp: missingActiveTodoReplacementIDs_def filter_empty_conv simp flip: set_empty)
    then obtain u where u: "u \<in> set nextTodos" "trim_space (todo_Id t) = trim_space (todo_Id u)" by auto
    from u(1) normalizeTodoItems_Inr [OF n] have "todo_normal u" by (auto simp: list_all_iff)
    with u show ?thesis by (auto simp: todo_normal_def)
  qed
qed

text \<open>The todo list a successful TodoWrite stores is in normal form: ids and contents are
  trimmed and every status is definite.\<close>

lemma todo_write_normal:
  assumes "handleTodoWrite existing todos merge mergeSet base = Inr (nextTodos, merged)"
  shows "list_all todo_normal nextTodos"
proof (cases "shouldMergeTodoUpdate todos merge mergeSet (map Some existing)")
  case True
  with assms have "mergeTodoItems (map Some existing) todos base = Inr nextTodos"
    by (auto simp: handleTodoWrite_def Let_def split: sum.splits)
  then show ?thesis using mergeTodoItems_Inr by blast
next
  case False
  with assms have "normalizeTodoItems todos base True = Inr nextTodos"
    by (auto simp: handleTodoWrite_def Let_def split: sum.splits if_splits)
  from normalizeTodoItems_Inr [OF this] show ?thesis by (simp add: list_all_iff)
qed

subsection \<open>Witnesses\<close>

definition demo_todo :: "string \<Rightarrow> TodoStatus \<Rightarrow> TodoItem" where
  "demo_todo i st = \<lparr>todo_Id = i, todo_Content = ''x'', todo_Status = st, todo_CreatedAt = 1,
     todo_UpdatedAt = 1, todo_Dependencies = []\<rparr>"

lemma demo_todo_write:
  "handleTodoWrite [demo_todo ''a'' TODO_STATUS_PENDING]
     [Some (demo_todo ''b'' TODO_STATUS_PENDING)] False False 9 =
   Inr ([demo_todo ''a'' TODO_STATUS_PENDING, demo_todo ''b'' TODO_STATUS_PENDING], True)"
  by code_simp

text \<open>A replacing TodoWrite drops an unfinished todo without an id.\<close>

lemma blank_todo_dropped:
  "handleTodoWrite [demo_todo [] TODO_STATUS_PENDING] [Some (demo_todo ''b'' TODO_STATUS_PENDING)] False False 9 =
   Inr ([demo_todo ''b'' TODO_STATUS_PENDING], False)"
  by code_simp

theorem todo_write_keeps_active_witness:
  "trim_space ''a'' \<in> todo_Id ` set [demo_todo ''a'' TODO_STATUS_PENDING, demo_todo ''b'' TODO_STATUS_PENDING]"
proof -
  have "trim_space ''a'' \<noteq> []" by code_simp
  then show ?thesis
    using todo_write_keeps_active [OF demo_todo_write, of "demo_todo ''a'' TODO_STATUS_PENDING"]
    by (simp add: demo_todo_def isTerminalTodoStatus_def)
qed

lemma demo_todo_write_normal:
  "list_all todo_normal [demo_todo ''a'' TODO_STATUS_PENDING, demo_todo ''b'' TODO_STATUS_PENDING]"
  by (rule todo_write_normal [OF demo_todo_write])

end
