(* ===== verification/Json_Values.thy ===== *)
theory Json_Values
  imports Go_Strings
begin

text \<open>
  JSON documents as \<open>encoding/json\<close> sees them.  A \<open>json.RawMessage\<close> is empty, malformed, or the
  text of a value; the model keeps the value.  \<open>unmarshal_strings\<close> is \<open>json.Unmarshal\<close> into a
  struct whose decoded fields have type \<open>string\<close>: an object key selects the field whose name it
  equals up to case folding, later keys overwrite earlier ones, \<open>null\<close> leaves a field alone, and
  a value of another type makes the whole call fail.
\<close>

datatype json = JNull | JBool bool | JNumber string | JString string
  | JArray "json list" | JObject "(string \<times> json) list"

datatype raw_json = RawEmpty | RawInvalid | RawJson json

definition raw_is_empty :: "raw_json \<Rightarrow> bool" where
  "raw_is_empty r \<longleftrightarrow> r = RawEmpty"

text \<open>The case folding of struct field names: ASCII letters, the Kelvin sign and the long s.\<close>

fun fold_key :: "string \<Rightarrow> string" where
  "fold_key [] = []"
| "fold_key (c # s) =
     (if take 2 (c # s) = [CHR 0xC5, CHR 0xBF] then CHR ''s'' # fold_key (drop 1 s)
      else if take 3 (c # s) = [CHR 0xE2, CHR 0x84, CHR 0xAA] then CHR ''k'' # fold_key (drop 2 s)
      else lower_char c # fold_key s)"

definition key_matches :: "string \<Rightarrow> string \<Rightarrow> bool" where
  "key_matches name key \<longleftrightarrow> fold_key key = fold_key name"

text \<open>Decoding one string field: its value and whether some matching key had a wrong type.\<close>

fun string_field :: "string \<Rightarrow> (string \<times> json) list \<Rightarrow> string \<Rightarrow> bool \<Rightarrow> string \<times> bool" where
  "string_field name [] v bad = (v, bad)"
| "string_field name ((k, j) # fs) v bad =
     (if key_matches name k
      then (case j of JString s \<Rightarrow> string_field name fs s bad
            | JNull \<Rightarrow> string_field name fs v bad
            | _ \<Rightarrow> string_field name fs v True)
      else string_field name fs v bad)"

definition unmarshal_strings :: "string list \<Rightarrow> raw_json \<Rightarrow> (string \<Rightarrow> string) option" where
  "unmarshal_strings names r = (case r of
       RawJson (JObject fs) \<Rightarrow>
         if list_ex (\<lambda>n. snd (string_field n fs [] False)) names then None
         else Some (\<lambda>n. fst (string_field n fs [] False))
     | RawJson JNull \<Rightarrow> Some (\<lambda>_. [])
     | _ \<Rightarrow> None)"

text \<open>A \<open>map[string]any\<close> field: repeated objects are merged, \<open>null\<close> resets the map.\<close>

fun object_field :: "string \<Rightarrow> (string \<times> json) list \<Rightarrow> (string \<times> json) list \<Rightarrow> bool \<Rightarrow> (string \<times> json) list \<times> bool" where
  "object_field name [] v bad = (v, bad)"
| "object_field name ((k, j) # fs) v bad =
     (if key_matches name k
      then (case j of JObject m \<Rightarrow> object_field name fs (v @ m) bad
            | JNull \<Rightarrow> object_field name fs [] bad
            | _ \<Rightarrow> object_field name fs v True)
      else object_field name fs v bad)"

text \<open>A struct field: repeated objects are decoded into the same struct, \<open>null\<close> leaves it alone.\<close>

fun struct_field :: "string \<Rightarrow> (string \<times> json) list \<Rightarrow> (string \<times> json) list \<Rightarrow> bool \<Rightarrow> (string \<times> json) list \<times> bool" where
  "struct_field name [] v bad = (v, bad)"
| "struct_field name ((k, j) # fs) v bad =
     (if key_matches name k
      then (case j of JObject m \<Rightarrow> struct_field name fs (v @ m) bad
            | JNull \<Rightarrow> struct_field name fs v bad
            | _ \<Rightarrow> struct_field name fs v True)
      else struct_field name fs v bad)"

text \<open>Map lookup: the last binding of a key wins.\<close>

definition obj_get :: "string \<Rightarrow> (string \<times> json) list \<Rightarrow> json option" where
  "obj_get k fs = map_of (rev fs) k"

text \<open>\<open>readStringValue\<close> of ai_handler.go.\<close>

definition readStringValue :: "json option \<Rightarrow> string" where
  "readStringValue v = (case v of Some (JString s) \<Rightarrow> trim_space s | _ \<Rightarrow> [])"

text \<open>Decoding one field of a struct: every matching key is decoded into it in turn; \<open>None\<close> is a
  type error, after which the whole call fails.\<close>

fun decode_field :: "(json \<Rightarrow> 'v \<Rightarrow> 'v option) \<Rightarrow> string \<Rightarrow> (string \<times> json) list \<Rightarrow> 'v \<Rightarrow> 'v option" where
  "decode_field dec name [] v = Some v"
| "decode_field dec name ((k, j) # fs) v =
     (if key_matches name k then (case dec j v of None \<Rightarrow> None | Some w \<Rightarrow> decode_field dec name fs w)
      else decode_field dec name fs v)"

fun dec_string :: "json \<Rightarrow> string \<Rightarrow> string option" where
  "dec_string (JString s) v = Some s"
| "dec_string JNull v = Some v"
| "dec_string _ v = None"

fun dec_bool :: "json \<Rightarrow> bool \<Rightarrow> bool option" where
  "dec_bool (JBool b) v = Some b"
| "dec_bool JNull v = Some v"
| "dec_bool _ v = None"

fun dec_int32 :: "json \<Rightarrow> int \<Rightarrow> int option" where
  "dec_int32 (JNumber n) v = (case atoi_go n of None \<Rightarrow> None | Some i \<Rightarrow> if i32 i = i then Some i else None)"
| "dec_int32 JNull v = Some v"
| "dec_int32 _ v = None"

definition dec_raw :: "json \<Rightarrow> raw_json \<Rightarrow> raw_json option" where
  "dec_raw j v = Some (RawJson j)"

text \<open>Whether \<open>json.Unmarshal\<close> accepts a value for a Go type, for types built from strings, booleans,
  integers, byte slices (base64 text), raw messages, slices, maps and structs; a pointer to a
  type accepts what the type accepts.  \<open>null\<close> is accepted everywhere; unknown keys are ignored.\<close>

datatype go_type = GString | GBool | GInt | GBytes | GRaw | GSlice go_type | GMap go_type
  | GStruct "(string \<times> go_type) list"

definition base64_char :: "char \<Rightarrow> bool" where
  "base64_char c \<longleftrightarrow> (CHR ''A'' \<le> c \<and> c \<le> CHR ''Z'') \<or> (CHR ''a'' \<le> c \<and> c \<le> CHR ''z'') \<or>
     (CHR ''0'' \<le> c \<and> c \<le> CHR ''9'') \<or> c = CHR ''+'' \<or> c = CHR ''/''"

definition base64_ok :: "string \<Rightarrow> bool" where
  "base64_ok s \<longleftrightarrow>
     (let t = filter (\<lambda>c. c \<noteq> CHR 0x0A \<and> c \<noteq> CHR 0x0D) s; pad = dropWhile base64_char t in
      length t mod 4 = 0 \<and> (pad = [] \<or> pad = ''='' \<or> pad = ''==''))"

definition go_field :: "(string \<times> go_type) list \<Rightarrow> string \<Rightarrow> go_type option" where
  "go_field fields key = map_option snd (find (\<lambda>f. key_matches (fst f) key) fields)"

fun conforms :: "go_type \<Rightarrow> json \<Rightarrow> bool" where
  "conforms g JNull \<longleftrightarrow> True"
| "conforms GRaw j \<longleftrightarrow> True"
| "conforms GString (JString s) \<longleftrightarrow> True"
| "conforms GBool (JBool b) \<longleftrightarrow> True"
| "conforms GInt (JNumber n) \<longleftrightarrow> atoi_go n \<noteq> None"
| "conforms GBytes (JString s) \<longleftrightarrow> base64_ok s"
| "conforms (GSlice g) (JArray js) \<longleftrightarrow> list_all (\<lambda>j. conforms g j) js"
| "conforms (GMap g) (JObject kvs) \<longleftrightarrow> list_all (\<lambda>kv. conforms g (snd kv)) kvs"
| "conforms (GStruct fields) (JObject kvs) \<longleftrightarrow>
     list_all (\<lambda>kv. case go_field fields (fst kv) of None \<Rightarrow> True | Some g \<Rightarrow> conforms g (snd kv)) kvs"
| "conforms _ _ \<longleftrightarrow> False"

text \<open>Keys without upper-case letters and special characters fold to themselves.\<close>

definition plain_key :: "string \<Rightarrow> bool" where
  "plain_key k \<longleftrightarrow> list_all (\<lambda>c. CHR ''_'' \<le> c \<and> c \<le> CHR ''z'') k"

lemma plain_char:
  assumes "CHR ''_'' \<le> c" "c \<le> CHR ''z''"
  shows "lower_char c = c" "c \<noteq> CHR 0xC5" "c \<noteq> CHR 0xE2"
  using assms by (auto simp: lower_char_def less_eq_char_def)

lemma fold_plain: "plain_key k \<Longrightarrow> fold_key k = k"
proof (induction k)
  case (Cons c s)
  then have "CHR ''_'' \<le> c" "c \<le> CHR ''z''" "plain_key s" by (simp_all add: plain_key_def)
  with Cons plain_char [of c] show ?case by simp
qed (simp add: plain_key_def)

lemma key_matches_plain: "plain_key n \<Longrightarrow> plain_key k \<Longrightarrow> key_matches n k \<longleftrightarrow> n = k"
  by (auto simp: key_matches_def fold_plain)

lemma decode_field_append:
  "decode_field dec n (fs @ gs) v = (case decode_field dec n fs v of None \<Rightarrow> None | Some w \<Rightarrow> decode_field dec n gs w)"
proof (induction fs arbitrary: v)
  case (Cons kj fs)
  then show ?case by (cases kj) (simp split: option.split)
qed simp

lemma dec_int32_int_dec: "i32 i = i \<Longrightarrow> dec_int32 (JNumber (int_dec i)) v = Some i"
proof -
  assume i: "i32 i = i"
  have "- (2 ^ 31) \<le> i32 i \<and> i32 i < 2 ^ 31" by (simp add: i32_def)
  then have "in_i64 i" using i by (simp add: in_i64_def)
  then show ?thesis using i by (simp add: atoi_int_dec)
qed

end
