(* ===== verification/Mcp_Capabilities.thy ===== *)
theory Mcp_Capabilities
  imports Json_Values Agent_Modes "HOL-Library.AList"
begin

text \<open>
  Tool capabilities of a request, \<open>forwarder/mcp_capabilities.go\<close>: which MCP server and tool
  pairs the client offers, which direct tools it declares, and the tool list that is sent to
  the provider.  A \<open>map[string]struct{}\<close> is a list of its keys, another Go map an association
  list with one binding per key; both are built by the operations below only, so the
  order in which Go would iterate over them is never observed (every iteration sorts).

  The protobuf messages are records of what their getters return; a nil pointer is \<open>None\<close>.
\<close>

record MCPDirectTool =
  dt_InvocationName :: string
  dt_Server :: string
  dt_ToolName :: string
  dt_Description :: string
  dt_InputSchema :: "json option"

record MCPToolCapabilities =
  ReadLintsEnabled :: bool
  MetaEnabled :: bool
  FileSystemEnabled :: bool
  CallMcpEnabled :: bool
  FetchResourceEnabled :: bool
  Pairs :: "string list"
  Servers :: "string list"
  ResourceServers :: "string list"
  ToolsByName :: "(string \<times> string list) list"
  DirectTools :: "(string \<times> MCPDirectTool) list"
  DirectToolConflicts :: "string list"

record McpToolDefinition =
  def_Name :: string
  def_ProviderIdentifier :: string
  def_ToolName :: string
  def_Description :: string
  def_InputSchema :: "json option"

record McpDescriptor =
  desc_ServerIdentifier :: string
  desc_ServerName :: string
  desc_Tools :: "string option list"

record McpOptions =
  opt_Enabled :: bool
  opt_Descriptors :: "McpDescriptor option list"

record RequestContext =
  rc_ReadLintsEnabled :: "bool option"
  rc_Tools :: "McpToolDefinition option list"
  rc_McpMetaToolOptions :: "McpOptions option"
  rc_McpFileSystemOptions :: "McpOptions option"

record ToolCallDescriptor =
  tcd_ID :: string
  tcd_Index :: int
  tcd_Type :: string
  tcd_Name :: string
  tcd_Arguments :: string
  tcd_OpenAIResponsesID :: string
  tcd_OpenAIResponsesCallID :: string
  tcd_OpenAIResponsesStatus :: string

record ImageContent =
  img_MIMEType :: string
  img_Path :: string
  img_Data :: string

record ContentPart =
  part_Type :: string
  part_Text :: string
  part_Image :: "ImageContent option"

record Message =
  msg_Role :: string
  msg_Content :: string
  msg_ContentParts :: "ContentPart list"
  msg_ReasoningContent :: string
  msg_ReasoningSignature :: string
  msg_ReasoningSignatureSource :: string
  msg_OpenAIResponsesReasoningID :: string
  msg_OpenAIResponsesReasoningStatus :: string
  msg_OpenAIResponsesReasoningSummary :: raw_json
  msg_ToolCalls :: "ToolCallDescriptor list"
  msg_ToolCallID :: string
  msg_Name :: string

definition text_message :: "string \<Rightarrow> string \<Rightarrow> Message" where
  "text_message role content =
     \<lparr>msg_Role = role, msg_Content = content, msg_ContentParts = [], msg_ReasoningContent = [],
      msg_ReasoningSignature = [], msg_ReasoningSignatureSource = [],
      msg_OpenAIResponsesReasoningID = [], msg_OpenAIResponsesReasoningStatus = [],
      msg_OpenAIResponsesReasoningSummary = RawEmpty, msg_ToolCalls = [], msg_ToolCallID = [],
      msg_Name = []\<rparr>"

record CompiledConversation =
  cc_Mode :: AgentMode
  cc_PromptProfile :: string
  cc_Messages :: "Message list"
  cc_StableMessageCount :: int
  cc_Tools :: "raw_json list"
  cc_CompileSummary :: string
  cc_ProviderProjectionApplied :: bool
  cc_ProviderProjectionFallback :: bool
  cc_RequiresToolCapabilityProjection :: bool

subsection \<open>Collecting the capabilities\<close>

definition mcpPairSeparator :: string where
  "mcpPairSeparator = [CHR 0x00]"

definition emptyMCPToolCapabilities :: "bool \<Rightarrow> MCPToolCapabilities" where
  "emptyMCPToolCapabilities readLintsEnabled =
     \<lparr>ReadLintsEnabled = readLintsEnabled, MetaEnabled = False, FileSystemEnabled = False,
      CallMcpEnabled = False, FetchResourceEnabled = False, Pairs = [], Servers = [],
      ResourceServers = [], ToolsByName = [], DirectTools = [], DirectToolConflicts = []\<rparr>"

definition readLintsEnabledFromRequestContext :: "RequestContext option \<Rightarrow> bool" where
  "readLintsEnabledFromRequestContext rc =
     (case rc of None \<Rightarrow> True
      | Some c \<Rightarrow> (case rc_ReadLintsEnabled c of None \<Rightarrow> True | Some b \<Rightarrow> b))"

definition mcpPairKey :: "string \<Rightarrow> string \<Rightarrow> string" where
  "mcpPairKey server toolName = trim_space server @ mcpPairSeparator @ trim_space toolName"

definition appendUniqueString :: "string list \<Rightarrow> string \<Rightarrow> string list" where
  "appendUniqueString values v = (if v \<in> set values then values else values @ [v])"

text \<open>Lookup with Go's zero value for a missing key.\<close>

definition lookup_list :: "(string \<times> 'a list) list \<Rightarrow> string \<Rightarrow> 'a list" where
  "lookup_list m k = (case map_of m k of None \<Rightarrow> [] | Some v \<Rightarrow> v)"

definition addMCPPair :: "string \<Rightarrow> string \<Rightarrow> MCPToolCapabilities \<Rightarrow> MCPToolCapabilities" where
  "addMCPPair server0 toolName0 caps =
     (let server = trim_space server0; toolName = trim_space toolName0 in
      if server = [] \<or> toolName = [] then caps
      else caps\<lparr>Servers := List.insert server (Servers caps),
                Pairs := List.insert (mcpPairKey server toolName) (Pairs caps),
                ToolsByName := AList.update toolName
                  (appendUniqueString (lookup_list (ToolsByName caps) toolName) server) (ToolsByName caps)\<rparr>)"

text \<open>\<open>runtimecore.IsCurrentlySupportedTool\<close>, agent/core/types.go.\<close>

definition IsCurrentlySupportedTool :: "string \<Rightarrow> bool" where
  "IsCurrentlySupportedTool name \<longleftrightarrow> trim_space name \<in> set
     [''Read'', ''Write'', ''PatchEdit'', ''Delete'', ''Shell'', ''AwaitShell'', ''WriteShellStdin'',
      ''ForceBackgroundShell'', ''Glob'', ''Grep'', ''ReadLints'', ''AskQuestion'', ''CreatePlan'',
      ''SwitchMode'', ''WebSearch'', ''WebFetch'', ''TodoWrite'', ''Task'', ''CallMcpTool'',
      ''FetchMcpResource'']"

definition addDirectDefinition :: "McpToolDefinition option \<Rightarrow> MCPToolCapabilities \<Rightarrow> MCPToolCapabilities" where
  "addDirectDefinition d0 caps0 = (case d0 of None \<Rightarrow> caps0 | Some d \<Rightarrow>
     (let invocationName = trim_space (def_Name d);
          server = trim_space (def_ProviderIdentifier d);
          toolName = trim_space (def_ToolName d) in
      if invocationName = [] \<or> server = [] \<or> toolName = [] then caps0
      else let caps = addMCPPair server toolName caps0 in
        if IsCurrentlySupportedTool invocationName then caps
        else if invocationName \<in> set (DirectToolConflicts caps) then caps
        else (case map_of (DirectTools caps) invocationName of
            Some existing \<Rightarrow>
              if dt_Server existing \<noteq> server \<or> dt_ToolName existing \<noteq> toolName
              then caps\<lparr>DirectTools := AList.delete invocationName (DirectTools caps),
                        DirectToolConflicts := List.insert invocationName (DirectToolConflicts caps)\<rparr>
              else caps
          | None \<Rightarrow> caps\<lparr>DirectTools := AList.update invocationName
                \<lparr>dt_InvocationName = invocationName, dt_Server = server, dt_ToolName = toolName,
                 dt_Description = trim_space (def_Description d),
                 dt_InputSchema = def_InputSchema d\<rparr> (DirectTools caps)\<rparr>)))"

definition addDirectDefinitions ::
    "McpToolDefinition option list \<Rightarrow> MCPToolCapabilities \<Rightarrow> MCPToolCapabilities" where
  "addDirectDefinitions definitions caps = fold addDirectDefinition definitions caps"

fun addDescriptorTools :: "string \<Rightarrow> string option list \<Rightarrow> MCPToolCapabilities \<Rightarrow> MCPToolCapabilities \<times> bool" where
  "addDescriptorTools server [] caps = (caps, False)"
| "addDescriptorTools server (None # ts) caps = addDescriptorTools server ts caps"
| "addDescriptorTools server (Some t # ts) caps =
     (let toolName = trim_space t in
      if toolName = [] then addDescriptorTools server ts caps
      else let (caps', _) = addDescriptorTools server ts (addMCPPair server toolName caps) in (caps', True))"

fun addDescriptorCapabilities ::
    "McpDescriptor option list \<Rightarrow> bool \<Rightarrow> MCPToolCapabilities \<Rightarrow> MCPToolCapabilities \<times> bool \<times> bool" where
  "addDescriptorCapabilities [] resourceCapable caps = (caps, False, False)"
| "addDescriptorCapabilities (None # ds) resourceCapable caps = addDescriptorCapabilities ds resourceCapable caps"
| "addDescriptorCapabilities (Some d # ds) resourceCapable caps =
     (let server = firstNonEmpty [desc_ServerIdentifier d, desc_ServerName d] in
      if server = [] then addDescriptorCapabilities ds resourceCapable caps
      else let caps1 = caps\<lparr>Servers := List.insert server (Servers caps)\<rparr>;
               caps2 = (if resourceCapable
                        then caps1\<lparr>ResourceServers := List.insert server (ResourceServers caps1)\<rparr> else caps1);
               (caps3, hasTools) = addDescriptorTools server (desc_Tools d) caps2;
               (caps4, _, moreTools) = addDescriptorCapabilities ds resourceCapable caps3
           in (caps4, True, hasTools \<or> moreTools))"

definition mcpFileSystemOptionsAvailable :: "McpOptions option \<Rightarrow> bool" where
  "mcpFileSystemOptionsAvailable opts =
     (case opts of None \<Rightarrow> False | Some p \<Rightarrow> opt_Enabled p \<and> opt_Descriptors p \<noteq> [])"

definition finalizeMCPToolCapabilities :: "MCPToolCapabilities \<Rightarrow> MCPToolCapabilities" where
  "finalizeMCPToolCapabilities caps = caps\<lparr>ToolsByName := map (\<lambda>(k, v). (k, sort v)) (ToolsByName caps)\<rparr>"

text \<open>One pass of the loop over the two file-system options.\<close>

definition addFileSystemOptions ::
    "McpOptions option \<Rightarrow> MCPToolCapabilities \<times> bool \<times> bool \<Rightarrow> MCPToolCapabilities \<times> bool \<times> bool" where
  "addFileSystemOptions opts st = (case st of (caps, hasServers, hasTools) \<Rightarrow>
     (if \<not> mcpFileSystemOptionsAvailable opts then st
      else case addDescriptorCapabilities (opt_Descriptors (the opts)) True caps of
        (caps', s, t) \<Rightarrow> (caps', hasServers \<or> s, hasTools \<or> t)))"

text \<open>The meta-tool options of the request context, with whether they name a tool.\<close>

definition addMetaOptions :: "RequestContext option \<Rightarrow> MCPToolCapabilities \<Rightarrow> MCPToolCapabilities \<times> bool" where
  "addMetaOptions requestContext caps =
     (case Option.bind requestContext rc_McpMetaToolOptions of
        None \<Rightarrow> (caps, False)
      | Some meta \<Rightarrow> if opt_Enabled meta
          then (case addDescriptorCapabilities (opt_Descriptors meta) False caps of (c, _, t) \<Rightarrow> (c, t))
          else (caps, False))"

definition deriveMCPToolCapabilities ::
    "McpToolDefinition option list \<Rightarrow> McpOptions option \<Rightarrow> RequestContext option \<Rightarrow> MCPToolCapabilities" where
  "deriveMCPToolCapabilities directDefinitions topLevelFileSystemOptions requestContext =
     (let caps1 = addDirectDefinitions directDefinitions
            (emptyMCPToolCapabilities (readLintsEnabledFromRequestContext requestContext));
          caps2 = (case requestContext of None \<Rightarrow> caps1 | Some rc \<Rightarrow> addDirectDefinitions (rc_Tools rc) caps1);
          (caps3, metaHasTools) = addMetaOptions requestContext caps2;
          (caps4, fileSystemHasServers, fileSystemHasTools) =
            fold addFileSystemOptions
              [topLevelFileSystemOptions, Option.bind requestContext rc_McpFileSystemOptions]
              (caps3\<lparr>MetaEnabled := metaHasTools\<rparr>, False, False)
      in finalizeMCPToolCapabilities
           (caps4\<lparr>FileSystemEnabled := fileSystemHasServers,
                  CallMcpEnabled := metaHasTools \<or> fileSystemHasTools,
                  FetchResourceEnabled := fileSystemHasServers\<rparr>))"

subsection \<open>Queries\<close>

definition hasMCPPair :: "MCPToolCapabilities \<Rightarrow> string \<Rightarrow> string \<Rightarrow> bool" where
  "hasMCPPair caps server toolName \<longleftrightarrow> mcpPairKey server toolName \<in> set (Pairs caps)"

definition hasResourceServer :: "MCPToolCapabilities \<Rightarrow> string \<Rightarrow> bool" where
  "hasResourceServer caps server \<longleftrightarrow> trim_space server \<in> set (ResourceServers caps)"

definition resolveMCPServer :: "MCPToolCapabilities \<Rightarrow> string \<Rightarrow> string \<times> nat" where
  "resolveMCPServer caps toolName =
     (case lookup_list (ToolsByName caps) (trim_space toolName) of
        [s] \<Rightarrow> (s, 1) | servers \<Rightarrow> ([], length servers))"

definition directTool :: "MCPToolCapabilities \<Rightarrow> string \<Rightarrow> MCPDirectTool option" where
  "directTool caps name = map_of (DirectTools caps) (trim_space name)"

subsection \<open>The provider's tool list\<close>

definition extractToolName :: "raw_json \<Rightarrow> string option" where
  "extractToolName raw = (case raw of
       RawJson (JObject fs) \<Rightarrow>
         (case struct_field ''function'' fs [] False of (f, bad) \<Rightarrow>
            (case string_field ''name'' f [] bad of (name, bad') \<Rightarrow>
               if bad' \<or> trim_space name = [] then None else Some (trim_space name)))
     | _ \<Rightarrow> None)"

definition directToolSchema :: "MCPDirectTool \<Rightarrow> raw_json option" where
  "directToolSchema tool =
     (if trim_space (dt_InvocationName tool) = [] then None
      else let parameters = (case dt_InputSchema tool of Some (JObject fs) \<Rightarrow> JObject fs
             | _ \<Rightarrow> JObject [(''properties'', JObject []), (''type'', JString ''object'')])
        in Some (RawJson (JObject
             [(''function'', JObject [(''description'', JString (dt_Description tool)),
                (''name'', JString (dt_InvocationName tool)), (''parameters'', parameters)]),
              (''type'', JString ''function'')])))"

text \<open>The loop over the compiled tools; \<open>kept\<close> collects \<open>filtered\<close>, \<open>seen\<close> is \<open>seenNames\<close>.\<close>

record tool_filter =
  tf_kept :: "raw_json list"
  tf_seen :: "string list"
  tf_hadMCPTool :: bool
  tf_mcpModeAllowed :: bool

definition filter_tool :: "MCPToolCapabilities \<Rightarrow> raw_json \<Rightarrow> tool_filter \<Rightarrow> tool_filter" where
  "filter_tool caps item st = (case extractToolName item of None \<Rightarrow> st
     | Some name \<Rightarrow>
        (let st1 = (if name = ''CallMcpTool''
                    then st\<lparr>tf_hadMCPTool := True, tf_mcpModeAllowed := True\<rparr>
                    else if name = ''FetchMcpResource'' then st\<lparr>tf_hadMCPTool := True\<rparr> else st);
             keep = (if name = ''ReadLints'' then ReadLintsEnabled caps
                     else if name = ''CallMcpTool'' then CallMcpEnabled caps
                     else if name = ''FetchMcpResource'' then FetchResourceEnabled caps else True)
         in if \<not> keep then st1
            else st1\<lparr>tf_kept := tf_kept st1 @ [item], tf_seen := List.insert name (tf_seen st1)\<rparr>))"

text \<open>The loop over the sorted direct tools: tools, names seen, and how many were added.\<close>

fun add_direct_tools ::
    "(string \<times> MCPDirectTool) list \<Rightarrow> string list \<Rightarrow> raw_json list \<Rightarrow> string list \<Rightarrow> nat \<Rightarrow> raw_json list \<times> nat" where
  "add_direct_tools tools [] kept seen n = (kept, n)"
| "add_direct_tools tools (name # names) kept seen n =
     (if name \<in> set seen then add_direct_tools tools names kept seen n
      else case Option.bind (map_of tools name) directToolSchema of
          None \<Rightarrow> add_direct_tools tools names kept seen n
        | Some schema \<Rightarrow> add_direct_tools tools names (kept @ [schema]) (name # seen) (Suc n))"

definition wrapSystemReminder :: "string \<Rightarrow> string" where
  "wrapSystemReminder content =
     (let trimmed = trim_space content in
      if trimmed = [] then []
      else if has_prefix trimmed ''<system_reminder>'' \<and> has_suffix trimmed ''</system_reminder>'' then trimmed
      else ''<system_reminder>'' @ [CHR 0x0A] @ trimmed @ [CHR 0x0A] @ ''</system_reminder>'')"

text \<open>\<open>strings.SplitN (s, separator, 2)\<close> at the pair separator: both parts, when there are two.\<close>

definition split_pair :: "string \<Rightarrow> (string \<times> string) option" where
  "split_pair s = map_option (\<lambda>i. (take i s, drop (Suc i) s)) (index_of s mcpPairSeparator)"

definition cap_list :: "nat \<Rightarrow> string list \<Rightarrow> string list" where
  "cap_list limit values =
     (if 0 < limit \<and> limit < length values
      then take limit values @ [''and '' @ nat_dec (length values - limit) @ '' more''] else values)"

definition sortedMCPPairs :: "string list \<Rightarrow> nat \<Rightarrow> string list" where
  "sortedMCPPairs pairs limit = cap_list limit (sort
     (List.map_filter (\<lambda>p. case split_pair p of None \<Rightarrow> None
        | Some (a, b) \<Rightarrow> if a = [] \<or> b = [] then None else Some (a @ ''/'' @ b)) pairs))"

definition sortedStringSet :: "string list \<Rightarrow> nat \<Rightarrow> string list" where
  "sortedStringSet values limit =
     cap_list limit (sort (filter (\<lambda>v. v \<noteq> []) (map trim_space values)))"

definition mcpCapabilityReminderPairLimit :: nat where "mcpCapabilityReminderPairLimit = 64"

definition mcpCapabilityReminderServerLimit :: nat where "mcpCapabilityReminderServerLimit = 32"

definition buildMCPProviderCapabilityReminder :: "MCPToolCapabilities \<Rightarrow> nat \<Rightarrow> string" where
  "buildMCPProviderCapabilityReminder caps directToolCount =
     (if \<not> CallMcpEnabled caps \<and> \<not> FetchResourceEnabled caps \<and> directToolCount = 0
      then ''MCP tools and resources are not available for this request. Do not call MCP capabilities mentioned only in earlier conversation context.''
      else
        let pairs = sortedMCPPairs (Pairs caps) mcpCapabilityReminderPairLimit;
            servers = sortedStringSet (ResourceServers caps) mcpCapabilityReminderServerLimit
        in join_with '' ''
          ((if 0 < directToolCount \<and> \<not> CallMcpEnabled caps
            then [''Use only the direct MCP tool schemas provided for this request; CallMcpTool is unavailable.''] else []) @
           (if CallMcpEnabled caps \<and> pairs \<noteq> []
            then [''CallMcpTool is limited to these current server/tool pairs: '' @ join_with '', '' pairs @ ''.''] else []) @
           (if FetchResourceEnabled caps \<and> servers \<noteq> []
            then [''FetchMcpResource is limited to these current servers: '' @ join_with '', '' servers @ ''.''] else [])))"

definition bool_text :: "bool \<Rightarrow> string" where
  "bool_text b = (if b then ''true'' else ''false'')"

definition applyProviderToolCapabilities ::
    "CompiledConversation \<Rightarrow> MCPToolCapabilities \<Rightarrow> CompiledConversation" where
  "applyProviderToolCapabilities compiled caps =
     (let st = fold (filter_tool caps) (cc_Tools compiled)
            \<lparr>tf_kept = [], tf_seen = [], tf_hadMCPTool = False, tf_mcpModeAllowed = False\<rparr>;
          (tools, directToolCount) =
            (if tf_mcpModeAllowed st
             then add_direct_tools (DirectTools caps) (sort (map fst (DirectTools caps)))
                    (tf_kept st) (tf_seen st) 0
             else (tf_kept st, 0));
          reminder = buildMCPProviderCapabilityReminder caps directToolCount
      in compiled\<lparr>cc_Tools := tools,
           cc_Messages := cc_Messages compiled @
             (if tf_hadMCPTool st \<and> reminder \<noteq> []
              then [text_message ''user'' (wrapSystemReminder reminder)] else []),
           cc_CompileSummary := trim_space (cc_CompileSummary compiled @
             '' capabilities_read_lints='' @ bool_text (ReadLintsEnabled caps) @
             '' capabilities_mcp_call='' @ bool_text (CallMcpEnabled caps) @
             '' capabilities_mcp_resource='' @ bool_text (FetchResourceEnabled caps) @
             '' capabilities_mcp_direct='' @ nat_dec directToolCount)\<rparr>)"

subsection \<open>What the request offers\<close>

text \<open>The server and tool pairs, and the invocation names with their targets, that the three
  capability sources of a request declare.\<close>

definition def_ok :: "McpToolDefinition \<Rightarrow> bool" where
  "def_ok d \<longleftrightarrow> trim_space (def_Name d) \<noteq> [] \<and> trim_space (def_ProviderIdentifier d) \<noteq> [] \<and>
     trim_space (def_ToolName d) \<noteq> []"

definition def_target :: "McpToolDefinition \<Rightarrow> string \<times> string" where
  "def_target d = (trim_space (def_ProviderIdentifier d), trim_space (def_ToolName d))"

definition direct_targets :: "McpToolDefinition option list \<Rightarrow> string \<Rightarrow> (string \<times> string) set" where
  "direct_targets ds n = {def_target d |d. Some d \<in> set ds \<and> def_ok d \<and> trim_space (def_Name d) = n}"

definition def_pairs :: "McpToolDefinition option list \<Rightarrow> (string \<times> string) set" where
  "def_pairs ds = {def_target d |d. Some d \<in> set ds \<and> def_ok d}"

definition desc_server :: "McpDescriptor \<Rightarrow> string" where
  "desc_server d = firstNonEmpty [desc_ServerIdentifier d, desc_ServerName d]"

definition desc_pairs :: "McpDescriptor option list \<Rightarrow> (string \<times> string) set" where
  "desc_pairs ds = {(desc_server d, trim_space t) |d t. Some d \<in> set ds \<and> desc_server d \<noteq> [] \<and>
     Some t \<in> set (desc_Tools d) \<and> trim_space t \<noteq> []}"

definition option_pairs :: "McpOptions option \<Rightarrow> (string \<times> string) set" where
  "option_pairs opts = (case opts of None \<Rightarrow> {} | Some p \<Rightarrow>
     if opt_Enabled p then desc_pairs (opt_Descriptors p) else {})"

definition all_definitions ::
    "McpToolDefinition option list \<Rightarrow> RequestContext option \<Rightarrow> McpToolDefinition option list" where
  "all_definitions ds rc = ds @ (case rc of None \<Rightarrow> [] | Some c \<Rightarrow> rc_Tools c)"

definition offered_pairs ::
    "McpToolDefinition option list \<Rightarrow> McpOptions option \<Rightarrow> RequestContext option \<Rightarrow> (string \<times> string) set" where
  "offered_pairs ds fs rc = def_pairs (all_definitions ds rc) \<union>
     option_pairs (Option.bind rc rc_McpMetaToolOptions) \<union> option_pairs fs \<union>
     option_pairs (Option.bind rc rc_McpFileSystemOptions)"

subsection \<open>Lemmas: pairs\<close>

definition pair_key :: "string \<times> string \<Rightarrow> string" where
  "pair_key p = mcpPairKey (fst p) (snd p)"

lemma Pairs_addMCPPair:
  "trim_space s \<noteq> [] \<Longrightarrow> trim_space t \<noteq> [] \<Longrightarrow>
   set (Pairs (addMCPPair s t caps)) = insert (pair_key (trim_space s, trim_space t)) (set (Pairs caps))"
  by (simp add: addMCPPair_def Let_def pair_key_def)

lemma addMCPPair_direct [simp]:
  "DirectTools (addMCPPair s t caps) = DirectTools caps"
  "DirectToolConflicts (addMCPPair s t caps) = DirectToolConflicts caps"
  by (simp_all add: addMCPPair_def Let_def)

lemma Pairs_addDirectDefinition:
  "set (Pairs (addDirectDefinition d caps)) = pair_key ` def_pairs [d] \<union> set (Pairs caps)"
  by (cases d) (auto simp: addDirectDefinition_def def_pairs_def def_ok_def def_target_def Let_def
      Pairs_addMCPPair split: option.splits)

lemma def_pairs_Cons: "def_pairs (d # ds) = def_pairs [d] \<union> def_pairs ds"
  by (auto simp: def_pairs_def)

lemma def_pairs_append: "def_pairs (ds @ es) = def_pairs ds \<union> def_pairs es"
  by (auto simp: def_pairs_def)

lemma Pairs_addDirectDefinitions:
  "set (Pairs (addDirectDefinitions ds caps)) = pair_key ` def_pairs ds \<union> set (Pairs caps)"
proof (induction ds arbitrary: caps)
  case Nil
  then show ?case by (simp add: addDirectDefinitions_def def_pairs_def)
next
  case (Cons d ds)
  have "addDirectDefinitions (d # ds) caps = addDirectDefinitions ds (addDirectDefinition d caps)"
    by (simp add: addDirectDefinitions_def)
  then show ?case
    using Cons.IH [of "addDirectDefinition d caps"] Pairs_addDirectDefinition [of d caps]
      def_pairs_Cons [of d ds] by (simp add: image_Un Un_assoc Un_left_commute)
qed

definition tool_names :: "string option list \<Rightarrow> string set" where
  "tool_names ts = {trim_space t |t. Some t \<in> set ts \<and> trim_space t \<noteq> []}"

lemma tool_names_simps [simp]:
  "tool_names [] = {}" "tool_names (None # ts) = tool_names ts"
  "tool_names (Some t # ts) = (if trim_space t = [] then {} else {trim_space t}) \<union> tool_names ts"
  by (auto simp: tool_names_def)

lemma fst_addDescriptorTools [simp]:
  "fst (addDescriptorTools s (Some t # ts) caps) =
   fst (addDescriptorTools s ts (if trim_space t = [] then caps else addMCPPair s (trim_space t) caps))"
  by (simp add: Let_def split: prod.splits)

lemma addDescriptorTools_Pairs:
  "trim_space s = s \<Longrightarrow> s \<noteq> [] \<Longrightarrow>
   set (Pairs (fst (addDescriptorTools s ts caps))) = pair_key ` ({s} \<times> tool_names ts) \<union> set (Pairs caps)"
proof (induction ts arbitrary: caps)
  case (Cons t ts)
  then show ?case by (cases t) (auto simp: Pairs_addMCPPair simp del: addDescriptorTools.simps(3))
qed simp

lemma addDescriptorTools_direct:
  "DirectTools (fst (addDescriptorTools s ts caps)) = DirectTools caps \<and>
   DirectToolConflicts (fst (addDescriptorTools s ts caps)) = DirectToolConflicts caps"
proof (induction ts arbitrary: caps)
  case (Cons t ts)
  then show ?case by (cases t) (auto simp del: addDescriptorTools.simps(3))
qed simp

text \<open>What one descriptor adds before its tools are looked at.\<close>

definition mark_server :: "bool \<Rightarrow> string \<Rightarrow> MCPToolCapabilities \<Rightarrow> MCPToolCapabilities" where
  "mark_server r s caps =
     (let caps1 = caps\<lparr>Servers := List.insert s (Servers caps)\<rparr>
      in if r then caps1\<lparr>ResourceServers := List.insert s (ResourceServers caps1)\<rparr> else caps1)"

lemma mark_server_simps [simp]:
  "Pairs (mark_server r s caps) = Pairs caps" "DirectTools (mark_server r s caps) = DirectTools caps"
  "DirectToolConflicts (mark_server r s caps) = DirectToolConflicts caps"
  by (simp_all add: mark_server_def Let_def)

lemma fst_addDescriptorCapabilities:
  "fst (addDescriptorCapabilities (Some d # ds) r caps) =
   fst (addDescriptorCapabilities ds r (if desc_server d = [] then caps
      else fst (addDescriptorTools (desc_server d) (desc_Tools d) (mark_server r (desc_server d) caps))))"
  by (simp add: Let_def desc_server_def mark_server_def del: firstNonEmpty.simps split: prod.splits)

lemma trim_desc_server [simp]: "trim_space (desc_server d) = desc_server d"
  by (simp add: desc_server_def del: firstNonEmpty.simps)

lemma desc_pairs_simps:
  "desc_pairs [] = {}" "desc_pairs (None # ds) = desc_pairs ds"
  "desc_pairs (Some d # ds) =
     (if desc_server d = [] then {} else {desc_server d} \<times> tool_names (desc_Tools d)) \<union> desc_pairs ds"
  by (auto simp: desc_pairs_def tool_names_def)

lemma addDescriptorCapabilities_Pairs:
  "set (Pairs (fst (addDescriptorCapabilities ds r caps))) = pair_key ` desc_pairs ds \<union> set (Pairs caps)"
proof (induction ds arbitrary: caps)
  case (Cons d ds)
  then show ?case
    by (cases d) (auto simp: desc_pairs_simps fst_addDescriptorCapabilities addDescriptorTools_Pairs
        simp del: addDescriptorCapabilities.simps(3))
qed (simp add: desc_pairs_simps)

lemma addDescriptorCapabilities_direct:
  "DirectTools (fst (addDescriptorCapabilities ds r caps)) = DirectTools caps \<and>
   DirectToolConflicts (fst (addDescriptorCapabilities ds r caps)) = DirectToolConflicts caps"
proof (induction ds arbitrary: caps)
  case (Cons d ds)
  then show ?case
    by (cases d) (auto simp: fst_addDescriptorCapabilities addDescriptorTools_direct
        simp del: addDescriptorCapabilities.simps(3))
qed simp

lemma addFileSystemOptions_fst:
  "fst (addFileSystemOptions opts st) = (if mcpFileSystemOptionsAvailable opts
     then fst (addDescriptorCapabilities (opt_Descriptors (the opts)) True (fst st)) else fst st)"
  by (auto simp: addFileSystemOptions_def split: prod.splits)

lemma addFileSystemOptions_Pairs:
  "set (Pairs (fst (addFileSystemOptions opts st))) = pair_key ` option_pairs opts \<union> set (Pairs (fst st))"
  by (cases opts) (auto simp: addFileSystemOptions_fst addDescriptorCapabilities_Pairs option_pairs_def
      mcpFileSystemOptionsAvailable_def desc_pairs_simps)

lemma addMetaOptions_Pairs:
  "set (Pairs (fst (addMetaOptions rc caps))) =
     pair_key ` option_pairs (Option.bind rc rc_McpMetaToolOptions) \<union> set (Pairs caps)"
  using addDescriptorCapabilities_Pairs
  by (auto simp: addMetaOptions_def option_pairs_def case_prod_beta split: option.splits)

lemma addMetaOptions_direct:
  "DirectTools (fst (addMetaOptions rc caps)) = DirectTools caps"
  "DirectToolConflicts (fst (addMetaOptions rc caps)) = DirectToolConflicts caps"
  using addDescriptorCapabilities_direct
  by (auto simp: addMetaOptions_def case_prod_beta split: option.splits)

lemma addFileSystemOptions_direct:
  "DirectTools (fst (addFileSystemOptions opts st)) = DirectTools (fst st)"
  "DirectToolConflicts (fst (addFileSystemOptions opts st)) = DirectToolConflicts (fst st)"
  by (auto simp: addFileSystemOptions_fst addDescriptorCapabilities_direct)

text \<open>The direct definitions of both sources are collected first.\<close>

definition direct_caps :: "McpToolDefinition option list \<Rightarrow> RequestContext option \<Rightarrow> MCPToolCapabilities" where
  "direct_caps ds rc = addDirectDefinitions (all_definitions ds rc)
     (emptyMCPToolCapabilities (readLintsEnabledFromRequestContext rc))"

lemma direct_caps_split:
  "(case rc of None \<Rightarrow> addDirectDefinitions ds (emptyMCPToolCapabilities (readLintsEnabledFromRequestContext rc))
    | Some c \<Rightarrow> addDirectDefinitions (rc_Tools c)
        (addDirectDefinitions ds (emptyMCPToolCapabilities (readLintsEnabledFromRequestContext rc)))) =
   direct_caps ds rc"
  by (cases rc) (simp_all add: direct_caps_def all_definitions_def addDirectDefinitions_def)

lemma direct_caps_Pairs: "set (Pairs (direct_caps ds rc)) = pair_key ` def_pairs (all_definitions ds rc)"
  by (simp add: direct_caps_def Pairs_addDirectDefinitions emptyMCPToolCapabilities_def)

lemma derive_Pairs:
  "set (Pairs (deriveMCPToolCapabilities ds fs rc)) = pair_key ` offered_pairs ds fs rc"
  by (simp add: deriveMCPToolCapabilities_def direct_caps_split Let_def case_prod_beta
      finalizeMCPToolCapabilities_def addFileSystemOptions_Pairs addMetaOptions_Pairs direct_caps_Pairs
      offered_pairs_def image_Un Un_ac)

lemma derive_direct:
  "DirectTools (deriveMCPToolCapabilities ds fs rc) = DirectTools (direct_caps ds rc)"
  "DirectToolConflicts (deriveMCPToolCapabilities ds fs rc) = DirectToolConflicts (direct_caps ds rc)"
  by (simp_all add: deriveMCPToolCapabilities_def direct_caps_split Let_def case_prod_beta
      finalizeMCPToolCapabilities_def addFileSystemOptions_direct addMetaOptions_direct)

lemma pair_key_inj:
  assumes "CHR 0x00 \<notin> set (trim_space a)" "CHR 0x00 \<notin> set (trim_space c)"
  shows "mcpPairKey a b = mcpPairKey c d \<longleftrightarrow> trim_space a = trim_space c \<and> trim_space b = trim_space d"
proof
  assume eq: "mcpPairKey a b = mcpPairKey c d"
  have part: "takeWhile (\<lambda>x. x \<noteq> CHR 0x00) (mcpPairKey u v) = trim_space u"
    if "CHR 0x00 \<notin> set (trim_space u)" for u v
    using that by (auto simp: mcpPairKey_def mcpPairSeparator_def takeWhile_tail)
  from eq part [OF assms(1)] part [OF assms(2)] have "trim_space a = trim_space c" by metis
  with eq show "trim_space a = trim_space c \<and> trim_space b = trim_space d" by (simp add: mcpPairKey_def)
qed (simp add: mcpPairKey_def)

lemma offered_trimmed:
  "(s, t) \<in> offered_pairs ds fs rc \<Longrightarrow> trim_space s = s \<and> trim_space t = t"
  by (auto simp: offered_pairs_def def_pairs_def def_target_def option_pairs_def desc_pairs_def
      split: option.splits if_splits)

subsection \<open>Lemmas: direct tools\<close>

text \<open>After the definitions \<open>ds\<close>: a name that is not built in is bound to its only target, is in
  conflict when it has several, and is unknown when it has none.\<close>

definition direct_spec :: "McpToolDefinition option list \<Rightarrow> MCPToolCapabilities \<Rightarrow> string \<Rightarrow> bool" where
  "direct_spec ds caps n \<longleftrightarrow>
     (if IsCurrentlySupportedTool n \<or> direct_targets ds n = {}
      then map_of (DirectTools caps) n = None \<and> n \<notin> set (DirectToolConflicts caps)
      else if \<exists>p. direct_targets ds n = {p}
      then n \<notin> set (DirectToolConflicts caps) \<and>
           (\<exists>t. map_of (DirectTools caps) n = Some t \<and> direct_targets ds n = {(dt_Server t, dt_ToolName t)} \<and>
                dt_InvocationName t = n)
      else map_of (DirectTools caps) n = None \<and> n \<in> set (DirectToolConflicts caps))"

lemma direct_targets_snoc:
  "direct_targets (ds @ [d]) n = direct_targets ds n \<union>
     (case d of None \<Rightarrow> {} | Some e \<Rightarrow> if def_ok e \<and> trim_space (def_Name e) = n then {def_target e} else {})"
  by (auto simp: direct_targets_def split: option.splits)

lemma direct_spec_step:
  assumes "direct_spec ds caps n"
  shows "direct_spec (ds @ [d]) (addDirectDefinition d caps) n"
proof (cases d)
  case None
  with assms show ?thesis
    by (simp add: direct_spec_def direct_targets_snoc addDirectDefinition_def)
next
  case (Some e)
  show ?thesis
  proof (cases "def_ok e \<and> trim_space (def_Name e) = n")
    case False
    then have "direct_targets (ds @ [d]) n = direct_targets ds n"
      using Some by (auto simp: direct_targets_snoc)
    moreover have "map_of (DirectTools (addDirectDefinition d caps)) n = map_of (DirectTools caps) n"
      "n \<in> set (DirectToolConflicts (addDirectDefinition d caps)) \<longleftrightarrow> n \<in> set (DirectToolConflicts caps)"
      using False Some by (auto simp: addDirectDefinition_def Let_def def_ok_def update_conv' delete_conv'
          split: option.splits)
    ultimately show ?thesis using assms by (simp add: direct_spec_def)
  next
    case True
    then have t: "direct_targets (ds @ [d]) n = insert (def_target e) (direct_targets ds n)"
      using Some by (auto simp: direct_targets_snoc)
    have add: "addDirectDefinition d caps =
       (let caps1 = addMCPPair (trim_space (def_ProviderIdentifier e)) (trim_space (def_ToolName e)) caps in
        if IsCurrentlySupportedTool n \<or> n \<in> set (DirectToolConflicts caps) then caps1
        else (case map_of (DirectTools caps) n of
            Some x \<Rightarrow> if (dt_Server x, dt_ToolName x) \<noteq> def_target e
              then caps1\<lparr>DirectTools := AList.delete n (DirectTools caps),
                        DirectToolConflicts := List.insert n (DirectToolConflicts caps)\<rparr>
              else caps1
          | None \<Rightarrow> caps1\<lparr>DirectTools := AList.update n
                \<lparr>dt_InvocationName = n, dt_Server = fst (def_target e), dt_ToolName = snd (def_target e),
                 dt_Description = trim_space (def_Description e), dt_InputSchema = def_InputSchema e\<rparr>
                (DirectTools caps)\<rparr>))"
      using True Some by (auto simp: addDirectDefinition_def Let_def def_ok_def def_target_def
          split: option.splits)
    show ?thesis
    proof (cases "IsCurrentlySupportedTool n")
      case True
      with assms show ?thesis by (simp add: direct_spec_def add)
    next
      case False
      show ?thesis
      proof (cases "direct_targets ds n = {}")
        case True
        with False assms t show ?thesis
          by (simp add: direct_spec_def add Let_def update_conv')
      next
        case ne: False
        show ?thesis
        proof (cases "\<exists>p. direct_targets ds n = {p}")
          case True
          then obtain x where x: "map_of (DirectTools caps) n = Some x" "n \<notin> set (DirectToolConflicts caps)"
              "direct_targets ds n = {(dt_Server x, dt_ToolName x)}" "dt_InvocationName x = n"
            using assms False ne by (auto simp: direct_spec_def)
          show ?thesis
          proof (cases "def_target e = (dt_Server x, dt_ToolName x)")
            case True
            with x t False show ?thesis by (simp add: direct_spec_def add Let_def)
          next
            case neq: False
            then have "\<not> (\<exists>p. direct_targets (ds @ [d]) n = {p})" "direct_targets (ds @ [d]) n \<noteq> {}"
              using t x(3) by auto
            with x neq False show ?thesis by (simp add: direct_spec_def add Let_def delete_conv')
          qed
        next
          case many: False
          with ne have "\<not> (\<exists>p. direct_targets (ds @ [d]) n = {p})"
            using t by (metis subset_insertI subset_singletonD)
          moreover have "map_of (DirectTools caps) n = None" "n \<in> set (DirectToolConflicts caps)"
            using assms many ne False by (simp_all add: direct_spec_def)
          ultimately show ?thesis using False t by (simp add: direct_spec_def add Let_def)
        qed
      qed
    qed
  qed
qed

lemma direct_spec_all: "direct_spec ds (addDirectDefinitions ds (emptyMCPToolCapabilities b)) n"
proof (induction ds rule: rev_induct)
  case Nil
  then show ?case
    by (simp add: direct_spec_def direct_targets_def addDirectDefinitions_def emptyMCPToolCapabilities_def)
next
  case (snoc d ds)
  from direct_spec_step [OF snoc, of d] show ?case by (simp add: addDirectDefinitions_def)
qed

lemma direct_caps_spec: "direct_spec (all_definitions ds rc) (deriveMCPToolCapabilities ds fs rc) n"
  using direct_spec_all [of "all_definitions ds rc" "readLintsEnabledFromRequestContext rc" n]
  by (simp add: direct_spec_def derive_direct direct_caps_def)

lemma direct_targets_trimmed: "direct_targets ds n \<noteq> {} \<Longrightarrow> trim_space n = n \<and> n \<noteq> []"
  by (auto simp: direct_targets_def def_ok_def)

lemma derive_direct_Some:
  assumes "map_of (DirectTools (deriveMCPToolCapabilities ds fs rc)) n = Some t"
  shows "\<not> IsCurrentlySupportedTool n" "dt_InvocationName t = n" "trim_space n = n" "n \<noteq> []"
    "direct_targets (all_definitions ds rc) n = {(dt_Server t, dt_ToolName t)}"
proof -
  have s: "direct_spec (all_definitions ds rc) (deriveMCPToolCapabilities ds fs rc) n"
    by (rule direct_caps_spec)
  have cond: "\<not> (IsCurrentlySupportedTool n \<or> direct_targets (all_definitions ds rc) n = {})"
    using s assms unfolding direct_spec_def by (metis option.distinct(1))
  then show "\<not> IsCurrentlySupportedTool n" by simp
  have "\<exists>p. direct_targets (all_definitions ds rc) n = {p}"
    using s cond assms unfolding direct_spec_def by (metis option.distinct(1))
  with s cond assms have "direct_targets (all_definitions ds rc) n = {(dt_Server t, dt_ToolName t)} \<and>
      dt_InvocationName t = n"
    unfolding direct_spec_def by (metis option.inject)
  then show d: "direct_targets (all_definitions ds rc) n = {(dt_Server t, dt_ToolName t)}"
    and "dt_InvocationName t = n" by simp_all
  from d have "direct_targets (all_definitions ds rc) n \<noteq> {}" by simp
  then show "trim_space n = n" "n \<noteq> []" using direct_targets_trimmed by metis+
qed

subsection \<open>Lemmas: the provider's tools\<close>

lemma tool_key_facts:
  "key_matches ''function'' ''function''" "\<not> key_matches ''function'' ''type''"
  "key_matches ''name'' ''name''" "\<not> key_matches ''name'' ''description''"
  "\<not> key_matches ''name'' ''parameters''"
  by (simp_all add: key_matches_def lower_char_def Let_def)

lemma extractToolName_schema:
  "directToolSchema t = Some item \<Longrightarrow> extractToolName item = Some (trim_space (dt_InvocationName t))"
  by (auto simp: directToolSchema_def extractToolName_def Let_def tool_key_facts split: if_splits option.splits)

definition tool_allowed :: "MCPToolCapabilities \<Rightarrow> string \<Rightarrow> bool" where
  "tool_allowed caps n \<longleftrightarrow> (n = ''ReadLints'' \<longrightarrow> ReadLintsEnabled caps) \<and>
     (n = ''CallMcpTool'' \<longrightarrow> CallMcpEnabled caps) \<and> (n = ''FetchMcpResource'' \<longrightarrow> FetchResourceEnabled caps)"

lemma filter_tool_kept:
  "item \<in> set (tf_kept (filter_tool caps x st)) \<Longrightarrow>
   item \<in> set (tf_kept st) \<or> item = x \<and> (\<exists>n. extractToolName x = Some n \<and> tool_allowed caps n)"
  by (auto simp: filter_tool_def tool_allowed_def Let_def split: option.splits if_splits)

lemma fold_filter_tool_kept:
  "item \<in> set (tf_kept (fold (filter_tool caps) xs st)) \<Longrightarrow>
   item \<in> set (tf_kept st) \<or> item \<in> set xs \<and> (\<exists>n. extractToolName item = Some n \<and> tool_allowed caps n)"
proof (induction xs arbitrary: st)
  case (Cons x xs)
  from Cons.IH [of "filter_tool caps x st"] Cons.prems filter_tool_kept [of item caps x st]
  show ?case by auto
qed simp

lemma filter_tool_allowed:
  "tf_mcpModeAllowed (filter_tool caps x st) \<longleftrightarrow> tf_mcpModeAllowed st \<or> extractToolName x = Some ''CallMcpTool''"
  by (auto simp: filter_tool_def Let_def split: option.splits)

lemma fold_filter_tool_allowed:
  "tf_mcpModeAllowed (fold (filter_tool caps) xs st) \<longleftrightarrow>
     tf_mcpModeAllowed st \<or> (\<exists>x\<in>set xs. extractToolName x = Some ''CallMcpTool'')"
  by (induction xs arbitrary: st) (auto simp: filter_tool_allowed)

lemma add_direct_tools_mem:
  "item \<in> set (fst (add_direct_tools tools names kept seen k)) \<Longrightarrow>
   item \<in> set kept \<or> (\<exists>n t. map_of tools n = Some t \<and> directToolSchema t = Some item)"
proof (induction names arbitrary: kept seen k)
  case (Cons n ns)
  show ?case
  proof (cases "n \<in> set seen \<or> Option.bind (map_of tools n) directToolSchema = None")
    case True
    with Cons.prems have "item \<in> set (fst (add_direct_tools tools ns kept seen k))"
      by (cases "n \<in> set seen") simp_all
    then show ?thesis by (rule Cons.IH)
  next
    case False
    then obtain t schema where ts: "map_of tools n = Some t" "directToolSchema t = Some schema"
      by (auto simp: bind_eq_Some_conv)
    with False Cons.prems have "item \<in> set (fst (add_direct_tools tools ns (kept @ [schema]) (n # seen) (Suc k)))"
      by simp
    from Cons.IH [OF this] ts show ?thesis by auto
  qed
qed simp

text \<open>C8. Direct MCP tools are unambiguous: a name the request declares resolves to a direct tool
  exactly when it is no built-in tool and all its definitions, from both sources, have the same
  server and tool; the tool found is that target.\<close>

theorem direct_tool_unambiguous:
  "(\<exists>t. directTool (deriveMCPToolCapabilities ds fs rc) name = Some t \<and> dt_Server t = s \<and> dt_ToolName t = tn) \<longleftrightarrow>
     \<not> IsCurrentlySupportedTool name \<and>
     direct_targets (all_definitions ds rc) (trim_space name) = {(s, tn)}"
proof -
  let ?c = "deriveMCPToolCapabilities ds fs rc"
  have spec: "direct_spec (all_definitions ds rc) ?c (trim_space name)" by (rule direct_caps_spec)
  have sup: "IsCurrentlySupportedTool (trim_space name) = IsCurrentlySupportedTool name"
    by (simp add: IsCurrentlySupportedTool_def)
  show ?thesis
  proof
    assume "\<exists>t. directTool ?c name = Some t \<and> dt_Server t = s \<and> dt_ToolName t = tn"
    then show "\<not> IsCurrentlySupportedTool name \<and>
        direct_targets (all_definitions ds rc) (trim_space name) = {(s, tn)}"
      using derive_direct_Some [of ds fs rc "trim_space name"] sup by (auto simp: directTool_def)
  next
    assume "\<not> IsCurrentlySupportedTool name \<and>
        direct_targets (all_definitions ds rc) (trim_space name) = {(s, tn)}"
    with spec sup show "\<exists>t. directTool ?c name = Some t \<and> dt_Server t = s \<and> dt_ToolName t = tn"
      by (auto simp: direct_spec_def directTool_def)
  qed
qed

text \<open>A server and tool pair may be called exactly when one of the request's sources offers
  it: the pair key, two trimmed names around a NUL byte, never confuses two pairs as long as no
  server name contains that byte.\<close>

lemma mcp_pair_iff_offered:
  assumes "CHR 0x00 \<notin> set server" "\<And>s t. (s, t) \<in> offered_pairs ds fs rc \<Longrightarrow> CHR 0x00 \<notin> set s"
  shows "hasMCPPair (deriveMCPToolCapabilities ds fs rc) server tool \<longleftrightarrow>
     (trim_space server, trim_space tool) \<in> offered_pairs ds fs rc"
proof -
  have sub: "CHR 0x00 \<notin> set (trim_space server)" using assms(1) set_trim_space by blast
  show ?thesis
  proof
    assume "hasMCPPair (deriveMCPToolCapabilities ds fs rc) server tool"
    then obtain s t where st: "(s, t) \<in> offered_pairs ds fs rc" "mcpPairKey server tool = mcpPairKey s t"
      by (auto simp: hasMCPPair_def derive_Pairs pair_key_def)
    moreover from offered_trimmed [OF st(1)] have "trim_space s = s" "trim_space t = t" by auto
    ultimately show "(trim_space server, trim_space tool) \<in> offered_pairs ds fs rc"
      using pair_key_inj [OF sub, of s tool t] assms(2) by metis
  next
    assume "(trim_space server, trim_space tool) \<in> offered_pairs ds fs rc"
    then have "pair_key (trim_space server, trim_space tool) \<in> pair_key ` offered_pairs ds fs rc" by (rule imageI)
    then show "hasMCPPair (deriveMCPToolCapabilities ds fs rc) server tool"
      by (simp add: hasMCPPair_def derive_Pairs pair_key_def mcpPairKey_def)
  qed
qed

text \<open>The tools sent to the provider respect the capabilities: a tool in the list is a compiled
  tool whose capability is enabled, or the schema of an unambiguous direct tool, and direct tools
  appear only where the mode's catalog contains CallMcpTool.\<close>

lemma provider_tools_gated:
  assumes "item \<in> set (cc_Tools (applyProviderToolCapabilities compiled (deriveMCPToolCapabilities ds fs rc)))"
  shows "\<exists>n. extractToolName item = Some n \<and>
     tool_allowed (deriveMCPToolCapabilities ds fs rc) n \<and>
     (item \<in> set (cc_Tools compiled) \<or>
      \<not> IsCurrentlySupportedTool n \<and> (\<exists>p. direct_targets (all_definitions ds rc) n = {p}) \<and>
      (\<exists>x\<in>set (cc_Tools compiled). extractToolName x = Some ''CallMcpTool''))"
proof -
  let ?c = "deriveMCPToolCapabilities ds fs rc"
  let ?st = "fold (filter_tool ?c) (cc_Tools compiled)
    \<lparr>tf_kept = [], tf_seen = [], tf_hadMCPTool = False, tf_mcpModeAllowed = False\<rparr>"
  from assms consider (kept) "item \<in> set (tf_kept ?st)"
    | (direct) "tf_mcpModeAllowed ?st" "item \<in> set (fst (add_direct_tools (DirectTools ?c)
        (sort (map fst (DirectTools ?c))) (tf_kept ?st) (tf_seen ?st) 0))"
    by (auto simp: applyProviderToolCapabilities_def Let_def case_prod_beta split: if_splits)
  then show ?thesis
  proof cases
    case kept
    then show ?thesis using fold_filter_tool_kept [of item ?c "cc_Tools compiled"] by fastforce
  next
    case direct
    from add_direct_tools_mem [OF direct(2)] show ?thesis
    proof
      assume "item \<in> set (tf_kept ?st)"
      then show ?thesis using fold_filter_tool_kept [of item ?c "cc_Tools compiled"] by fastforce
    next
      assume "\<exists>n t. map_of (DirectTools ?c) n = Some t \<and> directToolSchema t = Some item"
      then obtain n t where nt: "map_of (DirectTools ?c) n = Some t" "directToolSchema t = Some item" by blast
      note d = derive_direct_Some [OF nt(1)]
      have "extractToolName item = Some n" using extractToolName_schema [OF nt(2)] d by simp
      moreover have "tool_allowed ?c n"
        using d(1,3) by (auto simp: tool_allowed_def IsCurrentlySupportedTool_def)
      ultimately show ?thesis using direct(1) d by (auto simp: fold_filter_tool_allowed)
    qed
  qed
qed

subsection \<open>Witnesses\<close>

definition demo_definition :: McpToolDefinition where
  "demo_definition = \<lparr>def_Name = ''fs_read'', def_ProviderIdentifier = ''fs'', def_ToolName = ''read'',
     def_Description = [], def_InputSchema = None\<rparr>"

lemma demo_offered: "offered_pairs [Some demo_definition] None None = {(''fs'', ''read'')}"
proof -
  have "trim_space ''fs_read'' = ''fs_read''" "trim_space ''fs'' = ''fs''" "trim_space ''read'' = ''read''"
    by code_simp+
  then show ?thesis
    by (auto simp: offered_pairs_def all_definitions_def option_pairs_def def_pairs_def def_target_def
        def_ok_def demo_definition_def)
qed

lemma demo_mcp_pair:
  "hasMCPPair (deriveMCPToolCapabilities [Some demo_definition] None None) '' fs'' ''read'' \<longleftrightarrow>
     (trim_space '' fs'', trim_space ''read'') \<in> offered_pairs [Some demo_definition] None None"
  by (rule mcp_pair_iff_offered) (auto simp: demo_offered)

definition demo_compiled :: CompiledConversation where
  "demo_compiled = \<lparr>cc_Mode = AGENT_MODE_AGENT, cc_PromptProfile = [], cc_Messages = [], cc_StableMessageCount = 0,
     cc_Tools = [RawJson (JObject [(''function'', JObject [(''name'', JString ''CallMcpTool'')])]),
                 RawJson (JObject [(''function'', JObject [(''name'', JString ''ReadLints'')])])],
     cc_CompileSummary = [], cc_ProviderProjectionApplied = False, cc_ProviderProjectionFallback = False,
     cc_RequiresToolCapabilityProjection = True\<rparr>"

lemma demo_tools:
  "cc_Tools (applyProviderToolCapabilities demo_compiled
     (deriveMCPToolCapabilities [Some demo_definition] None None)) =
   [RawJson (JObject [(''function'', JObject [(''name'', JString ''ReadLints'')])]),
    the (directToolSchema \<lparr>dt_InvocationName = ''fs_read'', dt_Server = ''fs'', dt_ToolName = ''read'',
      dt_Description = [], dt_InputSchema = None\<rparr>)]"
  by code_simp

lemma demo_tools_gated:
  "\<exists>n. extractToolName (RawJson (JObject [(''function'', JObject [(''name'', JString ''ReadLints'')])])) = Some n \<and>
     tool_allowed (deriveMCPToolCapabilities [Some demo_definition] None None) n \<and>
     (RawJson (JObject [(''function'', JObject [(''name'', JString ''ReadLints'')])]) \<in> set (cc_Tools demo_compiled) \<or>
      \<not> IsCurrentlySupportedTool n \<and>
      (\<exists>p. direct_targets (all_definitions [Some demo_definition] None) n = {p}) \<and>
      (\<exists>x\<in>set (cc_Tools demo_compiled). extractToolName x = Some ''CallMcpTool''))"
  by (rule provider_tools_gated [where fs = None]) (simp add: demo_tools)

end
