(* ===== verification/Stream_Types.thy ===== *)
theory Stream_Types
  imports Mcp_Capabilities
begin

text \<open>
  The data of a request's active stream, \<open>forwarder/types.go\<close> and \<open>forwarder/actor.go\<close>.  The
  struct \<open>ActiveStream\<close> is split, by record extension, into the fields of the turn
  (\<open>stream_turn\<close>), those of the provider call (\<open>stream_provider\<close>), the event log
  (\<open>stream_log\<close>) and the bridges to the client (\<open>ActiveStream\<close>); the lock has no field, because
  every operation of the model is one critical section.

  A Go map is an association list, and \<open>None\<close> where the program distinguishes a nil map.  A
  channel, a cancel function or a timer is the number it was allocated under; what the program
  does to it (cancel, close, stop, start) is in the effect list an operation returns.  The
  fields \<open>SubagentModelOverrides\<close>, \<open>ActorMailbox\<close>, \<open>CheckpointConversation\<close>,
  \<open>ProviderContextMeasurement\<close> and the provider's time stamps are left out: no modelled operation
  on the stream reads them.
\<close>

datatype StreamStatus = StreamStatusEmpty | StreamStatusCreated | StreamStatusStreaming
  | StreamStatusCompleted | StreamStatusCanceled | StreamStatusFailed

datatype TurnPhase = TurnPhaseEmpty | TurnPhaseIdle | TurnPhaseProviderRunning | TurnPhaseWaitingExternal
  | TurnPhaseAwaitingUser | TurnPhaseCompacting | TurnPhaseCompleted | TurnPhaseFailed | TurnPhaseCanceled

datatype providerAction = providerActionNone | providerActionStart | providerActionResume

datatype pendingCompletionDisposition = completionDispositionNone
  | completionDispositionResumeAfterExternal | completionDispositionCompleteAfterExternal

text \<open>The message of an event: a conversation checkpoint, or any other server message.\<close>

datatype server_message = ConversationCheckpointUpdate string | OtherServerMessage string

record StreamEvent =
  ev_Sequence :: nat
  ev_Message :: "server_message option"
  ev_End :: bool
  ev_TerminalErrorCode :: string
  ev_TerminalErrorMessage :: string

text \<open>A subscriber's channel has a buffer of one: \<open>sub_Signal\<close> says whether a signal is in it.\<close>

record StreamSubscriber =
  sub_Signal :: bool
  sub_Cursor :: nat

record turnUsageSnapshot =
  us_Provider :: string
  us_Model :: string
  us_InputTokens :: int
  us_OutputTokens :: int
  us_CacheReadTokens :: int
  us_CacheWriteTokens :: int
  us_UsagePresent :: bool
  us_CacheReadPresent :: bool
  us_CacheWritePresent :: bool

definition emptyUsage :: turnUsageSnapshot where
  "emptyUsage = \<lparr>us_Provider = [], us_Model = [], us_InputTokens = 0, us_OutputTokens = 0,
     us_CacheReadTokens = 0, us_CacheWriteTokens = 0, us_UsagePresent = False,
     us_CacheReadPresent = False, us_CacheWritePresent = False\<rparr>"

record pendingTurnCompletion =
  ptc_ConversationID :: string
  ptc_RequestID :: string
  ptc_TurnSeq :: int
  ptc_ModelCallID :: string
  ptc_ProviderPass :: int
  ptc_Usage :: turnUsageSnapshot
  ptc_Disposition :: pendingCompletionDisposition

record streamTimerRegistration =
  reg_Token :: nat
  reg_Timer :: nat

record PendingExec =
  pe_MessageID :: nat
  pe_ExecID :: string
  pe_ProviderPass :: int
  pe_ModelCallID :: string
  pe_ToolCallID :: string
  pe_ArgsJSON :: raw_json
  pe_VisibleToolName :: string
  pe_VisibleArgsJSON :: raw_json
  pe_ReasoningContent :: string
  pe_ReasoningSignature :: string
  pe_ReasoningSignatureSource :: string
  pe_ExecKind :: string
  pe_StreamState :: string
  pe_OpenedAt :: go_time
  pe_FirstChunkAt :: go_time
  pe_ChunkCount :: int
  pe_LastShellActivityAt :: go_time
  pe_LastShellHeartbeatAt :: go_time
  pe_ShellForegroundDeadline :: go_time
  pe_ShellRecoveryScheduled :: bool
  pe_StdoutBuffer :: string
  pe_StderrBuffer :: string
  pe_StdoutDroppedBytes :: int
  pe_StderrDroppedBytes :: int
  pe_ArtifactPath :: string

record PendingInteraction =
  pi_InteractionID :: string
  pi_ProviderPass :: int
  pi_ModelCallID :: string
  pi_ToolCallID :: string
  pi_ArgsJSON :: raw_json
  pi_ReasoningContent :: string
  pi_ReasoningSignature :: string
  pi_ReasoningSignatureSource :: string
  pi_InteractionKind :: string
  pi_OpenedAt :: go_time
  pi_ArtifactPath :: string

record interruptedToolCall =
  itc_ToolCallID :: string
  itc_ToolName :: string
  itc_Arguments :: string
  itc_ReasoningContent :: string
  itc_ReasoningSignature :: string
  itc_ReasoningSignatureSource :: string
  itc_ProviderItemID :: string
  itc_ProviderCallID :: string
  itc_ProviderStatus :: string
  itc_ModelCallID :: string
  itc_ToolCall :: raw_json

record patchEditArgs =
  pea_Path :: string
  pea_OldString :: string
  pea_NewString :: string
  pea_NewStringSet :: bool
  pea_ReplaceAll :: bool
  pea_ReplaceAllSet :: bool

record pendingPatchEditPayload =
  pep_ToolName :: string
  pep_RawArgsJSON :: raw_json
  pep_ArgsDecodeFailed :: bool
  pep_Args :: patchEditArgs
  pep_ResolvedPath :: string
  pep_BeforeContent :: string
  pep_AfterContent :: string
  pep_DiffString :: string
  pep_LinesAdded :: int
  pep_LinesRemoved :: int
  pep_Message :: string

record queuedPatchEditOperation =
  qop_ToolCallID :: string
  qop_ModelCallID :: string
  qop_ProviderPass :: int
  qop_ReasoningContent :: string
  qop_ReasoningSignature :: string
  qop_ReasoningSignatureSource :: string
  qop_Payload :: pendingPatchEditPayload

record BackgroundShellState =
  bs_ShellID :: string
  bs_Command :: string
  bs_WorkingDirectory :: string
  bs_PID :: "nat option"
  bs_OriginalToolCallID :: string
  bs_OriginalExecID :: string
  bs_OriginalMessageID :: nat
  bs_ModelCallID :: string
  bs_ArgsJSON :: raw_json
  bs_Status :: string
  bs_ExitCode :: "int option"
  bs_StdoutBuffer :: string
  bs_StderrBuffer :: string
  bs_StdoutDroppedBytes :: int
  bs_StderrDroppedBytes :: int
  bs_AwaitStdoutOffset :: int
  bs_AwaitStderrOffset :: int
  bs_CreatedAt :: go_time
  bs_LastActivityAt :: go_time
  bs_CompletedAt :: go_time
  bs_StreamClosed :: bool

record compactedTurnSummary =
  cts_UserText :: string
  cts_Steps :: "string list"

text \<open>\<open>ContextUsagePercent\<close>, a \<open>float64\<close> that is only displayed, is left out.\<close>

record PendingCompaction =
  pc_Trigger :: string
  pc_ContextTokens :: int
  pc_ContextWindowSize :: int
  pc_ReserveTokens :: int
  pc_MessageCount :: int
  pc_MessagesToCompact :: int
  pc_CompactTurnCount :: int
  pc_IsFirstCompaction :: bool
  pc_ExistingSummary :: string
  pc_CompactedTurns :: "compactedTurnSummary list"
  pc_ManualInstruction :: string
  pc_RequestSource :: string
  pc_CurrentTurnSeq :: int
  pc_CurrentRequestID :: string
  pc_CurrentUserText :: string
  pc_PreserveCurrentTurnInputs :: bool
  pc_HookMessage :: string
  pc_SummaryModelCallID :: string
  pc_StartedAt :: go_time

subsection \<open>The active stream\<close>

record stream_turn =
  st_RequestID :: string
  st_ConversationID :: string
  st_TurnSeq :: int
  st_ModelID :: string
  st_ResolvedModelID :: string
  st_ModelName :: string
  st_Mode :: AgentMode
  st_LatestUserText :: string
  st_Status :: StreamStatus
  st_ThinkingEffort :: string
  st_Phase :: TurnPhase
  st_CreatedAt :: go_time
  st_UpdatedAt :: go_time

record stream_provider = stream_turn +
  st_CurrentModelCallID :: string
  st_ProviderActive :: bool
  st_ProviderCancel :: "nat option"
  st_ProviderPassCount :: int
  st_ToolInvocationCount :: int
  st_ActorDone :: "nat option"
  st_ActorStop :: "nat option"
  st_ActorStopping :: bool
  st_PendingProviderAction :: providerAction
  st_PendingProviderCompletion :: "pendingTurnCompletion option"
  st_CurrentProviderToken :: nat
  st_CurrentCompactionToken :: nat
  st_NextTimerToken :: nat
  st_Timers :: "(string \<times> streamTimerRegistration) list option"
  st_ProviderAccumulatedText :: string
  st_ProviderAccumulatedReasoning :: string
  st_ProviderAccumulatedReasoningSignature :: string
  st_ProviderAccumulatedReasoningSignatureSource :: string
  st_ProviderAccumulatedReasoningItemID :: string
  st_ProviderAccumulatedReasoningStatus :: string
  st_ProviderAccumulatedReasoningSummary :: raw_json
  st_ProviderFinishReason :: string
  st_ProviderUsage :: turnUsageSnapshot
  st_ProviderTerminalToolInvocation :: bool
  st_InterruptedTurnFinalized :: bool
  st_PendingCompaction :: "PendingCompaction option"

record stream_log = stream_provider +
  st_Backlog :: "StreamEvent list"
  st_BacklogFirstSequence :: nat
  st_NextBacklogSequence :: nat
  st_LatestCheckpoint :: "StreamEvent option"
  st_Subscribers :: "(string \<times> StreamSubscriber) list option"
  st_TerminalCleanupTimer :: "nat option"
  st_TerminalCleanupSeq :: nat

record ActiveStream = stream_log +
  st_PendingExecs :: "(string \<times> PendingExec) list option"
  st_PendingInteractions :: "(string \<times> PendingInteraction) list option"
  st_PartialToolCallIDs :: "string list option"
  st_PartialToolCalls :: "(string \<times> interruptedToolCall) list option"
  st_PatchEditQueues :: "(string \<times> queuedPatchEditOperation list) list option"
  st_ToolCapabilities :: MCPToolCapabilities
  st_WorkspacePaths :: "string list"
  st_TerminalsFolder :: string
  st_RequestFileContents :: "(string \<times> string) list option"
  st_RecentCompletedExecs :: "(nat \<times> go_time) list option"
  st_BackgroundShells :: "(string \<times> BackgroundShellState) list option"
  st_BackgroundShellsByMessageID :: "(nat \<times> string) list option"
  st_BackgroundShellsByExecID :: "(string \<times> string) list option"
  st_BackgroundShellActions :: "(string \<times> go_time) list option"

text \<open>Reading a nil map gives no entry; writing to one panics (\<open>None\<close>).\<close>

definition entries :: "('k \<times> 'v) list option \<Rightarrow> ('k \<times> 'v) list" where
  "entries m = (case m of None \<Rightarrow> [] | Some kvs \<Rightarrow> kvs)"

definition put_entry :: "'k \<Rightarrow> 'v \<Rightarrow> ('k \<times> 'v) list option \<Rightarrow> ('k \<times> 'v) list option option" where
  "put_entry k v m = map_option (\<lambda>kvs. Some (AList.update k v kvs)) m"

definition del_entry :: "'k \<Rightarrow> ('k \<times> 'v) list option \<Rightarrow> ('k \<times> 'v) list option" where
  "del_entry k m = map_option (AList.delete k) m"

definition make_if_nil :: "'a list option \<Rightarrow> 'a list option" where
  "make_if_nil m = (case m of None \<Rightarrow> Some [] | Some kvs \<Rightarrow> Some kvs)"

lemma entries_simps [simp]: "entries None = []" "entries (Some kvs) = kvs"
  by (simp_all add: entries_def)

lemma entries_del [simp]: "entries (del_entry k m) = AList.delete k (entries m)"
  by (cases m) (simp_all add: del_entry_def)

lemma put_entry_Some [simp]: "put_entry k v (Some kvs) = Some (Some (AList.update k v kvs))"
  by (simp add: put_entry_def)

lemma set_AList_update: "p \<in> set (AList.update k v al) \<Longrightarrow> p = (k, v) \<or> p \<in> set al"
  by (induction al) (auto split: if_splits)

lemma set_AList_delete: "p \<in> set (AList.delete k al) \<Longrightarrow> p \<in> set al"
  by (auto simp: AList.delete_eq)

text \<open>What the code does to channels, timers and provider contexts.\<close>

datatype stream_effect = CancelProvider nat | CloseChannel nat | StopTimer nat
  | StartCleanupTimer string nat

definition isTerminalStreamStatus :: "StreamStatus \<Rightarrow> bool" where
  "isTerminalStreamStatus s \<longleftrightarrow> s \<in> set [StreamStatusCanceled, StreamStatusCompleted, StreamStatusFailed]"

definition isTerminalPhase :: "TurnPhase \<Rightarrow> bool" where
  "isTerminalPhase p \<longleftrightarrow> p \<in> set [TurnPhaseCanceled, TurnPhaseCompleted, TurnPhaseFailed]"

end
