(* ===== verification/Stream_Broker.thy ===== *)
theory Stream_Broker
  imports Stream_Types
begin

text \<open>
  The registry of active streams, \<open>forwarder/broker.go\<close>, with the two functions of
  \<open>forwarder/actor.go\<close> it calls on shutdown and the reading loop of \<open>RunSSE\<close> in
  \<open>forwarder/service.go\<close>.  The broker maps request ids to streams on a heap, because a stream that
  was looked up stays reachable after it has been removed from the map.  Each function is the
  sequence of critical sections of the Go method; \<open>now\<close> is the clock.

  Sequence numbers are \<open>uint64\<close>: additions go through \<open>u64\<close>.
\<close>

definition streamBacklogMaxEvents :: nat where "streamBacklogMaxEvents = 1024"

record StreamBroker =
  sb_streams :: "(string \<times> nat) list"
  sb_heap :: "ActiveStream list"
  sb_nextID :: nat

datatype broker_error = RequestIDRequired | RequestNotActive string | OpenStreamFailed mode_error

definition NewStreamBroker :: StreamBroker where
  "NewStreamBroker = \<lparr>sb_streams = [], sb_heap = [], sb_nextID = 0\<rparr>"

definition stream_at :: "StreamBroker \<Rightarrow> nat \<Rightarrow> ActiveStream" where
  "stream_at b a = sb_heap b ! a"

definition set_stream :: "nat \<Rightarrow> ActiveStream \<Rightarrow> StreamBroker \<Rightarrow> StreamBroker" where
  "set_stream a s b = b\<lparr>sb_heap := (sb_heap b)[a := s]\<rparr>"

definition Get :: "StreamBroker \<Rightarrow> string \<Rightarrow> nat option" where
  "Get b requestID = map_of (sb_streams b) (trim_space requestID)"

definition stopTerminalCleanupTimerLocked :: "ActiveStream \<Rightarrow> ActiveStream \<times> stream_effect list" where
  "stopTerminalCleanupTimerLocked s =
     (s\<lparr>st_TerminalCleanupSeq := u64 (st_TerminalCleanupSeq s + 1), st_TerminalCleanupTimer := None\<rparr>,
      case st_TerminalCleanupTimer s of None \<Rightarrow> [] | Some t \<Rightarrow> [StopTimer t])"

subsection \<open>Shutdown\<close>

definition clearAllStreamTimers :: "go_time \<Rightarrow> ActiveStream \<Rightarrow> ActiveStream \<times> stream_effect list" where
  "clearAllStreamTimers now s =
     (let regs = entries (st_Timers s)
      in (s\<lparr>st_Timers := map_option (\<lambda>_. []) (st_Timers s),
            st_UpdatedAt := (if regs = [] then st_UpdatedAt s else now)\<rparr>,
          map (\<lambda>(k, r). StopTimer (reg_Timer r)) regs))"

definition releaseTerminalStreamState :: "go_time \<Rightarrow> ActiveStream \<Rightarrow> ActiveStream" where
  "releaseTerminalStreamState now s = s\<lparr>
     st_ProviderCancel := None, st_ProviderActive := False, st_PendingProviderAction := providerActionNone,
     st_PendingProviderCompletion := None, st_PendingCompaction := None,
     st_ProviderAccumulatedText := [], st_ProviderAccumulatedReasoning := [],
     st_ProviderAccumulatedReasoningSignature := [], st_ProviderAccumulatedReasoningSignatureSource := [],
     st_ProviderAccumulatedReasoningItemID := [], st_ProviderAccumulatedReasoningStatus := [],
     st_ProviderAccumulatedReasoningSummary := RawEmpty, st_ProviderFinishReason := [],
     st_ProviderUsage := emptyUsage, st_ProviderTerminalToolInvocation := False,
     st_InterruptedTurnFinalized := False, st_ToolInvocationCount := 0,
     st_PendingExecs := None, st_PendingInteractions := None, st_PartialToolCallIDs := None,
     st_PartialToolCalls := None, st_PatchEditQueues := None,
     st_ToolCapabilities := emptyMCPToolCapabilities False, st_WorkspacePaths := [],
     st_TerminalsFolder := [], st_RequestFileContents := None, st_RecentCompletedExecs := None,
     st_BackgroundShells := None, st_BackgroundShellsByMessageID := None,
     st_BackgroundShellsByExecID := None, st_BackgroundShellActions := None, st_UpdatedAt := now\<rparr>"

definition shutdown_stream :: "go_time \<Rightarrow> ActiveStream \<Rightarrow> ActiveStream \<times> stream_effect list" where
  "shutdown_stream now s0 =
     (let (s1, e1) = stopTerminalCleanupTimerLocked s0;
          e2 = (case st_ProviderCancel s1 of None \<Rightarrow> [] | Some c \<Rightarrow> [CancelProvider c]);
          e3 = (case st_ActorStop s1 of None \<Rightarrow> [] | Some c \<Rightarrow> [CloseChannel c]);
          s2 = s1\<lparr>st_ProviderCancel := None, st_ProviderActive := False, st_ActorStopping := True,
                  st_ActorStop := None, st_Status := StreamStatusCanceled, st_Phase := TurnPhaseCanceled,
                  st_Backlog := [], st_LatestCheckpoint := None, st_Subscribers := None, st_UpdatedAt := now\<rparr>
      in if st_ActorDone s2 \<noteq> None then (s2, e1 @ e2 @ e3)
         else let (s3, e4) = clearAllStreamTimers now s2
              in (releaseTerminalStreamState now s3, e1 @ e2 @ e3 @ e4))"

definition shutdown_step ::
    "go_time \<Rightarrow> nat \<Rightarrow> StreamBroker \<times> stream_effect list \<times> nat list \<Rightarrow> StreamBroker \<times> stream_effect list \<times> nat list" where
  "shutdown_step now a st = (case st of (b, effs, waiters) \<Rightarrow>
     (let s = stream_at b a; (s', e) = shutdown_stream now s
      in (set_stream a s' b, effs @ e,
          waiters @ (case st_ActorDone s of None \<Rightarrow> [] | Some d \<Rightarrow> [d]))))"

text \<open>Returns the broker, the effects, and the channels of the actors to wait for.\<close>

definition Shutdown :: "go_time \<Rightarrow> StreamBroker \<Rightarrow> StreamBroker \<times> stream_effect list \<times> nat list" where
  "Shutdown now b = fold (shutdown_step now) (map snd (sb_streams b)) (b\<lparr>sb_streams := []\<rparr>, [], [])"

subsection \<open>Opening and subscribing\<close>

definition new_stream ::
    "go_time \<Rightarrow> string \<Rightarrow> string \<Rightarrow> int \<Rightarrow> string \<Rightarrow> string \<Rightarrow> AgentMode \<Rightarrow> string \<Rightarrow> ActiveStream" where
  "new_stream now rid conv turnSeq modelID modelName mode text =
     \<lparr>st_RequestID = rid, st_ConversationID = trim_space conv, st_TurnSeq = turnSeq,
      st_ModelID = trim_space modelID, st_ResolvedModelID = [], st_ModelName = trim_space modelName,
      st_Mode = mode, st_LatestUserText = trim_space text, st_Status = StreamStatusCreated,
      st_ThinkingEffort = [], st_Phase = TurnPhaseEmpty, st_CreatedAt = now, st_UpdatedAt = now,
      st_CurrentModelCallID = [], st_ProviderActive = False, st_ProviderCancel = None,
      st_ProviderPassCount = 0, st_ToolInvocationCount = 0, st_ActorDone = None, st_ActorStop = None,
      st_ActorStopping = False, st_PendingProviderAction = providerActionNone,
      st_PendingProviderCompletion = None, st_CurrentProviderToken = 0, st_CurrentCompactionToken = 0,
      st_NextTimerToken = 0, st_Timers = None, st_ProviderAccumulatedText = [],
      st_ProviderAccumulatedReasoning = [], st_ProviderAccumulatedReasoningSignature = [],
      st_ProviderAccumulatedReasoningSignatureSource = [], st_ProviderAccumulatedReasoningItemID = [],
      st_ProviderAccumulatedReasoningStatus = [], st_ProviderAccumulatedReasoningSummary = RawEmpty,
      st_ProviderFinishReason = [], st_ProviderUsage = emptyUsage,
      st_ProviderTerminalToolInvocation = False, st_InterruptedTurnFinalized = False,
      st_PendingCompaction = None,
      st_Backlog = [], st_BacklogFirstSequence = 1, st_NextBacklogSequence = 1,
      st_LatestCheckpoint = None, st_Subscribers = Some [], st_TerminalCleanupTimer = None,
      st_TerminalCleanupSeq = 0,
      st_PendingExecs = Some [], st_PendingInteractions = Some [], st_PartialToolCallIDs = Some [],
      st_PartialToolCalls = Some [], st_PatchEditQueues = Some [],
      st_ToolCapabilities = emptyMCPToolCapabilities True, st_WorkspacePaths = [],
      st_TerminalsFolder = [], st_RequestFileContents = None, st_RecentCompletedExecs = Some [],
      st_BackgroundShells = Some [], st_BackgroundShellsByMessageID = Some [],
      st_BackgroundShellsByExecID = Some [], st_BackgroundShellActions = Some []\<rparr>"

definition refresh_stream ::
    "go_time \<Rightarrow> string \<Rightarrow> int \<Rightarrow> string \<Rightarrow> string \<Rightarrow> AgentMode \<Rightarrow> string \<Rightarrow> ActiveStream \<Rightarrow> ActiveStream" where
  "refresh_stream now conv turnSeq modelID modelName mode text s = s\<lparr>
     st_ConversationID := trim_space conv, st_TurnSeq := turnSeq, st_ModelID := trim_space modelID,
     st_ModelName := trim_space modelName, st_Mode := mode, st_LatestUserText := trim_space text,
     st_Status := (if st_Status s = StreamStatusEmpty then StreamStatusCreated else st_Status s),
     st_PendingExecs := make_if_nil (st_PendingExecs s),
     st_PendingInteractions := make_if_nil (st_PendingInteractions s),
     st_PartialToolCallIDs := make_if_nil (st_PartialToolCallIDs s),
     st_PartialToolCalls := make_if_nil (st_PartialToolCalls s),
     st_PatchEditQueues := make_if_nil (st_PatchEditQueues s),
     st_BackgroundShells := make_if_nil (st_BackgroundShells s),
     st_BackgroundShellsByMessageID := make_if_nil (st_BackgroundShellsByMessageID s),
     st_BackgroundShellsByExecID := make_if_nil (st_BackgroundShellsByExecID s),
     st_BackgroundShellActions := make_if_nil (st_BackgroundShellActions s), st_UpdatedAt := now\<rparr>"

text \<open>\<open>Inr (None, b)\<close> is the nil stream without an error that a blank request id gives.\<close>

definition OpenStream ::
    "go_time \<Rightarrow> string \<Rightarrow> string \<Rightarrow> int \<Rightarrow> string \<Rightarrow> string \<Rightarrow> AgentMode \<Rightarrow> string \<Rightarrow> StreamBroker \<Rightarrow>
     mode_error + nat option \<times> StreamBroker" where
  "OpenStream now requestID conv turnSeq modelID modelName mode text b =
     (let rid = trim_space requestID in
      if rid = [] then Inr (None, b)
      else case validateSupportedActiveMode mode of
        Inl e \<Rightarrow> Inl e
      | Inr m \<Rightarrow>
          (case map_of (sb_streams b) rid of
             Some a \<Rightarrow> Inr (Some a, set_stream a
               (refresh_stream now conv turnSeq modelID modelName m text (stream_at b a)) b)
           | None \<Rightarrow> Inr (Some (length (sb_heap b)),
               b\<lparr>sb_heap := sb_heap b @ [new_stream now rid conv turnSeq modelID modelName m text],
                 sb_streams := AList.update rid (length (sb_heap b)) (sb_streams b)\<rparr>)))"

definition firstBacklogSequenceLocked :: "ActiveStream \<Rightarrow> nat" where
  "firstBacklogSequenceLocked s =
     (if st_Backlog s \<noteq> [] \<and> ev_Sequence (hd (st_Backlog s)) > 0 then ev_Sequence (hd (st_Backlog s))
      else if st_BacklogFirstSequence s > 0 then st_BacklogFirstSequence s
      else if st_NextBacklogSequence s > 0 then st_NextBacklogSequence s else 1)"

text \<open>The first critical section of \<open>Subscribe\<close>: find the stream, or open a placeholder.\<close>

definition Subscribe_lookup :: "go_time \<Rightarrow> string \<Rightarrow> StreamBroker \<Rightarrow> broker_error + nat \<times> StreamBroker" where
  "Subscribe_lookup now requestID b =
     (let rid = trim_space requestID in
      if rid = [] then Inl RequestIDRequired
      else case Get b rid of
        Some a \<Rightarrow> Inr (a, b)
      | None \<Rightarrow> (case OpenStream now rid [] 0 [] [] AGENT_MODE_AGENT [] b of
            Inl e \<Rightarrow> Inl (OpenStreamFailed e)
          | Inr (None, b') \<Rightarrow> Inl RequestIDRequired
          | Inr (Some a, b') \<Rightarrow> Inr (a, b')))"

definition subscribe_cursor :: "ActiveStream \<Rightarrow> nat" where
  "subscribe_cursor s = (case st_LatestCheckpoint s of
       Some c \<Rightarrow> if ev_Sequence c > 0 then ev_Sequence c
                 else if st_Backlog s \<noteq> [] then st_BacklogFirstSequence s
                 else if st_NextBacklogSequence s = 0 then 1 else st_NextBacklogSequence s
     | None \<Rightarrow> if st_Backlog s \<noteq> [] then st_BacklogFirstSequence s
               else if st_NextBacklogSequence s = 0 then 1 else st_NextBacklogSequence s)"

text \<open>The second one registers the subscriber at the stream found; \<open>None\<close> is the panic of writing
  to a nil map.  The result is the subscriber id and its cursor.\<close>

definition Subscribe_register ::
    "go_time \<Rightarrow> nat \<Rightarrow> StreamBroker \<Rightarrow> ((string \<times> nat) \<times> stream_effect list \<times> StreamBroker) option" where
  "Subscribe_register now a b =
     (let nextID = u64 (sb_nextID b + 1); subscriberID = ''sub-'' @ nat_dec nextID;
          (s1, e1) = stopTerminalCleanupTimerLocked (stream_at b a);
          s2 = (if st_BacklogFirstSequence s1 = 0
                then s1\<lparr>st_BacklogFirstSequence := firstBacklogSequenceLocked s1\<rparr> else s1);
          cursor = subscribe_cursor s2
      in case put_entry subscriberID \<lparr>sub_Signal = False, sub_Cursor = cursor\<rparr> (st_Subscribers s2) of
           None \<Rightarrow> None
         | Some subs \<Rightarrow> Some ((subscriberID, cursor), e1,
             set_stream a (s2\<lparr>st_Subscribers := subs, st_UpdatedAt := now\<rparr>) (b\<lparr>sb_nextID := nextID\<rparr>)))"

subsection \<open>The backlog\<close>

definition min_cursor :: "ActiveStream \<Rightarrow> nat" where
  "min_cursor s = fold (\<lambda>(k, sub) m. if sub_Cursor sub < m then sub_Cursor sub else m)
     (entries (st_Subscribers s)) (st_NextBacklogSequence s)"

definition compactBacklogLocked :: "ActiveStream \<Rightarrow> ActiveStream" where
  "compactBacklogLocked s =
     (if st_Backlog s = []
      then if st_NextBacklogSequence s > 0
           then s\<lparr>st_BacklogFirstSequence := st_NextBacklogSequence s\<rparr> else s
      else
        let n = length (st_Backlog s);
            keep0 = (if entries (st_Subscribers s) \<noteq> [] \<and> min_cursor s > st_BacklogFirstSequence s
                     then min (min_cursor s - st_BacklogFirstSequence s) n else 0);
            keepFrom = (if n - keep0 > streamBacklogMaxEvents then n - streamBacklogMaxEvents else keep0)
        in if keepFrom = 0 then s
           else s\<lparr>st_Backlog := drop keepFrom (st_Backlog s),
                  st_BacklogFirstSequence := u64 (st_BacklogFirstSequence s + keepFrom)\<rparr>)"

definition isCheckpointStreamEvent :: "StreamEvent \<Rightarrow> bool" where
  "isCheckpointStreamEvent e \<longleftrightarrow> \<not> ev_End e \<and>
     (case ev_Message e of Some (ConversationCheckpointUpdate _) \<Rightarrow> True | _ \<Rightarrow> False)"

definition tombstoneLatestCheckpointLocked :: "ActiveStream \<Rightarrow> ActiveStream" where
  "tombstoneLatestCheckpointLocked s = (case st_LatestCheckpoint s of
       None \<Rightarrow> s
     | Some c \<Rightarrow>
         if ev_Sequence c < st_BacklogFirstSequence s then s
         else let index = ev_Sequence c - st_BacklogFirstSequence s in
           if index \<ge> length (st_Backlog s) then s
           else let retained = st_Backlog s ! index in
             if ev_Sequence retained = ev_Sequence c \<and> isCheckpointStreamEvent retained
             then s\<lparr>st_Backlog := (st_Backlog s)[index := retained\<lparr>ev_Message := None\<rparr>]\<rparr> else s)"

definition signal_subscribers :: "ActiveStream \<Rightarrow> ActiveStream" where
  "signal_subscribers s = s\<lparr>st_Subscribers :=
     map_option (map (\<lambda>(k, sub). (k, sub\<lparr>sub_Signal := True\<rparr>))) (st_Subscribers s)\<rparr>"

definition append_event :: "StreamEvent \<Rightarrow> ActiveStream \<Rightarrow> ActiveStream" where
  "append_event event s0 =
     (let s1 = (if st_NextBacklogSequence s0 = 0
                then s0\<lparr>st_NextBacklogSequence := firstBacklogSequenceLocked s0\<rparr> else s0);
          s2 = (if st_BacklogFirstSequence s1 = 0
                then s1\<lparr>st_BacklogFirstSequence := st_NextBacklogSequence s1\<rparr> else s1);
          ev = event\<lparr>ev_Sequence := st_NextBacklogSequence s2\<rparr>;
          s3 = s2\<lparr>st_NextBacklogSequence := u64 (st_NextBacklogSequence s2 + 1)\<rparr>;
          s4 = (if isCheckpointStreamEvent ev
                then (tombstoneLatestCheckpointLocked s3)\<lparr>st_LatestCheckpoint := Some ev\<rparr> else s3)
      in s4\<lparr>st_Backlog := st_Backlog s4 @ [ev]\<rparr>)"

definition publish_locked :: "go_time \<Rightarrow> StreamEvent \<Rightarrow> ActiveStream \<Rightarrow> ActiveStream" where
  "publish_locked now event s =
     (if \<not> ev_End event \<and> isTerminalStreamStatus (st_Status s) then s
      else signal_subscribers ((compactBacklogLocked (append_event event s))\<lparr>st_UpdatedAt := now\<rparr>))"

definition Publish :: "go_time \<Rightarrow> string \<Rightarrow> StreamEvent \<Rightarrow> StreamBroker \<Rightarrow> StreamBroker \<times> broker_error option" where
  "Publish now requestID event b = (case Get b requestID of
       None \<Rightarrow> (b, Some (RequestNotActive (trim_space requestID)))
     | Some a \<Rightarrow> (set_stream a (publish_locked now event (stream_at b a)) b, None))"

definition read_backlog :: "nat \<Rightarrow> ActiveStream \<Rightarrow> StreamEvent list" where
  "read_backlog cursor0 s =
     (let cursor = max cursor0 (st_BacklogFirstSequence s)
      in if st_Backlog s = [] \<or> cursor \<ge> st_NextBacklogSequence s then []
         else drop (cursor - st_BacklogFirstSequence s) (st_Backlog s))"

definition read_locked :: "nat \<Rightarrow> ActiveStream \<Rightarrow> StreamEvent list" where
  "read_locked cursor0 s =
     (let first = st_BacklogFirstSequence s; backlog = st_Backlog s;
          cursor = (if cursor0 \<noteq> 0 then cursor0
                    else case st_LatestCheckpoint s of
                        Some c \<Rightarrow> if ev_Sequence c > 0 then ev_Sequence c else firstBacklogSequenceLocked s
                      | None \<Rightarrow> firstBacklogSequenceLocked s)
      in case (if cursor < first then st_LatestCheckpoint s else None) of
           Some c \<Rightarrow>
             if ev_Sequence c \<ge> cursor
             then c # (if backlog \<noteq> [] \<and> ev_Sequence c \<ge> first
                       then drop (ev_Sequence c - first + 1) backlog else backlog)
             else read_backlog cursor s
         | None \<Rightarrow> read_backlog cursor s)"

definition ReadFromCursor :: "string \<Rightarrow> nat \<Rightarrow> StreamBroker \<Rightarrow> broker_error + StreamEvent list" where
  "ReadFromCursor requestID cursor b = (case Get b requestID of
       None \<Rightarrow> Inl (RequestNotActive (trim_space requestID))
     | Some a \<Rightarrow> Inr (read_locked cursor (stream_at b a)))"

subsection \<open>Leaving, advancing, removing\<close>

definition unsubscribe_locked :: "string \<Rightarrow> ActiveStream \<Rightarrow> ActiveStream" where
  "unsubscribe_locked subscriberID s =
     compactBacklogLocked (s\<lparr>st_Subscribers := del_entry (trim_space subscriberID) (st_Subscribers s)\<rparr>)"

definition Unsubscribe :: "string \<Rightarrow> string \<Rightarrow> StreamBroker \<Rightarrow> StreamBroker \<times> nat" where
  "Unsubscribe requestID subscriberID b = (case Get b requestID of
       None \<Rightarrow> (b, 0)
     | Some a \<Rightarrow> let s = unsubscribe_locked subscriberID (stream_at b a)
                 in (set_stream a s b, length (entries (st_Subscribers s))))"

definition advance_locked :: "string \<Rightarrow> nat \<Rightarrow> ActiveStream \<Rightarrow> ActiveStream" where
  "advance_locked subscriberID cursor s =
     (let k = trim_space subscriberID in
      case map_of (entries (st_Subscribers s)) k of
        None \<Rightarrow> s
      | Some sub \<Rightarrow>
          if cursor > sub_Cursor sub
          then compactBacklogLocked (s\<lparr>st_Subscribers :=
                 map_option (AList.update k (sub\<lparr>sub_Cursor := cursor\<rparr>)) (st_Subscribers s)\<rparr>)
          else s)"

definition AdvanceSubscriber :: "string \<Rightarrow> string \<Rightarrow> nat \<Rightarrow> StreamBroker \<Rightarrow> StreamBroker" where
  "AdvanceSubscriber requestID subscriberID cursor b = (case Get b requestID of
       None \<Rightarrow> b
     | Some a \<Rightarrow> set_stream a (advance_locked subscriberID cursor (stream_at b a)) b)"

definition OtherConversationRequestIDs :: "string \<Rightarrow> string \<Rightarrow> StreamBroker \<Rightarrow> string list" where
  "OtherConversationRequestIDs conversationID keepRequestID b =
     (let conv = trim_space conversationID; keep = trim_space keepRequestID in
      if conv = [] then []
      else map fst (filter (\<lambda>(rid, a). trim_space rid \<noteq> keep \<and>
             trim_space (st_ConversationID (stream_at b a)) = conv \<and>
             \<not> isTerminalStreamStatus (st_Status (stream_at b a)) \<and>
             \<not> isTerminalPhase (st_Phase (stream_at b a))) (sb_streams b)))"

definition scheduleTerminalCleanup ::
    "go_time \<Rightarrow> string \<Rightarrow> StreamBroker \<Rightarrow> StreamBroker \<times> stream_effect list \<times> bool" where
  "scheduleTerminalCleanup now requestID b = (case Get b requestID of
       None \<Rightarrow> (b, [], False)
     | Some a \<Rightarrow>
        (let s = stream_at b a in
         if entries (st_Subscribers s) \<noteq> [] \<or> \<not> isTerminalStreamStatus (st_Status s)
         then let (s', e) = stopTerminalCleanupTimerLocked s in (set_stream a s' b, e, False)
         else let sequence = u64 (st_TerminalCleanupSeq s + 1);
                  e = (case st_TerminalCleanupTimer s of None \<Rightarrow> [] | Some t \<Rightarrow> [StopTimer t])
              in (set_stream a (s\<lparr>st_TerminalCleanupSeq := sequence,
                     st_TerminalCleanupTimer := Some sequence, st_UpdatedAt := now\<rparr>) b,
                  e @ [StartCleanupTimer requestID sequence], True)))"

definition RemoveIfIdle :: "string \<Rightarrow> StreamBroker \<Rightarrow> StreamBroker \<times> stream_effect list \<times> bool" where
  "RemoveIfIdle requestID b =
     (let rid = trim_space requestID in
      if rid = [] then (b, [], False)
      else case map_of (sb_streams b) rid of
        None \<Rightarrow> (b, [], False)
      | Some a \<Rightarrow>
          (let s = stream_at b a; terminal = isTerminalStreamStatus (st_Status s);
               (s', e) = (if terminal then stopTerminalCleanupTimerLocked s else (s, []));
               b' = set_stream a s' b;
               removed = b'\<lparr>sb_streams := AList.delete rid (sb_streams b')\<rparr>
           in if entries (st_Subscribers s) \<noteq> [] then (b', e, False)
              else if terminal then (removed, e, True)
              else if st_ProviderActive s \<or> st_Backlog s \<noteq> [] \<or> trim_space (st_ConversationID s) \<noteq> []
              then (b', e, False)
              else (removed, e, True)))"

text \<open>The timer callback: the token is checked under the stream's lock, then \<open>RemoveIfIdle\<close> decides
  again under the broker's.\<close>

definition runScheduledTerminalCleanup ::
    "string \<Rightarrow> nat \<Rightarrow> StreamBroker \<Rightarrow> StreamBroker \<times> stream_effect list" where
  "runScheduledTerminalCleanup requestID sequence b = (case Get b requestID of
       None \<Rightarrow> (b, [])
     | Some a \<Rightarrow>
        (let s = stream_at b a in
         if st_TerminalCleanupSeq s \<noteq> sequence then (b, [])
         else let b1 = set_stream a (s\<lparr>st_TerminalCleanupTimer := None\<rparr>) b in
           if entries (st_Subscribers s) \<noteq> [] \<or> \<not> isTerminalStreamStatus (st_Status s) then (b1, [])
           else (case RemoveIfIdle requestID b1 of (b2, e, _) \<Rightarrow> (b2, e))))"

subsection \<open>Terminal states\<close>

definition end_event :: "string \<Rightarrow> string \<Rightarrow> StreamEvent" where
  "end_event code message = \<lparr>ev_Sequence = 0, ev_Message = None, ev_End = True,
     ev_TerminalErrorCode = code, ev_TerminalErrorMessage = message\<rparr>"

text \<open>What the three terminal operations do once the status is set: publish the end event and,
  without subscribers, schedule the removal.\<close>

definition finish_stream ::
    "go_time \<Rightarrow> string \<Rightarrow> StreamEvent \<Rightarrow> nat \<Rightarrow> StreamBroker \<Rightarrow> stream_effect list \<Rightarrow>
     StreamBroker \<times> stream_effect list \<times> broker_error option" where
  "finish_stream now requestID event subscriberCount b e =
     (case Publish now requestID event b of
        (b1, Some err) \<Rightarrow> (b1, e, Some err)
      | (b1, None) \<Rightarrow>
          if subscriberCount = 0
          then (case scheduleTerminalCleanup now requestID b1 of (b2, e2, _) \<Rightarrow> (b2, e @ e2, None))
          else (b1, e, None))"

definition Complete ::
    "go_time \<Rightarrow> string \<Rightarrow> string \<Rightarrow> string \<Rightarrow> StreamBroker \<Rightarrow> StreamBroker \<times> stream_effect list \<times> broker_error option" where
  "Complete now requestID code message b = (case Get b requestID of
       None \<Rightarrow> (b, [], Some (RequestNotActive (trim_space requestID)))
     | Some a \<Rightarrow>
        (if isTerminalStreamStatus (st_Status (stream_at b a)) then (b, [], None)
         else let (s, e) = stopTerminalCleanupTimerLocked (stream_at b a);
                  b1 = set_stream a (s\<lparr>st_Status := StreamStatusCompleted, st_UpdatedAt := now\<rparr>) b
              in finish_stream now requestID (end_event (trim_space code) (trim_space message))
                   (length (entries (st_Subscribers s))) b1 e))"

definition Fail ::
    "go_time \<Rightarrow> string \<Rightarrow> string \<Rightarrow> string \<Rightarrow> StreamBroker \<Rightarrow> StreamBroker \<times> stream_effect list \<times> broker_error option" where
  "Fail now requestID code message b = (case Get b requestID of
       None \<Rightarrow> (b, [], Some (RequestNotActive (trim_space requestID)))
     | Some a \<Rightarrow>
        (let (s, e) = stopTerminalCleanupTimerLocked (stream_at b a);
             b1 = set_stream a (s\<lparr>st_Status := StreamStatusFailed, st_UpdatedAt := now\<rparr>) b
         in finish_stream now requestID (end_event (trim_space code) (trim_space message))
              (length (entries (st_Subscribers s))) b1 e))"

definition Cancel ::
    "go_time \<Rightarrow> string \<Rightarrow> string \<Rightarrow> StreamBroker \<Rightarrow> StreamBroker \<times> stream_effect list \<times> broker_error option" where
  "Cancel now requestID message b = (case Get b requestID of
       None \<Rightarrow> (b, [], Some (RequestNotActive (trim_space requestID)))
     | Some a \<Rightarrow>
        (let (s, e) = stopTerminalCleanupTimerLocked (stream_at b a);
             e2 = (case st_ProviderCancel s of None \<Rightarrow> [] | Some c \<Rightarrow> [CancelProvider c]);
             b1 = set_stream a (s\<lparr>st_ProviderCancel := None, st_ProviderActive := False,
                    st_Status := StreamStatusCanceled, st_UpdatedAt := now\<rparr>) b
         in finish_stream now requestID
              (end_event ''canceled'' (firstNonEmpty [trim_space message, ''[canceled] User aborted request'']))
              (length (entries (st_Subscribers s))) b1 (e @ e2)))"

subsection \<open>The reading loop of RunSSE\<close>

text \<open>The loop over one batch: the messages it sends, the local cursor, the end event that closes the
  connection, and the stream, in which the subscriber is advanced after every event.\<close>

fun send_batch ::
    "string \<Rightarrow> StreamEvent list \<Rightarrow> nat \<Rightarrow> ActiveStream \<Rightarrow> server_message list \<times> nat \<times> StreamEvent option \<times> ActiveStream" where
  "send_batch sid [] cursor s = ([], cursor, None, s)"
| "send_batch sid (e # es) cursor s =
     (let sent = (case ev_Message e of None \<Rightarrow> [] | Some m \<Rightarrow> [m]);
          cursor' = (if ev_Sequence e \<ge> cursor then u64 (ev_Sequence e + 1) else u64 (cursor + 1));
          s' = advance_locked sid cursor' s
      in if ev_End e then (sent, cursor', Some e, s')
         else case send_batch sid es cursor' s' of (ms, c, fin, s'') \<Rightarrow> (sent @ ms, c, fin, s''))"

text \<open>One turn of the loop: read from the cursor and send what was read.\<close>

definition serve_turn ::
    "string \<Rightarrow> nat \<Rightarrow> ActiveStream \<Rightarrow> server_message list \<times> nat \<times> StreamEvent option \<times> ActiveStream" where
  "serve_turn sid cursor s = send_batch sid (read_locked cursor s) cursor s"

end
