(* ===== verification/Stream_Log.thy ===== *)
theory Stream_Log
  imports Stream_Broker
begin

text \<open>
  The event log a stream represents.  A stream keeps a window of its events and blanks the
  checkpoints that a later one replaces; the log is the list of all events published so far.
  The lemmas show that the operations of the broker implement this log, and that the reading
  loop of \<open>RunSSE\<close> delivers it.
\<close>

definition latest :: "StreamEvent list \<Rightarrow> StreamEvent option" where
  "latest log = find isCheckpointStreamEvent (rev log)"

definition tomb :: "StreamEvent \<Rightarrow> StreamEvent" where
  "tomb e = (if isCheckpointStreamEvent e then e\<lparr>ev_Message := None\<rparr> else e)"

text \<open>What a reader sees of the log: every checkpoint but the latest is blank.\<close>

definition blank :: "StreamEvent list \<Rightarrow> StreamEvent list" where
  "blank log = (case latest log of None \<Rightarrow> log
     | Some c \<Rightarrow> map (\<lambda>e. if ev_Sequence e = ev_Sequence c then e else tomb e) log)"

definition numbered :: "StreamEvent list \<Rightarrow> bool" where
  "numbered log \<longleftrightarrow> (\<forall>i < length log. ev_Sequence (log ! i) = i + 1)"

definition log_rep :: "StreamEvent list \<Rightarrow> ActiveStream \<Rightarrow> bool" where
  "log_rep log s \<longleftrightarrow> numbered log \<and> length log + 1 < 2 ^ 64 \<and>
     st_NextBacklogSequence s = length log + 1 \<and> 1 \<le> st_BacklogFirstSequence s \<and>
     st_BacklogFirstSequence s \<le> st_NextBacklogSequence s \<and>
     st_Backlog s = drop (st_BacklogFirstSequence s - 1) (blank log) \<and>
     st_LatestCheckpoint s = latest log"

subsection \<open>The log\<close>

lemma length_blank [simp]: "length (blank log) = length log"
  by (simp add: blank_def split: option.splits)

lemma latest_snoc: "latest (log @ [e]) = (if isCheckpointStreamEvent e then Some e else latest log)"
  by (simp add: latest_def)

lemma latest_SomeD: "latest log = Some c \<Longrightarrow> c \<in> set log \<and> isCheckpointStreamEvent c"
  by (auto simp: latest_def find_Some_iff in_set_conv_nth rev_nth) (metis diff_less_Suc Suc_diff_Suc diff_Suc_Suc diff_less length_greater_0_conv list.size(3) not_less_zero zero_less_Suc)

lemma latest_NoneD: "latest log = None \<Longrightarrow> e \<in> set log \<Longrightarrow> \<not> isCheckpointStreamEvent e"
  by (auto simp: latest_def find_None_iff)

lemma numbered_snoc: "numbered (log @ [e]) \<longleftrightarrow> numbered log \<and> ev_Sequence e = length log + 1"
  by (auto simp: numbered_def nth_append less_Suc_eq)

lemma numbered_Sequence: "numbered log \<Longrightarrow> e \<in> set log \<Longrightarrow> 1 \<le> ev_Sequence e \<and> ev_Sequence e \<le> length log \<and> log ! (ev_Sequence e - 1) = e"
  by (auto simp: numbered_def in_set_conv_nth)

lemma tomb_not_checkpoint [simp]: "\<not> isCheckpointStreamEvent (tomb e)"
  by (auto simp: tomb_def isCheckpointStreamEvent_def)

lemma tomb_Sequence [simp]: "ev_Sequence (tomb e) = ev_Sequence e" "ev_End (tomb e) = ev_End e"
  by (simp_all add: tomb_def)

lemma tomb_tomb [simp]: "tomb (tomb e) = tomb e"
  using tomb_not_checkpoint [of e] by (simp add: tomb_def [of "tomb e"])

lemma tomb_id: "\<not> isCheckpointStreamEvent e \<Longrightarrow> tomb e = e"
  by (simp add: tomb_def)

lemma map_tomb_blank [simp]: "map tomb (blank log) = map tomb log"
  by (auto simp: blank_def split: option.splits)

lemma blank_snoc_other: "\<not> isCheckpointStreamEvent e \<Longrightarrow> blank (log @ [e]) = blank log @ [e]"
  by (auto simp: blank_def latest_snoc tomb_id split: option.splits)

lemma blank_snoc_checkpoint:
  assumes "isCheckpointStreamEvent e" "numbered (log @ [e])"
  shows "blank (log @ [e]) = map tomb log @ [e]"
proof -
  have "\<And>x. x \<in> set log \<Longrightarrow> ev_Sequence x \<noteq> ev_Sequence e"
    using assms(2) numbered_Sequence [of log] by (fastforce simp: numbered_snoc)
  then show ?thesis using assms(1) by (simp add: blank_def latest_snoc)
qed

lemma blank_nth: "i < length log \<Longrightarrow> ev_Sequence (blank log ! i) = ev_Sequence (log ! i) \<and>
    ev_End (blank log ! i) = ev_End (log ! i)"
  by (simp add: blank_def split: option.splits)

lemma blank_checkpoint_iff:
  assumes "numbered log" "i < length log"
  shows "isCheckpointStreamEvent (blank log ! i) \<longleftrightarrow> (\<exists>c. latest log = Some c \<and> ev_Sequence c = i + 1)"
proof (cases "latest log")
  case None
  then have "blank log ! i = log ! i" by (simp add: blank_def)
  moreover have "\<not> isCheckpointStreamEvent (log ! i)" using None assms(2) latest_NoneD nth_mem by blast
  ultimately show ?thesis using None by simp
next
  case (Some c)
  have seq: "ev_Sequence (log ! i) = i + 1" using assms by (simp add: numbered_def)
  have c: "c \<in> set log" "isCheckpointStreamEvent c" using latest_SomeD [OF Some] by auto
  show ?thesis
  proof (cases "ev_Sequence c = i + 1")
    case True
    then have "log ! i = c" using numbered_Sequence [OF assms(1) c(1)] by simp
    then show ?thesis using Some True assms(2) c(2) by (simp add: blank_def)
  next
    case False
    then show ?thesis using Some seq assms(2) by (simp add: blank_def)
  qed
qed

lemma blank_at_latest:
  assumes "numbered log" "latest log = Some c"
  shows "blank log ! (ev_Sequence c - 1) = c" "1 \<le> ev_Sequence c" "ev_Sequence c \<le> length log"
proof -
  have c: "c \<in> set log" using latest_SomeD [OF assms(2)] by simp
  note n = numbered_Sequence [OF assms(1) c]
  from n show "1 \<le> ev_Sequence c" "ev_Sequence c \<le> length log" by simp_all
  then have "ev_Sequence c - 1 < length log" by simp
  then show "blank log ! (ev_Sequence c - 1) = c" using n assms(2) by (simp add: blank_def)
qed

text \<open>Blanking the one checkpoint that is left is blanking them all.\<close>

lemma blank_update_latest:
  assumes "numbered log" "latest log = Some c"
  shows "(blank log)[ev_Sequence c - 1 := c\<lparr>ev_Message := None\<rparr>] = map tomb log"
proof (rule nth_equalityI)
  fix i assume i: "i < length ((blank log)[ev_Sequence c - 1 := c\<lparr>ev_Message := None\<rparr>])"
  then have il: "i < length log" by simp
  have t: "tomb c = c\<lparr>ev_Message := None\<rparr>" using latest_SomeD [OF assms(2)] by (simp add: tomb_def)
  have m: "map tomb log ! i = tomb (blank log ! i)"
    using il map_tomb_blank [of log] by (metis length_blank nth_map)
  show "(blank log)[ev_Sequence c - 1 := c\<lparr>ev_Message := None\<rparr>] ! i = map tomb log ! i"
  proof (cases "i = ev_Sequence c - 1")
    case True
    then show ?thesis using il m t blank_at_latest(1) [OF assms] by simp
  next
    case False
    then have "\<not> isCheckpointStreamEvent (blank log ! i)"
      using blank_checkpoint_iff [OF assms(1) il] assms(2) blank_at_latest(2) [OF assms] by auto
    then show ?thesis using False m by (simp add: tomb_id)
  qed
qed simp

lemma blank_no_checkpoint: "numbered log \<Longrightarrow> latest log = None \<Longrightarrow> map tomb log = blank log"
  using latest_NoneD by (auto simp: blank_def tomb_id intro!: map_idI)

subsection \<open>Operations on a represented log\<close>

lemma log_repD:
  assumes "log_rep log s"
  shows "numbered log" "length log + 1 < 2 ^ 64" "st_NextBacklogSequence s = length log + 1"
    "1 \<le> st_BacklogFirstSequence s" "st_BacklogFirstSequence s \<le> length log + 1"
    "st_Backlog s = drop (st_BacklogFirstSequence s - 1) (blank log)" "st_LatestCheckpoint s = latest log"
  using assms by (simp_all add: log_rep_def)

lemma log_rep_cong:
  assumes "log_rep log s" "st_NextBacklogSequence s' = st_NextBacklogSequence s"
    "st_BacklogFirstSequence s' = st_BacklogFirstSequence s" "st_Backlog s' = st_Backlog s"
    "st_LatestCheckpoint s' = st_LatestCheckpoint s"
  shows "log_rep log s'"
  using assms by (simp add: log_rep_def)

lemma length_backlog:
  "log_rep log s \<Longrightarrow> length (st_Backlog s) = length log + 1 - st_BacklogFirstSequence s"
  by (auto dest: log_repD simp: log_repD(6))

text \<open>How far compaction moves the window.\<close>

definition keep_from :: "ActiveStream \<Rightarrow> nat" where
  "keep_from s =
     (let n = length (st_Backlog s);
          keep0 = (if entries (st_Subscribers s) \<noteq> [] \<and> min_cursor s > st_BacklogFirstSequence s
                   then min (min_cursor s - st_BacklogFirstSequence s) n else 0)
      in if n - keep0 > streamBacklogMaxEvents then n - streamBacklogMaxEvents else keep0)"

lemma keep_from_le: "keep_from s \<le> length (st_Backlog s)"
  by (simp add: keep_from_def Let_def)

lemma keep_from_capacity: "length (st_Backlog s) - keep_from s \<le> streamBacklogMaxEvents"
  by (simp add: keep_from_def Let_def)

lemma compact_keep_from:
  "st_Backlog s \<noteq> [] \<Longrightarrow> compactBacklogLocked s = (if keep_from s = 0 then s
     else s\<lparr>st_Backlog := drop (keep_from s) (st_Backlog s),
            st_BacklogFirstSequence := u64 (st_BacklogFirstSequence s + keep_from s)\<rparr>)"
  by (simp only: compactBacklogLocked_def keep_from_def Let_def if_False)

lemma compact_eq:
  assumes "log_rep log s"
  shows "compactBacklogLocked s = s\<lparr>st_Backlog := drop (keep_from s) (st_Backlog s),
           st_BacklogFirstSequence := st_BacklogFirstSequence s + keep_from s\<rparr>"
proof (cases "st_Backlog s = []")
  case True
  then have "st_BacklogFirstSequence s = length log + 1"
    using length_backlog [OF assms] log_repD(5) [OF assms] by simp
  moreover have "keep_from s = 0" using True by (simp add: keep_from_def)
  ultimately show ?thesis using True log_repD(3) [OF assms] by (simp add: compactBacklogLocked_def)
next
  case False
  have "st_BacklogFirstSequence s + keep_from s \<le> length log + 1"
    using keep_from_le [of s] length_backlog [OF assms] log_repD(5) [OF assms] by simp
  then have "u64 (st_BacklogFirstSequence s + keep_from s) = st_BacklogFirstSequence s + keep_from s"
    using log_repD(2) [OF assms] by (intro u64_id) simp
  then show ?thesis
    unfolding compact_keep_from [OF False] by simp
qed

lemma log_rep_compact:
  assumes "log_rep log s"
  shows "log_rep log (compactBacklogLocked s)"
    "length (st_Backlog (compactBacklogLocked s)) \<le> streamBacklogMaxEvents"
proof -
  have "st_BacklogFirstSequence s + keep_from s \<le> length log + 1"
    using keep_from_le [of s] length_backlog [OF assms] log_repD(5) [OF assms] by simp
  moreover have "drop (keep_from s) (st_Backlog s) =
      drop (st_BacklogFirstSequence s + keep_from s - 1) (blank log)"
  proof -
    have "keep_from s + (st_BacklogFirstSequence s - 1) = st_BacklogFirstSequence s + keep_from s - 1"
      using log_repD(4) [OF assms] by simp
    then show ?thesis unfolding log_repD(6) [OF assms] by (simp only: drop_drop)
  qed
  ultimately show "log_rep log (compactBacklogLocked s)"
    using log_repD [OF assms] by (simp add: compact_eq [OF assms] log_rep_def)
  show "length (st_Backlog (compactBacklogLocked s)) \<le> streamBacklogMaxEvents"
    using keep_from_capacity [of s] by (simp add: compact_eq [OF assms])
qed

lemma log_rep_append_event:
  fixes ev :: StreamEvent
  assumes rep: "log_rep log s" and bound: "length log + 2 < 2 ^ 64"
  defines "ev' \<equiv> ev\<lparr>ev_Sequence := length log + 1\<rparr>"
  shows "log_rep (log @ [ev']) (append_event ev s)"
    "st_BacklogFirstSequence (append_event ev s) = st_BacklogFirstSequence s"
    "st_Subscribers (append_event ev s) = st_Subscribers s"
    "st_Status (append_event ev s) = st_Status s"
proof -
  note r = log_repD [OF rep]
  define s3 where "s3 = s\<lparr>st_NextBacklogSequence := length log + 2\<rparr>"
  have s3: "st_NextBacklogSequence s3 = length log + 2" "st_BacklogFirstSequence s3 = st_BacklogFirstSequence s"
    "st_Backlog s3 = st_Backlog s" "st_LatestCheckpoint s3 = st_LatestCheckpoint s"
    "st_Subscribers s3 = st_Subscribers s" "st_Status s3 = st_Status s"
    by (simp_all add: s3_def)
  have next_u64: "u64 (length log + 1 + 1) = length log + 2" using bound by (simp add: u64_id)
  have ae: "append_event ev s =
      (let s4 = (if isCheckpointStreamEvent ev'
                 then (tombstoneLatestCheckpointLocked s3)\<lparr>st_LatestCheckpoint := Some ev'\<rparr> else s3)
       in s4\<lparr>st_Backlog := st_Backlog s4 @ [ev']\<rparr>)"
    using r(3,4) next_u64 by (simp add: append_event_def Let_def ev'_def s3_def)
  have num: "numbered (log @ [ev'])" using r(1) by (simp add: numbered_snoc ev'_def)
  have tomb_eq: "tombstoneLatestCheckpointLocked s3 =
      s3\<lparr>st_Backlog := drop (st_BacklogFirstSequence s - 1) (map tomb log)\<rparr>"
  proof (cases "latest log")
    case None
    then show ?thesis
      using r(6,7) blank_no_checkpoint [OF r(1) None] by (simp add: tombstoneLatestCheckpointLocked_def s3_def)
  next
    case (Some c)
    note c = blank_at_latest [OF r(1) Some]
    have upd: "(blank log)[ev_Sequence c - 1 := c\<lparr>ev_Message := None\<rparr>] = map tomb log"
      by (rule blank_update_latest [OF r(1) Some])
    show ?thesis
    proof (cases "ev_Sequence c < st_BacklogFirstSequence s")
      case True
      then have "drop (st_BacklogFirstSequence s - 1) (map tomb log) =
          drop (st_BacklogFirstSequence s - 1) (blank log)"
        using c(2) unfolding upd [symmetric] by simp
      then show ?thesis
        using True Some r(6,7) by (simp add: tombstoneLatestCheckpointLocked_def s3_def)
    next
      case False
      let ?i = "ev_Sequence c - st_BacklogFirstSequence s"
      have i: "?i < length (st_Backlog s)" using False c(3) length_backlog [OF rep] by simp
      have nth: "st_Backlog s ! ?i = c"
        using False r(4,6) c(1,3) by (simp add: Suc_diff_le flip: Suc_pred)
      have "drop (st_BacklogFirstSequence s - 1) (map tomb log) =
          (drop (st_BacklogFirstSequence s - 1) (blank log))[?i := c\<lparr>ev_Message := None\<rparr>]"
        unfolding upd [symmetric] using False r(4) by (simp add: drop_update_swap)
      then show ?thesis
        using False Some r(6,7) i nth latest_SomeD [OF Some]
        by (simp add: tombstoneLatestCheckpointLocked_def Let_def s3_def)
    qed
  qed
  have first: "st_BacklogFirstSequence s - 1 \<le> length log" using r(5) by simp
  show "log_rep (log @ [ev']) (append_event ev s)"
  proof (cases "isCheckpointStreamEvent ev'")
    case True
    then show ?thesis
      using r bound num first blank_snoc_checkpoint [OF True num]
      by (simp add: log_rep_def ae tomb_eq latest_snoc s3)
  next
    case False
    then show ?thesis
      using r bound num first blank_snoc_other [OF False, of log] by (simp add: log_rep_def ae latest_snoc s3)
  qed
  show "st_BacklogFirstSequence (append_event ev s) = st_BacklogFirstSequence s"
    "st_Subscribers (append_event ev s) = st_Subscribers s" "st_Status (append_event ev s) = st_Status s"
    using r by (simp_all add: ae tomb_eq Let_def s3)
qed

lemma signal_subscribers_simps [simp]:
  "st_Backlog (signal_subscribers s) = st_Backlog s"
  "st_BacklogFirstSequence (signal_subscribers s) = st_BacklogFirstSequence s"
  "st_NextBacklogSequence (signal_subscribers s) = st_NextBacklogSequence s"
  "st_LatestCheckpoint (signal_subscribers s) = st_LatestCheckpoint s"
  "st_Status (signal_subscribers s) = st_Status s"
  by (simp_all add: signal_subscribers_def)

lemma log_rep_publish:
  assumes rep: "log_rep log s" and bound: "length log + 2 < 2 ^ 64"
    and live: "ev_End ev \<or> \<not> isTerminalStreamStatus (st_Status s)"
  shows "log_rep (log @ [ev\<lparr>ev_Sequence := length log + 1\<rparr>]) (publish_locked now ev s)"
    "length (st_Backlog (publish_locked now ev s)) \<le> streamBacklogMaxEvents"
proof -
  let ?log = "log @ [ev\<lparr>ev_Sequence := length log + 1\<rparr>]"
  have eq: "publish_locked now ev s =
      signal_subscribers ((compactBacklogLocked (append_event ev s))\<lparr>st_UpdatedAt := now\<rparr>)"
    using live by (auto simp: publish_locked_def)
  note c = log_rep_compact [OF log_rep_append_event(1) [OF rep bound, of ev]]
  show "log_rep ?log (publish_locked now ev s)"
    by (rule log_rep_cong [OF c(1)]) (simp_all add: eq)
  show "length (st_Backlog (publish_locked now ev s)) \<le> streamBacklogMaxEvents"
    using c(2) by (simp add: eq)
qed

text \<open>Reading, in terms of the log.\<close>

definition spec_read :: "nat \<Rightarrow> nat \<Rightarrow> StreamEvent list \<Rightarrow> StreamEvent list" where
  "spec_read first c log =
     (if first \<le> c then drop (c - 1) (blank log)
      else case latest log of
        Some k \<Rightarrow> if c \<le> ev_Sequence k then k # drop (max (ev_Sequence k) (first - 1)) (blank log)
                  else drop (first - 1) (blank log)
      | None \<Rightarrow> drop (first - 1) (blank log))"

lemma read_backlog_eq:
  assumes "log_rep log s" "1 \<le> c"
  shows "read_backlog c s = drop (max c (st_BacklogFirstSequence s) - 1) (blank log)"
proof -
  note r = log_repD [OF assms(1)]
  let ?c = "max c (st_BacklogFirstSequence s)"
  have "drop (?c - st_BacklogFirstSequence s) (st_Backlog s) = drop (?c - 1) (blank log)"
    using r(4,6) by (simp add: max_def)
  moreover have "length log + 1 \<le> ?c \<or> st_Backlog s = [] \<Longrightarrow> drop (?c - 1) (blank log) = []"
    using r(4,6) by (auto simp: max_def)
  ultimately show ?thesis
    using r(3) by (auto simp: read_backlog_def Let_def)
qed

lemma read_locked_eq:
  assumes "log_rep log s" "1 \<le> c"
  shows "read_locked c s = spec_read (st_BacklogFirstSequence s) c log"
proof (cases "st_BacklogFirstSequence s \<le> c")
  case True
  then show ?thesis
    using assms read_backlog_eq [OF assms] by (simp add: read_locked_def spec_read_def Let_def max_def)
next
  case less: False
  note r = log_repD [OF assms(1)]
  have rb: "read_backlog c s = drop (st_BacklogFirstSequence s - 1) (blank log)"
    using read_backlog_eq [OF assms] less by (simp add: max_def)
  show ?thesis
  proof (cases "latest log")
    case None
    then show ?thesis using less assms r(7) rb by (simp add: read_locked_def spec_read_def Let_def)
  next
    case (Some k)
    have "drop (ev_Sequence k - st_BacklogFirstSequence s + 1) (st_Backlog s) = drop (ev_Sequence k) (blank log)"
      if "st_BacklogFirstSequence s \<le> ev_Sequence k"
      using that r(4,6) by simp
    moreover have "drop (ev_Sequence k) (blank log) = []"
      if "st_Backlog s = []" "st_BacklogFirstSequence s \<le> ev_Sequence k"
      using that r(6) by simp
    ultimately show ?thesis
      using less Some assms r(4,6,7) rb
      by (auto simp: read_locked_def spec_read_def Let_def max_def)
  qed
qed

subsection \<open>A registered reader\<close>

text \<open>Subscriber \<open>sid\<close> is registered with cursor \<open>c\<close>, lags at most the capacity behind, and what
  it has not read is in the window.\<close>

definition sub_cursor :: "string \<Rightarrow> ActiveStream \<Rightarrow> nat option" where
  "sub_cursor sid s = map_option sub_Cursor (map_of (entries (st_Subscribers s)) sid)"

definition reader :: "string \<Rightarrow> StreamEvent list \<Rightarrow> nat \<Rightarrow> ActiveStream \<Rightarrow> bool" where
  "reader sid log c s \<longleftrightarrow> log_rep log s \<and> trim_space sid = sid \<and> sub_cursor sid s = Some c \<and>
     st_BacklogFirstSequence s \<le> c \<and> c \<le> length log + 1 \<and>
     length log + 1 - c \<le> streamBacklogMaxEvents \<and> list_all (\<lambda>e. \<not> ev_End e) log \<and>
     \<not> isTerminalStreamStatus (st_Status s)"

lemma fold_cursor_le_init:
  "fold (\<lambda>(k, sub) m. if sub_Cursor sub < m then sub_Cursor sub else m) kvs m \<le> m"
proof (induction kvs arbitrary: m)
  case (Cons kv kvs)
  show ?case
    using Cons.IH [of "if sub_Cursor (snd kv) < m then sub_Cursor (snd kv) else m"]
    by (cases kv) (auto split: if_splits)
qed simp

lemma fold_cursor_le:
  "(k, sub) \<in> set kvs \<Longrightarrow>
   fold (\<lambda>(k, sub) m. if sub_Cursor sub < m then sub_Cursor sub else m) kvs m \<le> sub_Cursor sub"
proof (induction kvs arbitrary: m)
  case (Cons kv kvs)
  show ?case
  proof (cases "kv = (k, sub)")
    case True
    then show ?thesis
      using fold_cursor_le_init [of kvs "if sub_Cursor sub < m then sub_Cursor sub else m"]
      by (auto split: if_splits)
  next
    case False
    with Cons show ?thesis by (cases kv) auto
  qed
qed simp

lemma min_cursor_le: "sub_cursor sid s = Some c \<Longrightarrow> min_cursor s \<le> c"
  using fold_cursor_le by (fastforce simp: sub_cursor_def min_cursor_def dest: map_of_SomeD)

text \<open>Compaction never passes a reader unless the reader lags more than the capacity.\<close>

lemma compact_window:
  assumes "log_rep log s" "sub_cursor sid s = Some c" "st_BacklogFirstSequence s \<le> c"
    "length log + 1 - c \<le> streamBacklogMaxEvents"
  shows "st_BacklogFirstSequence (compactBacklogLocked s) \<le> c"
proof -
  have "keep_from s \<le> c - st_BacklogFirstSequence s"
    using min_cursor_le [OF assms(2)] assms(3,4) length_backlog [OF assms(1)] log_repD(5) [OF assms(1)]
    by (auto simp: keep_from_def Let_def min_def)
  then show ?thesis using assms(3) by (simp add: compact_eq [OF assms(1)])
qed

lemma compact_simps:
  assumes "log_rep log s"
  shows "st_Subscribers (compactBacklogLocked s) = st_Subscribers s"
    "st_Status (compactBacklogLocked s) = st_Status s"
  by (simp_all add: compact_eq [OF assms])

lemma map_of_signal:
  "map_of (map (\<lambda>(k, sub). (k, sub\<lparr>sub_Signal := True\<rparr>)) kvs) k =
   map_option (\<lambda>sub. sub\<lparr>sub_Signal := True\<rparr>) (map_of kvs k)"
  by (induction kvs) auto

lemma sub_cursor_signal [simp]: "sub_cursor sid (signal_subscribers s) = sub_cursor sid s"
  by (cases "st_Subscribers s")
    (simp_all add: sub_cursor_def signal_subscribers_def map_of_signal option.map_comp o_def)

lemma reader_publish:
  assumes r: "reader sid log c s" and lag: "length log + 1 - c < streamBacklogMaxEvents"
    and bound: "length log + 2 < 2 ^ 64" and e: "\<not> ev_End e"
  shows "reader sid (log @ [e\<lparr>ev_Sequence := length log + 1\<rparr>]) c (publish_locked now e s)"
proof -
  let ?log = "log @ [e\<lparr>ev_Sequence := length log + 1\<rparr>]"
  have rep: "log_rep log s" and live: "\<not> isTerminalStreamStatus (st_Status s)"
    and sub: "sub_cursor sid s = Some c" using r by (simp_all add: reader_def)
  note a = log_rep_append_event [OF rep bound, of e]
  have eq: "publish_locked now e s =
      signal_subscribers ((compactBacklogLocked (append_event e s))\<lparr>st_UpdatedAt := now\<rparr>)"
    using live by (simp add: publish_locked_def)
  have sub': "sub_cursor sid (append_event e s) = Some c" using sub a(3) by (simp add: sub_cursor_def)
  have "st_BacklogFirstSequence (compactBacklogLocked (append_event e s)) \<le> c"
    by (rule compact_window [OF a(1) sub']) (use r lag a(2) in \<open>simp_all add: reader_def\<close>)
  moreover have "sub_cursor sid (publish_locked now e s) = Some c"
    using sub' by (simp add: eq) (simp add: sub_cursor_def compact_simps [OF a(1)])
  moreover have "log_rep ?log (publish_locked now e s)"
    by (rule log_rep_publish(1) [OF rep bound]) (use live in simp)
  ultimately show ?thesis
    using r lag e a(4) by (simp add: reader_def eq compact_simps [OF a(1)])
qed

lemma reader_advance:
  assumes r: "reader sid log c s" and c': "c \<le> c'" "c' \<le> length log + 1"
  shows "reader sid log c' (advance_locked sid c' s)"
proof -
  have rep: "log_rep log s" and t: "trim_space sid = sid" using r by (simp_all add: reader_def)
  obtain sub where sub: "map_of (entries (st_Subscribers s)) sid = Some sub" "sub_Cursor sub = c"
    using r by (auto simp: reader_def sub_cursor_def)
  then obtain kvs where kvs: "st_Subscribers s = Some kvs" by (cases "st_Subscribers s") auto
  show ?thesis
  proof (cases "c' > c")
    case False
    then show ?thesis using r c' sub t by (simp add: advance_locked_def Let_def)
  next
    case True
    let ?s1 = "s\<lparr>st_Subscribers := Some (AList.update sid (sub\<lparr>sub_Cursor := c'\<rparr>) kvs)\<rparr>"
    have eq: "advance_locked sid c' s = compactBacklogLocked ?s1"
      using True sub t kvs by (simp add: advance_locked_def Let_def)
    have rep1: "log_rep log ?s1" by (rule log_rep_cong [OF rep]) simp_all
    have sub1: "sub_cursor sid ?s1 = Some c'" by (simp add: sub_cursor_def update_conv')
    have "st_BacklogFirstSequence (compactBacklogLocked ?s1) \<le> c'"
      by (rule compact_window [OF rep1 sub1]) (use r c' in \<open>auto simp: reader_def\<close>)
    moreover have "sub_cursor sid (compactBacklogLocked ?s1) = Some c'"
      using sub1 by (simp add: sub_cursor_def compact_simps [OF rep1])
    moreover have "length log + 1 - c' \<le> streamBacklogMaxEvents" using r c' by (auto simp: reader_def)
    ultimately show ?thesis
      using r c' log_rep_compact(1) [OF rep1] by (simp add: reader_def eq compact_simps [OF rep1])
  qed
qed

text \<open>The messages of an event that are not checkpoints.\<close>

definition is_other :: "server_message \<Rightarrow> bool" where
  "is_other m = (case m of OtherServerMessage _ \<Rightarrow> True | _ \<Rightarrow> False)"

definition content :: "StreamEvent \<Rightarrow> server_message list" where
  "content e = (case ev_Message e of Some m \<Rightarrow> filter is_other [m] | None \<Rightarrow> [])"

lemma content_tomb: "\<not> ev_End e \<Longrightarrow> content (tomb e) = content e"
  by (auto simp: content_def tomb_def isCheckpointStreamEvent_def is_other_def
      split: option.splits server_message.splits)

lemma content_blank: "list_all (\<lambda>e. \<not> ev_End e) log \<Longrightarrow> map content (blank log) = map content log"
  by (auto simp: blank_def content_tomb list_all_iff split: option.splits)

lemma send_batch_reader:
  assumes "reader sid log c s"
  shows "\<exists>ms s'. send_batch sid (drop (c - 1) (blank log)) c s = (ms, length log + 1, None, s') \<and>
     filter is_other ms = concat (map content (drop (c - 1) (blank log))) \<and>
     reader sid log (length log + 1) s'"
  using assms
proof (induction "length log + 1 - c" arbitrary: c s)
  case 0
  then have "c = length log + 1" by (simp add: reader_def)
  with "0.prems" show ?case by simp
next
  case (Suc n)
  have rep: "log_rep log s" and noend: "list_all (\<lambda>e. \<not> ev_End e) log" and c1: "1 \<le> c"
    using Suc.prems log_repD(4) [of log s] by (auto simp: reader_def)
  have c: "c - 1 < length log" using Suc.hyps(2) c1 by simp
  let ?e = "blank log ! (c - 1)"
  have d: "drop (c - 1) (blank log) = ?e # drop c (blank log)"
    using c c1 by (metis Cons_nth_drop_Suc One_nat_def Suc_pred length_blank less_eq_Suc_le)
  have seq: "ev_Sequence ?e = c" "\<not> ev_End ?e"
    using blank_nth [OF c] log_repD(1) [OF rep] c c1 noend
    by (auto simp: numbered_def list_all_length)
  have u: "u64 (c + 1) = c + 1"
    using log_repD(2) [OF rep] c c1 by (intro u64_id) simp
  let ?s1 = "advance_locked sid (c + 1) s"
  have r1: "reader sid log (c + 1) ?s1" by (rule reader_advance [OF Suc.prems]) (use c c1 in simp_all)
  have n: "n = length log + 1 - (c + 1)" using Suc.hyps(2) c c1 by simp
  obtain ms s' where ih: "send_batch sid (drop c (blank log)) (c + 1) ?s1 = (ms, length log + 1, None, s')"
      "filter is_other ms = concat (map content (drop c (blank log)))" "reader sid log (length log + 1) s'"
    using Suc.hyps(1) [OF n r1] by auto
  have "filter is_other (case ev_Message ?e of None \<Rightarrow> [] | Some m \<Rightarrow> [m]) = content ?e"
    by (simp add: content_def split: option.splits)
  with ih seq u show ?case
    unfolding d by (auto simp: Let_def)
qed

lemma reader_serve_turn:
  assumes r: "reader sid log c s"
  shows "\<exists>ms s'. serve_turn sid c s = (ms, length log + 1, None, s') \<and>
     filter is_other ms = concat (map content (drop (c - 1) log)) \<and> reader sid log (length log + 1) s'"
proof -
  have rep: "log_rep log s" and c: "1 \<le> c" and first: "st_BacklogFirstSequence s \<le> c"
    and e: "list_all (\<lambda>e. \<not> ev_End e) log"
    using r log_repD(4) [of log s] by (auto simp: reader_def)
  have "read_locked c s = drop (c - 1) (blank log)"
    using read_locked_eq [OF rep c] first by (simp add: spec_read_def)
  moreover have "map content (drop (c - 1) (blank log)) = map content (drop (c - 1) log)"
    using content_blank [OF e] by (simp flip: drop_map)
  ultimately show ?thesis using send_batch_reader [OF r] by (simp add: serve_turn_def)
qed

subsection \<open>The interface between the broker and its readers\<close>

text \<open>A reader alternates with publishers: a batch of events is published, then one turn of the
  reading loop runs.  The messages of all turns, the cursor and the state at the end.\<close>

fun serve_all ::
    "('e \<Rightarrow> 's \<Rightarrow> 's) \<Rightarrow> (nat \<Rightarrow> 's \<Rightarrow> 'm list \<times> nat \<times> 's) \<Rightarrow> 'e list list \<Rightarrow> nat \<Rightarrow> 's \<Rightarrow> 'm list \<times> nat \<times> 's" where
  "serve_all pub srv [] c s = ([], c, s)"
| "serve_all pub srv (es # ess) c s =
     (case srv c (fold pub es s) of (ms, c1, s1) \<Rightarrow>
        (case serve_all pub srv ess c1 s1 of (ms', c2, s2) \<Rightarrow> (ms @ ms', c2, s2)))"

locale reader_log =
  fixes rep :: "'e list \<Rightarrow> nat \<Rightarrow> 's \<Rightarrow> bool"
    and publish :: "'e \<Rightarrow> 's \<Rightarrow> 's"
    and serve :: "nat \<Rightarrow> 's \<Rightarrow> 'm list \<times> nat \<times> 's"
    and visible :: "'m \<Rightarrow> bool"
    and payload :: "'e \<Rightarrow> 'm list"
    and ok :: "'e \<Rightarrow> bool"
    and capacity limit :: nat
  assumes publish_rep: "rep log c s \<Longrightarrow> length log + 1 - c < capacity \<Longrightarrow> length log + 2 < limit \<Longrightarrow> ok e \<Longrightarrow>
      \<exists>e'. payload e' = payload e \<and> rep (log @ [e']) c (publish e s)"
    and serve_rep: "rep log c s \<Longrightarrow> \<exists>ms s'. serve c s = (ms, length log + 1, s') \<and>
      filter visible ms = concat (map payload (drop (c - 1) log)) \<and> rep log (length log + 1) s'"
begin

lemma publish_batch:
  assumes "rep log c s" "length log + 1 - c + length es \<le> capacity" "length log + length es + 1 < limit"
    "list_all ok es" "c \<le> length log + 1"
  shows "\<exists>es'. map payload es' = map payload es \<and> rep (log @ es') c (fold publish es s)"
  using assms
proof (induction es arbitrary: log s)
  case (Cons e es)
  have "length log + 1 - c < capacity" "length log + 2 < limit" "ok e" using Cons.prems by simp_all
  then obtain e' where e': "payload e' = payload e" "rep (log @ [e']) c (publish e s)"
    using publish_rep [OF Cons.prems(1)] by blast
  then obtain es' where "map payload es' = map payload es" "rep ((log @ [e']) @ es') c (fold publish es (publish e s))"
  proof -
    have "length (log @ [e']) + 1 - c + length es \<le> capacity"
      using Cons.prems(2,5) by (simp add: Suc_diff_le)
    then show ?thesis using Cons.IH [OF e'(2)] Cons.prems(3-5) that by auto
  qed
  with e' show ?case by (intro exI [of _ "e' # es'"]) simp
qed simp

text \<open>A reader that is served after at most \<open>capacity\<close> events receives everything, in order, once.\<close>

lemma serve_all_complete:
  assumes "rep log (length log + 1) s" "list_all (\<lambda>es. length es \<le> capacity \<and> list_all ok es) ess"
    "length log + length (concat ess) + 1 < limit"
  shows "\<exists>ms s' log'. serve_all publish serve ess (length log + 1) s = (ms, length log + length (concat ess) + 1, s') \<and>
     filter visible ms = concat (map payload (concat ess)) \<and>
     rep log' (length log + length (concat ess) + 1) s'"
  using assms
proof (induction ess arbitrary: log s)
  case Nil
  then show ?case by auto
next
  case (Cons es ess)
  obtain es' where es': "map payload es' = map payload es" "rep (log @ es') (length log + 1) (fold publish es s)"
    using publish_batch [OF Cons.prems(1), of es] Cons.prems by auto
  have len: "length es' = length es" using es'(1) by (metis length_map)
  obtain ms s' where ms: "serve (length log + 1) (fold publish es s) = (ms, length (log @ es') + 1, s')"
      "filter visible ms = concat (map payload es)" "rep (log @ es') (length (log @ es') + 1) s'"
    using serve_rep [OF es'(2)] es'(1) by auto
  obtain ms2 s2 log2 where "serve_all publish serve ess (length (log @ es') + 1) s' =
        (ms2, length (log @ es') + length (concat ess) + 1, s2)"
      "filter visible ms2 = concat (map payload (concat ess))"
      "rep log2 (length (log @ es') + length (concat ess) + 1) s2"
    using Cons.IH [OF ms(3)] Cons.prems(2,3) len by auto
  with ms len show ?case by (auto simp: add.assoc)
qed

end

text \<open>The loop of \<open>RunSSE\<close> while the stream is live, without the end event.\<close>

definition serve_live :: "string \<Rightarrow> nat \<Rightarrow> ActiveStream \<Rightarrow> server_message list \<times> nat \<times> ActiveStream" where
  "serve_live sid c s = (case serve_turn sid c s of (ms, c', _, s') \<Rightarrow> (ms, c', s'))"

interpretation sse: reader_log "reader sid" "publish_locked now" "serve_live sid" is_other content
    "\<lambda>e. \<not> ev_End e" streamBacklogMaxEvents "2 ^ 64" for sid now
proof unfold_locales
  fix log c s and e :: StreamEvent
  assume a: "reader sid log c s" "length log + 1 - c < streamBacklogMaxEvents" "length log + 2 < 2 ^ 64" "\<not> ev_End e"
  have "content (e\<lparr>ev_Sequence := length log + 1\<rparr>) = content e" by (simp add: content_def)
  with reader_publish [OF a] show "\<exists>e'. content e' = content e \<and> reader sid (log @ [e']) c (publish_locked now e s)"
    by blast
next
  fix log c s
  assume "reader sid log c s"
  from reader_serve_turn [OF this] show "\<exists>ms s'. serve_live sid c s = (ms, length log + 1, s') \<and>
      filter is_other ms = concat (map content (drop (c - 1) log)) \<and> reader sid log (length log + 1) s'"
    by (auto simp: serve_live_def)
qed

subsection \<open>Properties\<close>

text \<open>C11. The backlog implements the event log: on a stream that represents a log of fewer than
  \<open>2 ^ 64 - 2\<close> events, publishing appends the event with the next sequence number and leaves at most
  1024 events in memory, and reading from a cursor returns the logged events from that
  cursor on, superseded checkpoints blanked; a cursor before the window is answered with the
  latest checkpoint, when it is at or after the cursor, and the retained events after it.\<close>

theorem backlog_implements_log:
  assumes "log_rep log s" "length log + 2 < 2 ^ 64" "ev_End ev \<or> \<not> isTerminalStreamStatus (st_Status s)" "1 \<le> c"
  shows "log_rep (log @ [ev\<lparr>ev_Sequence := length log + 1\<rparr>]) (publish_locked now ev s) \<and>
     length (st_Backlog (publish_locked now ev s)) \<le> streamBacklogMaxEvents \<and>
     read_locked c s = spec_read (st_BacklogFirstSequence s) c log"
  using log_rep_publish [OF assms(1-3)] read_locked_eq [OF assms(1,4)] by blast

text \<open>C12. The reading loop of \<open>RunSSE\<close> loses, repeats and reorders none of the messages that are not
  checkpoints: of a stream that has not ended, a subscriber that is up to date receives over any
  number of turns exactly those messages of the events published before the turns, in their order, as
  long as at most 1024 events are published between two turns.  Nothing is said of checkpoints, which
  later ones replace, nor of the event that ends the stream.\<close>

theorem sse_delivers_in_order:
  assumes "reader sid log (length log + 1) s"
    "list_all (\<lambda>es. length es \<le> streamBacklogMaxEvents \<and> list_all (\<lambda>e. \<not> ev_End e) es) ess"
    "length log + length (concat ess) + 1 < 2 ^ 64"
  shows "filter is_other (fst (serve_all (publish_locked now) (serve_live sid) ess (length log + 1) s)) =
     concat (map content (concat ess))"
  using sse.serve_all_complete [OF assms, of now] by auto

subsection \<open>Witnesses\<close>

definition demo_event :: "server_message \<Rightarrow> StreamEvent" where
  "demo_event m = \<lparr>ev_Sequence = 0, ev_Message = Some m, ev_End = False, ev_TerminalErrorCode = [],
     ev_TerminalErrorMessage = []\<rparr>"

definition demo_stream :: ActiveStream where
  "demo_stream = (new_stream 5 ''r'' ''c'' 1 ''m'' ''m'' AGENT_MODE_AGENT ''hi'')
     \<lparr>st_Subscribers := Some [(''sub-1'', \<lparr>sub_Signal = False, sub_Cursor = 1\<rparr>)]\<rparr>"

lemma demo_log_rep: "log_rep [] demo_stream"
  by (simp add: log_rep_def demo_stream_def new_stream_def numbered_def blank_def latest_def)

lemma demo_reader: "reader ''sub-1'' [] 1 demo_stream"
proof -
  have "trim_space ''sub-1'' = ''sub-1''" by code_simp
  then show ?thesis
    using demo_log_rep by (simp add: reader_def sub_cursor_def demo_stream_def new_stream_def
        streamBacklogMaxEvents_def isTerminalStreamStatus_def)
qed

theorem backlog_implements_log_witness:
  "log_rep ([] @ [(demo_event (OtherServerMessage ''a''))\<lparr>ev_Sequence := length ([] :: StreamEvent list) + 1\<rparr>])
     (publish_locked 7 (demo_event (OtherServerMessage ''a'')) demo_stream) \<and>
   length (st_Backlog (publish_locked 7 (demo_event (OtherServerMessage ''a'')) demo_stream)) \<le> streamBacklogMaxEvents \<and>
   read_locked 1 demo_stream = spec_read (st_BacklogFirstSequence demo_stream) 1 []"
  by (rule backlog_implements_log [OF demo_log_rep])
    (simp_all add: demo_stream_def new_stream_def isTerminalStreamStatus_def)

theorem sse_delivers_in_order_witness:
  "filter is_other (fst (serve_all (publish_locked 7) (serve_live ''sub-1'')
     [[demo_event (OtherServerMessage ''a''), demo_event (ConversationCheckpointUpdate ''k'')],
      [demo_event (OtherServerMessage ''b'')]] (length ([] :: StreamEvent list) + 1) demo_stream)) =
   concat (map content (concat [[demo_event (OtherServerMessage ''a''), demo_event (ConversationCheckpointUpdate ''k'')],
      [demo_event (OtherServerMessage ''b'')]]))"
  by (rule sse_delivers_in_order)
    (use demo_reader in \<open>simp_all add: demo_event_def streamBacklogMaxEvents_def\<close>)

end
