(* ===== verification/Broker_Reach.thy ===== *)
theory Broker_Reach
  imports Stream_Log
begin

text \<open>
  The broker as a transition system: one rule per operation of \<open>broker.go\<close>, with the two critical
  sections of \<open>Subscribe\<close> as separate steps, and the status change of \<open>driveProvider\<close> in
  \<open>service.go\<close>, the only other place that writes a stream's status.  Every caller of \<open>Publish\<close>
  outside the broker publishes a message, never an end event.
\<close>

text \<open>The guarded write of the status at the start of a provider pass.\<close>

definition mark_streaming :: "ActiveStream \<Rightarrow> ActiveStream" where
  "mark_streaming s = (if st_ProviderActive s \<or> isTerminalStreamStatus (st_Status s) then s
     else s\<lparr>st_Status := StreamStatusStreaming\<rparr>)"

inductive broker_step :: "StreamBroker \<Rightarrow> StreamBroker \<Rightarrow> bool" where
  open_stream: "OpenStream now rid conv turn mid mname mode text b = Inr (x, b') \<Longrightarrow> broker_step b b'"
| sub_lookup: "Subscribe_lookup now rid b = Inr (a, b') \<Longrightarrow> broker_step b b'"
| sub_register: "Subscribe_register now a b = Some (x, e, b') \<Longrightarrow> a < length (sb_heap b) \<Longrightarrow> broker_step b b'"
| unsubscribe: "Unsubscribe rid sid b = (b', x) \<Longrightarrow> broker_step b b'"
| advance: "broker_step b (AdvanceSubscriber rid sid c b)"
| publish: "\<not> ev_End ev \<Longrightarrow> Publish now rid ev b = (b', x) \<Longrightarrow> broker_step b b'"
| schedule: "scheduleTerminalCleanup now rid b = (b', x) \<Longrightarrow> broker_step b b'"
| cleanup: "runScheduledTerminalCleanup rid tok b = (b', x) \<Longrightarrow> broker_step b b'"
| remove: "RemoveIfIdle rid b = (b', x) \<Longrightarrow> broker_step b b'"
| complete: "Complete now rid code msg b = (b', x) \<Longrightarrow> broker_step b b'"
| fail: "Fail now rid code msg b = (b', x) \<Longrightarrow> broker_step b b'"
| cancel: "Cancel now rid msg b = (b', x) \<Longrightarrow> broker_step b b'"
| shutdown: "Shutdown now b = (b', x) \<Longrightarrow> broker_step b b'"
| streaming: "Get b rid = Some a \<Longrightarrow> broker_step b (set_stream a (mark_streaming (stream_at b a)) b)"

inductive broker_reach :: "nat \<Rightarrow> StreamBroker \<Rightarrow> bool" where
  reach_init: "broker_reach 0 NewStreamBroker"
| reach_step: "broker_reach n b \<Longrightarrow> broker_step b b' \<Longrightarrow> broker_reach (Suc n) b'"

subsection \<open>The invariant of one stream\<close>

text \<open>The stream represents a log of at most \<open>n\<close> events, keeps at most 1024 of them, and only end
  events follow an end event, which is published after the status has become terminal.\<close>

definition ended_log :: "bool \<Rightarrow> StreamEvent list \<Rightarrow> bool" where
  "ended_log terminal log \<longleftrightarrow> (\<exists>xs ys. log = xs @ ys \<and> list_all (\<lambda>e. \<not> ev_End e) xs \<and> list_all ev_End ys \<and>
     (ys \<noteq> [] \<longrightarrow> terminal))"

definition stream_ok :: "nat \<Rightarrow> ActiveStream \<Rightarrow> bool" where
  "stream_ok n s \<longleftrightarrow> (\<exists>log. log_rep log s \<and> length log \<le> n \<and>
     length (st_Backlog s) \<le> streamBacklogMaxEvents \<and> ended_log (isTerminalStreamStatus (st_Status s)) log)"

lemma ended_log_mono: "ended_log t log \<Longrightarrow> (t \<longrightarrow> t') \<Longrightarrow> ended_log t' log"
  unfolding ended_log_def by blast

lemma ended_log_snoc_other:
  assumes "ended_log t log" "\<not> t" "\<not> ev_End e"
  shows "ended_log t (log @ [e])"
proof -
  have "list_all (\<lambda>e. \<not> ev_End e) log" using assms(1,2) by (auto simp: ended_log_def)
  then have "log @ [e] = (log @ [e]) @ []" "list_all (\<lambda>e. \<not> ev_End e) (log @ [e])" "list_all ev_End []"
    using assms(3) by simp_all
  then show ?thesis unfolding ended_log_def by blast
qed

lemma ended_log_snoc_end:
  assumes "ended_log t log" "ev_End e" t
  shows "ended_log t (log @ [e])"
proof -
  obtain xs ys where "log = xs @ ys" "list_all (\<lambda>e. \<not> ev_End e) xs" "list_all ev_End ys"
    using assms(1) by (auto simp: ended_log_def)
  with assms(2,3) have "log @ [e] = xs @ (ys @ [e])" "list_all (\<lambda>e. \<not> ev_End e) xs" "list_all ev_End (ys @ [e])"
    by simp_all
  with assms(3) show ?thesis unfolding ended_log_def by blast
qed

lemma stream_ok_cong:
  assumes "stream_ok n s" "st_NextBacklogSequence s' = st_NextBacklogSequence s"
    "st_BacklogFirstSequence s' = st_BacklogFirstSequence s" "st_Backlog s' = st_Backlog s"
    "st_LatestCheckpoint s' = st_LatestCheckpoint s"
    "isTerminalStreamStatus (st_Status s) \<longrightarrow> isTerminalStreamStatus (st_Status s')"
  shows "stream_ok n s'"
  using assms log_rep_cong ended_log_mono unfolding stream_ok_def by metis

lemma stream_ok_mono: "stream_ok n s \<Longrightarrow> n \<le> m \<Longrightarrow> stream_ok m s"
  unfolding stream_ok_def by (meson order_trans)

lemma stream_ok_compact: "stream_ok n s \<Longrightarrow> stream_ok n (compactBacklogLocked s)"
  unfolding stream_ok_def using log_rep_compact compact_simps(2) by metis

lemma stream_ok_publish:
  assumes "stream_ok n s" "n + 2 < 2 ^ 64" "ev_End ev \<longrightarrow> isTerminalStreamStatus (st_Status s)"
  shows "stream_ok (Suc n) (publish_locked now ev s)"
proof (cases "\<not> ev_End ev \<and> isTerminalStreamStatus (st_Status s)")
  case True
  then show ?thesis using stream_ok_mono [OF assms(1), of "Suc n"] by (simp add: publish_locked_def)
next
  case False
  obtain log where log: "log_rep log s" "length log \<le> n" "ended_log (isTerminalStreamStatus (st_Status s)) log"
    using assms(1) by (auto simp: stream_ok_def)
  let ?log = "log @ [ev\<lparr>ev_Sequence := length log + 1\<rparr>]"
  have b: "length log + 2 < 2 ^ 64" using log(2) assms(2) by simp
  have st: "st_Status (publish_locked now ev s) = st_Status s"
    using False log_rep_append_event(4) [OF log(1) b, of ev] compact_simps(2) [OF log_rep_append_event(1) [OF log(1) b, of ev]]
    by (auto simp: publish_locked_def)
  have "ended_log (isTerminalStreamStatus (st_Status s)) ?log"
    using False assms(3) ended_log_snoc_other [OF log(3)] ended_log_snoc_end [OF log(3)]
    by (cases "ev_End ev") auto
  then show ?thesis
    using log_rep_publish [OF log(1) b, of ev now] False log(2) st unfolding stream_ok_def by fastforce
qed

lemma tombstone_status: "st_Status (tombstoneLatestCheckpointLocked s) = st_Status s"
  by (simp add: tombstoneLatestCheckpointLocked_def Let_def split: option.split)

lemma append_event_status: "st_Status (append_event ev s) = st_Status s"
  by (simp add: append_event_def Let_def tombstone_status)

lemma compact_status: "st_Status (compactBacklogLocked s) = st_Status s"
  by (cases "st_Backlog s = []") (simp_all add: compact_keep_from, simp add: compactBacklogLocked_def)

lemma publish_status: "st_Status (publish_locked now ev s) = st_Status s"
  by (simp add: publish_locked_def append_event_status compact_status)

lemma stopTimer_simps [simp]:
  "st_NextBacklogSequence (fst (stopTerminalCleanupTimerLocked s)) = st_NextBacklogSequence s"
  "st_BacklogFirstSequence (fst (stopTerminalCleanupTimerLocked s)) = st_BacklogFirstSequence s"
  "st_Backlog (fst (stopTerminalCleanupTimerLocked s)) = st_Backlog s"
  "st_LatestCheckpoint (fst (stopTerminalCleanupTimerLocked s)) = st_LatestCheckpoint s"
  "st_Status (fst (stopTerminalCleanupTimerLocked s)) = st_Status s"
  "st_Subscribers (fst (stopTerminalCleanupTimerLocked s)) = st_Subscribers s"
  "st_TerminalCleanupSeq (fst (stopTerminalCleanupTimerLocked s)) = u64 (st_TerminalCleanupSeq s + 1)"
  by (simp_all add: stopTerminalCleanupTimerLocked_def)

lemma stream_ok_stopTimer: "stream_ok n s \<Longrightarrow> stream_ok n (fst (stopTerminalCleanupTimerLocked s))"
  by (erule stream_ok_cong) simp_all

lemma stream_ok_new: "stream_ok n (new_stream now rid conv turn mid mname mode text)"
  unfolding stream_ok_def ended_log_def
  by (rule exI [of _ "[]"]) (simp add: log_rep_def new_stream_def numbered_def blank_def latest_def)

lemma stream_ok_refresh: "stream_ok n s \<Longrightarrow> stream_ok n (refresh_stream now conv turn mid mname mode text s)"
  by (erule stream_ok_cong) (auto simp: refresh_stream_def isTerminalStreamStatus_def)

lemma stream_ok_unsubscribe: "stream_ok n s \<Longrightarrow> stream_ok n (unsubscribe_locked sid s)"
  unfolding unsubscribe_locked_def by (rule stream_ok_compact, erule stream_ok_cong) simp_all

lemma stream_ok_advance: "stream_ok n s \<Longrightarrow> stream_ok n (advance_locked sid c s)"
  unfolding advance_locked_def Let_def
  by (auto split: option.splits intro!: stream_ok_compact elim: stream_ok_cong)

lemma stream_ok_streaming: "stream_ok n s \<Longrightarrow> stream_ok n (mark_streaming s)"
  by (erule stream_ok_cong) (auto simp: mark_streaming_def)

subsection \<open>Relations that every critical section respects\<close>

definition same_log :: "ActiveStream \<Rightarrow> ActiveStream \<Rightarrow> bool" where
  "same_log s s' \<longleftrightarrow> st_NextBacklogSequence s' = st_NextBacklogSequence s \<and>
     st_BacklogFirstSequence s' = st_BacklogFirstSequence s \<and> st_Backlog s' = st_Backlog s \<and>
     st_LatestCheckpoint s' = st_LatestCheckpoint s"

abbreviation terminal :: "ActiveStream \<Rightarrow> bool" where
  "terminal s \<equiv> isTerminalStreamStatus (st_Status s)"

lemma stream_at_set:
  "stream_at (set_stream a s b) a' = (if a = a' \<and> a < length (sb_heap b) then s else stream_at b a')"
  by (cases "a < length (sb_heap b)") (auto simp: stream_at_def set_stream_def nth_list_update list_update_beyond)

lemma heap_set [simp]: "length (sb_heap (set_stream a s b)) = length (sb_heap b)"
  by (simp add: set_stream_def)

lemma streams_set [simp]: "sb_streams (set_stream a s b) = sb_streams b"
  by (simp add: set_stream_def)

lemma stream_at_streams [simp]: "stream_at (b\<lparr>sb_streams := x\<rparr>) a = stream_at b a"
  "stream_at (b\<lparr>sb_nextID := y\<rparr>) a = stream_at b a"
  by (simp_all add: stream_at_def)

text \<open>\<open>R k\<close> relates a stream before and after critical sections that publish at most \<open>k\<close> events.\<close>

locale section_relation =
  fixes R :: "nat \<Rightarrow> ActiveStream \<Rightarrow> ActiveStream \<Rightarrow> bool"
  assumes frame: "same_log s s' \<Longrightarrow> (terminal s \<longrightarrow> terminal s') \<Longrightarrow> R 0 s s'"
    and zero_first: "st_BacklogFirstSequence s = 0 \<Longrightarrow> R 0 s (s\<lparr>st_BacklogFirstSequence := x\<rparr>)"
    and compact: "R 0 s (compactBacklogLocked s)"
    and publish: "(ev_End ev \<longrightarrow> terminal s) \<Longrightarrow> R 1 s (publish_locked now ev s)"
    and trans: "R j s t \<Longrightarrow> R k t u \<Longrightarrow> R (j + k) s u"
    and mono: "R j s t \<Longrightarrow> j \<le> k \<Longrightarrow> R k s t"
begin

definition related :: "nat \<Rightarrow> StreamBroker \<Rightarrow> StreamBroker \<Rightarrow> bool" where
  "related k b b' \<longleftrightarrow> length (sb_heap b) \<le> length (sb_heap b') \<and>
     (\<forall>a < length (sb_heap b). R k (stream_at b a) (stream_at b' a))"

lemma R_refl: "R k s s"
  by (rule mono [OF frame]) (simp_all add: same_log_def)

lemma related_refl: "related k b b"
  by (simp add: related_def R_refl)

lemma related_trans: "related j b b1 \<Longrightarrow> related k b1 b2 \<Longrightarrow> related (j + k) b b2"
  unfolding related_def by (meson trans order_trans order_less_le_trans)

lemma related_mono: "related j b b' \<Longrightarrow> j \<le> k \<Longrightarrow> related k b b'"
  unfolding related_def using mono by blast

lemma related_set: "R k (stream_at b a) s \<Longrightarrow> related k b (set_stream a s b)"
  by (auto simp: related_def stream_at_set R_refl)

lemma related_frame:
  "same_log (stream_at b a) s \<Longrightarrow> (terminal (stream_at b a) \<longrightarrow> terminal s) \<Longrightarrow> related 0 b (set_stream a s b)"
  by (rule related_set, rule frame)

lemma related_streams: "related k b b' \<Longrightarrow> related k b (b'\<lparr>sb_streams := x\<rparr>)"
  by (simp add: related_def)

lemma related_Publish:
  "Publish now rid ev b = (b', x) \<Longrightarrow> (\<And>a. Get b rid = Some a \<Longrightarrow> ev_End ev \<longrightarrow> terminal (stream_at b a)) \<Longrightarrow>
   related 1 b b'"
  using publish by (auto simp: Publish_def related_refl intro!: related_set split: option.splits)

lemma related_schedule: "related 0 b (fst (scheduleTerminalCleanup now rid b))"
  by (auto simp: scheduleTerminalCleanup_def Let_def related_refl case_prod_beta same_log_def
      intro!: related_frame split: option.splits)

lemma related_remove: "related 0 b (fst (RemoveIfIdle rid b))"
  by (auto simp: RemoveIfIdle_def Let_def related_refl case_prod_beta same_log_def
      intro!: related_frame related_streams split: option.splits)

lemma related_cleanup: "related 0 b (fst (runScheduledTerminalCleanup rid tok b))"
proof (cases "Get b rid")
  case (Some a)
  let ?b1 = "set_stream a ((stream_at b a)\<lparr>st_TerminalCleanupTimer := None\<rparr>) b"
  have r1: "related 0 b ?b1" by (rule related_frame) (simp_all add: same_log_def)
  have r2: "related 0 b (fst (RemoveIfIdle rid ?b1))"
    using related_trans [OF r1 related_remove] by simp
  show ?thesis
    using Some r1 r2 by (simp add: runScheduledTerminalCleanup_def Let_def related_refl case_prod_beta)
qed (simp add: runScheduledTerminalCleanup_def related_refl)

lemma related_finish:
  assumes "related 0 b b1" "\<And>a. Get b1 rid = Some a \<Longrightarrow> terminal (stream_at b1 a)"
  shows "related 1 b (fst (finish_stream now rid ev n b1 e))"
proof -
  obtain b2 x where p: "Publish now rid ev b1 = (b2, x)" by fastforce
  have "related 1 b1 b2" by (rule related_Publish [OF p]) (use assms(2) in blast)
  then have r: "related 1 b b2" using related_trans [OF assms(1)] by fastforce
  have "related 1 b (fst (scheduleTerminalCleanup now rid b2))"
    using related_trans [OF r related_schedule] by simp
  with r show ?thesis by (cases x) (simp_all add: finish_stream_def p case_prod_beta)
qed

lemma related_end:
  assumes "Get b rid = Some a" "a < length (sb_heap b)" "same_log (stream_at b a) s" "terminal s"
  shows "related 1 b (fst (finish_stream now rid ev n (set_stream a s b) e))"
proof (rule related_finish)
  show "related 0 b (set_stream a s b)" by (rule related_frame) (use assms in simp_all)
  show "\<And>a'. Get (set_stream a s b) rid = Some a' \<Longrightarrow> terminal (stream_at (set_stream a s b) a')"
    using assms by (simp add: Get_def stream_at_set)
qed

lemma related_Complete:
  assumes "\<And>a. Get b rid = Some a \<Longrightarrow> a < length (sb_heap b)"
  shows "related 1 b (fst (Complete now rid code msg b))"
  by (auto simp: Complete_def Let_def related_refl case_prod_beta same_log_def isTerminalStreamStatus_def
      simp del: One_nat_def intro!: related_end assms split: option.splits)

lemma related_Fail:
  assumes "\<And>a. Get b rid = Some a \<Longrightarrow> a < length (sb_heap b)"
  shows "related 1 b (fst (Fail now rid code msg b))"
  by (auto simp: Fail_def Let_def related_refl case_prod_beta same_log_def isTerminalStreamStatus_def
      simp del: One_nat_def intro!: related_end assms split: option.splits)

lemma related_Cancel:
  assumes "\<And>a. Get b rid = Some a \<Longrightarrow> a < length (sb_heap b)"
  shows "related 1 b (fst (Cancel now rid msg b))"
  by (auto simp: Cancel_def Let_def related_refl case_prod_beta same_log_def isTerminalStreamStatus_def
      simp del: firstNonEmpty.simps One_nat_def intro!: related_end assms split: option.splits)

lemma related_register:
  assumes "Subscribe_register now a b = Some (x, e, b')"
  shows "related 0 b b'"
proof -
  let ?s1 = "fst (stopTerminalCleanupTimerLocked (stream_at b a))"
  let ?s2 = "if st_BacklogFirstSequence ?s1 = 0
     then ?s1\<lparr>st_BacklogFirstSequence := firstBacklogSequenceLocked ?s1\<rparr> else ?s1"
  obtain subs nid s3 where b': "b' = set_stream a s3 (b\<lparr>sb_nextID := nid\<rparr>)"
      and s3: "s3 = ?s2\<lparr>st_Subscribers := subs, st_UpdatedAt := now\<rparr>"
    using assms by (auto simp: Subscribe_register_def Let_def case_prod_beta split: option.splits)
  have "R 0 (stream_at b a) ?s1" by (rule frame) (simp_all add: same_log_def)
  moreover have "R 0 ?s1 ?s2" using zero_first [of ?s1] by (simp add: R_refl)
  moreover have "R 0 ?s2 s3" unfolding s3
    by (rule frame) (simp_all add: same_log_def)
  ultimately have "R (0 + (0 + 0)) (stream_at b a) s3"
    by (rule trans [OF _ trans])
  then show ?thesis
    by (simp add: b' related_def stream_at_set R_refl)
qed

lemma R_unsubscribe: "R 0 s (unsubscribe_locked sid s)"
  unfolding unsubscribe_locked_def
  using trans [OF frame compact] by (simp add: same_log_def)

lemma R_advance: "R 0 s (advance_locked sid c s)"
  unfolding advance_locked_def Let_def
  using trans [OF frame compact] by (auto simp: same_log_def R_refl split: option.splits)

lemma related_OpenStream:
  assumes "OpenStream now rid conv turn mid mname mode text b = Inr (x, b')"
  shows "related 0 b b'"
proof -
  have f: "R 0 s (refresh_stream now conv turn mid mname m text s)" for m s
    by (rule frame) (auto simp: same_log_def refresh_stream_def isTerminalStreamStatus_def)
  have "related 0 b (b\<lparr>sb_heap := sb_heap b @ [s], sb_streams := y\<rparr>)" for s y
    by (simp add: related_def stream_at_def nth_append R_refl)
  with assms f show ?thesis
    by (auto simp: OpenStream_def Let_def related_refl intro!: related_set split: if_splits sum.splits option.splits)
qed

text \<open>Every step but a shutdown relates all streams on the heap.\<close>

lemma step_related:
  assumes "broker_step b b'" "\<And>rid a. Get b rid = Some a \<Longrightarrow> a < length (sb_heap b)"
  shows "related 1 b b' \<or> (\<exists>now x. Shutdown now b = (b', x))"
  using assms
proof (induction rule: broker_step.cases)
  case (open_stream now rid conv turn mid mname mode t b x b')
  then show ?thesis using related_OpenStream related_mono by blast
next
  case (sub_lookup now rid b a b')
  then have "related 0 b b'"
    using related_OpenStream by (auto simp: Subscribe_lookup_def Let_def related_refl split: if_splits sum.splits option.splits)
  with sub_lookup show ?thesis using related_mono by blast
next
  case (sub_register now a b x e b')
  then show ?thesis using related_register related_mono by blast
next
  case (unsubscribe rid sid b b' x)
  then have "related 0 b b'"
    by (auto simp: Unsubscribe_def Let_def related_refl intro!: related_set R_unsubscribe split: option.splits)
  with unsubscribe show ?thesis using related_mono by blast
next
  case (advance b rid sid c)
  have "related 0 b (AdvanceSubscriber rid sid c b)"
    by (auto simp: AdvanceSubscriber_def related_refl intro!: related_set R_advance split: option.splits)
  with advance show ?thesis using related_mono by blast
next
  case (publish ev now rid b b' x)
  then show ?thesis using related_Publish by blast
next
  case (schedule now rid b b' x)
  then show ?thesis using related_schedule [of b now rid] related_mono by fastforce
next
  case (cleanup rid tok b b' x)
  then show ?thesis using related_cleanup [of b rid tok] related_mono by fastforce
next
  case (remove rid b b' x)
  then show ?thesis using related_remove [of b rid] related_mono by fastforce
next
  case (complete now rid code msg b b' x)
  then show ?thesis using related_Complete [of b rid now code msg] by simp
next
  case (fail now rid code msg b b' x)
  then show ?thesis using related_Fail [of b rid now code msg] by simp
next
  case (cancel now rid msg b b' x)
  then show ?thesis using related_Cancel [of b rid now msg] by simp
next
  case (streaming b rid a)
  have "related 0 b (set_stream a (mark_streaming (stream_at b a)) b)"
    by (rule related_frame) (auto simp: same_log_def mark_streaming_def)
  with streaming show ?thesis using related_mono by blast
qed auto

end

subsection \<open>Instances of the relation\<close>

text \<open>A terminal status stays terminal.\<close>

interpretation fin: section_relation "\<lambda>_ s s'. terminal s \<longrightarrow> terminal s'"
  by unfold_locales (auto simp: compact_status publish_status)

text \<open>The stream invariant is kept, one event longer per publication.\<close>

definition keeps_ok :: "nat \<Rightarrow> ActiveStream \<Rightarrow> ActiveStream \<Rightarrow> bool" where
  "keeps_ok k s s' \<longleftrightarrow> (\<forall>n. stream_ok n s \<longrightarrow> n + k + 1 < 2 ^ 64 \<longrightarrow> stream_ok (n + k) s')"

lemma keeps_okD: "keeps_ok k s s' \<Longrightarrow> stream_ok n s \<Longrightarrow> n + k + 1 < 2 ^ 64 \<Longrightarrow> stream_ok (n + k) s'"
  by (auto simp: keeps_ok_def)

interpretation ok: section_relation keeps_ok
proof (unfold_locales, unfold keeps_ok_def)
  fix s s' :: ActiveStream
  assume "same_log s s'" "terminal s \<longrightarrow> terminal s'"
  then show "\<forall>n. stream_ok n s \<longrightarrow> n + 0 + 1 < 2 ^ 64 \<longrightarrow> stream_ok (n + 0) s'"
    using stream_ok_cong [of _ s s'] by (simp add: same_log_def)
next
  fix s :: ActiveStream and x
  assume "st_BacklogFirstSequence s = 0"
  then have "\<not> stream_ok n s" for n using log_repD(4) by (fastforce simp: stream_ok_def)
  then show "\<forall>n. stream_ok n s \<longrightarrow> n + 0 + 1 < 2 ^ 64 \<longrightarrow> stream_ok (n + 0) (s\<lparr>st_BacklogFirstSequence := x\<rparr>)"
    by blast
next
  fix s
  show "\<forall>n. stream_ok n s \<longrightarrow> n + 0 + 1 < 2 ^ 64 \<longrightarrow> stream_ok (n + 0) (compactBacklogLocked s)"
    by (simp add: stream_ok_compact)
next
  fix ev :: StreamEvent and s now
  assume "ev_End ev \<longrightarrow> terminal s"
  then show "\<forall>n. stream_ok n s \<longrightarrow> n + 1 + 1 < 2 ^ 64 \<longrightarrow> stream_ok (n + 1) (publish_locked now ev s)"
    using stream_ok_publish [of _ s ev now] by (simp del: power_numeral)
next
  fix j k s t u
  assume a: "\<forall>n. stream_ok n s \<longrightarrow> n + j + 1 < 2 ^ 64 \<longrightarrow> stream_ok (n + j) t"
    and b: "\<forall>n. stream_ok n t \<longrightarrow> n + k + 1 < 2 ^ 64 \<longrightarrow> stream_ok (n + k) u"
  show "\<forall>n. stream_ok n s \<longrightarrow> n + (j + k) + 1 < 2 ^ 64 \<longrightarrow> stream_ok (n + (j + k)) u"
  proof (intro allI impI)
    fix n
    assume n: "stream_ok n s" "n + (j + k) + 1 < 2 ^ 64"
    then have "stream_ok (n + j) t" using a by simp
    moreover have "n + j + k + 1 < 2 ^ 64" using n(2) by simp
    ultimately have "stream_ok (n + j + k) u" using b by blast
    then show "stream_ok (n + (j + k)) u" by (simp add: add.assoc)
  qed
next
  fix j k s t
  assume a: "\<forall>n. stream_ok n s \<longrightarrow> n + j + 1 < 2 ^ 64 \<longrightarrow> stream_ok (n + j) t" and le: "j \<le> k"
  show "\<forall>n. stream_ok n s \<longrightarrow> n + k + 1 < 2 ^ 64 \<longrightarrow> stream_ok (n + k) t"
  proof (intro allI impI)
    fix n
    assume "stream_ok n s" "n + k + 1 < 2 ^ 64"
    then have "stream_ok (n + j) t" using a le by simp
    then show "stream_ok (n + k) t" by (rule stream_ok_mono) (use le in simp)
  qed
qed

subsection \<open>Reachable brokers\<close>

text \<open>Which streams are registered after a step: those of before, and a fresh one.\<close>

lemma finish_streams: "sb_streams (fst (finish_stream now rid ev n b e)) = sb_streams b"
  by (auto simp: finish_stream_def Publish_def scheduleTerminalCleanup_def Let_def case_prod_beta
      split: option.splits)

definition fresh_stream :: "ActiveStream \<Rightarrow> bool" where
  "fresh_stream s \<longleftrightarrow> (\<exists>now r conv turn mid mname m t. s = new_stream now r conv turn mid mname m t)"

lemma fresh_new [simp]: "fresh_stream (new_stream now r conv turn mid mname m t)"
  unfolding fresh_stream_def by blast

lemma RemoveIfIdle_streams: "set (sb_streams (fst (RemoveIfIdle rid b))) \<subseteq> set (sb_streams b)"
  using set_AList_delete [of _ "trim_space rid" "sb_streams b"]
  by (cases "map_of (sb_streams b) (trim_space rid)") (simp_all add: RemoveIfIdle_def Let_def case_prod_beta subset_iff)

lemma cleanup_streams: "set (sb_streams (fst (runScheduledTerminalCleanup rid tok b))) \<subseteq> set (sb_streams b)"
proof (cases "Get b rid")
  case (Some a)
  then show ?thesis
    using RemoveIfIdle_streams [of rid "set_stream a ((stream_at b a)\<lparr>st_TerminalCleanupTimer := None\<rparr>) b"]
    by (simp add: runScheduledTerminalCleanup_def Let_def case_prod_beta)
qed (simp add: runScheduledTerminalCleanup_def)

lemma OpenStream_streams:
  assumes "OpenStream now rid conv turn mid mname mode text b = Inr (x, b')" "p \<in> set (sb_streams b')"
  shows "p \<in> set (sb_streams b) \<or> (snd p = length (sb_heap b) \<and> length (sb_heap b') = Suc (length (sb_heap b)) \<and>
     fresh_stream (stream_at b' (snd p)))"
proof (cases "map_of (sb_streams b) (trim_space rid) = None \<and> trim_space rid \<noteq> []")
  case False
  then show ?thesis using assms by (auto simp: OpenStream_def Let_def split: if_splits sum.splits option.splits)
next
  case True
  then obtain m where b': "b' = b\<lparr>sb_heap := sb_heap b @ [new_stream now (trim_space rid) conv turn mid mname m text],
        sb_streams := AList.update (trim_space rid) (length (sb_heap b)) (sb_streams b)\<rparr>"
    using assms(1) by (auto simp: OpenStream_def Let_def split: sum.splits)
  have "p = (trim_space rid, length (sb_heap b)) \<or> p \<in> set (sb_streams b)"
    using assms(2) set_AList_update by (fastforce simp: b')
  then show ?thesis by (auto simp: b' stream_at_def)
qed

lemma Shutdown_streams: "sb_streams (fst (Shutdown now b)) = []"
proof -
  have "sb_streams (fst (fold (shutdown_step now) as st)) = sb_streams (fst st)" for as st
    by (induction as arbitrary: st) (auto simp: shutdown_step_def Let_def case_prod_beta split: prod.splits)
  then show ?thesis by (simp add: Shutdown_def)
qed

lemma step_streams:
  assumes "broker_step b b'" "p \<in> set (sb_streams b')"
  shows "p \<in> set (sb_streams b) \<or> (snd p = length (sb_heap b) \<and> length (sb_heap b') = Suc (length (sb_heap b)) \<and>
     fresh_stream (stream_at b' (snd p)))"
  using assms
proof (induction rule: broker_step.cases)
  case (open_stream now rid conv turn mid mname mode t b x b')
  then show ?thesis using OpenStream_streams by blast
next
  case (sub_lookup now rid b a b')
  then show ?thesis
    using OpenStream_streams [of now "trim_space rid" "[]" 0 "[]" "[]" AGENT_MODE_AGENT "[]" b _ b' p]
    by (auto simp: Subscribe_lookup_def Let_def split: if_splits sum.splits option.splits)
next
  case (sub_register now a b x e b')
  then show ?thesis by (auto simp: Subscribe_register_def Let_def case_prod_beta split: option.splits)
next
  case (unsubscribe rid sid b b' x)
  then show ?thesis by (auto simp: Unsubscribe_def Let_def split: option.splits)
next
  case (advance b rid sid c)
  then show ?thesis by (auto simp: AdvanceSubscriber_def split: option.splits)
next
  case (publish ev now rid b b' x)
  then show ?thesis by (auto simp: Publish_def split: option.splits)
next
  case (schedule now rid b b' x)
  then show ?thesis by (auto simp: scheduleTerminalCleanup_def Let_def case_prod_beta split: option.splits if_splits)
next
  case (cleanup rid tok b b' x)
  then show ?thesis using cleanup_streams [of rid tok b] by auto
next
  case (remove rid b b' x)
  then show ?thesis using RemoveIfIdle_streams [of rid b] by auto
next
  case (complete now rid code msg b b' x)
  then have "sb_streams b' = sb_streams b"
    using finish_streams by (auto simp: Complete_def Let_def case_prod_beta split: option.splits if_splits dest!: arg_cong [where f = fst])
  with complete show ?thesis by simp
next
  case (fail now rid code msg b b' x)
  then have "sb_streams b' = sb_streams b"
    using finish_streams by (auto simp: Fail_def Let_def case_prod_beta split: option.splits dest!: arg_cong [where f = fst])
  with fail show ?thesis by simp
next
  case (cancel now rid msg b b' x)
  then have "sb_streams b' = sb_streams b"
    using finish_streams by (auto simp: Cancel_def Let_def case_prod_beta simp del: firstNonEmpty.simps split: option.splits dest!: arg_cong [where f = fst])
  with cancel show ?thesis by simp
next
  case (shutdown now b b' x)
  then show ?thesis using Shutdown_streams [of now b] by simp
next
  case (streaming b rid a)
  then show ?thesis by simp
qed

definition broker_ok :: "nat \<Rightarrow> StreamBroker \<Rightarrow> bool" where
  "broker_ok n b \<longleftrightarrow> (\<forall>p \<in> set (sb_streams b). snd p < length (sb_heap b) \<and> stream_ok n (stream_at b (snd p)))"

lemma broker_ok_Get:
  "broker_ok n b \<Longrightarrow> Get b rid = Some a \<Longrightarrow> a < length (sb_heap b) \<and> stream_ok n (stream_at b a)"
  by (auto simp: broker_ok_def Get_def dest!: map_of_SomeD)

lemma broker_ok_step:
  assumes "broker_ok n b" "broker_step b b'" "n + 2 < 2 ^ 64"
  shows "broker_ok (Suc n) b'"
proof -
  have wf: "\<And>rid a. Get b rid = Some a \<Longrightarrow> a < length (sb_heap b)" using broker_ok_Get [OF assms(1)] by blast
  from ok.step_related [OF assms(2) wf] show ?thesis
  proof
    assume r: "ok.related 1 b b'"
    show ?thesis unfolding broker_ok_def
    proof
      fix p assume "p \<in> set (sb_streams b')"
      from step_streams [OF assms(2) this] show "snd p < length (sb_heap b') \<and> stream_ok (Suc n) (stream_at b' (snd p))"
      proof
        assume "p \<in> set (sb_streams b)"
        then have "snd p < length (sb_heap b)" "stream_ok n (stream_at b (snd p))"
          using assms(1) by (auto simp: broker_ok_def)
        moreover from this r have "keeps_ok 1 (stream_at b (snd p)) (stream_at b' (snd p))"
            "snd p < length (sb_heap b')"
          unfolding ok.related_def by auto
        ultimately show ?thesis using keeps_okD [of 1 _ _ n] assms(3) by simp
      next
        assume "snd p = length (sb_heap b) \<and> length (sb_heap b') = Suc (length (sb_heap b)) \<and>
          fresh_stream (stream_at b' (snd p))"
        then show ?thesis using stream_ok_new by (auto simp: fresh_stream_def)
      qed
    qed
  next
    assume "\<exists>now x. Shutdown now b = (b', x)"
    then have "sb_streams b' = []" by (metis Shutdown_streams fst_conv)
    then show ?thesis by (simp add: broker_ok_def)
  qed
qed

lemma broker_reach_ok: "broker_reach n b \<Longrightarrow> n + 2 < 2 ^ 64 \<Longrightarrow> broker_ok n b"
proof (induction rule: broker_reach.induct)
  case reach_init
  then show ?case by (simp add: broker_ok_def NewStreamBroker_def)
next
  case (reach_step n b b')
  then show ?case using broker_ok_step [of n b b'] by simp
qed

subsection \<open>Subscribing and shutting down\<close>

lemma Subscribe_lookup_Get:
  assumes "Subscribe_lookup now rid b = Inr (a, b1)"
  shows "Get b1 rid = Some a"
proof -
  have "map_of (AList.update k a' m) k = Some a'" for k a' and m :: "(string \<times> nat) list"
    by (simp add: update_conv')
  with assms show ?thesis
    by (auto simp: Subscribe_lookup_def OpenStream_def Get_def Let_def
        split: if_splits sum.splits option.splits)
qed

lemma shutdown_stream_subscribers: "st_Subscribers (fst (shutdown_stream now s)) = None"
  by (auto simp: shutdown_stream_def Let_def case_prod_beta clearAllStreamTimers_def
      releaseTerminalStreamState_def)

lemma shutdown_fold_subscribers:
  assumes "a \<in> set as \<or> st_Subscribers (stream_at (fst st) a) = None" "a < length (sb_heap (fst st))"
  shows "st_Subscribers (stream_at (fst (fold (shutdown_step now) as st)) a) = None"
  using assms
proof (induction as arbitrary: st)
  case (Cons x xs)
  have b: "fst (shutdown_step now x st) =
      set_stream x (fst (shutdown_stream now (stream_at (fst st) x))) (fst st)"
    by (simp add: shutdown_step_def Let_def case_prod_beta split: prod.splits)
  have "a \<in> set xs \<or> st_Subscribers (stream_at (fst (shutdown_step now x st)) a) = None"
    using Cons.prems by (auto simp: b stream_at_set shutdown_stream_subscribers)
  then show ?case using Cons.IH [of "shutdown_step now x st"] Cons.prems(2) by (simp add: b)
qed simp

lemma Shutdown_subscribers:
  assumes "Get b rid = Some a" "a < length (sb_heap b)"
  shows "st_Subscribers (stream_at (fst (Shutdown now b)) a) = None"
proof -
  have "a \<in> set (map snd (sb_streams b))" using assms(1) by (force simp: Get_def dest: map_of_SomeD)
  then show ?thesis
    unfolding Shutdown_def by (intro shutdown_fold_subscribers) (use assms(2) in simp_all)
qed

lemma register_nil: "st_Subscribers (stream_at b a) = None \<Longrightarrow> Subscribe_register now a b = None"
  by (simp add: Subscribe_register_def Let_def case_prod_beta put_entry_def)

lemma register_Some:
  assumes "Subscribe_register now a b = Some (x, e, b')" "a < length (sb_heap b)"
  shows "entries (st_Subscribers (stream_at b' a)) \<noteq> []"
    "st_TerminalCleanupSeq (stream_at b' a) = u64 (st_TerminalCleanupSeq (stream_at b a) + 1)"
proof -
  obtain kvs where "st_Subscribers (stream_at b a) = Some kvs"
    using assms(1) register_nil [of b a] by (cases "st_Subscribers (stream_at b a)") auto
  moreover have "AList.update k v m \<noteq> []" for k v and m :: "(string \<times> StreamSubscriber) list" by (cases m) auto
  ultimately show "entries (st_Subscribers (stream_at b' a)) \<noteq> []"
    "st_TerminalCleanupSeq (stream_at b' a) = u64 (st_TerminalCleanupSeq (stream_at b a) + 1)"
    using assms
    by (cases "st_BacklogFirstSequence (stream_at b a) = 0";
        auto simp: Subscribe_register_def Let_def case_prod_beta stream_at_set)+
qed

lemma register_broker:
  assumes "st_Subscribers (stream_at b a) = Some kvs"
  shows "\<exists>x e b'. Subscribe_register now a b = Some (x, e, b') \<and> sb_streams b' = sb_streams b"
  using assms
  by (cases "st_BacklogFirstSequence (stream_at b a) = 0") (auto simp: Subscribe_register_def Let_def case_prod_beta)

lemma u64_succ_neq: "n < 2 ^ 64 \<Longrightarrow> u64 (n + 1) \<noteq> n"
proof (cases "n + 1 < 2 ^ 64")
  case False
  assume "n < 2 ^ 64"
  with False have "n + 1 = 2 ^ 64" by simp
  then show ?thesis by (simp add: u64_def)
qed (simp add: u64_id)

lemma schedule_status:
  "st_Status (stream_at (fst (scheduleTerminalCleanup now rid b)) a) = st_Status (stream_at b a)"
  by (auto simp: scheduleTerminalCleanup_def Let_def case_prod_beta stream_at_set split: option.splits)

lemma finish_status: "st_Status (stream_at (fst (finish_stream now rid ev n b e)) a) = st_Status (stream_at b a)"
  by (auto simp: finish_stream_def Publish_def case_prod_beta stream_at_set schedule_status publish_status
      split: option.splits)

subsection \<open>Properties\<close>

text \<open>C13. In every broker reachable in fewer than \<open>2 ^ 64 - 2\<close> operations, in any order, a stream that
  a lookup finds represents an event log, holds at most 1024 of its events, and in that log nothing
  but end events follows an end event, which appears only once the stream's status is terminal.\<close>

theorem reachable_streams_ok:
  assumes "broker_reach n b" "n + 2 < 2 ^ 64" "Get b rid = Some a"
  shows "\<exists>log. log_rep log (stream_at b a) \<and> length log \<le> n \<and>
     length (st_Backlog (stream_at b a)) \<le> streamBacklogMaxEvents \<and>
     ended_log (isTerminalStreamStatus (st_Status (stream_at b a))) log"
  using broker_ok_Get [OF broker_reach_ok [OF assms(1,2)] assms(3)] by (simp add: stream_ok_def)

text \<open>A terminal status is final: no operation of the broker, and no new provider pass, makes a
  completed, failed or canceled stream live again.\<close>

lemma terminal_status_final:
  assumes "broker_reach n b" "n + 2 < 2 ^ 64" "Get b rid = Some a" "broker_step b b'"
    "isTerminalStreamStatus (st_Status (stream_at b a))" "Get b' rid = Some a"
  shows "isTerminalStreamStatus (st_Status (stream_at b' a))"
proof -
  note ok = broker_reach_ok [OF assms(1,2)]
  have "fin.related 1 b b' \<or> (\<exists>now x. Shutdown now b = (b', x))"
    by (rule fin.step_related [OF assms(4)]) (use broker_ok_Get [OF ok] in blast)
  then show ?thesis
  proof
    assume "fin.related 1 b b'"
    with assms(5) broker_ok_Get [OF ok assms(3)] show ?thesis by (auto simp: fin.related_def)
  next
    assume "\<exists>now x. Shutdown now b = (b', x)"
    then have "sb_streams b' = []" by (metis Shutdown_streams fst_conv)
    with assms(6) show ?thesis by (simp add: Get_def)
  qed
qed

text \<open>A reconnecting client keeps its stream: once it has subscribed, the removal that was
  scheduled before (with the then current token) does nothing when its timer fires, and an
  explicit attempt to remove the stream is refused.\<close>

lemma resubscribe_keeps_stream:
  assumes "Subscribe_register now a b = Some (x, e, b')" "a < length (sb_heap b)" "Get b' rid = Some a"
    "st_TerminalCleanupSeq (stream_at b a) = token" "token < 2 ^ 64"
  shows "runScheduledTerminalCleanup rid token b' = (b', []) \<and> snd (snd (RemoveIfIdle rid b')) = False"
proof
  note r = register_Some [OF assms(1,2)]
  have "st_TerminalCleanupSeq (stream_at b' a) \<noteq> token"
    using r(2) assms(4) u64_succ_neq [OF assms(5)] by simp
  then show "runScheduledTerminalCleanup rid token b' = (b', [])"
    using assms(3) by (simp add: runScheduledTerminalCleanup_def Let_def)
  show "snd (snd (RemoveIfIdle rid b')) = False"
    using assms(3) r(1) by (simp add: RemoveIfIdle_def Get_def Let_def case_prod_beta)
qed

text \<open>C16. Between the two critical sections of \<open>Subscribe\<close> the lock is free: when a shutdown runs there,
  registering the subscriber writes to the nil map the shutdown left and panics.\<close>

theorem subscribe_during_shutdown_panics:
  assumes "Subscribe_lookup now rid b = Inr (a, b1)" "a < length (sb_heap b1)" "Shutdown now' b1 = (b2, x)"
  shows "Subscribe_register now'' a b2 = None"
  using Shutdown_subscribers [OF Subscribe_lookup_Get [OF assms(1)] assms(2), of now'] assms(3)
  by (simp add: register_nil)

subsection \<open>Witnesses\<close>

definition demo_opened :: StreamBroker where
  "demo_opened = \<lparr>sb_streams = [(''r'', 0)],
     sb_heap = [new_stream 5 ''r'' [] 0 [] [] AGENT_MODE_AGENT []], sb_nextID = 0\<rparr>"

lemma trim_r: "trim_space ''r'' = ''r''"
  by code_simp

lemma demo_lookup: "Subscribe_lookup 5 ''r'' NewStreamBroker = Inr (0, demo_opened)"
  by (simp add: Subscribe_lookup_def trim_r NewStreamBroker_def Get_def OpenStream_def demo_opened_def
      validateSupportedActiveMode_def isSupportedActiveMode_def normalizeMode_def Let_def)

lemma demo_reach: "broker_reach 1 demo_opened"
  using reach_step [OF reach_init sub_lookup [OF demo_lookup]] by simp

lemma demo_Get: "Get demo_opened ''r'' = Some 0"
  by (simp add: Get_def demo_opened_def trim_r)

theorem reachable_streams_ok_witness:
  "\<exists>log. log_rep log (stream_at demo_opened 0) \<and> length log \<le> 1 \<and>
     length (st_Backlog (stream_at demo_opened 0)) \<le> streamBacklogMaxEvents \<and>
     ended_log (isTerminalStreamStatus (st_Status (stream_at demo_opened 0))) log"
  by (rule reachable_streams_ok [OF demo_reach _ demo_Get]) simp

definition demo_failed :: StreamBroker where
  "demo_failed = fst (Fail 6 ''r'' ''unknown'' ''boom'' demo_opened)"

lemma demo_failed_facts:
  "Get demo_failed ''r'' = Some 0" "isTerminalStreamStatus (st_Status (stream_at demo_failed 0))"
proof -
  have s: "sb_streams demo_failed = sb_streams demo_opened"
    unfolding demo_failed_def Fail_def using demo_Get by (simp add: finish_streams case_prod_beta Let_def)
  then show "Get demo_failed ''r'' = Some 0" using demo_Get by (simp add: Get_def)
  show "isTerminalStreamStatus (st_Status (stream_at demo_failed 0))"
    unfolding demo_failed_def Fail_def using demo_Get
    by (simp add: finish_status case_prod_beta Let_def stream_at_set isTerminalStreamStatus_def demo_opened_def)
qed

lemma demo_failed_reach: "broker_reach 2 demo_failed"
  using reach_step [OF demo_reach fail [of 6 "''r''" "''unknown''" "''boom''" demo_opened demo_failed]]
  by (simp add: demo_failed_def numeral_2_eq_2) (metis prod.collapse)

lemma terminal_status_example:
  "isTerminalStreamStatus (st_Status (stream_at (AdvanceSubscriber ''r'' ''sub-1'' 3 demo_failed) 0))"
proof (rule terminal_status_final [OF demo_failed_reach _ demo_failed_facts(1) advance demo_failed_facts(2)])
  show "Get (AdvanceSubscriber ''r'' ''sub-1'' 3 demo_failed) ''r'' = Some 0"
    using demo_failed_facts(1) by (simp add: AdvanceSubscriber_def) (simp add: Get_def)
qed simp

definition demo_registered :: StreamBroker where
  "demo_registered = snd (snd (the (Subscribe_register 9 0 demo_opened)))"

lemma demo_register: "\<exists>x e. Subscribe_register 9 0 demo_opened = Some (x, e, demo_registered) \<and>
    Get demo_registered ''r'' = Some 0"
proof -
  have "st_Subscribers (stream_at demo_opened 0) = Some []"
    by (simp add: demo_opened_def stream_at_def new_stream_def)
  from register_broker [OF this, of 9] show ?thesis
    using demo_Get by (auto simp: demo_registered_def Get_def)
qed

lemma demo_resubscribe:
  "runScheduledTerminalCleanup ''r'' 0 demo_registered = (demo_registered, []) \<and>
   snd (snd (RemoveIfIdle ''r'' demo_registered)) = False"
proof -
  obtain x e where "Subscribe_register 9 0 demo_opened = Some (x, e, demo_registered)"
      "Get demo_registered ''r'' = Some 0"
    using demo_register by blast
  moreover have "0 < length (sb_heap demo_opened)" "st_TerminalCleanupSeq (stream_at demo_opened 0) = 0"
    by (simp_all add: demo_opened_def stream_at_def new_stream_def)
  ultimately show ?thesis using resubscribe_keeps_stream [of 9 0 demo_opened x e demo_registered "''r''" 0] by simp
qed

theorem subscribe_during_shutdown_panics_witness:
  "Subscribe_register 9 0 (fst (Shutdown 7 demo_opened)) = None"
  by (rule subscribe_during_shutdown_panics [OF demo_lookup, where x = "snd (Shutdown 7 demo_opened)"])
    (simp_all add: demo_opened_def)

end
