(* ===== verification/Go_Replace.thy ===== *)
theory Go_Replace
  imports Go_Strings
begin

text \<open>
  \<open>strings.Count\<close> and \<open>strings.Replace\<close> for a non-empty substring, and the line-ending
  normalisation of \<open>forwarder/edit_result_helpers.go\<close> built on them.  With an empty substring the
  Go functions work on runes; the program never calls them so, and the model returns
  no occurrence.
\<close>

lemma index_of_bound: "index_of s sep = Some i \<Longrightarrow> i + length sep \<le> length s"
proof (induction s arbitrary: i)
  case (Cons c s)
  show ?case
  proof (cases "has_prefix (c # s) sep")
    case True
    then obtain r where "c # s = sep @ r" by (auto simp: has_prefix_iff)
    then have "length (c # s) = length sep + length r" by (metis length_append)
    with True Cons.prems show ?thesis by simp
  next
    case False
    with Cons show ?thesis by auto
  qed
qed (simp split: if_splits)

lemma index_of_split: "index_of s sep = Some i \<Longrightarrow> s = take i s @ sep @ drop (i + length sep) s"
proof (induction s arbitrary: i)
  case (Cons c s)
  then show ?case by (auto simp: has_prefix_iff split: if_splits)
qed (simp split: if_splits)

lemma index_of_shrinks: "index_of s old = Some i \<Longrightarrow> old \<noteq> [] \<Longrightarrow> length s - (i + length old) < length s"
  using index_of_bound [of s old i] by (cases old) auto

function count_sub :: "string \<Rightarrow> string \<Rightarrow> nat" where
  "count_sub s old = (if old = [] then 0 else case index_of s old of None \<Rightarrow> 0
     | Some i \<Rightarrow> Suc (count_sub (drop (i + length old) s) old))"
  by pat_completeness auto
termination
  by (relation "measure (\<lambda>(s, old). length s)") (auto simp: index_of_shrinks)

function replace_sub :: "string \<Rightarrow> string \<Rightarrow> string \<Rightarrow> nat option \<Rightarrow> string" where
  "replace_sub s old new n = (if old = [] \<or> n = Some 0 then s else case index_of s old of None \<Rightarrow> s
     | Some i \<Rightarrow> take i s @ new @ replace_sub (drop (i + length old) s) old new (map_option (\<lambda>k. k - 1) n))"
  by pat_completeness auto
termination
  by (relation "measure (\<lambda>(s, old, new, n). length s)") (auto simp: index_of_shrinks)

declare count_sub.simps [simp del] replace_sub.simps [simp del]

definition replace_all :: "string \<Rightarrow> string \<Rightarrow> string \<Rightarrow> string" where
  "replace_all s old new = replace_sub s old new None"

abbreviation CR :: char where "CR \<equiv> CHR 0x0D"
abbreviation LF :: char where "LF \<equiv> CHR 0x0A"

definition normalizeLineEndingsToLF :: "string \<Rightarrow> string" where
  "normalizeLineEndingsToLF value =
     (if CR \<notin> set value \<and> LF \<notin> set value then value
      else replace_all (replace_all value [CR, LF] [LF]) [CR] [LF])"

text \<open>What it computes: CR LF and a lone CR become LF.\<close>

fun to_lf :: "string \<Rightarrow> string" where
  "to_lf [] = []"
| "to_lf [c] = [if c = CR then LF else c]"
| "to_lf (c # d # s) =
     (if c = CR then LF # (if d = LF then to_lf s else to_lf (d # s)) else c # to_lf (d # s))"

lemma index_of_before:
  "index_of s sep = Some i \<Longrightarrow> s = l @ sep @ r \<Longrightarrow> i \<le> length l"
proof (induction s arbitrary: i l)
  case Nil
  then show ?case by (auto split: if_splits)
next
  case (Cons c s)
  show ?case
  proof (cases "has_prefix (c # s) sep")
    case True
    with Cons.prems(1) show ?thesis by simp
  next
    case False
    then obtain j where j: "index_of s sep = Some j" "i = Suc j" using Cons.prems(1) by auto
    have "l \<noteq> []" using False Cons.prems(2) by (auto simp: has_prefix_iff)
    then obtain l' where "l = c # l'" "s = l' @ sep @ r" using Cons.prems(2) by (cases l) auto
    with Cons.IH [OF j(1)] j(2) show ?thesis by simp
  qed
qed

lemma count_sub_pos: "sep \<noteq> [] \<Longrightarrow> 0 < count_sub s sep \<longleftrightarrow> (\<exists>l r. s = l @ sep @ r)"
  using contains_iff [of s sep] by (subst count_sub.simps) (auto simp: contains_def split: option.splits)

lemma count_sub_one:
  assumes "old \<noteq> []" "count_sub s old = 1"
  obtains i where "index_of s old = Some i" "count_sub (drop (i + length old) s) old = 0"
  using assms by (subst (asm) count_sub.simps) (auto split: option.splits)

text \<open>Replacing once edits the first occurrence.\<close>

lemma replace_once:
  assumes "old \<noteq> []" "index_of s old = Some i"
  shows "replace_sub s old new (Some 1) = take i s @ new @ drop (i + length old) s"
  using assms by (subst replace_sub.simps) (simp, subst replace_sub.simps, simp)

text \<open>Replacing everywhere: the text falls apart at the occurrences and is put together again.\<close>

fun interleave :: "string \<Rightarrow> string list \<Rightarrow> string" where
  "interleave sep [] = []"
| "interleave sep [p] = p"
| "interleave sep (p # q # ps) = p @ sep @ interleave sep (q # ps)"

lemma interleave_Cons: "ps \<noteq> [] \<Longrightarrow> interleave sep (p # ps) = p @ sep @ interleave sep ps"
  by (cases ps) simp_all

lemma replace_all_parts:
  assumes "old \<noteq> []"
  shows "\<exists>ps. length ps = Suc (count_sub s old) \<and> s = interleave old ps \<and>
     replace_all s old new = interleave new ps \<and> (\<forall>p\<in>set ps. \<not> contains p old)"
proof (induction s rule: length_induct)
  case (1 s)
  show ?case
  proof (cases "index_of s old")
    case None
    then have "count_sub s old = 0" "replace_all s old new = s"
      by (simp_all add: replace_all_def count_sub.simps [of s] replace_sub.simps [of s])
    then show ?thesis using None by (intro exI [of _ "[s]"]) (simp add: contains_def)
  next
    case (Some i)
    let ?r = "drop (i + length old) s"
    have "length ?r < length s" by (simp add: index_of_shrinks [OF Some assms])
    then obtain ps where ps: "length ps = Suc (count_sub ?r old)" "?r = interleave old ps"
        "replace_all ?r old new = interleave new ps" "\<forall>p\<in>set ps. \<not> contains p old"
      using 1 by blast
    have split: "s = take i s @ old @ ?r" by (rule index_of_split [OF Some])
    have pre: "\<not> contains (take i s) old"
    proof
      assume "contains (take i s) old"
      then obtain l r where lr: "take i s = l @ old @ r" by (auto simp: contains_iff)
      then have "s = l @ old @ (r @ old @ ?r)" using split by simp
      then have "i \<le> length l" by (rule index_of_before [OF Some])
      moreover have "length (take i s) = i" using index_of_bound [OF Some] by simp
      moreover have "length (take i s) = length l + length old + length r" using lr by simp
      ultimately show False using assms by simp
    qed
    have ne: "ps \<noteq> []" using ps(1) by auto
    have "count_sub s old = Suc (count_sub ?r old)" "replace_all s old new = take i s @ new @ replace_all ?r old new"
      using Some assms by (simp_all add: replace_all_def count_sub.simps [of s] replace_sub.simps [of s])
    then show ?thesis
      using ps pre split ne
      by (intro exI [of _ "take i s # ps"]) (simp add: interleave_Cons)
  qed
qed

subsection \<open>Line endings\<close>

lemma replace_all_step:
  assumes "old \<noteq> []"
  shows "replace_all (c # s) old new = (if has_prefix (c # s) old
     then new @ replace_all (drop (length old) (c # s)) old new else c # replace_all s old new)"
proof (cases "has_prefix (c # s) old")
  case True
  then show ?thesis using assms by (simp add: replace_all_def replace_sub.simps [of "c # s"])
next
  case False
  then show ?thesis
    using assms by (cases "index_of s old") (simp_all add: replace_all_def replace_sub.simps [of "c # s"] replace_sub.simps [of s])
qed

lemma replace_all_Nil [simp]: "old \<noteq> [] \<Longrightarrow> replace_all [] old new = []"
  by (simp add: replace_all_def replace_sub.simps)

lemma replace_cr: "replace_all s [CR] [LF] = map (\<lambda>c. if c = CR then LF else c) s"
  by (induction s) (simp_all add: replace_all_step has_prefix_def)

lemma replace_crlf:
  "map (\<lambda>c. if c = CR then LF else c) (replace_all s [CR, LF] [LF]) = to_lf s"
  by (induction s rule: to_lf.induct) (auto simp: replace_all_step has_prefix_def)

lemma to_lf_id: "CR \<notin> set s \<Longrightarrow> to_lf s = s"
  by (induction s rule: to_lf.induct) auto

lemma CR_to_lf [simp]: "CR \<notin> set (to_lf s)"
  by (induction s rule: to_lf.induct) auto

lemma normalize_eq_to_lf: "normalizeLineEndingsToLF s = to_lf s"
  by (simp add: normalizeLineEndingsToLF_def replace_cr replace_crlf to_lf_id)

end
