(* ===== verification/Patch_Args.thy ===== *)
theory Patch_Args
  imports Go_Replace Stream_Types
begin

text \<open>
  The arguments of the PatchEdit tool and the edit itself, \<open>forwarder/patch_edit_tool.go\<close> with the
  helpers of \<open>edit_result_helpers.go\<close> and \<open>path_resolution.go\<close>: decoding what the model sent, the
  payload kept in a pending execution as JSON and read back from it, and the replacement of text.

  The diff library is a parameter (\<open>dmp\<close>): it yields the line diff and the patch text.  Strings are
  taken to be valid UTF-8, as protobuf and the JSON decoder deliver them; on such strings the JSON
  encoder and decoder are inverse to each other.
\<close>

definition isASCIIAlpha :: "char \<Rightarrow> bool" where
  "isASCIIAlpha c \<longleftrightarrow> (CHR ''A'' \<le> c \<and> c \<le> CHR ''Z'') \<or> (CHR ''a'' \<le> c \<and> c \<le> CHR ''z'')"

definition isPathSeparator :: "char \<Rightarrow> bool" where
  "isPathSeparator c \<longleftrightarrow> c = CHR 0x5C \<or> c = CHR ''/''"

definition isAbsoluteToolPath :: "string \<Rightarrow> bool" where
  "isAbsoluteToolPath path = (let trimmed = trim_space path in
     if trimmed = [] then False
     else if has_prefix trimmed ''/'' then True
     else if has_prefix trimmed [CHR 0x5C, CHR 0x5C] then True
     else length trimmed \<ge> 3 \<and> isASCIIAlpha (trimmed ! 0) \<and> trimmed ! 1 = CHR '':'' \<and> isPathSeparator (trimmed ! 2))"

text \<open>The first of the keys that is present: its value, whether one was found, and its type check.\<close>

fun readJSONStringAny :: "(string \<times> json) list \<Rightarrow> string list \<Rightarrow> string \<times> bool \<times> bool" where
  "readJSONStringAny args [] = ([], False, False)"
| "readJSONStringAny args (key # keys) = (case obj_get key args of
       None \<Rightarrow> readJSONStringAny args keys
     | Some (JString s) \<Rightarrow> (s, True, True)
     | Some _ \<Rightarrow> ([], True, False))"

fun readJSONBoolAny :: "(string \<times> json) list \<Rightarrow> string list \<Rightarrow> bool \<times> bool \<times> bool" where
  "readJSONBoolAny args [] = (False, False, False)"
| "readJSONBoolAny args (key # keys) = (case obj_get key args of
       None \<Rightarrow> readJSONBoolAny args keys
     | Some (JBool b) \<Rightarrow> (b, True, True)
     | Some _ \<Rightarrow> (False, True, False))"

definition path_keys :: "string list" where
  "path_keys = [''path'', ''file_path'', ''Path'', ''FilePath'']"

definition old_keys :: "string list" where
  "old_keys = [''old_string'', ''oldString'', ''OldString'']"

definition new_keys :: "string list" where
  "new_keys = [''new_string'', ''newString'', ''NewString'']"

definition all_keys :: "string list" where
  "all_keys = [''replace_all'', ''replaceAll'', ''ReplaceAll'']"

definition emptyPatchArgs :: patchEditArgs where
  "emptyPatchArgs = \<lparr>pea_Path = [], pea_OldString = [], pea_NewString = [], pea_NewStringSet = False,
     pea_ReplaceAll = False, pea_ReplaceAllSet = False\<rparr>"

text \<open>\<open>json.Unmarshal\<close> into a \<open>map[string]any\<close>: \<open>null\<close> gives the nil map, which has no keys.\<close>

definition unmarshal_map :: "raw_json \<Rightarrow> (string \<times> json) list option" where
  "unmarshal_map r = (case r of RawJson (JObject fs) \<Rightarrow> Some fs | RawJson JNull \<Rightarrow> Some [] | _ \<Rightarrow> None)"

definition read_patch_args :: "(string \<times> json) list \<Rightarrow> patchEditArgs" where
  "read_patch_args fs = \<lparr>
     pea_Path = fst (readJSONStringAny fs path_keys),
     pea_OldString = fst (readJSONStringAny fs old_keys),
     pea_NewString = fst (readJSONStringAny fs new_keys),
     pea_NewStringSet = fst (snd (readJSONStringAny fs new_keys)),
     pea_ReplaceAll = fst (readJSONBoolAny fs all_keys),
     pea_ReplaceAllSet = fst (snd (readJSONBoolAny fs all_keys))\<rparr>"

definition bad_string :: "(string \<times> json) list \<Rightarrow> string list \<Rightarrow> bool" where
  "bad_string fs keys = (case readJSONStringAny fs keys of (_, found, valid) \<Rightarrow> found \<and> \<not> valid)"

definition bad_bool :: "(string \<times> json) list \<Rightarrow> string list \<Rightarrow> bool" where
  "bad_bool fs keys = (case readJSONBoolAny fs keys of (_, found, valid) \<Rightarrow> found \<and> \<not> valid)"

definition decodePatchEditArgs :: "raw_json \<Rightarrow> patchEditArgs \<times> string option" where
  "decodePatchEditArgs raw = (case unmarshal_map raw of
       None \<Rightarrow> (emptyPatchArgs, Some ''decode PatchEdit args failed'')
     | Some fs \<Rightarrow>
        (let a = read_patch_args fs; oldFound = fst (snd (readJSONStringAny fs old_keys)) in
         (a, if bad_string fs path_keys then Some ''PatchEdit path must be a string''
             else if trim_space (pea_Path a) = [] then Some ''PatchEdit path is required''
             else if \<not> isAbsoluteToolPath (pea_Path a) then Some ''PatchEdit path must be absolute''
             else if bad_string fs old_keys then Some ''PatchEdit old_string must be a string''
             else if \<not> oldFound \<or> pea_OldString a = [] then Some ''PatchEdit old_string is required''
             else if bad_string fs new_keys then Some ''PatchEdit new_string must be a string''
             else if \<not> pea_NewStringSet a then Some ''PatchEdit new_string is required''
             else if bad_bool fs all_keys then Some ''PatchEdit replace_all must be a boolean''
             else None)))"

definition marshalPatchEditArgs :: "patchEditArgs \<Rightarrow> json" where
  "marshalPatchEditArgs a = JObject
     ([(''new_string'', JString (pea_NewString a)), (''old_string'', JString (pea_OldString a)),
       (''path'', JString (trim_space (pea_Path a)))] @
      (if pea_ReplaceAllSet a \<or> pea_ReplaceAll a then [(''replace_all'', JBool (pea_ReplaceAll a))] else []))"

definition unmarshalPatchEditArgs :: "json \<Rightarrow> patchEditArgs option" where
  "unmarshalPatchEditArgs j = (case unmarshal_map (RawJson j) of
       None \<Rightarrow> None
     | Some fs \<Rightarrow>
         if bad_string fs path_keys \<or> bad_string fs old_keys \<or> bad_string fs new_keys \<or> bad_bool fs all_keys
         then None else Some (read_patch_args fs))"

subsection \<open>The pending payload as JSON\<close>

text \<open>Struct encoding with \<open>omitempty\<close>: a raw message that is not JSON makes the encoder fail.\<close>

definition omit_empty :: "string \<Rightarrow> string \<Rightarrow> (string \<times> json) list" where
  "omit_empty key v = (if v = [] then [] else [(key, JString v)])"

definition omit_zero :: "string \<Rightarrow> int \<Rightarrow> (string \<times> json) list" where
  "omit_zero key v = (if v = 0 then [] else [(key, JNumber (int_dec v))])"

definition payload_fields :: "pendingPatchEditPayload \<Rightarrow> (string \<times> json) list" where
  "payload_fields p =
     ([(''tool_name'', JString (pep_ToolName p))] @
      (case pep_RawArgsJSON p of RawJson j \<Rightarrow> [(''raw_args_json'', j)] | _ \<Rightarrow> []) @
      (if pep_ArgsDecodeFailed p then [(''args_decode_failed'', JBool True)] else []) @
      [(''args'', marshalPatchEditArgs (pep_Args p)), (''resolved_path'', JString (pep_ResolvedPath p))] @
      omit_empty ''before_content'' (pep_BeforeContent p) @ omit_empty ''after_content'' (pep_AfterContent p) @
      omit_empty ''diff_string'' (pep_DiffString p) @ omit_zero ''lines_added'' (pep_LinesAdded p) @
      omit_zero ''lines_removed'' (pep_LinesRemoved p) @ omit_empty ''message'' (pep_Message p))"

definition marshalPatchEditPayload :: "pendingPatchEditPayload \<Rightarrow> raw_json option" where
  "marshalPatchEditPayload p =
     (if pep_RawArgsJSON p = RawInvalid then None else Some (RawJson (JObject (payload_fields p))))"

definition dec_args :: "json \<Rightarrow> patchEditArgs \<Rightarrow> patchEditArgs option" where
  "dec_args j v = unmarshalPatchEditArgs j"

definition decode_payload_fields :: "(string \<times> json) list \<Rightarrow> pendingPatchEditPayload option" where
  "decode_payload_fields fs =
     (case (decode_field dec_string ''tool_name'' fs [], decode_field dec_raw ''raw_args_json'' fs RawEmpty,
            decode_field dec_bool ''args_decode_failed'' fs False, decode_field dec_args ''args'' fs emptyPatchArgs,
            decode_field dec_string ''resolved_path'' fs [], decode_field dec_string ''before_content'' fs [],
            decode_field dec_string ''after_content'' fs [], decode_field dec_string ''diff_string'' fs [],
            decode_field dec_int32 ''lines_added'' fs 0, decode_field dec_int32 ''lines_removed'' fs 0,
            decode_field dec_string ''message'' fs []) of
        (Some tn, Some raw, Some failed, Some args, Some path, Some before, Some after, Some diff, Some la, Some lr, Some msg) \<Rightarrow>
          Some \<lparr>pep_ToolName = tn, pep_RawArgsJSON = raw, pep_ArgsDecodeFailed = failed, pep_Args = args,
            pep_ResolvedPath = path, pep_BeforeContent = before, pep_AfterContent = after, pep_DiffString = diff,
            pep_LinesAdded = la, pep_LinesRemoved = lr, pep_Message = msg\<rparr>
      | _ \<Rightarrow> None)"

definition decodePendingPatchEditPayload :: "raw_json \<Rightarrow> pendingPatchEditPayload option" where
  "decodePendingPatchEditPayload r = (case r of
       RawJson (JObject fs) \<Rightarrow> decode_payload_fields fs
     | RawJson JNull \<Rightarrow> decode_payload_fields []
     | _ \<Rightarrow> None)"

subsection \<open>The edit\<close>

datatype diffType = DiffDelete | DiffInsert | DiffEqual

type_synonym diff_lib = "string \<Rightarrow> string \<Rightarrow> (diffType \<times> string) list \<times> string"

text \<open>\<open>countChangedLines\<close>: newlines, and one more for an unterminated last line.\<close>

definition countChangedLines :: "string \<Rightarrow> int" where
  "countChangedLines txt = (if txt = [] then 0
     else let lines = i32 (int (count_sub txt [LF])) in
          if has_suffix txt [LF] then lines else i32 (lines + 1))"

fun count_diffs :: "(diffType \<times> string) list \<Rightarrow> int \<Rightarrow> int \<Rightarrow> int \<times> int" where
  "count_diffs [] added removed = (added, removed)"
| "count_diffs ((DiffInsert, txt) # ds) added removed = count_diffs ds (i32 (added + countChangedLines txt)) removed"
| "count_diffs ((DiffDelete, txt) # ds) added removed = count_diffs ds added (i32 (removed + countChangedLines txt))"
| "count_diffs ((DiffEqual, txt) # ds) added removed = count_diffs ds added removed"

definition computeEditDiff :: "diff_lib \<Rightarrow> string \<Rightarrow> string \<Rightarrow> string \<times> int \<times> int" where
  "computeEditDiff dmp beforeContent afterContent =
     (case dmp beforeContent afterContent of (diffs, patch) \<Rightarrow> (patch, count_diffs diffs 0 0))"

record editComputation =
  ec_BeforeContent :: string
  ec_AfterContent :: string
  ec_DiffString :: string
  ec_LinesAdded :: int
  ec_LinesRemoved :: int
  ec_Message :: string

definition computePatchEdit :: "diff_lib \<Rightarrow> pendingPatchEditPayload \<Rightarrow> string \<Rightarrow> string + editComputation" where
  "computePatchEdit dmp payload beforeContent =
     (let args = pep_Args payload; occurrences = count_sub beforeContent (pea_OldString args) in
      if occurrences = 0 then Inl ''PatchEdit old_string not found''
      else if occurrences > 1 \<and> \<not> pea_ReplaceAll args
      then Inl (''PatchEdit old_string is not unique; found '' @ nat_dec occurrences @ '' occurrences'')
      else let afterContent = replace_sub beforeContent (pea_OldString args) (pea_NewString args)
                 (if pea_ReplaceAll args then None else Some 1);
               (diffString, linesAdded, linesRemoved) = computeEditDiff dmp beforeContent afterContent
           in Inr \<lparr>ec_BeforeContent = beforeContent, ec_AfterContent = afterContent, ec_DiffString = diffString,
                ec_LinesAdded = linesAdded, ec_LinesRemoved = linesRemoved, ec_Message = ''PatchEdit applied''\<rparr>)"

lemma plain_keys [simp]:
  "plain_key ''tool_name''" "plain_key ''raw_args_json''" "plain_key ''args_decode_failed''" "plain_key ''args''"
  "plain_key ''resolved_path''" "plain_key ''before_content''" "plain_key ''after_content''"
  "plain_key ''diff_string''" "plain_key ''lines_added''" "plain_key ''lines_removed''" "plain_key ''message''"
  by code_simp+

definition normPatchArgs :: "patchEditArgs \<Rightarrow> patchEditArgs" where
  "normPatchArgs a = a\<lparr>pea_Path := trim_space (pea_Path a), pea_NewStringSet := True,
     pea_ReplaceAllSet := pea_ReplaceAllSet a \<or> pea_ReplaceAll a\<rparr>"

lemma args_roundtrip: "unmarshalPatchEditArgs (marshalPatchEditArgs a) = Some (normPatchArgs a)"
  by (cases a) (simp add: unmarshalPatchEditArgs_def marshalPatchEditArgs_def unmarshal_map_def bad_string_def
      bad_bool_def read_patch_args_def normPatchArgs_def path_keys_def old_keys_def new_keys_def all_keys_def
      obj_get_def)

lemma decode_omit_other [simp]:
  assumes "plain_key n" "plain_key k" "n \<noteq> k"
  shows "decode_field dec n (omit_empty k s) v = Some v" "decode_field dec n (omit_zero k i) v = Some v"
  using assms by (auto simp: omit_empty_def omit_zero_def key_matches_plain)

lemma decode_omit_same [simp]:
  assumes "plain_key n"
  shows "decode_field dec_string n (omit_empty n s) [] = Some s"
    and "i32 i = i \<Longrightarrow> decode_field dec_int32 n (omit_zero n i) 0 = Some i"
  using assms by (auto simp: omit_empty_def omit_zero_def key_matches_plain dec_int32_int_dec simp del: dec_int32.simps)

definition normPayload :: "pendingPatchEditPayload \<Rightarrow> pendingPatchEditPayload" where
  "normPayload p = p\<lparr>pep_Args := normPatchArgs (pep_Args p)\<rparr>"

lemmas payload_decode = payload_fields_def decode_field_append key_matches_plain dec_raw_def dec_args_def args_roundtrip

lemma payload_fields_decode:
  "decode_field dec_string ''tool_name'' (payload_fields p) [] = Some (pep_ToolName p)"
  "decode_field dec_bool ''args_decode_failed'' (payload_fields p) False = Some (pep_ArgsDecodeFailed p)"
  "decode_field dec_args ''args'' (payload_fields p) emptyPatchArgs = Some (normPatchArgs (pep_Args p))"
  "decode_field dec_string ''resolved_path'' (payload_fields p) [] = Some (pep_ResolvedPath p)"
  "decode_field dec_string ''before_content'' (payload_fields p) [] = Some (pep_BeforeContent p)"
  "decode_field dec_string ''after_content'' (payload_fields p) [] = Some (pep_AfterContent p)"
  "decode_field dec_string ''diff_string'' (payload_fields p) [] = Some (pep_DiffString p)"
  "decode_field dec_string ''message'' (payload_fields p) [] = Some (pep_Message p)"
  by (simp_all add: payload_decode split: raw_json.split)

lemma payload_numbers_decode:
  "i32 (pep_LinesAdded p) = pep_LinesAdded p \<Longrightarrow>
   decode_field dec_int32 ''lines_added'' (payload_fields p) 0 = Some (pep_LinesAdded p)"
  "i32 (pep_LinesRemoved p) = pep_LinesRemoved p \<Longrightarrow>
   decode_field dec_int32 ''lines_removed'' (payload_fields p) 0 = Some (pep_LinesRemoved p)"
  "pep_RawArgsJSON p \<noteq> RawInvalid \<Longrightarrow>
   decode_field dec_raw ''raw_args_json'' (payload_fields p) RawEmpty = Some (pep_RawArgsJSON p)"
  by (simp_all add: payload_decode split: raw_json.split)

lemma payload_roundtrip:
  assumes "pep_RawArgsJSON p \<noteq> RawInvalid" "i32 (pep_LinesAdded p) = pep_LinesAdded p"
    and "i32 (pep_LinesRemoved p) = pep_LinesRemoved p" "marshalPatchEditPayload p = Some raw"
  shows "decodePendingPatchEditPayload raw = Some (normPayload p)"
  using assms by (auto simp: marshalPatchEditPayload_def decodePendingPatchEditPayload_def decode_payload_fields_def
      payload_fields_decode payload_numbers_decode normPayload_def)

subsection \<open>What an edit does\<close>

lemma count_sub_two:
  assumes "old \<noteq> []"
  shows "1 < count_sub s old \<longleftrightarrow> (\<exists>l m r. s = l @ old @ m @ old @ r)"
proof (cases "index_of s old")
  case None
  then have "\<not> contains s old" by (simp add: contains_def)
  then have "\<not> (\<exists>l m r. s = l @ old @ m @ old @ r)" by (auto simp: contains_iff)
  with None assms show ?thesis by (simp add: count_sub.simps [of s])
next
  case (Some i)
  have "1 < count_sub s old \<longleftrightarrow> (\<exists>m r. drop (i + length old) s = m @ old @ r)"
    using Some assms count_sub_pos [OF assms] by (simp add: count_sub.simps [of s])
  also have "\<dots> \<longleftrightarrow> (\<exists>l m r. s = l @ old @ m @ old @ r)"
  proof
    assume "\<exists>m r. drop (i + length old) s = m @ old @ r"
    then show "\<exists>l m r. s = l @ old @ m @ old @ r" using index_of_split [OF Some] by metis
  next
    assume "\<exists>l m r. s = l @ old @ m @ old @ r"
    then obtain l m r where s: "s = l @ old @ m @ old @ r" by blast
    then have le: "i + length old \<le> length l + length old" using index_of_before [OF Some, of l "m @ old @ r"] by simp
    have "drop (i + length old) s = drop (i + length old) (l @ old) @ m @ old @ r"
      using le s by (simp add: drop_append)
    then show "\<exists>m r. drop (i + length old) s = m @ old @ r" by (metis append.assoc)
  qed
  finally show ?thesis .
qed

lemma first_occurrence_overlap:
  assumes "index_of s old = Some i" "\<not> (\<exists>l m r. s = l @ old @ m @ old @ r)" "s = l @ old @ r"
  shows "i \<le> length l" "length l < i + length old"
proof -
  show "i \<le> length l" by (rule index_of_before [OF assms(1,3)])
  show "length l < i + length old"
  proof (rule ccontr)
    assume "\<not> length l < i + length old"
    then have "drop (i + length old) s = drop (i + length old) l @ old @ r" using assms(3) by simp
    with index_of_split [OF assms(1)] assms(2) show False by metis
  qed
qed

lemma compute_once:
  assumes "\<not> pea_ReplaceAll (pep_Args p)" "pea_OldString (pep_Args p) \<noteq> []"
    and "index_of s (pea_OldString (pep_Args p)) = Some i" "count_sub s (pea_OldString (pep_Args p)) = 1"
  shows "\<exists>c. computePatchEdit dmp p s = Inr c \<and> ec_AfterContent c =
     take i s @ pea_NewString (pep_Args p) @ drop (i + length (pea_OldString (pep_Args p))) s"
  using assms by (simp add: computePatchEdit_def Let_def case_prod_beta replace_once del: One_nat_def)

text \<open>C22.  Without \<open>replace_all\<close>, a PatchEdit is accepted exactly when the old string occurs in the
  file and does not occur twice without overlap.  It then replaces the first occurrence and nothing
  else, and every other occurrence overlaps the one that was replaced.\<close>

theorem patch_edit_replaces_one:
  assumes "pea_OldString (pep_Args p) = old" "old \<noteq> []" "\<not> pea_ReplaceAll (pep_Args p)"
  shows "((\<exists>c. computePatchEdit dmp p s = Inr c) \<longleftrightarrow>
           (\<exists>l r. s = l @ old @ r) \<and> \<not> (\<exists>l m r. s = l @ old @ m @ old @ r)) \<and>
     (\<forall>c. computePatchEdit dmp p s = Inr c \<longrightarrow>
        (\<exists>l r. s = l @ old @ r \<and> ec_AfterContent c = l @ pea_NewString (pep_Args p) @ r \<and>
           (\<forall>l' r'. s = l' @ old @ r' \<longrightarrow> length l \<le> length l' \<and> length l' < length l + length old)))"
proof (cases "count_sub s old = 1")
  case True
  then obtain i where i: "index_of s old = Some i" using count_sub_one [OF assms(2)] by blast
  obtain c where c: "computePatchEdit dmp p s = Inr c"
      "ec_AfterContent c = take i s @ pea_NewString (pep_Args p) @ drop (i + length old) s"
    using compute_once [of p s i dmp] assms i True by auto
  have occ: "\<exists>l r. s = l @ old @ r" using index_of_split [OF i] by blast
  have two: "\<not> (\<exists>l m r. s = l @ old @ m @ old @ r)" using count_sub_two [OF assms(2), of s] True by simp
  have "length (take i s) = i" using index_of_bound [OF i] by simp
  then have "s = take i s @ old @ drop (i + length old) s \<and>
      (\<forall>l' r'. s = l' @ old @ r' \<longrightarrow> length (take i s) \<le> length l' \<and> length l' < length (take i s) + length old)"
    using index_of_split [OF i] first_occurrence_overlap [OF i two] by simp
  then have "\<exists>l r. s = l @ old @ r \<and> ec_AfterContent c = l @ pea_NewString (pep_Args p) @ r \<and>
      (\<forall>l' r'. s = l' @ old @ r' \<longrightarrow> length l \<le> length l' \<and> length l' < length l + length old)"
    using c(2) by blast
  then show ?thesis using c(1) occ two by auto
next
  case False
  then have "\<exists>e. computePatchEdit dmp p s = Inl e" using assms by (auto simp: computePatchEdit_def Let_def)
  moreover have "count_sub s old = 0 \<or> 1 < count_sub s old" using False by linarith
  then have "\<not> ((\<exists>l r. s = l @ old @ r) \<and> \<not> (\<exists>l m r. s = l @ old @ m @ old @ r))"
    using count_sub_two [OF assms(2), of s] count_sub_pos [OF assms(2), of s] by auto
  ultimately show ?thesis by auto
qed

definition demo_patch :: pendingPatchEditPayload where
  "demo_patch = \<lparr>pep_ToolName = ''PatchEdit'', pep_RawArgsJSON = RawEmpty, pep_ArgsDecodeFailed = False,
     pep_Args = emptyPatchArgs\<lparr>pea_Path := ''/a'', pea_OldString := ''aa'', pea_NewString := ''b''\<rparr>,
     pep_ResolvedPath = ''/a'', pep_BeforeContent = [], pep_AfterContent = [], pep_DiffString = [],
     pep_LinesAdded = 2, pep_LinesRemoved = 0, pep_Message = []\<rparr>"

theorem patch_edit_replaces_one_witness:
  "\<exists>c. computePatchEdit (\<lambda>_ _. ([], [])) demo_patch ''xaaa'' = Inr c \<and> ec_AfterContent c = ''xba'' \<and>
     (\<exists>l r. ''xaaa'' = l @ ''aa'' @ r \<and> ec_AfterContent c = l @ ''b'' @ r \<and>
        (\<forall>l' r'. ''xaaa'' = l' @ ''aa'' @ r' \<longrightarrow> length l \<le> length l' \<and> length l' < length l + 2))"
proof -
  let ?c = "\<lparr>ec_BeforeContent = ''xaaa'', ec_AfterContent = ''xba'', ec_DiffString = [], ec_LinesAdded = 0,
      ec_LinesRemoved = 0, ec_Message = ''PatchEdit applied''\<rparr>"
  have c: "computePatchEdit (\<lambda>_ _. ([], [])) demo_patch ''xaaa'' = Inr ?c" by code_simp
  have a: "pea_OldString (pep_Args demo_patch) = ''aa''" "\<not> pea_ReplaceAll (pep_Args demo_patch)"
      "pea_NewString (pep_Args demo_patch) = ''b''" "''aa'' \<noteq> []" "length ''aa'' = 2"
    by (simp_all add: demo_patch_def emptyPatchArgs_def)
  have "\<exists>l r. ''xaaa'' = l @ ''aa'' @ r \<and> ec_AfterContent ?c = l @ pea_NewString (pep_Args demo_patch) @ r \<and>
      (\<forall>l' r'. ''xaaa'' = l' @ ''aa'' @ r' \<longrightarrow> length l \<le> length l' \<and> length l' < length l + length ''aa'')"
    by (rule patch_edit_replaces_one [OF a(1,4,2), THEN conjunct2, rule_format, OF c])
  then show ?thesis unfolding a(3,5) by (intro exI [of _ ?c] conjI c) (simp_all only: editComputation.select_convs)
qed

text \<open>With \<open>replace_all\<close>, an accepted PatchEdit cuts the file at the occurrences of the old
  string, into pieces that contain it no more, and joins the same pieces with the new string.\<close>

lemma patch_edit_replaces_all:
  assumes "pea_OldString (pep_Args p) = old" "old \<noteq> []" "pea_ReplaceAll (pep_Args p)"
    and "computePatchEdit dmp p s = Inr c"
  shows "\<exists>ps. length ps = Suc (count_sub s old) \<and> length ps \<ge> 2 \<and> s = interleave old ps \<and>
     ec_AfterContent c = interleave (pea_NewString (pep_Args p)) ps \<and> (\<forall>q\<in>set ps. \<not> contains q old)"
proof -
  have "count_sub s old > 0" "ec_AfterContent c = replace_all s old (pea_NewString (pep_Args p))"
    using assms by (auto simp: computePatchEdit_def replace_all_def Let_def case_prod_beta split: if_splits)
  then show ?thesis using replace_all_parts [OF assms(2), of s "pea_NewString (pep_Args p)"] by fastforce
qed

lemma demo_replaces_all:
  "\<exists>c ps. computePatchEdit (\<lambda>_ _. ([], [])) (demo_patch\<lparr>pep_Args := (pep_Args demo_patch)\<lparr>pea_ReplaceAll := True\<rparr>\<rparr>) ''xaaya'' = Inr c \<and>
     ''xaaya'' = interleave ''aa'' ps \<and> ec_AfterContent c = interleave ''b'' ps \<and> ec_AfterContent c = ''xbya''"
proof -
  let ?p = "demo_patch\<lparr>pep_Args := (pep_Args demo_patch)\<lparr>pea_ReplaceAll := True\<rparr>\<rparr>"
  let ?c = "\<lparr>ec_BeforeContent = ''xaaya'', ec_AfterContent = ''xbya'', ec_DiffString = [], ec_LinesAdded = 0,
      ec_LinesRemoved = 0, ec_Message = ''PatchEdit applied''\<rparr>"
  have c: "computePatchEdit (\<lambda>_ _. ([], [])) ?p ''xaaya'' = Inr ?c" by code_simp
  have a: "pea_OldString (pep_Args ?p) = ''aa''" "pea_ReplaceAll (pep_Args ?p)" "pea_NewString (pep_Args ?p) = ''b''"
    by (simp_all add: demo_patch_def emptyPatchArgs_def)
  from patch_edit_replaces_all [OF a(1) _ a(2) c] a(3) c show ?thesis by fastforce
qed

text \<open>C24.  The payload of an edit survives its storage in a pending execution: the stage that
  handles the client's answer decodes what the previous stage encoded, with the path trimmed and the
  presence flags of the arguments made explicit.\<close>

theorem patch_payload_roundtrip:
  assumes "marshalPatchEditPayload p = Some raw"
    and "i32 (pep_LinesAdded p) = pep_LinesAdded p" "i32 (pep_LinesRemoved p) = pep_LinesRemoved p"
  shows "decodePendingPatchEditPayload raw = Some (p\<lparr>pep_Args := (pep_Args p)\<lparr>
     pea_Path := trim_space (pea_Path (pep_Args p)), pea_NewStringSet := True,
     pea_ReplaceAllSet := pea_ReplaceAllSet (pep_Args p) \<or> pea_ReplaceAll (pep_Args p)\<rparr>\<rparr>)"
proof -
  have "pep_RawArgsJSON p \<noteq> RawInvalid" using assms(1) by (auto simp: marshalPatchEditPayload_def split: if_splits)
  from payload_roundtrip [OF this assms(2,3,1)] show ?thesis by (simp add: normPayload_def normPatchArgs_def)
qed

theorem patch_payload_roundtrip_witness:
  "\<exists>raw q. marshalPatchEditPayload demo_patch = Some raw \<and> decodePendingPatchEditPayload raw = Some q \<and>
     pep_ResolvedPath q = ''/a'' \<and> pep_LinesAdded q = 2 \<and> pea_NewStringSet (pep_Args q)"
proof -
  obtain raw where "marshalPatchEditPayload demo_patch = Some raw"
    by (auto simp: marshalPatchEditPayload_def demo_patch_def)
  moreover from patch_payload_roundtrip [OF this] have
    "decodePendingPatchEditPayload raw = Some (demo_patch\<lparr>pep_Args := (pep_Args demo_patch)\<lparr>
     pea_Path := trim_space (pea_Path (pep_Args demo_patch)), pea_NewStringSet := True,
     pea_ReplaceAllSet := pea_ReplaceAllSet (pep_Args demo_patch) \<or> pea_ReplaceAll (pep_Args demo_patch)\<rparr>\<rparr>)"
    by (simp add: demo_patch_def i32_def)
  ultimately show ?thesis by (simp add: demo_patch_def)
qed

end
