(* ===== verification/Stream_Actor.thy ===== *)
theory Stream_Actor
  imports Stream_Broker
begin

text \<open>
  The turn of a request, \<open>forwarder/actor.go\<close> with the functions of \<open>forwarder/service.go\<close> it drives:
  when the provider is started, resumed or waited for, what its end leads to, and the timers in
  between.  The actor handles one command at a time, so each handler is a function of the stream.

  The handlers call out to the conversation store, the projector, the usage store and the
  provider gateway.  Those calls are recorded, in order, as \<open>actor_action\<close>s; whether one of them fails
  is what the argument \<open>io\<close> says, and the third result tells whether the handler returns an error.
  Calls of the broker are recorded too, with their effect on the stream's status.
\<close>

datatype actor_call = FlushAssistantText | RecordTurnUsage | UpdateTokenState | SyncSummary
  | PublishCheckpoint | AppendTurnCompleted | RecordTurnFinalized | PublishTurnEnded | AppendFailure
  | FinalizeInterruptedTurn | AppendCanceled | LoadCheckpointConversation | AppendRecoveryContext | PublishTextDelta
  | AppendToolCall | PublishToolCallStarted | AppendToolResult | PublishToolCallCompleted | PublishExecMessage
  | PublishThinkingDelta | PublishPartialToolCall | PublishToolCallDelta

datatype actor_action = Called actor_call | ProviderCanceled nat | ProviderStarted nat
  | TimerStarted string nat | TimerStopped nat | BrokerComplete | BrokerFail string | BrokerCancel string
  | ExecAborted string | Recover string

type_synonym io = "actor_call \<Rightarrow> bool"

text \<open>What the environment of a handler decides: which calls succeed, how a provider pass starts,
  the fresh model call id, the terminal code an error carries, and what the subagent's empty-stop
  check finds in the conversation.\<close>

datatype empty_stop = NotEmptyStop | EmptyStopLoadFailed | EmptyStopRepeated | EmptyStopRecover

type_synonym actor_result = "ActiveStream \<times> actor_action list \<times> bool"

text \<open>How the part of \<open>driveProvider\<close> between its two critical sections ends: with a failure, with a
  compaction instead of the pass, or with a provider stream under the given cancel function.\<close>

datatype drive_outcome = DriveFailed | DriveCompacted "PendingCompaction option" StreamStatus | DriveStarted nat

record actor_env =
  env_io :: io
  env_drive :: drive_outcome
  env_modelCallID :: string
  env_causeCode :: string
  env_emptyStop :: empty_stop

subsection \<open>Phases, completions\<close>

definition setTurnPhase :: "go_time \<Rightarrow> TurnPhase \<Rightarrow> ActiveStream \<Rightarrow> ActiveStream" where
  "setTurnPhase now phase s = s\<lparr>st_Phase := phase, st_UpdatedAt := now\<rparr>"

definition pendingBridgeCount :: "ActiveStream \<Rightarrow> nat" where
  "pendingBridgeCount s = length (entries (st_PendingExecs s)) + length (entries (st_PendingInteractions s))"

definition shouldAutoResumeAfterInteraction :: "PendingInteraction \<Rightarrow> bool" where
  "shouldAutoResumeAfterInteraction p \<longleftrightarrow> trim_space (pi_InteractionKind p) \<noteq> ''create_plan''"

definition hasPendingAwaitingUserInteraction :: "ActiveStream \<Rightarrow> bool" where
  "hasPendingAwaitingUserInteraction s \<longleftrightarrow>
     list_ex (\<lambda>(k, p). \<not> shouldAutoResumeAfterInteraction p) (entries (st_PendingInteractions s))"

definition shouldResumeAfterToolResults :: "string \<Rightarrow> bool" where
  "shouldResumeAfterToolResults finishReason \<longleftrightarrow>
     trim_space finishReason \<in> set [''tool_use'', ''tool_calls'', ''function_call'']"

definition usage_hasAny :: "turnUsageSnapshot \<Rightarrow> bool" where
  "usage_hasAny u \<longleftrightarrow> us_InputTokens u > 0 \<or> us_OutputTokens u > 0 \<or> us_CacheReadTokens u > 0 \<or>
     us_CacheWriteTokens u > 0"

definition mergeCompletionDisposition ::
    "pendingCompletionDisposition \<Rightarrow> pendingCompletionDisposition \<Rightarrow> pendingCompletionDisposition" where
  "mergeCompletionDisposition existing incoming =
     (if existing = completionDispositionCompleteAfterExternal \<or> incoming = completionDispositionCompleteAfterExternal
      then completionDispositionCompleteAfterExternal
      else if existing = completionDispositionResumeAfterExternal \<or> incoming = completionDispositionResumeAfterExternal
      then completionDispositionResumeAfterExternal
      else completionDispositionCompleteAfterExternal)"

definition mergePendingProviderCompletion ::
    "pendingTurnCompletion option \<Rightarrow> pendingTurnCompletion \<Rightarrow> pendingTurnCompletion" where
  "mergePendingProviderCompletion existing incoming = (case existing of
       None \<Rightarrow> if ptc_Disposition incoming = completionDispositionNone
              then incoming\<lparr>ptc_Disposition := completionDispositionCompleteAfterExternal\<rparr> else incoming
     | Some e \<Rightarrow> e\<lparr>
         ptc_ConversationID := (if ptc_ConversationID e = [] then ptc_ConversationID incoming else ptc_ConversationID e),
         ptc_RequestID := (if ptc_RequestID e = [] then ptc_RequestID incoming else ptc_RequestID e),
         ptc_TurnSeq := (if ptc_TurnSeq e \<le> 0 \<and> ptc_TurnSeq incoming > 0 then ptc_TurnSeq incoming else ptc_TurnSeq e),
         ptc_ModelCallID := (if trim_space (ptc_ModelCallID e) = [] \<and> trim_space (ptc_ModelCallID incoming) \<noteq> []
                             then ptc_ModelCallID incoming else ptc_ModelCallID e),
         ptc_ProviderPass := (if ptc_ProviderPass e = 0 then ptc_ProviderPass incoming else ptc_ProviderPass e),
         ptc_Usage := (if usage_hasAny (ptc_Usage incoming) then ptc_Usage incoming else ptc_Usage e),
         ptc_Disposition := mergeCompletionDisposition (ptc_Disposition e) (ptc_Disposition incoming)\<rparr>)"

definition rememberPendingProviderCompletion ::
    "go_time \<Rightarrow> pendingTurnCompletion \<Rightarrow> ActiveStream \<Rightarrow> ActiveStream" where
  "rememberPendingProviderCompletion now completion s = s\<lparr>
     st_PendingProviderCompletion := Some (mergePendingProviderCompletion (st_PendingProviderCompletion s) completion),
     st_UpdatedAt := now\<rparr>"

definition clearPendingProviderCompletion :: "go_time \<Rightarrow> ActiveStream \<Rightarrow> ActiveStream" where
  "clearPendingProviderCompletion now s = s\<lparr>st_PendingProviderCompletion := None, st_UpdatedAt := now\<rparr>"

definition completionDispositionForExternalResults :: "string \<Rightarrow> bool \<Rightarrow> bool \<Rightarrow> pendingCompletionDisposition" where
  "completionDispositionForExternalResults finishReason forceComplete hadToolInvocation =
     (if forceComplete then completionDispositionCompleteAfterExternal
      else if hadToolInvocation \<or> shouldResumeAfterToolResults finishReason
      then completionDispositionResumeAfterExternal
      else completionDispositionCompleteAfterExternal)"

subsection \<open>Timers\<close>

datatype streamTimerKind = streamTimerProviderResume | streamTimerNonStreamingRecovery
  | streamTimerHiddenEditStage | streamTimerShellForeground | streamTimerShellTransportClose
  | streamTimerOrphanCancel

fun timer_kind_name :: "streamTimerKind \<Rightarrow> string" where
  "timer_kind_name streamTimerProviderResume = ''provider_resume''"
| "timer_kind_name streamTimerNonStreamingRecovery = ''non_streaming_recovery''"
| "timer_kind_name streamTimerHiddenEditStage = ''hidden_edit_stage''"
| "timer_kind_name streamTimerShellForeground = ''shell_foreground''"
| "timer_kind_name streamTimerShellTransportClose = ''shell_transport_close''"
| "timer_kind_name streamTimerOrphanCancel = ''orphan_cancel''"

definition providerTimerKey :: "streamTimerKind \<Rightarrow> string \<Rightarrow> string" where
  "providerTimerKey kind execID =
     (if trim_space execID = [] then timer_kind_name kind
      else timer_kind_name kind @ '':'' @ trim_space execID)"

record streamTimerEvent =
  te_Key :: string
  te_Kind :: streamTimerKind
  te_Token :: nat
  te_ExecID :: string
  te_MessageID :: nat
  te_Reason :: string

text \<open>The runtime timer is known by the token it is registered under.\<close>

definition scheduleStreamTimer :: "go_time \<Rightarrow> string \<Rightarrow> ActiveStream \<Rightarrow> ActiveStream \<times> actor_action list" where
  "scheduleStreamTimer now key s =
     (if trim_space key = [] then (s, [])
      else let normalizedKey = trim_space key; timers = entries (st_Timers s);
               token = u64 (st_NextTimerToken s + 1)
           in (s\<lparr>st_NextTimerToken := token,
                 st_Timers := Some (AList.update normalizedKey \<lparr>reg_Token = token, reg_Timer = token\<rparr> timers),
                 st_UpdatedAt := now\<rparr>,
               (case map_of timers normalizedKey of None \<Rightarrow> [] | Some r \<Rightarrow> [TimerStopped (reg_Timer r)]) @
               [TimerStarted normalizedKey token]))"

definition timerEventMatches :: "streamTimerEvent \<Rightarrow> ActiveStream \<Rightarrow> bool" where
  "timerEventMatches ev s \<longleftrightarrow> trim_space (te_Key ev) \<noteq> [] \<and>
     (case map_of (entries (st_Timers s)) (trim_space (te_Key ev)) of
        None \<Rightarrow> False | Some r \<Rightarrow> reg_Token r = te_Token ev)"

definition clearStreamTimer :: "go_time \<Rightarrow> string \<Rightarrow> ActiveStream \<Rightarrow> ActiveStream \<times> actor_action list" where
  "clearStreamTimer now key s =
     (if trim_space key = [] then (s, [])
      else case map_of (entries (st_Timers s)) (trim_space key) of
        None \<Rightarrow> (s, [])
      | Some r \<Rightarrow> (s\<lparr>st_Timers := del_entry (trim_space key) (st_Timers s), st_UpdatedAt := now\<rparr>,
                  [TimerStopped (reg_Timer r)]))"

subsection \<open>Ending a turn\<close>

definition failActiveStream :: "go_time \<Rightarrow> actor_env \<Rightarrow> string \<Rightarrow> ActiveStream \<Rightarrow> actor_result" where
  "failActiveStream now env terminalCode s0 =
     (let s1 = clearPendingProviderCompletion now s0;
          s2 = s1\<lparr>st_ProviderActive := False, st_ProviderCancel := None,
                  st_PendingProviderAction := providerActionNone, st_UpdatedAt := now\<rparr>;
          s3 = setTurnPhase now TurnPhaseFailed s2
      in (s3\<lparr>st_Status := StreamStatusFailed\<rparr>,
          (case st_ProviderCancel s1 of None \<Rightarrow> [] | Some c \<Rightarrow> [ProviderCanceled c]) @
          [Called SyncSummary, Called PublishCheckpoint, BrokerFail terminalCode],
          \<not> env_io env SyncSummary \<or> \<not> env_io env PublishCheckpoint))"

definition resolveTerminalCode :: "string \<Rightarrow> string \<Rightarrow> string" where
  "resolveTerminalCode fallback causeCode =
     (let terminalCode = firstNonEmpty [trim_space fallback, ''unknown''] in
      if terminalCode \<noteq> ''unknown'' then terminalCode
      else if trim_space causeCode \<noteq> [] then trim_space causeCode else terminalCode)"

definition failStream :: "go_time \<Rightarrow> actor_env \<Rightarrow> string \<Rightarrow> ActiveStream \<Rightarrow> actor_result" where
  "failStream now env terminalCode s =
     (case failActiveStream now env (resolveTerminalCode terminalCode (env_causeCode env)) s of
        (s', acts, err) \<Rightarrow> (s', Called AppendFailure # acts, err))"

definition failStreamIfNonTerminal :: "go_time \<Rightarrow> actor_env \<Rightarrow> string \<Rightarrow> ActiveStream \<Rightarrow> actor_result" where
  "failStreamIfNonTerminal now env terminalCode s =
     (if isTerminalStreamStatus (st_Status s) then (s, [], False) else failStream now env terminalCode s)"

text \<open>The calls of \<open>completeSuccessfulTurn\<close> in order; the first that fails is its error.  A summary
  that cannot be synchronised is only logged.\<close>

definition completeSuccessfulTurn :: "go_time \<Rightarrow> actor_env \<Rightarrow> pendingTurnCompletion \<Rightarrow> ActiveStream \<Rightarrow> actor_result" where
  "completeSuccessfulTurn now env completion s =
     (if \<not> env_io env RecordTurnUsage then (s, [Called RecordTurnUsage], True)
      else if \<not> env_io env AppendTurnCompleted then (s, [Called RecordTurnUsage, Called AppendTurnCompleted], True)
      else if \<not> env_io env RecordTurnFinalized
      then (s, [Called RecordTurnUsage, Called AppendTurnCompleted, Called RecordTurnFinalized], True)
      else let acts = [Called RecordTurnUsage, Called AppendTurnCompleted, Called RecordTurnFinalized,
                       Called SyncSummary, Called PublishCheckpoint]
        in if \<not> env_io env PublishCheckpoint then (s, acts, True)
           else if \<not> env_io env PublishTurnEnded then (s, acts @ [Called PublishTurnEnded], True)
           else (setTurnPhase now TurnPhaseCompleted
                   (s\<lparr>st_Status := (if isTerminalStreamStatus (st_Status s) then st_Status s else StreamStatusCompleted)\<rparr>),
                 acts @ [Called PublishTurnEnded, BrokerComplete], False))"

subsection \<open>Starting and reconciling\<close>

definition driveProvider :: "go_time \<Rightarrow> actor_env \<Rightarrow> ActiveStream \<Rightarrow> actor_result" where
  "driveProvider now env s0 =
     (if st_ProviderActive s0 \<or> isTerminalStreamStatus (st_Status s0) then (s0, [], False)
      else let s1 = s0\<lparr>st_ProviderPassCount := i64 (st_ProviderPassCount s0 + 1), st_Status := StreamStatusStreaming,
             st_PendingProviderAction := providerActionNone, st_CurrentModelCallID := env_modelCallID env,
             st_CurrentProviderToken := u64 (st_CurrentProviderToken s0 + 1),
             st_ProviderAccumulatedText := [], st_ProviderAccumulatedReasoning := [],
             st_ProviderAccumulatedReasoningSignature := [], st_ProviderAccumulatedReasoningSignatureSource := [],
             st_ProviderAccumulatedReasoningItemID := [], st_ProviderAccumulatedReasoningStatus := [],
             st_ProviderAccumulatedReasoningSummary := RawEmpty, st_ProviderFinishReason := [],
             st_ProviderUsage := emptyUsage, st_ToolInvocationCount := 0, st_UpdatedAt := now\<rparr>
        in case env_drive env of
             DriveFailed \<Rightarrow> failStream now env ''unknown'' (setTurnPhase now TurnPhaseFailed s1)
           | DriveCompacted pc status \<Rightarrow>
               (setTurnPhase now
                  (if isTerminalStreamStatus status
                   then (if status = StreamStatusCompleted then TurnPhaseCompleted
                         else if status = StreamStatusCanceled then TurnPhaseCanceled else TurnPhaseFailed)
                   else if pc \<noteq> None then TurnPhaseCompacting else TurnPhaseIdle)
                  (s1\<lparr>st_PendingCompaction := pc, st_Status := status, st_ProviderActive := False,
                      st_ProviderCancel := None\<rparr>), [], False)
           | DriveStarted cancel \<Rightarrow>
               (setTurnPhase now TurnPhaseProviderRunning
                  (s1\<lparr>st_ProviderActive := True, st_ProviderCancel := Some cancel\<rparr>),
                [ProviderStarted (st_CurrentProviderToken s1)], False))"

definition resumeTimerKey :: string where
  "resumeTimerKey = providerTimerKey streamTimerProviderResume []"

text \<open>The last part of \<open>reconcileStream\<close>, once nothing is pending.\<close>

definition reconcile_action ::
    "go_time \<Rightarrow> actor_env \<Rightarrow> providerAction \<Rightarrow> ActiveStream \<Rightarrow> actor_result" where
  "reconcile_action now env action s = (case action of
       providerActionStart \<Rightarrow> driveProvider now env s
     | providerActionResume \<Rightarrow>
         (case scheduleStreamTimer now resumeTimerKey (setTurnPhase now TurnPhaseWaitingExternal s) of
            (s', acts) \<Rightarrow> (s', acts, False))
     | providerActionNone \<Rightarrow> (setTurnPhase now TurnPhaseIdle s, [], False))"

definition reconcileStream :: "go_time \<Rightarrow> actor_env \<Rightarrow> ActiveStream \<Rightarrow> actor_result" where
  "reconcileStream now env s =
     (if isTerminalStreamStatus (st_Status s) \<or> st_ProviderActive s then (s, [], False)
      else if pendingBridgeCount s > 0
      then (setTurnPhase now
              (if hasPendingAwaitingUserInteraction s then TurnPhaseAwaitingUser
               else if st_PendingCompaction s \<noteq> None then TurnPhaseCompacting else TurnPhaseWaitingExternal) s, [], False)
      else if st_PendingCompaction s \<noteq> None then (setTurnPhase now TurnPhaseCompacting s, [], False)
      else case st_PendingProviderCompletion s of
          None \<Rightarrow> reconcile_action now env (st_PendingProviderAction s) s
        | Some completion \<Rightarrow>
            if ptc_Disposition completion = completionDispositionResumeAfterExternal
            then reconcile_action now env providerActionResume
                   (s\<lparr>st_PendingProviderCompletion := None,
                      st_PendingProviderAction := (if st_PendingProviderAction s \<noteq> providerActionStart
                        then providerActionResume else st_PendingProviderAction s), st_UpdatedAt := now\<rparr>)
            else (case completeSuccessfulTurn now env completion (clearPendingProviderCompletion now s) of
                (s', acts, True) \<Rightarrow>
                  (case failStreamIfNonTerminal now env ''unknown'' s' of (s'', acts', err) \<Rightarrow> (s'', acts @ acts', err))
              | (s', acts, False) \<Rightarrow> (s', acts, False)))"

definition requestProviderAction ::
    "go_time \<Rightarrow> actor_env \<Rightarrow> providerAction \<Rightarrow> ActiveStream \<Rightarrow> actor_result" where
  "requestProviderAction now env action s =
     reconcileStream now env (s\<lparr>st_PendingProviderAction := (case action of
         providerActionStart \<Rightarrow> providerActionStart
       | providerActionResume \<Rightarrow> if st_PendingProviderAction s \<noteq> providerActionStart
                                then providerActionResume else st_PendingProviderAction s
       | providerActionNone \<Rightarrow> providerActionNone), st_UpdatedAt := now\<rparr>)"

subsection \<open>Provider events\<close>

definition providerTokenMatches :: "ActiveStream \<Rightarrow> nat \<Rightarrow> bool" where
  "providerTokenMatches s token \<longleftrightarrow> token \<noteq> 0 \<and> st_CurrentProviderToken s = token"

text \<open>\<open>appendProviderOutput\<close>: the slice's capacity plays no role for its contents.\<close>

definition appendProviderOutput :: "string \<Rightarrow> string \<Rightarrow> int \<Rightarrow> string option" where
  "appendProviderOutput current delta maxBytes =
     (if delta = [] then Some current
      else if maxBytes \<le> 0 \<or> int (length delta) > maxBytes - int (length current) then None
      else Some (current @ delta))"

definition providerAccumulatedTextMaxBytes :: int where
  "providerAccumulatedTextMaxBytes = 4 * 2 ^ 20"

text \<open>The text-delta case of \<open>applyProviderModelEvent\<close>: accumulate, then publish the delta.\<close>

definition applyTextDelta :: "go_time \<Rightarrow> actor_env \<Rightarrow> string \<Rightarrow> ActiveStream \<Rightarrow> actor_result" where
  "applyTextDelta now env delta s =
     (case appendProviderOutput (st_ProviderAccumulatedText s) delta providerAccumulatedTextMaxBytes of
        None \<Rightarrow> (s, [], True)
      | Some t \<Rightarrow> (s\<lparr>st_ProviderAccumulatedText := t, st_UpdatedAt := now\<rparr>, [Called PublishTextDelta],
                  \<not> env_io env PublishTextDelta))"

text \<open>Its thinking-delta case, the same with the reasoning.\<close>

definition providerAccumulatedReasoningMaxBytes :: int where
  "providerAccumulatedReasoningMaxBytes = 4 * 2 ^ 20"

definition applyThinkingDelta :: "go_time \<Rightarrow> actor_env \<Rightarrow> string \<Rightarrow> ActiveStream \<Rightarrow> actor_result" where
  "applyThinkingDelta now env delta s =
     (case appendProviderOutput (st_ProviderAccumulatedReasoning s) delta providerAccumulatedReasoningMaxBytes of
        None \<Rightarrow> (s, [], True)
      | Some t \<Rightarrow> (s\<lparr>st_ProviderAccumulatedReasoning := t, st_UpdatedAt := now\<rparr>, [Called PublishThinkingDelta],
                  \<not> env_io env PublishThinkingDelta))"

text \<open>Its case of a partial tool call: the call is entered into the table an interruption reads.  The
  tool's name and the call as JSON, \<open>None\<close> when it cannot be encoded, are what \<open>inferToolName\<close> and \<open>protojson\<close>
  give for the call that is shown.\<close>

definition noPartialCall :: interruptedToolCall where
  "noPartialCall = \<lparr>itc_ToolCallID = [], itc_ToolName = [], itc_Arguments = [], itc_ReasoningContent = [],
     itc_ReasoningSignature = [], itc_ReasoningSignatureSource = [], itc_ProviderItemID = [], itc_ProviderCallID = [],
     itc_ProviderStatus = [], itc_ModelCallID = [], itc_ToolCall = RawEmpty\<rparr>"

definition partial_call ::
    "string \<Rightarrow> string \<Rightarrow> raw_json \<Rightarrow> string \<Rightarrow> ActiveStream \<Rightarrow> interruptedToolCall" where
  "partial_call toolCallID toolName payload delta s =
     (let old = (case map_of (entries (st_PartialToolCalls s)) toolCallID of None \<Rightarrow> noPartialCall | Some p \<Rightarrow> p)
      in old\<lparr>itc_ToolCallID := toolCallID, itc_ToolName := firstNonEmpty [toolName, itc_ToolName old],
        itc_Arguments := itc_Arguments old @ delta, itc_ReasoningContent := st_ProviderAccumulatedReasoning s,
        itc_ReasoningSignature := st_ProviderAccumulatedReasoningSignature s,
        itc_ReasoningSignatureSource := st_ProviderAccumulatedReasoningSignatureSource s,
        itc_ProviderItemID := st_ProviderAccumulatedReasoningItemID s, itc_ProviderStatus := st_ProviderAccumulatedReasoningStatus s,
        itc_ModelCallID := st_CurrentModelCallID s, itc_ToolCall := payload\<rparr>)"

definition applyPartialToolCall ::
    "go_time \<Rightarrow> actor_env \<Rightarrow> string \<Rightarrow> (string \<times> raw_json option) option \<Rightarrow> string \<Rightarrow> ActiveStream \<Rightarrow> actor_result" where
  "applyPartialToolCall now env callID call delta s =
     (let toolCallID = trim_space callID in case call of
        None \<Rightarrow> (s, [], False)
      | Some (shown, payload) \<Rightarrow>
          if toolCallID = [] then (s, [], False)
          else case payload of
            None \<Rightarrow> (s, [], True)
          | Some json \<Rightarrow>
              let sent = (if shown = ''GenerateImage'' then PublishToolCallStarted else PublishPartialToolCall)
              in (s\<lparr>st_PartialToolCalls := Some (AList.update toolCallID (partial_call toolCallID (trim_space shown) json delta s)
                       (entries (st_PartialToolCalls s))),
                   st_PartialToolCallIDs := Some (List.insert toolCallID (case st_PartialToolCallIDs s of None \<Rightarrow> [] | Some ids \<Rightarrow> ids)),
                   st_UpdatedAt := now\<rparr>, [Called sent], \<not> env_io env sent))"

text \<open>Its case of the end of the model's turn.  The measurement of the context size the same case updates is
  not part of the stream's model.\<close>

definition applyTurnFinished :: "go_time \<Rightarrow> string \<Rightarrow> turnUsageSnapshot \<Rightarrow> ActiveStream \<Rightarrow> actor_result" where
  "applyTurnFinished now finishReason usage s =
     (s\<lparr>st_ProviderFinishReason := trim_space finishReason, st_ProviderUsage := usage, st_UpdatedAt := now\<rparr>, [], False)"

text \<open>How a provider stream ended: normally, interrupted, with a provider error, with another error.\<close>

datatype provider_end = EndedOk | EndedInterrupted | EndedProviderError | EndedError

definition done_reset :: "go_time \<Rightarrow> ActiveStream \<Rightarrow> ActiveStream" where
  "done_reset now s = s\<lparr>st_ProviderActive := False, st_ProviderCancel := None,
     st_PendingProviderAction := providerActionNone, st_ProviderAccumulatedText := [],
     st_ProviderAccumulatedReasoning := [], st_ProviderAccumulatedReasoningSignature := [],
     st_ProviderAccumulatedReasoningSignatureSource := [], st_ProviderAccumulatedReasoningItemID := [],
     st_ProviderAccumulatedReasoningStatus := [], st_ProviderAccumulatedReasoningSummary := RawEmpty,
     st_ProviderFinishReason := [], st_ProviderUsage := emptyUsage,
     st_ProviderTerminalToolInvocation := False, st_ToolInvocationCount := 0, st_UpdatedAt := now\<rparr>"

text \<open>A handler that continues unless the call fails, in which case the stream is failed.\<close>

definition guarded :: "go_time \<Rightarrow> actor_env \<Rightarrow> actor_call \<Rightarrow> string \<Rightarrow> (ActiveStream \<Rightarrow> actor_result) \<Rightarrow> ActiveStream \<Rightarrow> actor_result" where
  "guarded now env call code k s =
     (case (if env_io env call then k s else failStreamIfNonTerminal now env code s) of
        (s', acts, err) \<Rightarrow> (s', Called call # acts, err))"

text \<open>Completing or resuming; an error of the call fails the stream.\<close>

definition or_fail :: "go_time \<Rightarrow> actor_env \<Rightarrow> actor_result \<Rightarrow> actor_result" where
  "or_fail now env r = (case r of (s, acts, err) \<Rightarrow>
     if err then (case failStreamIfNonTerminal now env ''unknown'' s of (s', acts', err') \<Rightarrow> (s', acts @ acts', err'))
     else (s, acts, False))"

definition done_completion :: "ActiveStream \<Rightarrow> pendingCompletionDisposition \<Rightarrow> pendingTurnCompletion" where
  "done_completion s d = \<lparr>ptc_ConversationID = st_ConversationID s, ptc_RequestID = st_RequestID s,
     ptc_TurnSeq = st_TurnSeq s, ptc_ModelCallID = st_CurrentModelCallID s,
     ptc_ProviderPass = st_ProviderPassCount s, ptc_Usage = st_ProviderUsage s, ptc_Disposition = d\<rparr>"

text \<open>The part after the bookkeeping calls; \<open>s0\<close> is the stream as the event found it.\<close>

definition done_continue :: "go_time \<Rightarrow> actor_env \<Rightarrow> ActiveStream \<Rightarrow> ActiveStream \<Rightarrow> actor_result" where
  "done_continue now env s0 s =
     (let hadTool = st_ToolInvocationCount s0 > 0; finishReason = st_ProviderFinishReason s0;
          resume = (\<lambda>s. guarded now env PublishCheckpoint ''unknown''
                     (\<lambda>s. or_fail now env (requestProviderAction now env providerActionResume s)) s)
      in if pendingBridgeCount s > 0
         then let awaitingUser = hasPendingAwaitingUserInteraction s;
                  s1 = rememberPendingProviderCompletion now (done_completion s0
                         (completionDispositionForExternalResults finishReason awaitingUser hadTool)) s;
                  s2 = setTurnPhase now (if awaitingUser then TurnPhaseAwaitingUser else TurnPhaseWaitingExternal) s1
              in guarded now env PublishCheckpoint ''unknown'' (\<lambda>s. (s, [], False)) s2
         else case st_PendingProviderCompletion s0 of
             Some existing \<Rightarrow>
               (let completion = existing\<lparr>
                      ptc_ModelCallID := (if trim_space (ptc_ModelCallID existing) = [] then st_CurrentModelCallID s0
                                          else ptc_ModelCallID existing),
                      ptc_ProviderPass := (if ptc_ProviderPass existing = 0 then st_ProviderPassCount s
                                           else ptc_ProviderPass existing),
                      ptc_Usage := st_ProviderUsage s0\<rparr>;
                    s1 = clearPendingProviderCompletion now s
                in if ptc_Disposition completion = completionDispositionResumeAfterExternal then resume s1
                   else or_fail now env (completeSuccessfulTurn now env completion s1))
           | None \<Rightarrow>
               (case (if trim_space finishReason \<noteq> ''stop'' \<or> trim_space (st_ProviderAccumulatedText s0) \<noteq> []
                      then NotEmptyStop else env_emptyStop env) of
                  EmptyStopLoadFailed \<Rightarrow> failStreamIfNonTerminal now env ''unknown'' s
                | EmptyStopRepeated \<Rightarrow> or_fail now env (failStream now env ''empty_response'' (setTurnPhase now TurnPhaseFailed s))
                | EmptyStopRecover \<Rightarrow>
                    guarded now env AppendRecoveryContext ''unknown'' (guarded now env SyncSummary ''unknown'' resume) s
                | NotEmptyStop \<Rightarrow>
                    if (hadTool \<or> shouldResumeAfterToolResults finishReason) \<and> \<not> st_ProviderTerminalToolInvocation s0
                    then resume s
                    else or_fail now env (completeSuccessfulTurn now env
                           (done_completion s0 completionDispositionNone) (clearPendingProviderCompletion now s))))"

text \<open>Calls made in order up to the first that fails.\<close>

fun run_calls :: "actor_env \<Rightarrow> actor_call list \<Rightarrow> actor_action list \<times> bool" where
  "run_calls env [] = ([], False)"
| "run_calls env (c # cs) = (if \<not> env_io env c then ([Called c], True)
     else case run_calls env cs of (acts, err) \<Rightarrow> (Called c # acts, err))"

definition closeStreamWithProviderError :: "go_time \<Rightarrow> actor_env \<Rightarrow> ActiveStream \<Rightarrow> actor_result" where
  "closeStreamWithProviderError now env s =
     (case run_calls env [FlushAssistantText, RecordTurnUsage, AppendFailure, RecordTurnFinalized, UpdateTokenState] of
        (acts, True) \<Rightarrow> (s, acts, True)
      | (acts, False) \<Rightarrow> (case failActiveStream now env ''provider_error'' s of
            (s', acts', err) \<Rightarrow> (s', acts @ acts', err)))"

definition handleProviderDoneEvent :: "go_time \<Rightarrow> actor_env \<Rightarrow> provider_end \<Rightarrow> ActiveStream \<Rightarrow> actor_result" where
  "handleProviderDoneEvent now env ended s0 =
     (let s = done_reset now s0 in
      if ended = EndedInterrupted \<or> isTerminalStreamStatus (st_Status s) then (s, [], False)
      else case ended of
          EndedProviderError \<Rightarrow>
            closeStreamWithProviderError now env (setTurnPhase now TurnPhaseFailed s)
        | EndedError \<Rightarrow> failStream now env ''unknown'' (setTurnPhase now TurnPhaseFailed s)
        | _ \<Rightarrow> guarded now env FlushAssistantText ''unknown''
                 (guarded now env RecordTurnUsage ''usage_persistence_error''
                   (guarded now env UpdateTokenState ''unknown''
                     (guarded now env SyncSummary ''unknown'' (done_continue now env s0)))) s)"

definition handleProviderDone_event ::
    "go_time \<Rightarrow> actor_env \<Rightarrow> nat \<Rightarrow> provider_end \<Rightarrow> ActiveStream \<Rightarrow> actor_result" where
  "handleProviderDone_event now env token ended s =
     (if \<not> providerTokenMatches s token then (s, [], False) else handleProviderDoneEvent now env ended s)"

text \<open>The end of \<open>runProviderStream\<close>: the completion is posted to the actor, and an error that comes
  back fails the stream.  \<open>received\<close> is false when the actor stopped before the poster took the
  result from its channel; the post is then reported as interrupted.\<close>

definition runProviderStream_end ::
    "go_time \<Rightarrow> actor_env \<Rightarrow> bool \<Rightarrow> nat \<Rightarrow> provider_end \<Rightarrow> ActiveStream \<Rightarrow> actor_result" where
  "runProviderStream_end now env received token ended s =
     (case handleProviderDone_event now env token ended s of (s', acts, err) \<Rightarrow>
        if received \<and> err
        then (case failStreamIfNonTerminal now env ''unknown'' s' of (s'', acts', err') \<Rightarrow> (s'', acts @ acts', err'))
        else (s', acts, err))"

subsection \<open>Timer events, a new run, cancelling\<close>

definition handleCancelIntent :: "go_time \<Rightarrow> actor_env \<Rightarrow> bool \<Rightarrow> string \<Rightarrow> ActiveStream \<Rightarrow> actor_result" where
  "handleCancelIntent now env hasCheckpoint reason s =
     (if hasCheckpoint \<and> \<not> env_io env FinalizeInterruptedTurn then (s, [Called FinalizeInterruptedTurn], True)
      else if hasCheckpoint \<and> \<not> env_io env AppendCanceled
      then (s, [Called FinalizeInterruptedTurn, Called AppendCanceled], True)
      else let acts = (if hasCheckpoint then [Called FinalizeInterruptedTurn, Called AppendCanceled] else []) @
                 map (\<lambda>(k, p). ExecAborted (pe_ExecID p)) (entries (st_PendingExecs s)) @
                 (if hasCheckpoint then [Called PublishCheckpoint] else [])
        in if hasCheckpoint \<and> \<not> env_io env PublishCheckpoint then (s, acts, True)
           else let s1 = (clearPendingProviderCompletion now s)\<lparr>st_PendingProviderAction := providerActionNone\<rparr>;
                    s2 = setTurnPhase now TurnPhaseCanceled s1
                in (s2\<lparr>st_ProviderCancel := None, st_ProviderActive := False, st_Status := StreamStatusCanceled\<rparr>,
                    acts @ [BrokerCancel (firstNonEmpty [reason, ''[canceled] User aborted request''])] @
                    (case st_ProviderCancel s2 of None \<Rightarrow> [] | Some c \<Rightarrow> [ProviderCanceled c]), False))"

definition snapshotPendingExec :: "string \<Rightarrow> ActiveStream \<Rightarrow> PendingExec option" where
  "snapshotPendingExec execID s = (if trim_space execID = [] then None
     else map_of (entries (st_PendingExecs s)) (trim_space execID))"

definition isHiddenPatchEditExecKind :: "string \<Rightarrow> bool" where
  "isHiddenPatchEditExecKind kind \<longleftrightarrow>
     trim_space kind \<in> set [''patch_edit_read'', ''patch_edit_write'', ''patch_edit_post_read'']"

definition isHiddenWriteExecKind :: "string \<Rightarrow> bool" where
  "isHiddenWriteExecKind kind \<longleftrightarrow>
     trim_space kind \<in> set [''write_read'', ''write_write'', ''write_post_read'']"

definition isHiddenEditExecKind :: "string \<Rightarrow> bool" where
  "isHiddenEditExecKind kind \<longleftrightarrow> isHiddenWriteExecKind kind \<or> isHiddenPatchEditExecKind kind"

text \<open>Whether a recovery timer still has something to recover.\<close>

definition recovery_due :: "streamTimerEvent \<Rightarrow> ActiveStream \<Rightarrow> bool" where
  "recovery_due ev s = (case te_Kind ev of
       streamTimerShellForeground \<Rightarrow> True
     | kind \<Rightarrow> (case snapshotPendingExec (te_ExecID ev) s of None \<Rightarrow> False
         | Some p \<Rightarrow> pe_MessageID p = te_MessageID ev \<and>
             (case kind of
                streamTimerNonStreamingRecovery \<Rightarrow> pe_StreamState p = ''transport_closed''
              | streamTimerHiddenEditStage \<Rightarrow> isHiddenEditExecKind (pe_ExecKind p)
              | streamTimerShellTransportClose \<Rightarrow>
                  pe_StreamState p = ''transport_closed'' \<and> \<not> isTerminalStreamStatus (st_Status s)
              | _ \<Rightarrow> False)))"

text \<open>The recovery of executions and shells is not part of this model: \<open>Recover\<close> names it.\<close>

definition handleTimerEvent :: "go_time \<Rightarrow> actor_env \<Rightarrow> bool \<Rightarrow> streamTimerEvent \<Rightarrow> ActiveStream \<Rightarrow> actor_result" where
  "handleTimerEvent now env hasCheckpoint ev s0 =
     (if \<not> timerEventMatches ev s0 then (s0, [], False)
      else case clearStreamTimer now (te_Key ev) s0 of (s, acts) \<Rightarrow>
        (case te_Kind ev of
           streamTimerProviderResume \<Rightarrow>
             if st_ProviderActive s \<or> isTerminalStreamStatus (st_Status s) \<or>
                st_PendingProviderAction s \<noteq> providerActionResume \<or> pendingBridgeCount s > 0
             then (s, acts, False)
             else (case driveProvider now env s of (s', acts', err) \<Rightarrow> (s', acts @ acts', err))
         | streamTimerOrphanCancel \<Rightarrow>
             if entries (st_Subscribers s) \<noteq> [] \<or> isTerminalStreamStatus (st_Status s) then (s, acts, False)
             else (case handleCancelIntent now env hasCheckpoint
                       (firstNonEmpty [te_Reason ev, ''[canceled] RunSSE client disconnected'']) s of
                     (s', acts', err) \<Rightarrow> (s', acts @ acts', err))
         | kind \<Rightarrow> (s, acts @ (if recovery_due ev s then [Recover (timer_kind_name kind)] else []), False)))"

text \<open>\<open>streamCommandMaybeOrphaned\<close>: the last subscriber has left.\<close>

definition maybe_orphaned :: "go_time \<Rightarrow> ActiveStream \<Rightarrow> actor_result" where
  "maybe_orphaned now s =
     (if entries (st_Subscribers s) \<noteq> [] \<or> isTerminalStreamStatus (st_Status s) then (s, [], False)
      else case scheduleStreamTimer now (providerTimerKey streamTimerOrphanCancel []) s of (s', acts) \<Rightarrow> (s', acts, False))"

text \<open>The end of \<open>handleInteractionResult\<close>, once the result has been written.\<close>

definition markInteractionCompleted :: "go_time \<Rightarrow> PendingInteraction \<Rightarrow> ActiveStream \<Rightarrow> ActiveStream" where
  "markInteractionCompleted now pending s = s\<lparr>
     st_PendingInteractions := del_entry (pi_InteractionID pending) (st_PendingInteractions s), st_UpdatedAt := now\<rparr>"

definition interaction_finished :: "go_time \<Rightarrow> actor_env \<Rightarrow> PendingInteraction \<Rightarrow> ActiveStream \<Rightarrow> actor_result" where
  "interaction_finished now env pending s =
     reconcileStream now env
       (if \<not> shouldAutoResumeAfterInteraction pending
        then rememberPendingProviderCompletion now
               \<lparr>ptc_ConversationID = st_ConversationID s, ptc_RequestID = st_RequestID s, ptc_TurnSeq = st_TurnSeq s,
                ptc_ModelCallID = pi_ModelCallID pending, ptc_ProviderPass = pi_ProviderPass pending,
                ptc_Usage = emptyUsage, ptc_Disposition = completionDispositionCompleteAfterExternal\<rparr> s
        else s)"

text \<open>What \<open>handleRunIntent\<close> resets on the stream before it asks for a provider pass.\<close>

definition run_reset :: "go_time \<Rightarrow> string \<Rightarrow> string \<Rightarrow> MCPToolCapabilities \<Rightarrow> ActiveStream \<Rightarrow> ActiveStream \<times> actor_action list" where
  "run_reset now thinkingEffort resolvedModelID caps s0 =
     (let s1 = clearPendingProviderCompletion now (s0\<lparr>st_ToolCapabilities := caps\<rparr>);
          (s2, effs) = clearAllStreamTimers now s1
      in (setTurnPhase now TurnPhaseIdle (s2\<lparr>
            st_ThinkingEffort := trim_space thinkingEffort, st_ResolvedModelID := trim_space resolvedModelID,
            st_PendingProviderAction := providerActionNone, st_PendingCompaction := None,
            st_PendingExecs := Some [], st_PendingInteractions := Some [], st_PartialToolCallIDs := Some [],
            st_PartialToolCalls := Some [], st_RecentCompletedExecs := Some [], st_BackgroundShells := Some [],
            st_BackgroundShellsByMessageID := Some [], st_BackgroundShellsByExecID := Some [],
            st_Timers := Some [], st_NextTimerToken := 0, st_CurrentProviderToken := 0,
            st_CurrentCompactionToken := 0, st_ProviderAccumulatedText := [],
            st_ProviderAccumulatedReasoning := [], st_ProviderAccumulatedReasoningSignature := [],
            st_ProviderAccumulatedReasoningSignatureSource := [], st_ProviderAccumulatedReasoningItemID := [],
            st_ProviderAccumulatedReasoningStatus := [], st_ProviderAccumulatedReasoningSummary := RawEmpty,
            st_ProviderFinishReason := [], st_ProviderUsage := emptyUsage,
            st_InterruptedTurnFinalized := False, st_ToolInvocationCount := 0, st_UpdatedAt := now\<rparr>),
          map (\<lambda>e. case e of StopTimer t \<Rightarrow> TimerStopped t | _ \<Rightarrow> TimerStopped 0) effs))"

definition run_stream ::
    "go_time \<Rightarrow> actor_env \<Rightarrow> bool \<Rightarrow> string \<Rightarrow> string \<Rightarrow> MCPToolCapabilities \<Rightarrow> ActiveStream \<Rightarrow> actor_result" where
  "run_stream now env prewarm thinkingEffort resolvedModelID caps s =
     (case run_reset now thinkingEffort resolvedModelID caps s of (s1, acts) \<Rightarrow>
        if \<not> env_io env PublishCheckpoint then (s1, acts @ [Called PublishCheckpoint], True)
        else if prewarm then (s1, acts @ [Called PublishCheckpoint], False)
        else (case requestProviderAction now env providerActionStart s1 of
                (s', acts', err) \<Rightarrow> (s', acts @ Called PublishCheckpoint # acts', err)))"

end
