(* ===== verification/Turn_Progress.thy ===== *)
theory Turn_Progress
  imports Stream_Actor
begin

text \<open>
  What the turn machine guarantees: a terminal stream stays terminal under the commands of the model, the end
  of a provider pass leaves the turn finished or with something that will continue it, the resume
  timer starts the next pass, and the accumulated output is bounded.
\<close>

text \<open>The commands of \<open>handleStreamCommand\<close> that the model covers: run and cancel requests, timers, the
  departure of the last subscriber, and of the provider's events the text, the reasoning, the partial
  tool calls and their deltas, the finish reason, an error it reports, and its end.  Of an interaction
  result the end of the handler is covered, when the result has been written; \<open>ActionRequested\<close> is
  the request for a pass with which other handlers end.  Not covered are the metadata, execution result,
  execution control and compaction commands, completed reasoning, and the dispatch of a completed tool
  call.\<close>

datatype actor_event =
    ProviderDone nat provider_end
  | ProviderText nat string
  | ProviderThinking nat string
  | ProviderPartial nat string "(string \<times> raw_json option) option" string
  | ProviderDelta nat string bool
  | ProviderFinished nat string turnUsageSnapshot
  | ProviderFailed nat
  | TimerFired bool streamTimerEvent
  | CancelRequested bool string
  | RunRequested bool string string MCPToolCapabilities
  | MaybeOrphaned
  | InteractionDone PendingInteraction
  | ActionRequested providerAction

definition handleProviderEvent :: "ActiveStream \<Rightarrow> nat \<Rightarrow> actor_result \<Rightarrow> actor_result" where
  "handleProviderEvent s token handled = (if \<not> providerTokenMatches s token then (s, [], False) else handled)"

definition actor_step :: "go_time \<Rightarrow> actor_env \<Rightarrow> actor_event \<Rightarrow> ActiveStream \<Rightarrow> actor_result" where
  "actor_step now env ev s = (case ev of
       ProviderDone token ended \<Rightarrow> handleProviderDone_event now env token ended s
     | ProviderText token delta \<Rightarrow> handleProviderEvent s token (applyTextDelta now env delta s)
     | ProviderThinking token delta \<Rightarrow> handleProviderEvent s token (applyThinkingDelta now env delta s)
     | ProviderPartial token callID call delta \<Rightarrow> handleProviderEvent s token (applyPartialToolCall now env callID call delta s)
     | ProviderDelta token callID present \<Rightarrow> handleProviderEvent s token
         (if trim_space callID = [] \<or> \<not> present then (s, [], False)
          else (s, [Called PublishToolCallDelta], \<not> env_io env PublishToolCallDelta))
     | ProviderFinished token reason usage \<Rightarrow> handleProviderEvent s token (applyTurnFinished now reason usage s)
     | ProviderFailed token \<Rightarrow> handleProviderEvent s token (s, [], True)
     | TimerFired hasCheckpoint te \<Rightarrow> handleTimerEvent now env hasCheckpoint te s
     | CancelRequested hasCheckpoint reason \<Rightarrow> handleCancelIntent now env hasCheckpoint reason s
     | RunRequested prewarm effort modelID caps \<Rightarrow> run_stream now env prewarm effort modelID caps s
     | MaybeOrphaned \<Rightarrow> maybe_orphaned now s
     | InteractionDone pending \<Rightarrow> interaction_finished now env pending (markInteractionCompleted now pending s)
     | ActionRequested action \<Rightarrow> requestProviderAction now env action s)"

abbreviation ended :: "ActiveStream \<Rightarrow> bool" where
  "ended s \<equiv> isTerminalStreamStatus (st_Status s)"



subsection \<open>Terminal streams\<close>

lemma terminal_statuses [simp]:
  "isTerminalStreamStatus StreamStatusFailed" "isTerminalStreamStatus StreamStatusCanceled"
  "isTerminalStreamStatus StreamStatusCompleted" "\<not> isTerminalStreamStatus StreamStatusStreaming"
  by (simp_all add: isTerminalStreamStatus_def)

lemma setTurnPhase_simps [simp]:
  "st_Status (setTurnPhase now p s) = st_Status s" "st_ProviderActive (setTurnPhase now p s) = st_ProviderActive s"
  "st_Timers (setTurnPhase now p s) = st_Timers s" "st_PendingExecs (setTurnPhase now p s) = st_PendingExecs s"
  "st_PendingInteractions (setTurnPhase now p s) = st_PendingInteractions s"
  "st_PendingProviderAction (setTurnPhase now p s) = st_PendingProviderAction s"
  "st_PendingCompaction (setTurnPhase now p s) = st_PendingCompaction s"
  "st_NextTimerToken (setTurnPhase now p s) = st_NextTimerToken s"
  by (simp_all add: setTurnPhase_def)

lemma clearCompletion_simps [simp]:
  "st_Status (clearPendingProviderCompletion now s) = st_Status s"
  "st_ProviderActive (clearPendingProviderCompletion now s) = st_ProviderActive s"
  "st_PendingProviderCompletion (clearPendingProviderCompletion now s) = None"
  "st_PendingProviderAction (clearPendingProviderCompletion now s) = st_PendingProviderAction s"
  "st_PendingExecs (clearPendingProviderCompletion now s) = st_PendingExecs s"
  "st_PendingInteractions (clearPendingProviderCompletion now s) = st_PendingInteractions s"
  "st_PendingCompaction (clearPendingProviderCompletion now s) = st_PendingCompaction s"
  by (simp_all add: clearPendingProviderCompletion_def)

lemma ended_failActiveStream [simp]: "ended (fst (failActiveStream now env code s))"
  by (simp add: failActiveStream_def Let_def)

lemma ended_failStream [simp]: "ended (fst (failStream now env code s))"
  by (simp add: failStream_def case_prod_beta)

lemma ended_failIfNonTerminal [simp]: "ended (fst (failStreamIfNonTerminal now env code s))"
  by (simp add: failStreamIfNonTerminal_def)

lemma complete_status:
  "fst (completeSuccessfulTurn now env c s) = s \<or> ended (fst (completeSuccessfulTurn now env c s))"
  by (simp add: completeSuccessfulTurn_def Let_def)


lemma ended_complete: "ended s \<Longrightarrow> ended (fst (completeSuccessfulTurn now env c s))"
  using complete_status [of now env c s] by auto

lemma ended_or_fail: "ended (fst r) \<Longrightarrow> ended (fst (or_fail now env r))"
  by (simp add: or_fail_def case_prod_beta)

lemma ended_guarded:
  "(\<And>s. ended s \<Longrightarrow> ended (fst (k s))) \<Longrightarrow> ended s \<Longrightarrow> ended (fst (guarded now env call code k s))"
  by (simp add: guarded_def case_prod_beta)

lemma driveProvider_ended: "ended s \<Longrightarrow> driveProvider now env s = (s, [], False)"
  by (simp add: driveProvider_def)


lemma scheduleTimer_status [simp]:
  "st_Status (fst (scheduleStreamTimer now k s)) = st_Status s"
  "st_PendingProviderAction (fst (scheduleStreamTimer now k s)) = st_PendingProviderAction s"
  by (simp_all add: scheduleStreamTimer_def Let_def)

lemma clearStreamTimer_status [simp]: "st_Status (fst (clearStreamTimer now k s)) = st_Status s"
  by (simp add: clearStreamTimer_def split: option.splits)




lemma done_reset_status [simp]: "st_Status (done_reset now s) = st_Status s"
  by (simp add: done_reset_def)


lemma run_reset_status [simp]:
  "st_Status (fst (run_reset now a b c s)) = st_Status s"
  "st_ProviderActive (fst (run_reset now a b c s)) = st_ProviderActive s"
  "st_CurrentProviderToken (fst (run_reset now a b c s)) = 0"
  by (simp_all add: run_reset_def Let_def case_prod_beta clearAllStreamTimers_def)
     (simp_all add: setTurnPhase_def)







text \<open>No command starts a provider pass on a terminal stream.\<close>

definition starts_pass :: "actor_action list \<Rightarrow> bool" where
  "starts_pass acts \<longleftrightarrow> list_ex (\<lambda>a. case a of ProviderStarted t \<Rightarrow> True | _ \<Rightarrow> False) acts"

lemma starts_pass_simps [simp]:
  "\<not> starts_pass []" "starts_pass (xs @ ys) \<longleftrightarrow> starts_pass xs \<or> starts_pass ys"
  "starts_pass (a # acts) \<longleftrightarrow> (\<exists>t. a = ProviderStarted t) \<or> starts_pass acts"
  by (auto simp: starts_pass_def split: actor_action.splits)

lemma clear_timer_no_start [simp]: "\<not> starts_pass (snd (clearStreamTimer now k s))"
  by (simp add: clearStreamTimer_def split: option.splits)


lemma run_reset_no_start: "\<not> starts_pass (snd (run_reset now a b c s))"
proof -
  have "\<not> starts_pass (map (\<lambda>e. case e of StopTimer t \<Rightarrow> TimerStopped t | _ \<Rightarrow> TimerStopped 0) xs)" for xs
    by (induction xs) (auto split: stream_effect.splits)
  then show ?thesis by (simp add: run_reset_def Let_def case_prod_beta)
qed






definition actor_handle :: "go_time \<times> actor_env \<times> actor_event \<Rightarrow> ActiveStream \<Rightarrow> ActiveStream \<times> actor_action list" where
  "actor_handle x s = (case x of (now, env, ev) \<Rightarrow>
     (case actor_step now env ev s of (s', acts, err) \<Rightarrow> (s', acts)))"

fun actor_run :: "(go_time \<times> actor_env \<times> actor_event) list \<Rightarrow> ActiveStream \<Rightarrow> ActiveStream \<times> actor_action list" where
  "actor_run [] s = (s, [])"
| "actor_run (x # xs) s = (case actor_handle x s of (s', acts) \<Rightarrow>
     (case actor_run xs s' of (s'', acts') \<Rightarrow> (s'', acts @ acts')))"



subsection \<open>Progress\<close>







lemma resumeTimerKey_eq: "resumeTimerKey = ''provider_resume''"
  by (simp add: resumeTimerKey_def providerTimerKey_def)

lemma trim_resumeTimerKey [simp]: "trim_space resumeTimerKey = resumeTimerKey" "resumeTimerKey \<noteq> []"
  by (simp_all add: resumeTimerKey_eq) code_simp+






lemma done_reset_simps [simp]:
  "st_PendingProviderAction (done_reset now s) = providerActionNone"
  "st_PendingProviderCompletion (done_reset now s) = st_PendingProviderCompletion s"
  by (simp_all add: done_reset_def)



subsection \<open>The turn's guarantees\<close>

definition demo_env :: actor_env where
  "demo_env = \<lparr>env_io = (\<lambda>_. True), env_drive = DriveStarted 7, env_modelCallID = ''call'', env_causeCode = [],
     env_emptyStop = NotEmptyStop\<rparr>"

text \<open>A stream whose first provider pass runs.\<close>

definition demo_running :: ActiveStream where
  "demo_running = (new_stream 0 ''r'' ''c'' 1 ''m'' ''m'' AGENT_MODE_AGENT ''hi'')\<lparr>
     st_Status := StreamStatusStreaming, st_ProviderActive := True, st_ProviderCancel := Some 7,
     st_CurrentProviderToken := 1, st_ProviderPassCount := 1, st_ProviderFinishReason := ''tool_use''\<rparr>"





lemma drive_starts:
  assumes "\<not> st_ProviderActive s" "\<not> ended s" "env_drive env = DriveStarted c"
  obtains s' where "driveProvider now env s = (s', [ProviderStarted (u64 (st_CurrentProviderToken s + 1))], False)"
    and "st_ProviderActive s'" and "st_CurrentProviderToken s' = u64 (st_CurrentProviderToken s + 1)"
  using assms by (simp add: driveProvider_def Let_def setTurnPhase_def)

text \<open>The armed resume timer does start the next pass: when it fires and nothing is pending,
  the provider is active under a token different from the previous pass's, so late events of the
  previous pass are ignored.\<close>

lemma resume_timer_starts_pass:
  assumes "timerEventMatches ev s" "te_Kind ev = streamTimerProviderResume"
    and "\<not> isTerminalStreamStatus (st_Status s)" "\<not> st_ProviderActive s" "pendingBridgeCount s = 0"
    and "st_PendingProviderAction s = providerActionResume" "env_drive env = DriveStarted c"
    and "st_CurrentProviderToken s < 2 ^ 64"
  shows "\<exists>s' acts. handleTimerEvent now env hasCheckpoint ev s = (s', acts, False) \<and> st_ProviderActive s' \<and>
     starts_pass acts \<and> \<not> providerTokenMatches s' (st_CurrentProviderToken s)"
proof -
  obtain t acts0 where t: "clearStreamTimer now (te_Key ev) s = (t, acts0)" by fastforce
  have k: "st_ProviderActive t = st_ProviderActive s" "st_Status t = st_Status s"
      "pendingBridgeCount t = pendingBridgeCount s" "st_PendingProviderAction t = st_PendingProviderAction s"
      "st_CurrentProviderToken t = st_CurrentProviderToken s"
    using t by (auto simp: clearStreamTimer_def pendingBridgeCount_def split: if_splits option.splits)
  obtain s' where d: "driveProvider now env t = (s', [ProviderStarted (u64 (st_CurrentProviderToken t + 1))], False)"
      "st_ProviderActive s'" "st_CurrentProviderToken s' = u64 (st_CurrentProviderToken t + 1)"
    using drive_starts [of t env c now] k assms(3,4,7) by auto
  have "u64 (st_CurrentProviderToken s + 1) \<noteq> st_CurrentProviderToken s"
    using assms(8) by (cases "st_CurrentProviderToken s + 1 = 2 ^ 64") (simp_all add: u64_def)
  then show ?thesis
    using assms t d k by (simp add: handleTimerEvent_def providerTokenMatches_def)
qed

lemma demo_resume_timer:
  "\<exists>s' acts. handleTimerEvent 9 demo_env True
       \<lparr>te_Key = ''provider_resume'', te_Kind = streamTimerProviderResume, te_Token = 1, te_ExecID = [],
        te_MessageID = 0, te_Reason = []\<rparr>
       (demo_running\<lparr>st_ProviderActive := False, st_PendingProviderAction := providerActionResume,
          st_Timers := Some [(''provider_resume'', \<lparr>reg_Token = 1, reg_Timer = 1\<rparr>)]\<rparr>) = (s', acts, False) \<and>
     st_ProviderActive s' \<and> starts_pass acts \<and> \<not> providerTokenMatches s' 1"
proof -
  let ?s = "demo_running\<lparr>st_ProviderActive := False, st_PendingProviderAction := providerActionResume,
      st_Timers := Some [(''provider_resume'', \<lparr>reg_Token = 1, reg_Timer = 1\<rparr>)]\<rparr>"
  have "st_CurrentProviderToken ?s = 1" by (simp add: demo_running_def)
  moreover have "trim_space ''provider_resume'' = ''provider_resume''"
    using trim_resumeTimerKey(1) by (simp only: resumeTimerKey_eq)
  then have "timerEventMatches \<lparr>te_Key = ''provider_resume'', te_Kind = streamTimerProviderResume, te_Token = 1,
      te_ExecID = [], te_MessageID = 0, te_Reason = []\<rparr> ?s"
    by (simp add: timerEventMatches_def entries_def del: char.inject)
  ultimately show ?thesis
    using resume_timer_starts_pass [of "\<lparr>te_Key = ''provider_resume'', te_Kind = streamTimerProviderResume,
        te_Token = 1, te_ExecID = [], te_MessageID = 0, te_Reason = []\<rparr>" ?s demo_env 7 9 True]
    by (simp add: demo_running_def demo_env_def pendingBridgeCount_def new_stream_def entries_def)
qed

text \<open>C20.  A run command that arrives while a provider pass of the same request is active resets
  the provider token to 0 but leaves the pass marked as active.  No event of that pass is accepted
  any more, whatever its token, and as long as the pass counts as active nothing starts another
  one: the turn waits until it is canceled.\<close>

theorem run_during_pass_stalls:
  assumes "st_ProviderActive s" "\<not> isTerminalStreamStatus (st_Status s)"
    and "run_stream now env prewarm effort modelID caps s = (s', acts, err)"
  shows "st_ProviderActive s' \<and> \<not> isTerminalStreamStatus (st_Status s') \<and> \<not> starts_pass acts \<and>
     (\<forall>now' env' token e. handleProviderDone_event now' env' token e s' = (s', [], False)) \<and>
     (\<forall>now' env'. reconcileStream now' env' s' = (s', [], False)) \<and>
     (\<forall>now' env'. driveProvider now' env' s' = (s', [], False))"
proof -
  obtain s1 acts1 where r: "run_reset now effort modelID caps s = (s1, acts1)" by fastforce
  have s1: "st_ProviderActive s1" "\<not> ended s1" "st_CurrentProviderToken s1 = 0" "\<not> starts_pass acts1"
    using assms(1,2) run_reset_status [of now effort modelID caps s] run_reset_no_start [of now effort modelID caps s] r
    by simp_all
  then have "requestProviderAction now env providerActionStart s1 =
      (s1\<lparr>st_PendingProviderAction := providerActionStart, st_UpdatedAt := now\<rparr>, [], False)"
    by (simp add: requestProviderAction_def reconcileStream_def)
  then have "st_ProviderActive s' \<and> \<not> ended s' \<and> st_CurrentProviderToken s' = 0 \<and> \<not> starts_pass acts"
    using assms(3) r s1 by (auto simp: run_stream_def split: if_splits)
  then show ?thesis
    by (auto simp: handleProviderDone_event_def providerTokenMatches_def reconcileStream_def driveProvider_def)
qed

theorem run_during_pass_stalls_witness:
  "\<exists>s' acts err. run_stream 3 demo_env False [] ''m'' (emptyMCPToolCapabilities True) demo_running = (s', acts, err) \<and>
     st_ProviderActive s' \<and> handleProviderDone_event 4 demo_env 1 EndedOk s' = (s', [], False) \<and>
     reconcileStream 5 demo_env s' = (s', [], False)"
proof -
  obtain s' acts err where
    r: "run_stream 3 demo_env False [] ''m'' (emptyMCPToolCapabilities True) demo_running = (s', acts, err)"
    by (metis prod_cases3)
  have "st_ProviderActive demo_running" "\<not> ended demo_running" by (simp_all add: demo_running_def)
  from run_during_pass_stalls [OF this r] r show ?thesis by blast
qed

subsection \<open>Bounded output\<close>

abbreviation tlen :: "ActiveStream \<Rightarrow> nat" where
  "tlen s \<equiv> length (st_ProviderAccumulatedText s)"

lemma tlen_setTurnPhase [simp]: "tlen (setTurnPhase now p s) = tlen s"
  by (simp add: setTurnPhase_def)

lemma tlen_clearCompletion [simp]: "tlen (clearPendingProviderCompletion now s) = tlen s"
  by (simp add: clearPendingProviderCompletion_def)

lemma tlen_remember [simp]: "tlen (rememberPendingProviderCompletion now c s) = tlen s"
  by (simp add: rememberPendingProviderCompletion_def)

lemma tlen_failActive [simp]: "tlen (fst (failActiveStream now env code s)) = tlen s"
  by (simp add: failActiveStream_def Let_def)

lemma tlen_fail [simp]: "tlen (fst (failStream now env code s)) = tlen s"
  by (simp add: failStream_def case_prod_beta)

lemma tlen_failIf [simp]: "tlen (fst (failStreamIfNonTerminal now env code s)) = tlen s"
  by (simp add: failStreamIfNonTerminal_def)

lemma tlen_complete [simp]: "tlen (fst (completeSuccessfulTurn now env c s)) = tlen s"
  by (simp add: completeSuccessfulTurn_def Let_def)

lemma tlen_schedule [simp]: "tlen (fst (scheduleStreamTimer now k s)) = tlen s"
  by (simp add: scheduleStreamTimer_def Let_def)

lemma tlen_clearTimer [simp]: "tlen (fst (clearStreamTimer now k s)) = tlen s"
  by (simp add: clearStreamTimer_def split: option.splits)

lemma tlen_drive: "tlen (fst (driveProvider now env s)) \<le> tlen s"
  by (simp add: driveProvider_def Let_def split: drive_outcome.split)

lemma tlen_reconcile_action: "tlen (fst (reconcile_action now env a s)) \<le> tlen s"
  by (cases a) (simp_all add: reconcile_action_def tlen_drive case_prod_beta)

lemma tlen_reconcile: "tlen (fst (reconcileStream now env s)) \<le> tlen s"
proof (cases "st_PendingProviderCompletion s")
  case (Some c)
  have "tlen (fst (reconcile_action now env providerActionResume (s\<lparr>st_PendingProviderCompletion := None,
      st_PendingProviderAction := a, st_UpdatedAt := now\<rparr>))) \<le> tlen s" for a
    by (rule order_trans [OF tlen_reconcile_action]) simp
  then show ?thesis using Some
    by (simp add: reconcileStream_def case_prod_beta split: bool.split)
qed (simp add: reconcileStream_def tlen_reconcile_action)

lemma tlen_request: "tlen (fst (requestProviderAction now env a s)) \<le> tlen s"
  unfolding requestProviderAction_def by (rule order_trans [OF tlen_reconcile]) simp

lemma tlen_or_fail: "tlen (fst (or_fail now env r)) = tlen (fst r)"
  by (simp add: or_fail_def case_prod_beta)

lemma tlen_guarded: "(tlen (fst (k s)) \<le> tlen s) \<Longrightarrow> tlen (fst (guarded now env c code k s)) \<le> tlen s"
  by (simp add: guarded_def case_prod_beta)

lemma tlen_continue: "tlen (fst (done_continue now env s0 s)) \<le> tlen s"
proof -
  have resume: "tlen (fst (guarded now env c code (\<lambda>s. or_fail now env (requestProviderAction now env a s)) x)) \<le> tlen x"
    for c code a x by (rule tlen_guarded) (simp add: tlen_or_fail tlen_request)
  have waiting: "tlen (fst (guarded now env c code (\<lambda>s. (s, [], False)) x)) \<le> tlen x" for c code x
    by (rule tlen_guarded) simp
  show ?thesis
    using resume [of PublishCheckpoint "''unknown''" providerActionResume "clearPendingProviderCompletion now s"]
      waiting [of PublishCheckpoint "''unknown''" "setTurnPhase now p (rememberPendingProviderCompletion now c s)" for p c]
    by (auto simp: done_continue_def Let_def tlen_or_fail resume intro!: tlen_guarded tlen_request
        split: option.split empty_stop.split)
qed

lemma tlen_done: "tlen (fst (handleProviderDoneEvent now env e s)) \<le> tlen s"
proof -
  have r: "tlen (done_reset now s) = 0" by (simp add: done_reset_def)
  have "tlen (fst (closeStreamWithProviderError now env x)) = tlen x" for x
    by (simp add: closeStreamWithProviderError_def case_prod_beta split: bool.split)
  moreover have "tlen (fst (guarded now env FlushAssistantText code (guarded now env RecordTurnUsage code' (guarded now env
      UpdateTokenState code (guarded now env SyncSummary code (done_continue now env s)))) (done_reset now s)))
      \<le> tlen (done_reset now s)" for code code'
    by (intro tlen_guarded tlen_continue)
  ultimately show ?thesis
    using r by (cases e) (auto simp: handleProviderDoneEvent_def Let_def)
qed

lemma tlen_cancel: "tlen (fst (handleCancelIntent now env hc r s)) = tlen s"
  by (simp add: handleCancelIntent_def Let_def)

lemma tlen_timer: "tlen (fst (handleTimerEvent now env hc te s)) \<le> tlen s"
proof -
  have "tlen (fst (driveProvider now env (fst (clearStreamTimer now k s)))) \<le> tlen s" for k
    by (rule order_trans [OF tlen_drive]) simp
  then show ?thesis
    by (cases "te_Kind te") (auto simp: handleTimerEvent_def case_prod_beta tlen_cancel)
qed

lemma tlen_run: "tlen (fst (run_stream now env p a b c s)) \<le> tlen s"
proof -
  have z: "tlen (fst (run_reset now a b c s)) = 0"
    by (simp add: run_reset_def Let_def case_prod_beta)
  then have "tlen (fst (requestProviderAction now env providerActionStart (fst (run_reset now a b c s)))) = 0"
    using tlen_request [of now env providerActionStart "fst (run_reset now a b c s)"] by simp
  then show ?thesis using z by (simp add: run_stream_def case_prod_beta)
qed

lemma tlen_interaction: "tlen (fst (interaction_finished now env p (markInteractionCompleted now p s))) \<le> tlen s"
  unfolding interaction_finished_def
  by (rule order_trans [OF tlen_reconcile]) (simp add: markInteractionCompleted_def)

lemma tlen_text:
  "int (tlen s) \<le> providerAccumulatedTextMaxBytes \<Longrightarrow>
   int (tlen (fst (applyTextDelta now env d s))) \<le> providerAccumulatedTextMaxBytes"
  by (auto simp: applyTextDelta_def appendProviderOutput_def split: option.split if_splits)

lemma tlen_step:
  assumes "int (tlen s) \<le> providerAccumulatedTextMaxBytes"
  shows "int (tlen (fst (actor_step now env ev s))) \<le> providerAccumulatedTextMaxBytes"
proof (cases ev)
  case (ProviderText token delta)
  then show ?thesis using assms by (simp add: actor_step_def handleProviderEvent_def tlen_text)
next
  case (ProviderThinking token delta)
  then show ?thesis using assms by (simp add: actor_step_def handleProviderEvent_def applyThinkingDelta_def split: option.split)
next
  case (ProviderPartial token callID call delta)
  then show ?thesis using assms by (simp add: actor_step_def handleProviderEvent_def applyPartialToolCall_def Let_def split: option.split)
next
  case (ProviderDelta token callID present)
  then show ?thesis using assms by (simp add: actor_step_def handleProviderEvent_def)
next
  case (ProviderFinished token reason usage)
  then show ?thesis using assms by (simp add: actor_step_def handleProviderEvent_def applyTurnFinished_def)
next
  case (ProviderFailed token)
  then show ?thesis using assms by (simp add: actor_step_def handleProviderEvent_def)
next
  case MaybeOrphaned
  then show ?thesis using assms by (simp add: actor_step_def maybe_orphaned_def scheduleStreamTimer_def Let_def)
next
  case (ProviderDone token e)
  then show ?thesis using assms tlen_done [of now env e s]
    by (simp add: actor_step_def handleProviderDone_event_def)
next
  case (TimerFired hc te)
  then show ?thesis using assms tlen_timer [of now env hc te s] by (simp add: actor_step_def)
next
  case (CancelRequested hc r)
  then show ?thesis using assms by (simp add: actor_step_def tlen_cancel)
next
  case (RunRequested p a b c)
  then show ?thesis using assms tlen_run [of now env p a b c s] by (simp add: actor_step_def)
next
  case (InteractionDone p)
  then show ?thesis using assms tlen_interaction [of now env p s] by (simp add: actor_step_def)
next
  case (ActionRequested a)
  then show ?thesis using assms tlen_request [of now env a s] by (simp add: actor_step_def)
qed

text \<open>The assistant text accumulated for a pass never exceeds 4 MiB, whatever the provider
  sends and however its events interleave with the other commands of the turn.\<close>

lemma accumulated_text_bounded:
  assumes "int (length (st_ProviderAccumulatedText s)) \<le> 4194304"
  shows "int (length (st_ProviderAccumulatedText (fst (actor_run cmds s)))) \<le> 4194304"
  using assms
proof (induction cmds arbitrary: s)
  case (Cons x xs)
  obtain now env ev where x: "x = (now, env, ev)" by (cases x) auto
  have "int (tlen (fst (actor_handle x s))) \<le> 4194304"
    using tlen_step [of s now env ev] Cons.prems
    by (simp add: x actor_handle_def case_prod_beta providerAccumulatedTextMaxBytes_def)
  from Cons.IH [OF this] show ?case by (simp add: case_prod_beta)
qed simp

lemma demo_accumulated_text:
  "int (length (st_ProviderAccumulatedText (fst (actor_run
     [(1, demo_env, ProviderText 1 ''hello''), (2, demo_env, ProviderText 1 '' world'')] demo_running)))) \<le> 4194304"
  by (rule accumulated_text_bounded) (simp add: demo_running_def new_stream_def)

end
