(* ===== verification/Patch_Edit.thy ===== *)
theory Patch_Edit
  imports Patch_Args Turn_Progress
begin

text \<open>
  PatchEdit operations of a stream, \<open>forwarder/patch_edit_tool.go\<close> with \<open>edit_recovery.go\<close>: an edit
  reads the file through the client, computes the new content, writes it and, when the answer to the
  write is lost, reads the file back.  Edits of one path run one after the other; later ones wait in a
  queue of the stream.

  \<open>patch_env\<close> holds what a handler gets from outside: the diff library, the identifiers under which
  the execution bridge opens the next execution (\<open>None\<close> when opening fails), and the environment of
  the turn.  The tool results and the executions opened are recorded in order with the actions of
  the turn.
\<close>

subsection \<open>Client results\<close>

datatype read_output = OutNone | OutContent string | OutData string

datatype ReadResult =
    ReadSuccess string bool read_output bool
  | ReadError string string
  | ReadRejected string string
  | ReadFileNotFound string
  | ReadPermissionDenied string
  | ReadInvalidFile string string
  | ReadUnknown

datatype WriteResult =
    WriteSuccess string string
  | WritePermissionDenied string string
  | WriteNoSpace string
  | WriteError string string
  | WriteRejected string string
  | WriteUnknown

datatype exec_message = MsgRead ReadResult | MsgWrite WriteResult | MsgOther

datatype control_message = CtlHeartbeat | CtlStreamClose | CtlThrow string | CtlOther

record EditSuccess =
  es_Path :: string
  es_Before :: string
  es_After :: string
  es_Diff :: string
  es_LinesAdded :: int
  es_LinesRemoved :: int
  es_Message :: string

datatype EditResult =
    ER_Success EditSuccess
  | ER_FileNotFound string
  | ER_ReadPermissionDenied string
  | ER_WritePermissionDenied string string
  | ER_Rejected string string
  | ER_Error string string

definition buildEditErrorResult :: "string \<Rightarrow> string \<Rightarrow> EditResult" where
  "buildEditErrorResult path msg = ER_Error (trim_space path) (trim_space msg)"

definition buildSuccessfulEditResult ::
    "string \<Rightarrow> string \<Rightarrow> string \<Rightarrow> string \<Rightarrow> int \<Rightarrow> int \<Rightarrow> string \<Rightarrow> EditResult" where
  "buildSuccessfulEditResult path before after diff added removed msg =
     ER_Success \<lparr>es_Path = trim_space path, es_Before = before, es_After = after, es_Diff = diff,
       es_LinesAdded = added, es_LinesRemoved = removed, es_Message = msg\<rparr>"

definition buildFinalEditSuccessResult ::
    "diff_lib \<Rightarrow> string \<Rightarrow> string \<Rightarrow> pendingPatchEditPayload \<Rightarrow> EditResult" where
  "buildFinalEditSuccessResult dmp path after p =
     (let (diff, added, removed) =
        (if after \<noteq> pep_AfterContent p then computeEditDiff dmp (pep_BeforeContent p) after
         else (pep_DiffString p, pep_LinesAdded p, pep_LinesRemoved p))
      in buildSuccessfulEditResult path (pep_BeforeContent p) after diff added removed (pep_Message p))"

definition appendEditResultWarning :: "string \<Rightarrow> EditResult \<Rightarrow> EditResult" where
  "appendEditResultWarning warning r = (case r of
       ER_Success e \<Rightarrow> if trim_space warning = [] then r
         else ER_Success (e\<lparr>es_Message := (if trim_space (es_Message e) \<noteq> []
                then trim_space (es_Message e) @ ''; '' @ trim_space warning else trim_space warning)\<rparr>)
     | _ \<Rightarrow> r)"

definition buildEditResultFromReadResult :: "string \<Rightarrow> ReadResult \<Rightarrow> EditResult" where
  "buildEditResultFromReadResult path r = (case r of
       ReadFileNotFound p \<Rightarrow> ER_FileNotFound (firstNonEmpty [p, path])
     | ReadPermissionDenied p \<Rightarrow> ER_ReadPermissionDenied (firstNonEmpty [p, path])
     | ReadRejected p reason \<Rightarrow> ER_Rejected (firstNonEmpty [p, path]) reason
     | ReadInvalidFile p reason \<Rightarrow> buildEditErrorResult (firstNonEmpty [p, path]) reason
     | ReadError p e \<Rightarrow> buildEditErrorResult (firstNonEmpty [p, path]) e
     | ReadSuccess p _ _ _ \<Rightarrow>
         buildEditErrorResult (firstNonEmpty [p, path]) ''read result did not include editable text content''
     | ReadUnknown \<Rightarrow> buildEditErrorResult path ''unknown read result'')"

definition buildEditResultFromWriteResult :: "string \<Rightarrow> WriteResult \<Rightarrow> EditResult" where
  "buildEditResultFromWriteResult path r = (case r of
       WritePermissionDenied p e \<Rightarrow> ER_WritePermissionDenied (firstNonEmpty [p, path]) e
     | WriteRejected p reason \<Rightarrow> ER_Rejected (firstNonEmpty [p, path]) reason
     | WriteNoSpace p \<Rightarrow> buildEditErrorResult (firstNonEmpty [p, path]) ''no space left''
     | WriteError p e \<Rightarrow> buildEditErrorResult (firstNonEmpty [p, path]) e
     | WriteSuccess p after \<Rightarrow> buildSuccessfulEditResult (firstNonEmpty [p, path]) [] after [] 0 0 []
     | WriteUnknown \<Rightarrow> buildEditErrorResult path ''unknown write result'')"

definition resultPath :: "EditResult \<Rightarrow> string" where
  "resultPath r = trim_space (case r of ER_Success e \<Rightarrow> es_Path e | ER_FileNotFound p \<Rightarrow> p
     | ER_ReadPermissionDenied p \<Rightarrow> p | ER_WritePermissionDenied p _ \<Rightarrow> p | ER_Rejected p _ \<Rightarrow> p | ER_Error p _ \<Rightarrow> p)"

text \<open>\<open>utf8.Valid\<close> on the bytes of a string.\<close>

definition cont_byte :: "nat \<Rightarrow> bool" where
  "cont_byte n \<longleftrightarrow> 0x80 \<le> n \<and> n \<le> 0xBF"

fun utf8_valid :: "nat list \<Rightarrow> bool" where
  "utf8_valid [] = True"
| "utf8_valid (a # s) = (if a < 0x80 then utf8_valid s
     else (case s of [] \<Rightarrow> False | b # s1 \<Rightarrow>
       if 0xC2 \<le> a \<and> a \<le> 0xDF then cont_byte b \<and> utf8_valid s1
       else (case s1 of [] \<Rightarrow> False | c # s2 \<Rightarrow>
         if 0xE0 \<le> a \<and> a \<le> 0xEF
         then (if a = 0xE0 then 0xA0 \<le> b \<and> b \<le> 0xBF else if a = 0xED then 0x80 \<le> b \<and> b \<le> 0x9F else cont_byte b) \<and>
              cont_byte c \<and> utf8_valid s2
         else (case s2 of [] \<Rightarrow> False | d # s3 \<Rightarrow>
           0xF0 \<le> a \<and> a \<le> 0xF4 \<and>
           (if a = 0xF0 then 0x90 \<le> b \<and> b \<le> 0xBF else if a = 0xF4 then 0x80 \<le> b \<and> b \<le> 0x8F else cont_byte b) \<and>
           cont_byte c \<and> cont_byte d \<and> utf8_valid s3))))"

definition editReadBinaryContentLimit :: nat where
  "editReadBinaryContentLimit = 32 * 1024"

definition decodeReadDataAsEditableText :: "string \<Rightarrow> string + string" where
  "decodeReadDataAsEditableText data =
     (if length data > editReadBinaryContentLimit
      then Inl (''Read returned binary data larger than '' @ nat_dec editReadBinaryContentLimit @ '' bytes'')
      else if \<not> utf8_valid (map of_char data) then Inl ''Read returned binary data that is not valid UTF-8 text''
      else Inr data)"

datatype read_content = ReadText string | ReadRefused string

definition extractCompleteReadContentForPatchEdit :: "ReadResult \<Rightarrow> read_content" where
  "extractCompleteReadContentForPatchEdit r = (case r of
       ReadSuccess p truncated output hasBlob \<Rightarrow>
         if truncated then ReadRefused ''patch edit requires a complete Read result, but the file content was truncated''
         else (case output of
             OutContent c \<Rightarrow> ReadText (normalizeLineEndingsToLF c)
           | OutData d \<Rightarrow> (case decodeReadDataAsEditableText d of
                 Inl e \<Rightarrow> ReadRefused (''patch edit requires editable text content, but '' @ e)
               | Inr t \<Rightarrow> ReadText (normalizeLineEndingsToLF t))
           | OutNone \<Rightarrow> ReadRefused (if hasBlob
                 then ''patch edit requires inline file content, but Read returned only an output blob''
                 else ''patch edit requires inline file content, but Read did not include content''))
     | _ \<Rightarrow> ReadRefused [])"

definition extractReadContentForEdit :: "ReadResult \<Rightarrow> string option" where
  "extractReadContentForEdit r = (case r of
       ReadSuccess p truncated output hasBlob \<Rightarrow> (case output of
           OutContent c \<Rightarrow> Some (normalizeLineEndingsToLF c)
         | OutData d \<Rightarrow> (case decodeReadDataAsEditableText d of Inl _ \<Rightarrow> None | Inr t \<Rightarrow> Some (normalizeLineEndingsToLF t))
         | OutNone \<Rightarrow> if hasBlob then None else Some [])
     | _ \<Rightarrow> None)"

text \<open>Expected against observed content: the content to report, whether only line endings differ,
  and whether the contents agree at all.\<close>

definition reconcilePatchEditObservedContent :: "string \<Rightarrow> string \<Rightarrow> string \<times> bool \<times> bool" where
  "reconcilePatchEditObservedContent expected observed =
     (if observed = expected then (observed, False, True)
      else if normalizeLineEndingsToLF expected = normalizeLineEndingsToLF observed then (observed, True, True)
      else (observed, False, False))"

definition appendPatchEditMessage :: "string \<Rightarrow> string \<Rightarrow> string" where
  "appendPatchEditMessage existing addition =
     (if trim_space existing = [] then trim_space addition
      else if trim_space addition = [] then trim_space existing
      else trim_space existing @ ''; '' @ trim_space addition)"

subsection \<open>Queues\<close>

definition patchEditQueueKey :: "string \<Rightarrow> string" where
  "patchEditQueueKey path = trim_space path"

definition patchEditPayloadPath :: "pendingPatchEditPayload \<Rightarrow> string" where
  "patchEditPayloadPath p = trim_space (pea_Path (pep_Args p))"

definition setPatchEditPayloadPath :: "string \<Rightarrow> pendingPatchEditPayload \<Rightarrow> pendingPatchEditPayload" where
  "setPatchEditPayloadPath path p = p\<lparr>pep_Args := (pep_Args p)\<lparr>pea_Path := trim_space path\<rparr>\<rparr>"

definition exec_in_flight :: "string \<Rightarrow> PendingExec \<Rightarrow> bool" where
  "exec_in_flight key pe \<longleftrightarrow> isHiddenPatchEditExecKind (pe_ExecKind pe) \<and>
     (case decodePendingPatchEditPayload (pe_ArgsJSON pe) of None \<Rightarrow> False
      | Some p \<Rightarrow> patchEditQueueKey (firstNonEmpty [pep_ResolvedPath p, patchEditPayloadPath p]) = key)"

definition patchEditPathHasInFlightOperation :: "string \<Rightarrow> ActiveStream \<Rightarrow> bool" where
  "patchEditPathHasInFlightOperation key s \<longleftrightarrow> trim_space key \<noteq> [] \<and>
     list_ex (\<lambda>(k, pe). exec_in_flight key pe) (entries (st_PendingExecs s))"

definition queue_of :: "string \<Rightarrow> ActiveStream \<Rightarrow> queuedPatchEditOperation list" where
  "queue_of key s = (case map_of (entries (st_PatchEditQueues s)) key of None \<Rightarrow> [] | Some q \<Rightarrow> q)"

definition enqueuePatchEditOperation ::
    "go_time \<Rightarrow> string \<Rightarrow> queuedPatchEditOperation \<Rightarrow> ActiveStream \<Rightarrow> ActiveStream" where
  "enqueuePatchEditOperation now key op s =
     (if trim_space key = [] then s
      else s\<lparr>st_PatchEditQueues := Some (AList.update key (queue_of key s @ [op]) (entries (st_PatchEditQueues s))),
             st_UpdatedAt := now\<rparr>)"

definition takeNextQueuedPatchEditOperation ::
    "go_time \<Rightarrow> string \<Rightarrow> ActiveStream \<Rightarrow> ActiveStream \<times> queuedPatchEditOperation option" where
  "takeNextQueuedPatchEditOperation now path s =
     (let key = patchEditQueueKey path in
      if key = [] \<or> st_PatchEditQueues s = None then (s, None)
      else case queue_of key s of
          [] \<Rightarrow> (s\<lparr>st_PatchEditQueues := del_entry key (st_PatchEditQueues s)\<rparr>, None)
        | [op] \<Rightarrow> (s\<lparr>st_PatchEditQueues := del_entry key (st_PatchEditQueues s), st_UpdatedAt := now\<rparr>, Some op)
        | op # rest \<Rightarrow> (s\<lparr>st_PatchEditQueues := Some (AList.update key rest (entries (st_PatchEditQueues s))),
                         st_UpdatedAt := now\<rparr>, Some op))"

subsection \<open>Stages\<close>

datatype patch_action = Act actor_action | ExecOpened string string "string option" | ToolCompleted string EditResult

type_synonym patch_result = "ActiveStream \<times> patch_action list \<times> bool"

record patch_env =
  pv_env :: actor_env
  pv_dmp :: diff_lib
  pv_open :: "(nat \<times> string) option"

definition and_then :: "patch_result \<Rightarrow> (ActiveStream \<Rightarrow> patch_result) \<Rightarrow> patch_result" where
  "and_then r k = (case r of (s, acts, err) \<Rightarrow>
     if err then (s, acts, True) else (case k s of (s', acts', err') \<Rightarrow> (s', acts @ acts', err')))"

definition io_call :: "patch_env \<Rightarrow> actor_call \<Rightarrow> ActiveStream \<Rightarrow> patch_result" where
  "io_call pv call s = (s, [Act (Called call)], \<not> env_io (pv_env pv) call)"

definition lift_acts :: "ActiveStream \<times> actor_action list \<Rightarrow> patch_result" where
  "lift_acts r = (case r of (s, acts) \<Rightarrow> (s, map Act acts, False))"

definition lift_result :: "actor_result \<Rightarrow> patch_result" where
  "lift_result r = (case r of (s, acts, err) \<Rightarrow> (s, map Act acts, err))"

definition clearExecRecoveryTimers :: "go_time \<Rightarrow> string \<Rightarrow> ActiveStream \<Rightarrow> ActiveStream \<times> actor_action list" where
  "clearExecRecoveryTimers now execID s =
     (if trim_space execID = [] then (s, [])
      else let (s1, a1) = clearStreamTimer now (providerTimerKey streamTimerNonStreamingRecovery (trim_space execID)) s;
               (s2, a2) = clearStreamTimer now (providerTimerKey streamTimerShellForeground (trim_space execID)) s1;
               (s3, a3) = clearStreamTimer now (providerTimerKey streamTimerShellTransportClose (trim_space execID)) s2
           in (s3, a1 @ a2 @ a3))"

definition completedExecRetention :: int where
  "completedExecRetention = 15 * 10 ^ 9"

definition markExecCompleted :: "go_time \<Rightarrow> PendingExec \<Rightarrow> ActiveStream \<Rightarrow> ActiveStream \<times> actor_action list" where
  "markExecCompleted now pending s0 =
     (case clearExecRecoveryTimers now (pe_ExecID pending) s0 of (s, acts) \<Rightarrow>
        (s\<lparr>st_PendingExecs := del_entry (pe_ExecID pending) (st_PendingExecs s),
           st_RecentCompletedExecs := (if pe_MessageID pending \<noteq> 0
             then Some (AList.update (pe_MessageID pending) now
                    (filter (\<lambda>(k, t). \<not> t < now - completedExecRetention) (entries (st_RecentCompletedExecs s))))
             else st_RecentCompletedExecs s),
           st_UpdatedAt := now\<rparr>, acts))"

definition scheduleHiddenEditStageDeadline ::
    "go_time \<Rightarrow> PendingExec \<Rightarrow> ActiveStream \<Rightarrow> ActiveStream \<times> actor_action list" where
  "scheduleHiddenEditStageDeadline now pending s =
     (if \<not> isHiddenEditExecKind (pe_ExecKind pending) \<or> trim_space (pe_ExecID pending) = [] then (s, [])
      else scheduleStreamTimer now (providerTimerKey streamTimerHiddenEditStage (pe_ExecID pending)) s)"

definition completeHiddenEditStageObservation ::
    "go_time \<Rightarrow> PendingExec \<Rightarrow> ActiveStream \<Rightarrow> ActiveStream \<times> actor_action list" where
  "completeHiddenEditStageObservation now pending s =
     (if \<not> isHiddenEditExecKind (pe_ExecKind pending) then (s, [])
      else clearStreamTimer now (providerTimerKey streamTimerHiddenEditStage (pe_ExecID pending)) s)"

text \<open>What an operation carries through its stages.\<close>

definition stage_exec ::
    "go_time \<Rightarrow> nat \<Rightarrow> string \<Rightarrow> string \<Rightarrow> raw_json \<Rightarrow> queuedPatchEditOperation \<Rightarrow> PendingExec" where
  "stage_exec now messageID execID kind argsJSON op = \<lparr>pe_MessageID = messageID, pe_ExecID = execID,
     pe_ProviderPass = qop_ProviderPass op, pe_ModelCallID = trim_space (qop_ModelCallID op),
     pe_ToolCallID = trim_space (qop_ToolCallID op), pe_ArgsJSON = argsJSON, pe_VisibleToolName = [],
     pe_VisibleArgsJSON = RawEmpty, pe_ReasoningContent = qop_ReasoningContent op,
     pe_ReasoningSignature = trim_space (qop_ReasoningSignature op),
     pe_ReasoningSignatureSource = trim_space (qop_ReasoningSignatureSource op), pe_ExecKind = kind,
     pe_StreamState = ''opened'', pe_OpenedAt = now, pe_FirstChunkAt = 0, pe_ChunkCount = 0,
     pe_LastShellActivityAt = 0, pe_LastShellHeartbeatAt = 0, pe_ShellForegroundDeadline = 0,
     pe_ShellRecoveryScheduled = False, pe_StdoutBuffer = [], pe_StderrBuffer = [],
     pe_StdoutDroppedBytes = 0, pe_StderrDroppedBytes = 0,
     pe_ArtifactPath = []\<rparr>"

text \<open>The common part of the three start functions; the map of pending executions exists while the
  actor runs, and writing to a nil map would be an error (a panic).\<close>

definition open_stage ::
    "go_time \<Rightarrow> patch_env \<Rightarrow> string \<Rightarrow> string option \<Rightarrow> queuedPatchEditOperation \<Rightarrow> ActiveStream \<Rightarrow> patch_result" where
  "open_stage now pv kind contents op s =
     (case (pv_open pv, marshalPatchEditPayload (qop_Payload op)) of
        (Some (messageID, execID), Some argsJSON) \<Rightarrow>
          (let pe = stage_exec now messageID execID kind argsJSON op in
           case put_entry execID pe (st_PendingExecs s) of
             None \<Rightarrow> (s, [], True)
           | Some execs \<Rightarrow>
               and_then (io_call pv PublishCheckpoint (s\<lparr>st_PendingExecs := execs\<rparr>)) (\<lambda>s.
               and_then (io_call pv PublishExecMessage s) (\<lambda>s.
               and_then (s, [ExecOpened kind (trim_space (pep_ResolvedPath (qop_Payload op))) contents], False) (\<lambda>s.
                 lift_acts (scheduleHiddenEditStageDeadline now pe s)))))
      | _ \<Rightarrow> (s, [], True))"

definition startHiddenPatchEditRead :: "go_time \<Rightarrow> patch_env \<Rightarrow> queuedPatchEditOperation \<Rightarrow> ActiveStream \<Rightarrow> patch_result" where
  "startHiddenPatchEditRead now pv op s = open_stage now pv ''patch_edit_read'' None op s"

definition startHiddenPatchEditPostRead :: "go_time \<Rightarrow> patch_env \<Rightarrow> queuedPatchEditOperation \<Rightarrow> ActiveStream \<Rightarrow> patch_result" where
  "startHiddenPatchEditPostRead now pv op s = open_stage now pv ''patch_edit_post_read'' None op s"

definition finishPatchEditOperation ::
    "go_time \<Rightarrow> patch_env \<Rightarrow> string \<Rightarrow> pendingPatchEditPayload \<Rightarrow> EditResult \<Rightarrow> ActiveStream \<Rightarrow> patch_result" where
  "finishPatchEditOperation now pv toolCallID payload result s =
     (let path = firstNonEmpty [resultPath result, pep_ResolvedPath payload, patchEditPayloadPath payload] in
      and_then (io_call pv AppendToolResult s) (\<lambda>s.
      and_then (io_call pv PublishToolCallCompleted s) (\<lambda>s.
      and_then (s, [ToolCompleted (trim_space toolCallID) result], False) (\<lambda>s.
      and_then (io_call pv SyncSummary s) (\<lambda>s.
      and_then (io_call pv PublishCheckpoint s) (\<lambda>s.
        case takeNextQueuedPatchEditOperation now (firstNonEmpty [pep_ResolvedPath payload, path]) s of
          (s, next) \<Rightarrow>
            and_then (case next of None \<Rightarrow> (s, [], False) | Some op \<Rightarrow> startHiddenPatchEditRead now pv op s)
              (\<lambda>s. lift_result (reconcileStream now (pv_env pv) s))))))))"

text \<open>The contents a write sends: line feeds only.\<close>

definition preparePatchEditWriteContentsForClient :: "string \<Rightarrow> string" where
  "preparePatchEditWriteContentsForClient contents =
     (if \<not> contains contents [CR] then contents
      else replace_all (replace_all contents [CR, LF] [LF]) [CR] [LF])"

definition startHiddenPatchEditWrite ::
    "go_time \<Rightarrow> patch_env \<Rightarrow> queuedPatchEditOperation \<Rightarrow> string \<Rightarrow> ActiveStream \<Rightarrow> patch_result" where
  "startHiddenPatchEditWrite now pv op beforeContent s =
     (let payload = qop_Payload op in
      case computePatchEdit (pv_dmp pv) payload beforeContent of
        Inl err \<Rightarrow> finishPatchEditOperation now pv (qop_ToolCallID op) payload
                     (buildEditErrorResult (pep_ResolvedPath payload) err) s
      | Inr c \<Rightarrow> open_stage now pv ''patch_edit_write'' (Some (preparePatchEditWriteContentsForClient (ec_AfterContent c)))
          (op\<lparr>qop_Payload := payload\<lparr>pep_BeforeContent := ec_BeforeContent c, pep_AfterContent := ec_AfterContent c,
             pep_DiffString := ec_DiffString c, pep_LinesAdded := ec_LinesAdded c,
             pep_LinesRemoved := ec_LinesRemoved c, pep_Message := ec_Message c\<rparr>\<rparr>) s)"

definition exec_op :: "PendingExec \<Rightarrow> pendingPatchEditPayload \<Rightarrow> queuedPatchEditOperation" where
  "exec_op pe payload = \<lparr>qop_ToolCallID = pe_ToolCallID pe, qop_ModelCallID = pe_ModelCallID pe,
     qop_ProviderPass = pe_ProviderPass pe, qop_ReasoningContent = pe_ReasoningContent pe,
     qop_ReasoningSignature = pe_ReasoningSignature pe,
     qop_ReasoningSignatureSource = pe_ReasoningSignatureSource pe, qop_Payload = payload\<rparr>"

text \<open>The answer to the write: what to report once the client says it wrote the file.\<close>

definition write_success ::
    "diff_lib \<Rightarrow> string \<Rightarrow> string \<Rightarrow> pendingPatchEditPayload \<Rightarrow> pendingPatchEditPayload \<times> EditResult" where
  "write_success dmp clientPath observed payload0 =
     (let resolved = firstNonEmpty [trim_space clientPath, trim_space (pep_ResolvedPath payload0),
                        trim_space (patchEditPayloadPath payload0)];
          payload = setPatchEditPayloadPath resolved (payload0\<lparr>pep_ResolvedPath := resolved\<rparr>)
      in if observed \<noteq> []
         then (case reconcilePatchEditObservedContent (pep_AfterContent payload) observed of (final, reconciled, ok) \<Rightarrow>
             if \<not> ok then (payload, buildEditErrorResult resolved
                  ''patch edit applied, but client verification content differs from expected content'')
             else let (diff, added, removed) =
                       (if final \<noteq> pep_AfterContent payload then computeEditDiff dmp (pep_BeforeContent payload) final
                        else (pep_DiffString payload, pep_LinesAdded payload, pep_LinesRemoved payload));
                      payload1 = payload\<lparr>pep_DiffString := diff, pep_LinesAdded := added, pep_LinesRemoved := removed,
                        pep_AfterContent := final,
                        pep_Message := (if reconciled then appendPatchEditMessage (pep_Message payload)
                            ''write result matched after client line-ending normalization'' else pep_Message payload)\<rparr>
                  in (payload1, buildFinalEditSuccessResult dmp resolved final payload1))
         else (payload, appendEditResultWarning ''patch edit applied; client did not provide inline verification content''
                 (buildFinalEditSuccessResult dmp resolved (pep_AfterContent payload) payload)))"

text \<open>The answer to the read-back.\<close>

definition post_read_result ::
    "diff_lib \<Rightarrow> ReadResult option \<Rightarrow> pendingPatchEditPayload \<Rightarrow> pendingPatchEditPayload \<times> EditResult" where
  "post_read_result dmp r payload0 =
     (let lost = (\<lambda>p msg. (p, buildEditErrorResult (pep_ResolvedPath p) msg)) in
      case r of
        None \<Rightarrow> lost payload0 ''patch edit write result was lost and read-back returned no result; commit state is unknown''
      | Some rr \<Rightarrow> (case extractReadContentForEdit rr of
          None \<Rightarrow> lost payload0 ''patch edit write result was lost and read-back failed; commit state is unknown''
        | Some content \<Rightarrow>
            (let payload = (case rr of ReadSuccess p _ _ _ \<Rightarrow>
                     (let resolved = firstNonEmpty [trim_space p, pep_ResolvedPath payload0]
                      in setPatchEditPayloadPath resolved (payload0\<lparr>pep_ResolvedPath := resolved\<rparr>))
                   | _ \<Rightarrow> payload0)
             in case reconcilePatchEditObservedContent (pep_AfterContent payload) content of (final, reconciled, ok) \<Rightarrow>
               if \<not> ok then lost payload
                 ''patch edit write result was lost and observed content differs from expected content; commit state is unknown''
               else let payload1 = payload\<lparr>pep_Message := (if reconciled then appendPatchEditMessage (pep_Message payload)
                          ''read-back matched after client line-ending normalization'' else pep_Message payload)\<rparr>
                    in (payload1, appendEditResultWarning
                          ''patch edit write result was lost; expected content was verified by read-back''
                          (buildFinalEditSuccessResult dmp (pep_ResolvedPath payload1) final payload1)))))"

definition read_message :: "exec_message \<Rightarrow> ReadResult option" where
  "read_message msg = (case msg of MsgRead r \<Rightarrow> Some r | _ \<Rightarrow> None)"

definition write_message :: "exec_message \<Rightarrow> WriteResult option" where
  "write_message msg = (case msg of MsgWrite r \<Rightarrow> Some r | _ \<Rightarrow> None)"

definition handleHiddenPatchEditExecResult ::
    "go_time \<Rightarrow> patch_env \<Rightarrow> PendingExec \<Rightarrow> exec_message \<Rightarrow> ActiveStream \<Rightarrow> patch_result" where
  "handleHiddenPatchEditExecResult now pv pending msg s0 =
     (case decodePendingPatchEditPayload (pe_ArgsJSON pending) of
        None \<Rightarrow> (s0, [], True)
      | Some payload \<Rightarrow>
          (let kind = trim_space (pe_ExecKind pending);
               finish = (\<lambda>p r s. finishPatchEditOperation now pv (pe_ToolCallID pending) p r s)
           in and_then (lift_acts (completeHiddenEditStageObservation now pending s0)) (\<lambda>s.
             if kind \<notin> set [''patch_edit_read'', ''patch_edit_write'', ''patch_edit_post_read''] then (s, [], True)
             else and_then (lift_acts (markExecCompleted now pending s)) (\<lambda>s.
               if kind = ''patch_edit_read'' then
                 (case read_message msg of
                    None \<Rightarrow> finish payload (buildEditErrorResult (pep_ResolvedPath payload) ''patch edit read result missing'') s
                  | Some rr \<Rightarrow> (case extractCompleteReadContentForPatchEdit rr of
                        ReadRefused [] \<Rightarrow> finish payload (buildEditResultFromReadResult (pep_ResolvedPath payload) rr) s
                      | ReadRefused e \<Rightarrow> finish payload (buildEditErrorResult (pep_ResolvedPath payload) e) s
                      | ReadText content \<Rightarrow> startHiddenPatchEditWrite now pv (exec_op pending payload) content s))
               else if kind = ''patch_edit_write'' then
                 (case write_message msg of
                    None \<Rightarrow> startHiddenPatchEditPostRead now pv (exec_op pending payload) s
                  | Some (WriteSuccess path observed) \<Rightarrow>
                      (case write_success (pv_dmp pv) path observed payload of (p, r) \<Rightarrow> finish p r s)
                  | Some wr \<Rightarrow> finish payload (buildEditResultFromWriteResult (pep_ResolvedPath payload) wr) s)
               else (case post_read_result (pv_dmp pv) (read_message msg) payload of (p, r) \<Rightarrow> finish p r s)))))"

definition markExecTransportClosed :: "go_time \<Rightarrow> PendingExec \<Rightarrow> ActiveStream \<Rightarrow> ActiveStream" where
  "markExecTransportClosed now pending s = (case map_of (entries (st_PendingExecs s)) (pe_ExecID pending) of
       None \<Rightarrow> s
     | Some current \<Rightarrow> s\<lparr>st_PendingExecs := Some (AList.update (pe_ExecID pending)
           (current\<lparr>pe_StreamState := ''transport_closed'', pe_LastShellActivityAt := now\<rparr>) (entries (st_PendingExecs s))),
         st_UpdatedAt := now\<rparr>)"

definition hiddenPatchEditControlError :: "control_message \<Rightarrow> string" where
  "hiddenPatchEditControlError msg = (case msg of
       CtlThrow e \<Rightarrow> firstNonEmpty [trim_space e, ''patch edit operation failed'']
     | CtlStreamClose \<Rightarrow> ''patch edit operation closed unexpectedly''
     | _ \<Rightarrow> ''patch edit operation failed'')"

definition handleHiddenPatchEditExecControl ::
    "go_time \<Rightarrow> patch_env \<Rightarrow> PendingExec \<Rightarrow> control_message \<Rightarrow> ActiveStream \<Rightarrow> patch_result" where
  "handleHiddenPatchEditExecControl now pv pending msg s0 =
     (if isHiddenEditExecKind (pe_ExecKind pending) \<and> msg = CtlHeartbeat
      then lift_acts (scheduleHiddenEditStageDeadline now pending s0)
      else if isHiddenEditExecKind (pe_ExecKind pending) \<and> msg = CtlStreamClose
      then lift_acts (scheduleHiddenEditStageDeadline now pending (markExecTransportClosed now pending s0))
      else case decodePendingPatchEditPayload (pe_ArgsJSON pending) of
        None \<Rightarrow> (s0, [], True)
      | Some payload \<Rightarrow>
          and_then (lift_acts (completeHiddenEditStageObservation now pending s0)) (\<lambda>s.
          and_then (lift_acts (markExecCompleted now pending s)) (\<lambda>s.
            if trim_space (pe_ExecKind pending) = ''patch_edit_write''
            then startHiddenPatchEditPostRead now pv (exec_op pending payload) s
            else finishPatchEditOperation now pv (pe_ToolCallID pending) payload
                   (buildEditErrorResult (pep_ResolvedPath payload)
                     (if trim_space (pe_ExecKind pending) = ''patch_edit_post_read''
                      then ''patch edit write result was lost and read-back verification failed; commit state is unknown''
                      else hiddenPatchEditControlError msg)) s)))"

text \<open>The deadline of a PatchEdit stage; other executions are not its concern.\<close>

definition recoverHiddenPatchEditStage :: "go_time \<Rightarrow> patch_env \<Rightarrow> PendingExec \<Rightarrow> ActiveStream \<Rightarrow> patch_result" where
  "recoverHiddenPatchEditStage now pv pending s =
     (if \<not> isHiddenPatchEditExecKind (pe_ExecKind pending) then (s, [], True)
      else case decodePendingPatchEditPayload (pe_ArgsJSON pending) of
        None \<Rightarrow> (s, [], True)
      | Some payload \<Rightarrow>
          and_then (lift_acts (markExecCompleted now pending s)) (\<lambda>s.
            if trim_space (pe_ExecKind pending) = ''patch_edit_write''
            then startHiddenPatchEditPostRead now pv (exec_op pending payload) s
            else finishPatchEditOperation now pv (pe_ToolCallID pending) payload
                   (buildEditErrorResult (pep_ResolvedPath payload)
                     (if trim_space (pe_ExecKind pending) = ''patch_edit_read''
                      then ''patch edit pre-read timed out before any mutation was dispatched''
                      else ''patch edit write result was lost and bounded read-back verification timed out; commit state is unknown'')) s))"

definition startOrQueuePatchEditOperation ::
    "go_time \<Rightarrow> patch_env \<Rightarrow> queuedPatchEditOperation \<Rightarrow> ActiveStream \<Rightarrow> patch_result" where
  "startOrQueuePatchEditOperation now pv op s =
     (let key = patchEditQueueKey (pep_ResolvedPath (qop_Payload op)) in
      if key \<noteq> [] \<and> patchEditPathHasInFlightOperation key s
      then io_call pv PublishCheckpoint (enqueuePatchEditOperation now key op s)
      else startHiddenPatchEditRead now pv op s)"

record tool_invocation =
  ti_CallID :: string
  ti_ToolName :: string
  ti_ModelCallID :: string
  ti_ArgsJSON :: raw_json
  ti_ReasoningContent :: string
  ti_ReasoningSignature :: string
  ti_ReasoningSignatureSource :: string

definition handlePatchEditToolInvocation ::
    "go_time \<Rightarrow> patch_env \<Rightarrow> tool_invocation \<Rightarrow> ActiveStream \<Rightarrow> patch_result" where
  "handlePatchEditToolInvocation now pv call s =
     (if trim_space (ti_ToolName call) \<noteq> ''PatchEdit'' then (s, [], True)
      else let (args, decodeErr) = decodePatchEditArgs (ti_ArgsJSON call);
               resolved = trim_space (pea_Path args);
               payload = \<lparr>pep_ToolName = ''PatchEdit'', pep_RawArgsJSON = ti_ArgsJSON call,
                 pep_ArgsDecodeFailed = (decodeErr \<noteq> None),
                 pep_Args = (if decodeErr = None then args\<lparr>pea_Path := resolved\<rparr> else args),
                 pep_ResolvedPath = resolved, pep_BeforeContent = [], pep_AfterContent = [], pep_DiffString = [],
                 pep_LinesAdded = 0, pep_LinesRemoved = 0, pep_Message = []\<rparr>
           in and_then (io_call pv AppendToolCall s) (\<lambda>s.
              and_then (io_call pv PublishToolCallStarted s) (\<lambda>s.
                case decodeErr of
                  Some e \<Rightarrow> finishPatchEditOperation now pv (ti_CallID call) payload (buildEditErrorResult resolved e) s
                | None \<Rightarrow> startOrQueuePatchEditOperation now pv \<lparr>qop_ToolCallID = ti_CallID call,
                    qop_ModelCallID = ti_ModelCallID call, qop_ProviderPass = st_ProviderPassCount s,
                    qop_ReasoningContent = ti_ReasoningContent call,
                    qop_ReasoningSignature = ti_ReasoningSignature call,
                    qop_ReasoningSignatureSource = ti_ReasoningSignatureSource call, qop_Payload = payload\<rparr> s)))"

end
