(* ===== verification/Patch_Guarantees.thy ===== *)
theory Patch_Guarantees
  imports Patch_Edit
begin

text \<open>
  What PatchEdit promises: queued edits of a path are taken in the order in which they came, a
  success is reported only for content the client confirmed, and the case in which a queued edit is
  forgotten.
\<close>

subsection \<open>Queues\<close>

text \<open>A family of queues, one per key.\<close>

locale keyed_queue =
  fixes enq :: "'k \<Rightarrow> 'v \<Rightarrow> 's \<Rightarrow> 's"
    and deq :: "'k \<Rightarrow> 's \<Rightarrow> 's \<times> 'v option"
    and items :: "'k \<Rightarrow> 's \<Rightarrow> 'v list"
    and valid :: "'k \<Rightarrow> bool"
  assumes items_enq: "valid k \<Longrightarrow> items j (enq k v s) = (if j = k then items k s @ [v] else items j s)"
    and items_deq: "valid k \<Longrightarrow> items j (fst (deq k s)) = (if j = k then tl (items k s) else items j s)"
    and deq_hd: "valid k \<Longrightarrow> snd (deq k s) = (case items k s of [] \<Rightarrow> None | x # _ \<Rightarrow> Some x)"
begin

fun take_n :: "nat \<Rightarrow> 'k \<Rightarrow> 's \<Rightarrow> 'v option list" where
  "take_n 0 k s = []"
| "take_n (Suc n) k s = (case deq k s of (s', x) \<Rightarrow> x # take_n n k s')"

lemma items_fold:
  assumes "valid k"
  shows "items j (fold (enq k) vs s) = (if j = k then items k s @ vs else items j s)"
  by (induction vs arbitrary: s) (simp_all add: items_enq [OF assms])

lemma take_all:
  assumes "valid k"
  shows "take_n (length (items k s)) k s = map Some (items k s)"
proof (induction "items k s" arbitrary: s)
  case (Cons x xs)
  obtain s' y where d: "deq k s = (s', y)" by fastforce
  have "items k s' = xs" "y = Some x"
    using items_deq [OF assms, of k s] deq_hd [OF assms, of s] d Cons.hyps(2) [symmetric] by simp_all
  then show ?case using Cons.hyps(1) [of s'] Cons.hyps(2) [symmetric] d by simp
qed simp

lemma fifo:
  assumes "valid k"
  shows "take_n (length (items k s) + length vs) k (fold (enq k) vs s) = map Some (items k s @ vs)"
  using take_all [OF assms, of "fold (enq k) vs s"] items_fold [OF assms, of k vs s] by simp

end

definition queue_key :: "string \<Rightarrow> bool" where
  "queue_key key \<longleftrightarrow> key \<noteq> [] \<and> trim_space key = key"

lemma queue_of_put [simp]:
  "queue_of j (s\<lparr>st_PatchEditQueues := Some (AList.update k q kvs)\<rparr>) =
    (if j = k then q else (case map_of kvs j of None \<Rightarrow> [] | Some q \<Rightarrow> q))"
  by (simp add: queue_of_def update_conv)

lemma queue_of_del [simp]:
  "queue_of j (s\<lparr>st_PatchEditQueues := del_entry k (st_PatchEditQueues s)\<rparr>) = (if j = k then [] else queue_of j s)"
  by (simp add: queue_of_def delete_conv)

lemma queue_of_time [simp]: "queue_of j (st_UpdatedAt_update f s) = queue_of j s"
  by (simp add: queue_of_def)

lemma queue_enq:
  assumes "queue_key k"
  shows "queue_of j (enqueuePatchEditOperation now k v s) = (if j = k then queue_of k s @ [v] else queue_of j s)"
  using assms by (simp add: enqueuePatchEditOperation_def queue_key_def queue_of_def update_conv)

lemma queue_deq:
  assumes "queue_key k"
  shows "queue_of j (fst (takeNextQueuedPatchEditOperation now k s)) = (if j = k then tl (queue_of k s) else queue_of j s)"
    and "snd (takeNextQueuedPatchEditOperation now k s) = (case queue_of k s of [] \<Rightarrow> None | x # _ \<Rightarrow> Some x)"
proof -
  have k: "patchEditQueueKey k = k" "k \<noteq> []" using assms by (simp_all add: queue_key_def patchEditQueueKey_def)
  show "queue_of j (fst (takeNextQueuedPatchEditOperation now k s)) = (if j = k then tl (queue_of k s) else queue_of j s)"
  proof (cases "st_PatchEditQueues s")
    case None
    then show ?thesis by (simp add: takeNextQueuedPatchEditOperation_def queue_of_def)
  next
    case (Some kvs)
    then show ?thesis using k
      by (simp add: takeNextQueuedPatchEditOperation_def queue_of_def update_conv delete_conv split: list.split option.split)
  qed
  show "snd (takeNextQueuedPatchEditOperation now k s) = (case queue_of k s of [] \<Rightarrow> None | x # _ \<Rightarrow> Some x)"
    using k by (auto simp: takeNextQueuedPatchEditOperation_def queue_of_def split: list.split option.split)
qed

interpretation pq: keyed_queue "enqueuePatchEditOperation now" "takeNextQueuedPatchEditOperation now" queue_of queue_key
  for now :: go_time
  by unfold_locales (simp_all add: queue_enq queue_deq)

subsection \<open>Reported results\<close>

definition completions :: "patch_action list \<Rightarrow> EditResult list" where
  "completions acts = concat (map (\<lambda>a. case a of ToolCompleted c r \<Rightarrow> [r] | _ \<Rightarrow> []) acts)"

lemma completions_simps [simp]:
  "completions [] = []" "completions (xs @ ys) = completions xs @ completions ys"
  "completions (Act a # acts) = completions acts" "completions (ExecOpened k q w # acts) = completions acts"
  "completions (ToolCompleted c r # acts) = r # completions acts"
  by (simp_all add: completions_def)

lemma completions_Act [simp]: "completions (map Act acts) = []"
  by (induction acts) simp_all

abbreviation reported :: "patch_result \<Rightarrow> EditResult list" where
  "reported r \<equiv> completions (fst (snd r))"

lemma reported_and_then:
  "set (reported (and_then r k)) \<subseteq> set (reported r) \<union> set (reported (k (fst r)))"
  by (auto simp: and_then_def case_prod_beta)

lemma reported_io [simp]: "reported (io_call pv c s) = []"
  by (simp add: io_call_def)

lemma reported_lift [simp]: "reported (lift_acts r) = []" "reported (lift_result q) = []"
  by (simp_all add: lift_acts_def lift_result_def case_prod_beta)

lemma reported_seq:
  assumes "reported r = []" "set (reported (k (fst r))) \<subseteq> A"
  shows "set (reported (and_then r k)) \<subseteq> A"
  using reported_and_then [of r k] assms by auto

lemma reported_seq_nil [simp]:
  "reported r = [] \<Longrightarrow> reported (and_then r k) = (if snd (snd r) then [] else reported (k (fst r)))"
  by (auto simp: and_then_def case_prod_beta)

lemma reported_open [simp]: "reported (open_stage now pv kind contents op s) = []"
  by (cases "pv_open pv") (auto simp: open_stage_def Let_def case_prod_beta split: option.split)

lemma reported_finish: "set (reported (finishPatchEditOperation now pv c p r s)) \<subseteq> {r}"
proof -
  have taken: "reported (and_then (case nxt of None \<Rightarrow> (x, [], False) | Some op \<Rightarrow> startHiddenPatchEditRead now pv op x)
      (\<lambda>s. lift_result (reconcileStream now (pv_env pv) s))) = []" for nxt x
    by (cases nxt) (simp_all add: startHiddenPatchEditRead_def)
  have told: "set (reported (and_then (x, [ToolCompleted d r], False) k)) = insert r (set (reported (k x)))" for x d k
    by (simp add: and_then_def case_prod_beta)
  show ?thesis
    by (simp add: finishPatchEditOperation_def Let_def told case_prod_beta taken)
qed

text \<open>The content a success reports.\<close>

definition success_after :: "EditResult \<Rightarrow> string option" where
  "success_after r = (case r of ER_Success e \<Rightarrow> Some (es_After e) | _ \<Rightarrow> None)"

lemma success_after_simps [simp]:
  "success_after (buildEditErrorResult q msg) = None"
  "success_after (buildFinalEditSuccessResult dmp q after p) = Some after"
  "success_after (appendEditResultWarning w r) = success_after r"
  "success_after (buildEditResultFromReadResult q rr) = None"
  by (auto simp: success_after_def buildEditErrorResult_def buildFinalEditSuccessResult_def
      buildSuccessfulEditResult_def appendEditResultWarning_def buildEditResultFromReadResult_def Let_def
      case_prod_beta split: EditResult.split ReadResult.split)

lemma reconcile_ok:
  "reconcilePatchEditObservedContent expected observed = (final, rec, True) \<Longrightarrow>
   final = observed \<and> to_lf observed = to_lf expected"
  by (auto simp: reconcilePatchEditObservedContent_def normalize_eq_to_lf split: if_splits)

lemma write_success_after:
  assumes "success_after (snd (write_success dmp cp observed p)) = Some after"
  shows "observed = [] \<and> after = pep_AfterContent p \<or> after = observed \<and> to_lf observed = to_lf (pep_AfterContent p)"
proof (cases "observed = []")
  case True
  then show ?thesis using assms by (simp add: write_success_def Let_def setPatchEditPayloadPath_def)
next
  case False
  obtain f rec ok where r: "reconcilePatchEditObservedContent (pep_AfterContent p) observed = (f, rec, ok)"
    by (metis prod_cases3)
  have ok: ok
  proof (rule ccontr)
    assume "\<not> ok"
    then show False using assms False r by (simp add: write_success_def Let_def setPatchEditPayloadPath_def)
  qed
  have "after = f" using assms False r ok
    by (simp add: write_success_def Let_def setPatchEditPayloadPath_def case_prod_beta)
  then show ?thesis using reconcile_ok [of "pep_AfterContent p" observed f rec] r ok by simp
qed

lemma post_read_after:
  assumes "success_after (snd (post_read_result dmp r p)) = Some after"
  shows "\<exists>rr. r = Some rr \<and> extractReadContentForEdit rr = Some after \<and> to_lf after = to_lf (pep_AfterContent p)"
proof -
  obtain rr where rr: "r = Some rr" using assms by (cases r) (simp_all add: post_read_result_def Let_def)
  then obtain content where c: "extractReadContentForEdit rr = Some content"
    using assms by (cases "extractReadContentForEdit rr") (simp_all add: post_read_result_def Let_def)
  then obtain q t out b where s: "rr = ReadSuccess q t out b"
    by (auto simp: extractReadContentForEdit_def split: ReadResult.splits)
  obtain f rec ok where rc: "reconcilePatchEditObservedContent (pep_AfterContent p) content = (f, rec, ok)"
    by (metis prod_cases3)
  have "ok \<and> after = f"
    using assms rr c s rc
    by (cases ok) (simp_all add: post_read_result_def Let_def setPatchEditPayloadPath_def)
  then show ?thesis using reconcile_ok [of "pep_AfterContent p" content f rec] rc rr c by simp
qed

lemma finish_success:
  "ER_Success e \<in> set (reported (finishPatchEditOperation now pv c p r s)) \<Longrightarrow> success_after r = Some (es_After e)"
  using reported_finish [of now pv c p r s] by (auto simp: success_after_def)

lemma start_write_no_success: "ER_Success e \<notin> set (reported (startHiddenPatchEditWrite now pv op content s))"
  using finish_success
  by (auto simp: startHiddenPatchEditWrite_def Let_def split: sum.splits dest: finish_success)

text \<open>The part of the handler after the bookkeeping, stage by stage.\<close>

lemma reported_result:
  assumes "ER_Success e \<in> set (reported (handleHiddenPatchEditExecResult now pv pending msg s0))"
    and "decodePendingPatchEditPayload (pe_ArgsJSON pending) = Some payload"
  shows "(trim_space (pe_ExecKind pending) = ''patch_edit_write'' \<and>
       (\<exists>q obs. msg = MsgWrite (WriteSuccess q obs) \<and>
          success_after (snd (write_success (pv_dmp pv) q obs payload)) = Some (es_After e))) \<or>
     (trim_space (pe_ExecKind pending) = ''patch_edit_post_read'' \<and>
       success_after (snd (post_read_result (pv_dmp pv) (read_message msg) payload)) = Some (es_After e))"
proof -
  have no: "ER_Success e \<notin> set (reported (finishPatchEditOperation now pv c p r s))"
    if "success_after r = None" for c p r s
    using that finish_success [of e now pv c p r s] by auto
  have other: "success_after (buildEditResultFromWriteResult q wr) = None" if "\<forall>x y. wr \<noteq> WriteSuccess x y" for q wr
    using that by (cases wr) (simp_all add: buildEditResultFromWriteResult_def, simp_all add: success_after_def)
  consider (r) "trim_space (pe_ExecKind pending) = ''patch_edit_read''"
    | (w) "trim_space (pe_ExecKind pending) = ''patch_edit_write''"
    | (p) "trim_space (pe_ExecKind pending) = ''patch_edit_post_read''"
    | (o) "trim_space (pe_ExecKind pending) \<notin> set [''patch_edit_read'', ''patch_edit_write'', ''patch_edit_post_read'']"
    by auto
  then show ?thesis
  proof cases
    case r
    then show ?thesis using assms no start_write_no_success
      by (auto simp: handleHiddenPatchEditExecResult_def Let_def split: option.splits if_splits read_content.splits list.splits)
  next
    case w
    then show ?thesis using assms no
      by (auto simp: handleHiddenPatchEditExecResult_def Let_def write_message_def startHiddenPatchEditPostRead_def
          case_prod_beta other split: option.splits if_splits exec_message.splits WriteResult.splits dest: finish_success)
  next
    case p
    then show ?thesis using assms
      by (auto simp: handleHiddenPatchEditExecResult_def Let_def case_prod_beta split: if_splits dest: finish_success)
  next
    case o
    then show ?thesis using assms by (auto simp: handleHiddenPatchEditExecResult_def Let_def split: if_splits)
  qed
qed

subsection \<open>What the turn machine leaves alone\<close>

abbreviation bridge :: "ActiveStream \<Rightarrow> (string \<times> PendingExec) list option \<times> (string \<times> queuedPatchEditOperation list) list option" where
  "bridge s \<equiv> (st_PendingExecs s, st_PatchEditQueues s)"

lemma bridge_simple [unfolded prod.inject, simp]:
  "bridge (setTurnPhase now ph s) = bridge s" "bridge (clearPendingProviderCompletion now s) = bridge s"
  "bridge (fst (scheduleStreamTimer now k s)) = bridge s" "bridge (fst (clearStreamTimer now k s)) = bridge s"
  by (simp_all add: setTurnPhase_def clearPendingProviderCompletion_def scheduleStreamTimer_def clearStreamTimer_def
      Let_def split: option.split)

lemma bridge_fail [unfolded prod.inject, simp]:
  "bridge (fst (failActiveStream now env code s)) = bridge s" "bridge (fst (failStream now env code s)) = bridge s"
  "bridge (fst (failStreamIfNonTerminal now env code s)) = bridge s"
  "bridge (fst (completeSuccessfulTurn now env c s)) = bridge s"
  by (simp_all add: failStreamIfNonTerminal_def failStream_def failActiveStream_def completeSuccessfulTurn_def
      case_prod_beta Let_def setTurnPhase_def clearPendingProviderCompletion_def)

lemma bridge_drive [unfolded prod.inject, simp]: "bridge (fst (driveProvider now env s)) = bridge s"
  by (simp add: driveProvider_def Let_def setTurnPhase_def split: drive_outcome.split)

lemma bridge_action [unfolded prod.inject, simp]: "bridge (fst (reconcile_action now env a s)) = bridge s"
  by (cases a) (simp_all add: reconcile_action_def case_prod_beta setTurnPhase_def)

lemma bridge_reconcile [unfolded prod.inject, simp]: "bridge (fst (reconcileStream now env s)) = bridge s"
proof (cases "st_PendingProviderCompletion s")
  case None
  then show ?thesis by (simp add: reconcileStream_def)
next
  case (Some c)
  then show ?thesis by (simp add: reconcileStream_def case_prod_beta split: bool.split)
qed

lemma queue_of_bridge: "bridge s = bridge t \<Longrightarrow> queue_of k s = queue_of k t"
  by (simp add: queue_of_def)

lemma and_then_state: "fst (and_then r k) = (if snd (snd r) then fst r else fst (k (fst r)))"
  by (simp add: and_then_def case_prod_beta)

lemma io_lift_state [simp]:
  "fst (io_call pv c s) = s" "fst (lift_acts r) = fst r" "fst (lift_result q) = fst q" "\<not> snd (snd (lift_acts r))"
  by (simp_all add: io_call_def lift_acts_def lift_result_def case_prod_beta)

text \<open>Finishing an operation whose resolved path has no queue starts nothing.\<close>

lemma finish_no_queue:
  assumes "trim_space (pep_ResolvedPath p) \<noteq> []" "queue_of (trim_space (pep_ResolvedPath p)) s = []"
  shows "st_PendingExecs (fst (finishPatchEditOperation now pv c p r s)) = st_PendingExecs s"
    and "queue_of k (fst (finishPatchEditOperation now pv c p r s)) = queue_of k s"
proof -
  have key: "trim_space (firstNonEmpty (pep_ResolvedPath p # vs)) = trim_space (pep_ResolvedPath p)" for vs
    using assms(1) by simp
  have none: "takeNextQueuedPatchEditOperation now (firstNonEmpty (pep_ResolvedPath p # vs)) s =
      (fst (takeNextQueuedPatchEditOperation now (firstNonEmpty (pep_ResolvedPath p # vs)) s), None)" for vs
    using assms key [of vs] by (simp add: takeNextQueuedPatchEditOperation_def patchEditQueueKey_def Let_def)
  have same: "st_PendingExecs (fst (takeNextQueuedPatchEditOperation now q s)) = st_PendingExecs s"
      "queue_of (trim_space q) s = [] \<Longrightarrow> queue_of k (fst (takeNextQueuedPatchEditOperation now q s)) = queue_of k s" for q
    by (auto simp: takeNextQueuedPatchEditOperation_def patchEditQueueKey_def Let_def split: list.split)
  have nxt: "fst (case takeNextQueuedPatchEditOperation now (firstNonEmpty (pep_ResolvedPath p # vs)) s of
      (s, next) \<Rightarrow> and_then (case next of None \<Rightarrow> (s, [], False) | Some op \<Rightarrow> startHiddenPatchEditRead now pv op s)
         (\<lambda>s. lift_result (reconcileStream now (pv_env pv) s))) =
      fst (reconcileStream now (pv_env pv) (fst (takeNextQueuedPatchEditOperation now (firstNonEmpty (pep_ResolvedPath p # vs)) s)))"
    for vs by (subst none) (simp add: and_then_state)
  have st: "fst (finishPatchEditOperation now pv c p r s) = s \<or>
      (\<exists>vs. fst (finishPatchEditOperation now pv c p r s) = fst (reconcileStream now (pv_env pv)
         (fst (takeNextQueuedPatchEditOperation now (firstNonEmpty (pep_ResolvedPath p # vs)) s))))"
    unfolding finishPatchEditOperation_def Let_def and_then_state by (auto simp: nxt simp del: firstNonEmpty.simps)
  then show "st_PendingExecs (fst (finishPatchEditOperation now pv c p r s)) = st_PendingExecs s"
    using same(1) by auto
  from st show "queue_of k (fst (finishPatchEditOperation now pv c p r s)) = queue_of k s"
    using same(2) key assms(2) queue_of_bridge bridge_reconcile by (metis (no_types, lifting))
qed

lemma mark_state:
  "st_PendingExecs (fst (markExecCompleted now pe s)) = del_entry (pe_ExecID pe) (st_PendingExecs s)"
  "queue_of k (fst (markExecCompleted now pe s)) = queue_of k s"
  by (simp_all add: markExecCompleted_def clearExecRecoveryTimers_def case_prod_beta Let_def queue_of_def)

lemma observe_state:
  "st_PendingExecs (fst (completeHiddenEditStageObservation now pe s)) = st_PendingExecs s"
  "queue_of k (fst (completeHiddenEditStageObservation now pe s)) = queue_of k s"
  by (simp_all add: completeHiddenEditStageObservation_def queue_of_def)

lemma write_success_path:
  "trim_space q \<noteq> [] \<Longrightarrow> pep_ResolvedPath (fst (write_success dmp q obs p)) = trim_space q"
  by (simp add: write_success_def Let_def setPatchEditPayloadPath_def case_prod_beta)

subsection \<open>Properties\<close>

fun take_patch_edits :: "go_time \<Rightarrow> nat \<Rightarrow> string \<Rightarrow> ActiveStream \<Rightarrow> queuedPatchEditOperation option list" where
  "take_patch_edits now 0 key s = []"
| "take_patch_edits now (Suc n) key s = (case takeNextQueuedPatchEditOperation now key s of (s', x) \<Rightarrow>
     x # take_patch_edits now n key s')"

lemma take_patch_edits_eq: "take_patch_edits now n key s = pq.take_n now n key s"
  by (induction n arbitrary: s) (simp_all add: case_prod_beta)

text \<open>Edits queued for a path are taken in the order in which they were queued, after those that
  were waiting already, and queuing for one path changes no other path's queue.\<close>

lemma patch_queue_fifo:
  assumes "key \<noteq> []" "trim_space key = key"
  shows "take_patch_edits now (length (queue_of key s) + length ops) key
           (fold (enqueuePatchEditOperation now key) ops s) = map Some (queue_of key s @ ops) \<and>
     (\<forall>other. other \<noteq> key \<longrightarrow> queue_of other (fold (enqueuePatchEditOperation now key) ops s) = queue_of other s)"
proof -
  have k: "queue_key key" using assms by (simp add: queue_key_def)
  show ?thesis unfolding take_patch_edits_eq using pq.fifo [OF k] pq.items_fold [OF k, where vs = ops] by simp
qed

definition demo_op :: "string \<Rightarrow> queuedPatchEditOperation" where
  "demo_op call = \<lparr>qop_ToolCallID = call, qop_ModelCallID = [], qop_ProviderPass = 1, qop_ReasoningContent = [],
     qop_ReasoningSignature = [], qop_ReasoningSignatureSource = [], qop_Payload = demo_patch\<rparr>"

lemma trim_demo_key: "trim_space ''/a'' = ''/a''"
  by code_simp

lemma demo_patch_queue_fifo:
  "take_patch_edits 3 2 ''/a'' (fold (enqueuePatchEditOperation 3 ''/a'') [demo_op ''1'', demo_op ''2''] demo_running) =
     [Some (demo_op ''1''), Some (demo_op ''2'')]"
proof -
  have "queue_of ''/a'' demo_running = []" by (simp add: queue_of_def demo_running_def new_stream_def)
  then show ?thesis
    using patch_queue_fifo [OF _ trim_demo_key, of 3 demo_running "[demo_op ''1'', demo_op ''2'']"]
    by (simp add: numeral_2_eq_2)
qed

text \<open>C26.  A PatchEdit is reported as successful only when the client acknowledged the write, returning
  the written content or none to compare with, or when the read-back after a lost answer returned the
  content; and the content in the report is the expected one up to line endings, and the returned one
  where content was returned.\<close>

theorem patch_success_confirmed:
  assumes "handleHiddenPatchEditExecResult now pv pending msg s = (s', acts, err)"
    and "ER_Success e \<in> set (completions acts)"
  shows "\<exists>payload. decodePendingPatchEditPayload (pe_ArgsJSON pending) = Some payload \<and>
     to_lf (es_After e) = to_lf (pep_AfterContent payload) \<and>
     ((trim_space (pe_ExecKind pending) = ''patch_edit_write'' \<and>
        (\<exists>path observed. msg = MsgWrite (WriteSuccess path observed) \<and> (observed = [] \<or> observed = es_After e))) \<or>
      (trim_space (pe_ExecKind pending) = ''patch_edit_post_read'' \<and>
        (\<exists>rr. msg = MsgRead rr \<and> extractReadContentForEdit rr = Some (es_After e))))"
proof -
  have rep: "ER_Success e \<in> set (reported (handleHiddenPatchEditExecResult now pv pending msg s))"
    using assms by simp
  then obtain payload where p: "decodePendingPatchEditPayload (pe_ArgsJSON pending) = Some payload"
    by (auto simp: handleHiddenPatchEditExecResult_def split: option.splits)
  from reported_result [OF rep p] show ?thesis
  proof (elim disjE conjE exE)
    fix q obs
    assume k: "trim_space (pe_ExecKind pending) = ''patch_edit_write''" and m: "msg = MsgWrite (WriteSuccess q obs)"
      and "success_after (snd (write_success (pv_dmp pv) q obs payload)) = Some (es_After e)"
    from write_success_after [OF this(3)] k m p show ?thesis by auto
  next
    assume k: "trim_space (pe_ExecKind pending) = ''patch_edit_post_read''"
      and "success_after (snd (post_read_result (pv_dmp pv) (read_message msg) payload)) = Some (es_After e)"
    from post_read_after [OF this(2)] k p show ?thesis
      by (auto simp: read_message_def split: exec_message.splits)
  qed
qed

definition demo_pv :: patch_env where
  "demo_pv = \<lparr>pv_env = demo_env, pv_dmp = (\<lambda>_ _. ([], [])), pv_open = Some (9, ''e9'')\<rparr>"

definition demo_write_op :: queuedPatchEditOperation where
  "demo_write_op = (demo_op ''1'')\<lparr>qop_Payload := demo_patch\<lparr>pep_BeforeContent := ''aa'', pep_AfterContent := ''b''\<rparr>\<rparr>"

text \<open>The pending write of an edit of \<open>/a\<close>.\<close>

definition demo_write :: PendingExec where
  "demo_write = stage_exec 1 5 ''e5'' ''patch_edit_write''
     (case marshalPatchEditPayload (qop_Payload demo_write_op) of None \<Rightarrow> RawEmpty | Some raw \<Rightarrow> raw) demo_write_op"

lemma demo_write_reported:
  "reported (handleHiddenPatchEditExecResult 4 demo_pv demo_write (MsgWrite (WriteSuccess ''/a'' ''b'')) demo_running) =
     [ER_Success \<lparr>es_Path = ''/a'', es_Before = ''aa'', es_After = ''b'', es_Diff = [], es_LinesAdded = 2,
        es_LinesRemoved = 0, es_Message = []\<rparr>]"
  by code_simp

theorem patch_success_confirmed_witness:
  "\<exists>payload. decodePendingPatchEditPayload (pe_ArgsJSON demo_write) = Some payload \<and>
     to_lf ''b'' = to_lf (pep_AfterContent payload)"
proof -
  obtain s' acts err where h: "handleHiddenPatchEditExecResult 4 demo_pv demo_write
      (MsgWrite (WriteSuccess ''/a'' ''b'')) demo_running = (s', acts, err)" by (metis prod_cases3)
  let ?e = "\<lparr>es_Path = ''/a'', es_Before = ''aa'', es_After = ''b'', es_Diff = [], es_LinesAdded = 2,
      es_LinesRemoved = 0, es_Message = []\<rparr> :: EditSuccess"
  have "ER_Success ?e \<in> set (completions acts)" using demo_write_reported h by simp
  from patch_success_confirmed [OF h this] show ?thesis by auto
qed

text \<open>C27.  An edit waits in the queue of the path it was sent with, but the edit before it, once
  written, looks for its successor under the path the client reports.  When the client reports
  another spelling of the path, no stage of a waiting edit is started and its queue stays as it was,
  although the execution it waited for is gone.\<close>

theorem queued_edit_forgotten:
  assumes "decodePendingPatchEditPayload (pe_ArgsJSON pending) = Some payload"
    and "trim_space (pe_ExecKind pending) = ''patch_edit_write''"
    and "trim_space path \<noteq> []" "queue_of (trim_space path) s = []"
    and "handleHiddenPatchEditExecResult now pv pending (MsgWrite (WriteSuccess path observed)) s = (s', acts, err)"
  shows "queue_of key s' = queue_of key s \<and> st_PendingExecs s' = del_entry (pe_ExecID pending) (st_PendingExecs s)"
proof -
  let ?s = "fst (markExecCompleted now pending (fst (completeHiddenEditStageObservation now pending s)))"
  let ?w = "write_success (pv_dmp pv) path observed payload"
  have "s' = fst (handleHiddenPatchEditExecResult now pv pending (MsgWrite (WriteSuccess path observed)) s)"
    using assms(5) by simp
  also have "\<dots> = fst (finishPatchEditOperation now pv (pe_ToolCallID pending) (fst ?w) (snd ?w) ?s)"
    using assms(1,2) by (simp add: handleHiddenPatchEditExecResult_def Let_def and_then_state write_message_def case_prod_beta)
  finally show ?thesis
    using finish_no_queue [of "fst ?w" ?s] assms(3,4) by (simp add: write_success_path mark_state observe_state)
qed

theorem queued_edit_forgotten_witness:
  "\<exists>s' acts err. handleHiddenPatchEditExecResult 4 demo_pv demo_write (MsgWrite (WriteSuccess ''/A'' ''b''))
       (demo_running\<lparr>st_PendingExecs := Some [(''e5'', demo_write)], st_PatchEditQueues := Some [(''/a'', [demo_op ''2''])]\<rparr>) =
       (s', acts, err) \<and> queue_of ''/a'' s' = [demo_op ''2''] \<and> st_PendingExecs s' = Some []"
proof -
  let ?s = "demo_running\<lparr>st_PendingExecs := Some [(''e5'', demo_write)], st_PatchEditQueues := Some [(''/a'', [demo_op ''2''])]\<rparr>"
  have p: "decodePendingPatchEditPayload (pe_ArgsJSON demo_write) \<noteq> None"
      "trim_space (pe_ExecKind demo_write) = ''patch_edit_write''" "trim_space ''/A'' = ''/A''"
      "pe_ExecID demo_write = ''e5''"
    by code_simp+
  obtain s' acts err where h: "handleHiddenPatchEditExecResult 4 demo_pv demo_write
      (MsgWrite (WriteSuccess ''/A'' ''b'')) ?s = (s', acts, err)" by (metis prod_cases3)
  have q: "queue_of ''/A'' ?s = []" "queue_of ''/a'' ?s = [demo_op ''2'']" by (simp_all add: queue_of_def)
  obtain payload where "decodePendingPatchEditPayload (pe_ArgsJSON demo_write) = Some payload" using p(1) by blast
  from queued_edit_forgotten [OF this p(2) _ _ h, of "''/a''"] p(3,4) q
  have "queue_of ''/a'' s' = [demo_op ''2'']" "st_PendingExecs s' = Some []"
    by (simp_all add: del_entry_def)
  with h show ?thesis by blast
qed

end
