(* ===== verification/Conversation_History.thy ===== *)
theory Conversation_History
  imports Json_Values Todo_Items Agent_Modes "HOL-Library.AList"
begin

text \<open>
  A conversation and its history, \<open>forwarder/types.go\<close>, \<open>file_store.go\<close> (the functions on a
  conversation in memory) and \<open>prompt_context.go\<close>: appending entries with fresh sequence numbers,
  merging and normalising metadata, the status of the current loop, and the suppression of repeated
  prompt contexts.

  \<open>now\<close> is the clock of one operation.  The digest of a prompt context is a parameter (\<open>sha\<close>): the
  code uses SHA-256 in hexadecimal.
\<close>

record HistoryEntry =
  he_Seq :: int
  he_TurnSeq :: int
  he_RequestID :: string
  he_Role :: string
  he_Kind :: string
  he_ToolCallID :: string
  he_ParentToolCallID :: string
  he_Payload :: raw_json
  he_CreatedAt :: go_time

record ConversationRequestPrefix =
  rp_RequestID :: string
  rp_ModelCallID :: string
  rp_Provider :: string
  rp_OpenAIEndpoint :: string
  rp_Model :: string
  rp_PromptTokensTotal :: int
  rp_ReplayMessageCount :: int
  rp_CanonicalBodyHash :: string
  rp_FrontierHash :: string
  rp_FrontierPath :: string
  rp_BreakpointCount :: int
  rp_ExpectedCacheRead :: bool
  rp_PreviousFrontierMatched :: bool
  rp_UpdatedAt :: go_time

record ConversationProviderCall =
  pc_RequestID :: string
  pc_ModelCallID :: string
  pc_Provider :: string
  pc_Model :: string
  pc_Status :: string
  pc_ErrorText :: string
  pc_UpdatedAt :: go_time

text \<open>The plan registry, a Go map of message pointers: an association list whose order is the order
  in which the run iterates over the map.\<close>

record PlanRegistryEntry =
  pre_Id :: string
  pre_Path :: string

type_synonym plan_registry = "(string \<times> PlanRegistryEntry option) list"

definition clone_plan :: "string \<times> PlanRegistryEntry option \<Rightarrow> plan_registry \<Rightarrow> plan_registry" where
  "clone_plan kv cloned = (case kv of (key, item) \<Rightarrow>
     (case item of
        None \<Rightarrow> cloned
      | Some p \<Rightarrow>
          if trim_space key = [] then cloned
          else AList.update (trim_space key)
                 (Some \<lparr>pre_Id = (if trim_space (pre_Id p) = [] then trim_space key else trim_space (pre_Id p)),
                        pre_Path = trim_space (pre_Path p)\<rparr>) cloned))"

definition clonePlanRegistryEntries :: "plan_registry \<Rightarrow> plan_registry" where
  "clonePlanRegistryEntries items = fold clone_plan items []"

record conversation_meta =
  cf_SchemaVersion :: int
  cf_ConversationID :: string
  cf_RootConversationID :: string
  cf_ParentConversationID :: string
  cf_ParentToolCallID :: string
  cf_SubagentTypeName :: string
  cf_Mode :: string
  cf_StartPromptMode :: string
  cf_StartPromptPath :: string
  cf_StartPromptModel :: string
  cf_StartPromptContent :: string
  cf_PromptProfile :: string
  cf_ContextVersion :: int
  cf_CurrentLoopID :: string
  cf_CurrentLoopStatus :: string
  cf_CurrentRequestID :: string
  cf_CurrentTurnSeq :: int
  cf_TokenDetailsUsedTokens :: int
  cf_TokenDetailsMaxTokens :: int
  cf_AutoCompactionPending :: bool
  cf_AutoCompactionPromptTokens :: int
  cf_AutoCompactionReserveTokens :: int
  cf_AutoCompactionTriggeredAt :: string
  cf_AutoCompactionSourceModelCallID :: string
  cf_CurrentPlanText :: string
  cf_CurrentPlans :: plan_registry
  cf_CurrentTodos :: "TodoItem list"
  cf_LatestRequestPrefix :: "ConversationRequestPrefix option"
  cf_LastProviderCall :: "ConversationProviderCall option"
  cf_CreatedAt :: go_time
  cf_UpdatedAt :: go_time
  cf_NextTurnSeq :: int
  cf_NextEntrySeq :: int

record ConversationFile = conversation_meta +
  cf_Entries :: "HistoryEntry list"

definition emptyConversation :: ConversationFile where
  "emptyConversation = \<lparr>cf_SchemaVersion = 0, cf_ConversationID = [], cf_RootConversationID = [],
     cf_ParentConversationID = [], cf_ParentToolCallID = [], cf_SubagentTypeName = [], cf_Mode = [],
     cf_StartPromptMode = [], cf_StartPromptPath = [], cf_StartPromptModel = [], cf_StartPromptContent = [],
     cf_PromptProfile = [], cf_ContextVersion = 0, cf_CurrentLoopID = [], cf_CurrentLoopStatus = [],
     cf_CurrentRequestID = [], cf_CurrentTurnSeq = 0, cf_TokenDetailsUsedTokens = 0, cf_TokenDetailsMaxTokens = 0,
     cf_AutoCompactionPending = False, cf_AutoCompactionPromptTokens = 0, cf_AutoCompactionReserveTokens = 0,
     cf_AutoCompactionTriggeredAt = [], cf_AutoCompactionSourceModelCallID = [], cf_CurrentPlanText = [],
     cf_CurrentPlans = [], cf_CurrentTodos = [], cf_LatestRequestPrefix = None, cf_LastProviderCall = None,
     cf_CreatedAt = 0, cf_UpdatedAt = 0, cf_NextTurnSeq = 0, cf_NextEntrySeq = 0, cf_Entries = []\<rparr>"

text \<open>A deep copy; the plan registry is normalised on the way.\<close>

definition cloneConversationFile :: "ConversationFile \<Rightarrow> ConversationFile" where
  "cloneConversationFile c = c\<lparr>cf_CurrentPlans := clonePlanRegistryEntries (cf_CurrentPlans c)\<rparr>"

definition conversationSchemaVersion :: int where
  "conversationSchemaVersion = 1"

subsection \<open>Sequence numbers\<close>

definition contextVersionForEntries :: "HistoryEntry list \<Rightarrow> int" where
  "contextVersionForEntries es = fold (\<lambda>e v. if he_Seq e > v then he_Seq e else v) es 0"

definition resetEntrySequences :: "HistoryEntry list \<Rightarrow> HistoryEntry list" where
  "resetEntrySequences es = map (\<lambda>e. e\<lparr>he_Seq := 0\<rparr>) es"

text \<open>The loop of \<open>appendEntriesInPlace\<close>: the next sequence number, the highest turn so far and the
  entries as they are assigned.\<close>

fun assign_entries :: "go_time \<Rightarrow> HistoryEntry list \<Rightarrow> int \<Rightarrow> int \<Rightarrow> int \<times> int \<times> HistoryEntry list" where
  "assign_entries now [] nextSeq maxTurn = (nextSeq, maxTurn, [])"
| "assign_entries now (e # es) nextSeq maxTurn =
     (let e1 = (if isZeroTime (he_CreatedAt e) then e\<lparr>he_CreatedAt := now\<rparr> else e);
          (e2, nextSeq') = (if he_Seq e1 \<le> 0 then (e1\<lparr>he_Seq := nextSeq\<rparr>, i64 (nextSeq + 1))
                            else (e1, if he_Seq e1 \<ge> nextSeq then i64 (he_Seq e1 + 1) else nextSeq));
          maxTurn' = (if he_TurnSeq e2 > maxTurn then he_TurnSeq e2 else maxTurn);
          (n, t, rest) = assign_entries now es nextSeq' maxTurn'
      in (n, t, e2 # rest))"

definition appendEntriesInPlace ::
    "go_time \<Rightarrow> HistoryEntry list \<Rightarrow> ConversationFile \<Rightarrow> ConversationFile \<times> HistoryEntry list" where
  "appendEntriesInPlace now es c =
     (if es = [] then (c, [])
      else case assign_entries now es (cf_NextEntrySeq c) (i64 (cf_NextTurnSeq c - 1)) of
        (nextSeq, maxTurn, assigned) \<Rightarrow>
          (let entries = cf_Entries c @ assigned in
           (c\<lparr>cf_NextEntrySeq := nextSeq, cf_Entries := entries,
              cf_NextTurnSeq := (if i64 (maxTurn + 1) > cf_NextTurnSeq c then i64 (maxTurn + 1) else cf_NextTurnSeq c),
              cf_CreatedAt := (if isZeroTime (cf_CreatedAt c) then now else cf_CreatedAt c),
              cf_UpdatedAt := now, cf_ContextVersion := contextVersionForEntries entries\<rparr>, assigned)))"

subsection \<open>The current loop\<close>

definition conversationHasRequestEntry :: "HistoryEntry list \<Rightarrow> string \<Rightarrow> int \<Rightarrow> bool" where
  "conversationHasRequestEntry es requestID turnSeq \<longleftrightarrow> trim_space requestID \<noteq> [] \<and>
     list_ex (\<lambda>e. trim_space (he_RequestID e) = trim_space requestID \<and>
                  \<not> (turnSeq > 0 \<and> he_TurnSeq e > 0 \<and> he_TurnSeq e \<noteq> turnSeq)) es"

definition tool_payload_strings :: "string list" where
  "tool_payload_strings = [''tool_call_id'', ''tool_name'', ''arguments'', ''reasoning_content'',
     ''reasoning_signature'', ''reasoning_signature_source'', ''reasoning_item_id'', ''reasoning_status'',
     ''provider_item_id'', ''provider_call_id'', ''provider_status'']"

definition historyEntryToolCallID :: "HistoryEntry \<Rightarrow> string" where
  "historyEntryToolCallID e =
     (if trim_space (he_ToolCallID e) \<noteq> [] then trim_space (he_ToolCallID e)
      else let kind = trim_space (he_Kind e);
               names = (if kind = ''tool_result'' then ''result_text'' # tool_payload_strings else tool_payload_strings)
           in if kind = ''tool_call'' \<or> kind = ''tool_result''
              then (case unmarshal_strings names (he_Payload e) of
                      None \<Rightarrow> [] | Some p \<Rightarrow> trim_space (p ''tool_call_id''))
              else [])"

text \<open>\<open>metadataPayload\<close>: a type and a map of values.\<close>

definition unmarshal_metadata :: "raw_json \<Rightarrow> (string \<times> (string \<times> json) list) option" where
  "unmarshal_metadata r =
     (let decode = (\<lambda>fs. case (decode_field dec_string ''type'' fs [], object_field ''value'' fs [] False) of
            (Some t, (v, False)) \<Rightarrow> Some (t, v) | _ \<Rightarrow> None)
      in case r of RawJson (JObject fs) \<Rightarrow> decode fs | RawJson JNull \<Rightarrow> Some ([], []) | _ \<Rightarrow> None)"

record loop_scan =
  ls_open :: "string list"
  ls_terminal :: string
  ls_seen :: bool

definition scan_metadata :: "HistoryEntry \<Rightarrow> loop_scan \<Rightarrow> loop_scan" where
  "scan_metadata e st = (case unmarshal_metadata (he_Payload e) of
       None \<Rightarrow> st
     | Some (t, value) \<Rightarrow>
         (let ty = trim_space t in
          if ty = ''turn_completed'' then st\<lparr>ls_terminal := ''completed''\<rparr>
          else if ty = ''provider_error'' then st\<lparr>ls_terminal := ''provider_error''\<rparr>
          else if ty = ''failed'' then st\<lparr>ls_terminal := ''failed''\<rparr>
          else if ty = ''control'' then
            (if trim_space (readStringValue (obj_get ''status'' value)) = ''canceled''
             then st\<lparr>ls_terminal := ''canceled''\<rparr> else st)
          else if ty = ''run_request'' then st\<lparr>ls_seen := True\<rparr>
          else st))"

definition activity_kinds :: "string list" where
  "activity_kinds = [''tool_result'', ''assistant_text'', ''prompt_context'', ''request_context'', ''user_message'']"

definition call_key :: "HistoryEntry \<Rightarrow> string" where
  "call_key e = (if historyEntryToolCallID e = [] then ''entry:'' @ int_dec (he_Seq e) else historyEntryToolCallID e)"

definition scan_entry :: "string \<Rightarrow> int \<Rightarrow> HistoryEntry \<Rightarrow> loop_scan \<Rightarrow> loop_scan" where
  "scan_entry requestID turnSeq e st =
     (let kind = trim_space (he_Kind e) in
      if trim_space (he_RequestID e) \<noteq> trim_space requestID then st
      else if turnSeq > 0 \<and> he_TurnSeq e > 0 \<and> he_TurnSeq e \<noteq> turnSeq then st
      else if kind = ''tool_call'' then st\<lparr>ls_seen := True, ls_open := List.insert (call_key e) (ls_open st)\<rparr>
      else if kind \<in> set activity_kinds then
        st\<lparr>ls_seen := True,
           ls_open := (if kind = ''tool_result'' \<and> historyEntryToolCallID e \<noteq> []
                       then removeAll (historyEntryToolCallID e) (ls_open st) else ls_open st)\<rparr>
      else if kind = ''metadata'' then scan_metadata e st
      else st)"

definition deriveRequestLoopStatus :: "HistoryEntry list \<Rightarrow> string \<Rightarrow> int \<Rightarrow> string \<Rightarrow> string" where
  "deriveRequestLoopStatus es requestID turnSeq fallback =
     (if trim_space requestID = [] then firstNonEmpty [trim_space fallback, ''idle'']
      else let st = fold (scan_entry requestID turnSeq) es \<lparr>ls_open = [], ls_terminal = [], ls_seen = False\<rparr>
           in if ls_terminal st \<noteq> [] then ls_terminal st
              else if ls_open st \<noteq> [] then ''waiting_tool''
              else if ls_seen st then ''running''
              else firstNonEmpty [trim_space fallback, ''idle''])"

text \<open>The last entry that names a request.\<close>

definition last_request :: "HistoryEntry list \<Rightarrow> HistoryEntry option" where
  "last_request es = find (\<lambda>e. trim_space (he_RequestID e) \<noteq> []) (rev es)"

definition deriveConversationLoopState :: "ConversationFile \<Rightarrow> ConversationFile" where
  "deriveConversationLoopState c =
     (let es = cf_Entries c;
          lost = trim_space (cf_CurrentRequestID c) \<noteq> [] \<and>
                 \<not> conversationHasRequestEntry es (trim_space (cf_CurrentRequestID c)) (cf_CurrentTurnSeq c);
          fallback = (if lost then ''idle'' else firstNonEmpty [trim_space (cf_CurrentLoopStatus c), ''idle'']);
          req0 = (if lost then [] else trim_space (cf_CurrentRequestID c));
          turn0 = (if lost then 0 else cf_CurrentTurnSeq c);
          (req, turn) = (case last_request es of
              Some e \<Rightarrow> if req0 = [] then (trim_space (he_RequestID e), he_TurnSeq e) else (req0, turn0)
            | None \<Rightarrow> (req0, turn0))
      in c\<lparr>cf_SchemaVersion := conversationSchemaVersion, cf_ContextVersion := contextVersionForEntries es,
           cf_CurrentRequestID := req, cf_CurrentTurnSeq := turn,
           cf_CurrentLoopID := (if req \<noteq> [] then int_dec turn @ '':'' @ req else cf_CurrentLoopID c),
           cf_CurrentLoopStatus := deriveRequestLoopStatus es req turn fallback\<rparr>)"

subsection \<open>Metadata\<close>

definition promptProfileBaseline :: string where
  "promptProfileBaseline = ''baseline-v1''"

definition promptProfileCompact :: string where
  "promptProfileCompact = ''compact-context-tools-v1''"

definition normalizedPromptProfile :: "string \<Rightarrow> string" where
  "normalizedPromptProfile profile =
     (if trim_space profile = promptProfileCompact then promptProfileCompact else promptProfileBaseline)"

definition pick_trimmed :: "string \<Rightarrow> string \<Rightarrow> string" where
  "pick_trimmed new old = (if trim_space new \<noteq> [] then trim_space new else old)"

definition mergeConversationMetadata :: "ConversationFile \<Rightarrow> ConversationFile \<Rightarrow> ConversationFile" where
  "mergeConversationMetadata t s =
     (let start = trim_space (cf_StartPromptContent t) = [] \<and> trim_space (cf_StartPromptContent s) \<noteq> [];
          fresh = cf_Entries t = [] \<and> \<not> isZeroTime (cf_CreatedAt s) \<and> \<not> isZeroTime (cf_CreatedAt t) \<and>
                  cf_CreatedAt s < cf_CreatedAt t
      in t\<lparr>cf_ConversationID := pick_trimmed (cf_ConversationID s) (cf_ConversationID t),
           cf_RootConversationID := pick_trimmed (cf_RootConversationID s) (cf_RootConversationID t),
           cf_ParentConversationID := trim_space (cf_ParentConversationID s),
           cf_ParentToolCallID := trim_space (cf_ParentToolCallID s),
           cf_SubagentTypeName := trim_space (cf_SubagentTypeName s),
           cf_Mode := pick_trimmed (cf_Mode s) (cf_Mode t),
           cf_PromptProfile := (if fresh then normalizedPromptProfile (cf_PromptProfile s) else cf_PromptProfile t),
           cf_StartPromptMode := (if start then trim_space (cf_StartPromptMode s) else cf_StartPromptMode t),
           cf_StartPromptPath := (if start then trim_space (cf_StartPromptPath s) else cf_StartPromptPath t),
           cf_StartPromptModel := (if start then trim_space (cf_StartPromptModel s) else cf_StartPromptModel t),
           cf_StartPromptContent := (if start then cf_StartPromptContent s else cf_StartPromptContent t),
           cf_TokenDetailsUsedTokens := cf_TokenDetailsUsedTokens s,
           cf_TokenDetailsMaxTokens := (if cf_TokenDetailsMaxTokens s > 0 then cf_TokenDetailsMaxTokens s
                                        else cf_TokenDetailsMaxTokens t),
           cf_AutoCompactionPending := cf_AutoCompactionPending s,
           cf_AutoCompactionPromptTokens := cf_AutoCompactionPromptTokens s,
           cf_AutoCompactionReserveTokens := cf_AutoCompactionReserveTokens s,
           cf_AutoCompactionTriggeredAt := cf_AutoCompactionTriggeredAt s,
           cf_AutoCompactionSourceModelCallID := cf_AutoCompactionSourceModelCallID s,
           cf_CurrentPlanText := cf_CurrentPlanText s, cf_CurrentPlans := clonePlanRegistryEntries (cf_CurrentPlans s),
           cf_CurrentTodos := cf_CurrentTodos s, cf_LatestRequestPrefix := cf_LatestRequestPrefix s,
           cf_LastProviderCall := cf_LastProviderCall s,
           cf_CreatedAt := (if \<not> isZeroTime (cf_CreatedAt s) \<and>
                              (isZeroTime (cf_CreatedAt t) \<or> cf_CreatedAt s < cf_CreatedAt t)
                            then cf_CreatedAt s else cf_CreatedAt t),
           cf_UpdatedAt := (if \<not> isZeroTime (cf_UpdatedAt s) \<and> cf_UpdatedAt s > cf_UpdatedAt t
                            then cf_UpdatedAt s else cf_UpdatedAt t),
           cf_NextTurnSeq := (if cf_NextTurnSeq s > cf_NextTurnSeq t then cf_NextTurnSeq s else cf_NextTurnSeq t),
           cf_NextEntrySeq := (if cf_NextEntrySeq s > cf_NextEntrySeq t then cf_NextEntrySeq s else cf_NextEntrySeq t),
           cf_CurrentLoopID := trim_space (cf_CurrentLoopID s),
           cf_CurrentLoopStatus := trim_space (cf_CurrentLoopStatus s),
           cf_CurrentRequestID := trim_space (cf_CurrentRequestID s), cf_CurrentTurnSeq := cf_CurrentTurnSeq s\<rparr>)"

text \<open>The part both normalisations begin with.\<close>

definition normalize_ids :: "string \<Rightarrow> ConversationFile \<Rightarrow> ConversationFile" where
  "normalize_ids conversationID c =
     (let cid = (if trim_space (cf_ConversationID c) = [] then conversationID else cf_ConversationID c) in
      c\<lparr>cf_SchemaVersion := conversationSchemaVersion, cf_ConversationID := cid,
        cf_RootConversationID := (if trim_space (cf_RootConversationID c) = [] then cid else cf_RootConversationID c),
        cf_NextTurnSeq := (if cf_NextTurnSeq c \<le> 0 then 1 else cf_NextTurnSeq c),
        cf_NextEntrySeq := (if cf_NextEntrySeq c \<le> 0 then 1 else cf_NextEntrySeq c)\<rparr>)"

definition default_times :: "go_time \<Rightarrow> ConversationFile \<Rightarrow> ConversationFile" where
  "default_times now c =
     (let created = (if isZeroTime (cf_CreatedAt c) then now else cf_CreatedAt c) in
      c\<lparr>cf_CreatedAt := created,
        cf_UpdatedAt := (if isZeroTime (cf_UpdatedAt c) then created else cf_UpdatedAt c)\<rparr>)"

definition normalizeConversationMetadata :: "go_time \<Rightarrow> string \<Rightarrow> ConversationFile \<Rightarrow> ConversationFile" where
  "normalizeConversationMetadata now conversationID c = default_times now (normalize_ids conversationID c)"

definition absorb_entry :: "HistoryEntry \<Rightarrow> ConversationFile \<Rightarrow> ConversationFile" where
  "absorb_entry e c = c\<lparr>
     cf_NextEntrySeq := (if he_Seq e \<ge> cf_NextEntrySeq c then i64 (he_Seq e + 1) else cf_NextEntrySeq c),
     cf_NextTurnSeq := (if he_TurnSeq e \<ge> cf_NextTurnSeq c then i64 (he_TurnSeq e + 1) else cf_NextTurnSeq c),
     cf_CreatedAt := (if isZeroTime (cf_CreatedAt c) \<or>
                         (\<not> isZeroTime (he_CreatedAt e) \<and> he_CreatedAt e < cf_CreatedAt c)
                      then he_CreatedAt e else cf_CreatedAt c),
     cf_UpdatedAt := (if \<not> isZeroTime (he_CreatedAt e) \<and> he_CreatedAt e > cf_UpdatedAt c
                      then he_CreatedAt e else cf_UpdatedAt c)\<rparr>"

definition normalizeLoadedConversation :: "go_time \<Rightarrow> string \<Rightarrow> ConversationFile \<Rightarrow> ConversationFile" where
  "normalizeLoadedConversation now conversationID c =
     (let c1 = normalize_ids conversationID c in
      deriveConversationLoopState (default_times now (fold absorb_entry (cf_Entries c1) c1)))"

definition validateConversationID :: "char \<Rightarrow> string \<Rightarrow> string + string" where
  "validateConversationID pathSeparator conversationID =
     (let n = trim_space conversationID in
      if n = [] then Inl ''conversation_id is required''
      else if CHR ''/'' \<in> set n \<or> pathSeparator \<in> set n
      then Inl ''conversation_id must not contain path separators''
      else Inr n)"

subsection \<open>Prompt contexts\<close>

record PromptContextMessage =
  pcm_Source :: string
  pcm_Role :: string
  pcm_Content :: string
  pcm_Name :: string
  pcm_ToolCallID :: string
  pcm_HasParts :: bool
  pcm_ContentHash :: string
  pcm_Persist :: bool

definition promptContextContentHash :: "(string \<Rightarrow> string) \<Rightarrow> string \<Rightarrow> string \<Rightarrow> string" where
  "promptContextContentHash sha role content = sha (trim_space role @ [CHR 0x00] @ trim_space content)"

definition normalizePromptContextMessage :: "(string \<Rightarrow> string) \<Rightarrow> PromptContextMessage \<Rightarrow> PromptContextMessage" where
  "normalizePromptContextMessage sha m =
     (let role = trim_space (pcm_Role m); content = trim_space (pcm_Content m); h = trim_space (pcm_ContentHash m) in
      m\<lparr>pcm_Source := trim_space (pcm_Source m), pcm_Role := role, pcm_Content := content,
        pcm_ContentHash := (if h = [] then promptContextContentHash sha role content else h)\<rparr>)"

definition promptContextKey :: "(string \<Rightarrow> string) \<Rightarrow> PromptContextMessage \<Rightarrow> string" where
  "promptContextKey sha m = (let n = normalizePromptContextMessage sha m in pcm_Source n @ [CHR 0x00] @ pcm_ContentHash n)"

definition isReplayablePromptContext :: "(string \<Rightarrow> string) \<Rightarrow> PromptContextMessage \<Rightarrow> bool" where
  "isReplayablePromptContext sha m =
     (let n = normalizePromptContextMessage sha m; role = (if pcm_Role n = [] then ''user'' else pcm_Role n) in
      if pcm_Source n = [] \<or> trim_space (pcm_Content n) = [] then False
      else if role \<noteq> ''user'' \<and> role \<noteq> ''system'' then False
      else if trim_space (pcm_Name n) \<noteq> [] \<or> trim_space (pcm_ToolCallID n) \<noteq> [] then False
      else \<not> pcm_HasParts n)"

text \<open>The context an entry stores, as the replay sees it.\<close>

definition entry_context :: "raw_json \<Rightarrow> PromptContextMessage option" where
  "entry_context r = (case unmarshal_strings [''source'', ''role'', ''content'', ''content_hash''] r of
       None \<Rightarrow> None
     | Some p \<Rightarrow> Some \<lparr>pcm_Source = p ''source'', pcm_Role = p ''role'', pcm_Content = p ''content'', pcm_Name = [],
           pcm_ToolCallID = [], pcm_HasParts = False, pcm_ContentHash = p ''content_hash'', pcm_Persist = True\<rparr>)"

definition historyPromptContextKey :: "(string \<Rightarrow> string) \<Rightarrow> HistoryEntry \<Rightarrow> string option" where
  "historyPromptContextKey sha e =
     (if trim_space (he_Kind e) \<noteq> ''prompt_context'' \<or> he_TurnSeq e \<le> 0 then None
      else case entry_context (he_Payload e) of
        None \<Rightarrow> None
      | Some m0 \<Rightarrow>
          (let m = normalizePromptContextMessage sha m0 in
           if \<not> isReplayablePromptContext sha m then None
           else Some (int_dec (he_TurnSeq e) @ [CHR 0x00] @ promptContextKey sha m)))"

fun filter_new :: "(HistoryEntry \<Rightarrow> string option) \<Rightarrow> string list \<Rightarrow> HistoryEntry list \<Rightarrow> HistoryEntry list" where
  "filter_new key seen [] = []"
| "filter_new key seen (e # es) = (case key e of
       None \<Rightarrow> e # filter_new key seen es
     | Some k \<Rightarrow> if k \<in> set seen then filter_new key seen es else e # filter_new key (k # seen) es)"

definition filterDuplicatePromptContextEntries ::
    "(string \<Rightarrow> string) \<Rightarrow> HistoryEntry list \<Rightarrow> HistoryEntry list \<Rightarrow> HistoryEntry list" where
  "filterDuplicatePromptContextEntries sha existing incoming =
     filter_new (historyPromptContextKey sha) (List.map_filter (historyPromptContextKey sha) existing) incoming"

end
