(* ===== verification/Structured_State.thy ===== *)
theory Structured_State
  imports Conversation_History
begin

text \<open>
  The plan and todo state that a history implies: \<open>forwarder/projector.go\<close> (the entries of canceled
  turns that a projection keeps) and \<open>forwarder/state_tools.go\<close> (\<open>projectConversationStructuredState\<close>
  and \<open>refreshConversationRuntimeState\<close>).

  Two decoders are parameters, collected in \<open>codecs\<close>: \<open>protojson.Unmarshal\<close> into the generated
  message \<open>agentv1.ToolCall\<close>, of which the code reads what \<open>tool_call_view\<close> holds, and
  \<open>json.Unmarshal\<close> into \<open>runtimeStateEntryPayload\<close>, whose fields are generated messages.
\<close>

subsection \<open>Canceled turns\<close>

definition cancelReplayPolicyDropTurn :: string where
  "cancelReplayPolicyDropTurn = ''drop_turn''"

definition cancelReplayPolicyDropUnstarted :: string where
  "cancelReplayPolicyDropUnstarted = ''drop_unstarted_turn''"

definition cancelReplayPolicyKeepStableInput :: string where
  "cancelReplayPolicyKeepStableInput = ''keep_stable_input''"

definition superseded :: "string \<Rightarrow> bool" where
  "superseded reason \<longleftrightarrow> contains (to_lower (trim_space reason)) ''superseded by newer request''"

definition cancelReplayPolicyForReason :: "string \<Rightarrow> string" where
  "cancelReplayPolicyForReason reason =
     (if superseded reason then cancelReplayPolicyDropUnstarted else cancelReplayPolicyKeepStableInput)"

definition normalizeCancelReplayPolicy :: "string \<Rightarrow> string \<Rightarrow> string" where
  "normalizeCancelReplayPolicy policy reason =
     (let p = trim_space policy in
      if p = cancelReplayPolicyDropTurn then
        (if superseded reason then cancelReplayPolicyDropUnstarted else cancelReplayPolicyDropTurn)
      else if p = cancelReplayPolicyDropUnstarted then cancelReplayPolicyDropUnstarted
      else if p = cancelReplayPolicyKeepStableInput then cancelReplayPolicyKeepStableInput
      else cancelReplayPolicyForReason reason)"

definition canceledReplayPolicyForEntry :: "HistoryEntry \<Rightarrow> string option" where
  "canceledReplayPolicyForEntry e =
     (if trim_space (he_Kind e) \<noteq> ''metadata'' then None
      else case unmarshal_metadata (he_Payload e) of
        None \<Rightarrow> None
      | Some (t, value) \<Rightarrow>
          if trim_space t \<noteq> ''control'' then None
          else if trim_space (readStringValue (obj_get ''status'' value)) \<noteq> ''canceled'' then None
          else Some (normalizeCancelReplayPolicy (readStringValue (obj_get ''replay_policy'' value))
                       (readStringValue (obj_get ''reason'' value))))"

definition add_policy :: "HistoryEntry \<Rightarrow> (int \<rightharpoonup> string) \<Rightarrow> (int \<rightharpoonup> string)" where
  "add_policy e m =
     (if he_TurnSeq e \<le> 0 then m
      else case canceledReplayPolicyForEntry e of
        None \<Rightarrow> m
      | Some p \<Rightarrow> if p = cancelReplayPolicyDropTurn \<or> m (he_TurnSeq e) = None then m(he_TurnSeq e \<mapsto> p) else m)"

definition canceledReplayPolicies :: "HistoryEntry list \<Rightarrow> (int \<rightharpoonup> string)" where
  "canceledReplayPolicies es = fold add_policy es Map.empty"

text \<open>The JSON shape of \<open>modelMessageEntryPayload\<close> (\<open>agent/model/types.go\<close>, \<open>content_parts.go\<close>).\<close>

definition content_part_type :: go_type where
  "content_part_type = GStruct [(''type'', GString), (''text'', GString),
     (''image'', GStruct [(''mime_type'', GString), (''path'', GString), (''data'', GBytes)])]"

definition tool_call_descriptor_type :: go_type where
  "tool_call_descriptor_type = GStruct [(''id'', GString), (''index'', GInt), (''type'', GString),
     (''function'', GStruct [(''name'', GString), (''arguments'', GString)]),
     (''openai_responses_id'', GString), (''openai_responses_call_id'', GString), (''openai_responses_status'', GString)]"

definition message_type :: go_type where
  "message_type = GStruct [(''role'', GString), (''content'', GString), (''content_parts'', GSlice content_part_type),
     (''reasoning_content'', GString), (''reasoning_signature'', GString), (''reasoning_signature_source'', GString),
     (''openai_responses_reasoning_id'', GString), (''openai_responses_reasoning_status'', GString),
     (''openai_responses_reasoning_summary'', GRaw), (''tool_calls'', GSlice tool_call_descriptor_type),
     (''tool_call_id'', GString), (''name'', GString)]"

definition message_role :: "raw_json \<Rightarrow> string option" where
  "message_role r = (case r of
       RawJson (JObject fs) \<Rightarrow>
         if conforms (GStruct [(''message'', message_type)]) (JObject fs)
         then Some (fst (string_field ''role'' (fst (struct_field ''message'' fs [] False)) [] False)) else None
     | RawJson JNull \<Rightarrow> Some []
     | _ \<Rightarrow> None)"

definition isStableCanceledTurnInputEntry :: "HistoryEntry \<Rightarrow> bool" where
  "isStableCanceledTurnInputEntry e \<longleftrightarrow>
     trim_space (he_Kind e) \<in> set [''request_context'', ''user_message'', ''prompt_context'']"

definition isCanceledTurnActivityEntry :: "HistoryEntry \<Rightarrow> bool" where
  "isCanceledTurnActivityEntry e \<longleftrightarrow>
     (let kind = trim_space (he_Kind e) in
      if kind = ''model_message''
      then (case message_role (he_Payload e) of None \<Rightarrow> False
            | Some role \<Rightarrow> trim_space role \<in> set [''assistant'', ''tool''])
      else kind \<in> set [''assistant_text'', ''tool_call'', ''tool_result''])"

definition canceledReplayActivityTurns :: "HistoryEntry list \<Rightarrow> int set" where
  "canceledReplayActivityTurns es =
     set (map he_TurnSeq (filter (\<lambda>e. he_TurnSeq e > 0 \<and> isCanceledTurnActivityEntry e) es))"

text \<open>Whether an entry survives, given the policies and the turns with activity.\<close>

definition survives :: "(int \<rightharpoonup> string) \<Rightarrow> int set \<Rightarrow> HistoryEntry \<Rightarrow> bool" where
  "survives canceled active e \<longleftrightarrow>
     (if he_TurnSeq e > 0 then
        (case canceled (he_TurnSeq e) of
           None \<Rightarrow> True
         | Some policy \<Rightarrow>
             (let act = he_TurnSeq e \<in> active in
              if act \<and> isCanceledTurnActivityEntry e then True
              else let policy' = (if policy = cancelReplayPolicyDropUnstarted
                                  then (if act then cancelReplayPolicyKeepStableInput else cancelReplayPolicyDropTurn)
                                  else policy)
                   in \<not> (policy' = cancelReplayPolicyDropTurn \<or> \<not> isStableCanceledTurnInputEntry e)))
      else True)"

definition sanitizeCanceledReplayEntries :: "HistoryEntry list \<Rightarrow> HistoryEntry list" where
  "sanitizeCanceledReplayEntries es =
     (let canceled = canceledReplayPolicies es; active = canceledReplayActivityTurns es in
      filter (survives canceled active) es)"

definition checkpointProjectionEntries :: "HistoryEntry list \<Rightarrow> HistoryEntry list" where
  "checkpointProjectionEntries es = sanitizeCanceledReplayEntries es"

subsection \<open>Plans and todos\<close>

datatype tool_call_view =
    CreatePlanToolCall (cp_success: bool) (cp_planURI: string) (cp_plan: string)
      (cp_todos: "TodoItem option list") (cp_phases: "TodoItem option list option list")
  | UpdateTodosToolCall (ut_success: "(TodoItem option list \<times> bool) option")
  | OtherToolCall

record codecs =
  decode_runtime_state :: "raw_json \<Rightarrow> (string \<times> plan_registry \<times> TodoItem option list) option"
  decode_tool_call :: "raw_json \<Rightarrow> tool_call_view option"

record structuredConversationState =
  ss_PlanText :: string
  ss_HasPlan :: bool
  ss_Plans :: plan_registry
  ss_Todos :: "TodoItem list"
  ss_HasTodos :: bool

datatype structured_error = BadRuntimeState | BadToolResult | BadToolCall | BadTodos todo_error

definition cloneTodoItems :: "TodoItem option list \<Rightarrow> TodoItem list" where
  "cloneTodoItems items = List.map_filter id items"

definition flattenCreatePlanTodos :: "TodoItem option list \<Rightarrow> TodoItem option list option list \<Rightarrow> TodoItem list" where
  "flattenCreatePlanTodos todos phases =
     (if todos \<noteq> [] then cloneTodoItems todos
      else concat (map cloneTodoItems (List.map_filter id phases)))"

definition upsertCurrentPlanRegistryEntry :: "plan_registry \<Rightarrow> string \<Rightarrow> plan_registry" where
  "upsertCurrentPlanRegistryEntry plans planURI =
     (let uri = trim_space planURI; fresh = clonePlanRegistryEntries plans in
      if uri = [] then fresh
      else let key = (if map_of fresh ''current'' = None \<and> length fresh = 1 then fst (hd fresh) else ''current'')
           in AList.update key (Some \<lparr>pre_Id = key, pre_Path = uri\<rparr>) fresh)"

definition project_runtime_state ::
    "codecs \<Rightarrow> HistoryEntry \<Rightarrow> structuredConversationState \<Rightarrow> structured_error + structuredConversationState" where
  "project_runtime_state cd e st = (case decode_runtime_state cd (he_Payload e) of
       None \<Rightarrow> Inl BadRuntimeState
     | Some (planText, plans, todos) \<Rightarrow>
         (let s1 = (if trim_space planText \<noteq> [] then st\<lparr>ss_PlanText := trim_space planText, ss_HasPlan := True\<rparr> else st);
              s2 = (if plans \<noteq> [] then s1\<lparr>ss_Plans := clonePlanRegistryEntries plans\<rparr> else s1)
          in Inr (if todos \<noteq> [] then s2\<lparr>ss_Todos := cloneTodoItems todos, ss_HasTodos := True\<rparr> else s2)))"

definition tool_result_call :: "raw_json \<Rightarrow> raw_json option" where
  "tool_result_call r = (case unmarshal_strings (''result_text'' # tool_payload_strings) r of
       None \<Rightarrow> None
     | Some p \<Rightarrow> (case r of RawJson (JObject fs) \<Rightarrow> decode_field dec_raw ''tool_call'' fs RawEmpty | _ \<Rightarrow> Some RawEmpty))"

definition project_tool_call ::
    "int \<Rightarrow> tool_call_view \<Rightarrow> structuredConversationState \<Rightarrow> structured_error + structuredConversationState" where
  "project_tool_call base call st = (case call of
       CreatePlanToolCall success planURI plan todos phases \<Rightarrow>
         if \<not> success \<or> trim_space planURI = [] then Inr st
         else (case normalizeTodoItems (map Some (flattenCreatePlanTodos todos phases)) base False of
             Inl err \<Rightarrow> Inl (BadTodos err)
           | Inr items \<Rightarrow> Inr (st\<lparr>ss_PlanText := trim_space plan, ss_HasPlan := True,
               ss_Plans := upsertCurrentPlanRegistryEntry (ss_Plans st) (trim_space planURI),
               ss_Todos := items, ss_HasTodos := True\<rparr>))
     | UpdateTodosToolCall None \<Rightarrow> Inr st
     | UpdateTodosToolCall (Some (todos, wasMerge)) \<Rightarrow>
         (case normalizeTodoItems todos base False of
            Inl err \<Rightarrow> Inl (BadTodos err)
          | Inr items \<Rightarrow>
              if \<not> wasMerge \<and> missingActiveTodoReplacementIDs (map Some (ss_Todos st)) (map Some items) \<noteq> []
              then (case mergeTodoItems (map Some (ss_Todos st)) (map Some items) base of
                  Inl err \<Rightarrow> Inl (BadTodos err)
                | Inr merged \<Rightarrow> Inr (st\<lparr>ss_Todos := merged, ss_HasTodos := True\<rparr>))
              else Inr (st\<lparr>ss_Todos := items, ss_HasTodos := True\<rparr>))
     | OtherToolCall \<Rightarrow> Inr st)"

fun project_entries ::
    "codecs \<Rightarrow> go_time \<Rightarrow> HistoryEntry list \<Rightarrow> structuredConversationState \<Rightarrow> structured_error + structuredConversationState" where
  "project_entries cd now [] st = Inr st"
| "project_entries cd now (e # es) st =
     (let kind = trim_space (he_Kind e);
          r = (if kind = ''runtime_state'' then project_runtime_state cd e st
               else if kind \<noteq> ''tool_result'' then Inr st
               else (case tool_result_call (he_Payload e) of
                   None \<Rightarrow> Inl BadToolResult
                 | Some body \<Rightarrow>
                     if raw_is_empty body then Inr st
                     else (case decode_tool_call cd body of
                         None \<Rightarrow> Inl BadToolCall
                       | Some call \<Rightarrow> project_tool_call (timestampMillis now (he_CreatedAt e)) call st)))
      in case r of Inl err \<Rightarrow> Inl err | Inr st' \<Rightarrow> project_entries cd now es st')"

definition emptyStructuredState :: structuredConversationState where
  "emptyStructuredState = \<lparr>ss_PlanText = [], ss_HasPlan = False, ss_Plans = [], ss_Todos = [], ss_HasTodos = False\<rparr>"

definition projectConversationStructuredState ::
    "codecs \<Rightarrow> go_time \<Rightarrow> ConversationFile \<Rightarrow> structured_error + structuredConversationState" where
  "projectConversationStructuredState cd now c =
     project_entries cd now (checkpointProjectionEntries (cf_Entries c)) emptyStructuredState"

definition refreshConversationRuntimeState ::
    "codecs \<Rightarrow> go_time \<Rightarrow> ConversationFile \<Rightarrow> structured_error + ConversationFile" where
  "refreshConversationRuntimeState cd now c = (case projectConversationStructuredState cd now c of
       Inl err \<Rightarrow> Inl err
     | Inr st \<Rightarrow> Inr (c\<lparr>
         cf_CurrentPlanText := (if ss_HasPlan st then trim_space (ss_PlanText st) else []),
         cf_CurrentPlans := clonePlanRegistryEntries (ss_Plans st),
         cf_CurrentTodos := (if ss_HasTodos st then ss_Todos st else [])\<rparr>))"

end
