(* ===== verification/History_Views.thy ===== *)
theory History_Views
  imports Structured_State
begin

text \<open>
  What is derived from a history: the status of the current loop, the entries a projection keeps of
  canceled turns, and the suppression of repeated prompt contexts.
\<close>

subsection \<open>The status of a loop\<close>

definition of_request :: "string \<Rightarrow> int \<Rightarrow> HistoryEntry \<Rightarrow> bool" where
  "of_request requestID turnSeq e \<longleftrightarrow> trim_space (he_RequestID e) = trim_space requestID \<and>
     \<not> (turnSeq > 0 \<and> he_TurnSeq e > 0 \<and> he_TurnSeq e \<noteq> turnSeq)"

definition is_call :: "HistoryEntry \<Rightarrow> bool" where
  "is_call e \<longleftrightarrow> trim_space (he_Kind e) = ''tool_call''"

definition answers :: "HistoryEntry \<Rightarrow> string \<Rightarrow> bool" where
  "answers e k \<longleftrightarrow> trim_space (he_Kind e) = ''tool_result'' \<and> historyEntryToolCallID e \<noteq> [] \<and> historyEntryToolCallID e = k"

text \<open>The terminal status an entry records, and whether it is activity of the model or the user.\<close>

definition terminal_mark :: "HistoryEntry \<Rightarrow> string option" where
  "terminal_mark e = (if trim_space (he_Kind e) = ''metadata'' then
     (case unmarshal_metadata (he_Payload e) of
        None \<Rightarrow> None
      | Some (t, value) \<Rightarrow>
          if trim_space t = ''turn_completed'' then Some ''completed''
          else if trim_space t \<in> {''provider_error'', ''failed''} then Some (trim_space t)
          else if trim_space t = ''control'' \<and> trim_space (readStringValue (obj_get ''status'' value)) = ''canceled''
          then Some ''canceled'' else None) else None)"

definition shows_activity :: "HistoryEntry \<Rightarrow> bool" where
  "shows_activity e \<longleftrightarrow> is_call e \<or> trim_space (he_Kind e) \<in> set activity_kinds \<or>
     (trim_space (he_Kind e) = ''metadata'' \<and>
      (case unmarshal_metadata (he_Payload e) of None \<Rightarrow> False | Some (t, _) \<Rightarrow> trim_space t = ''run_request''))"

text \<open>A tool call without a later result.\<close>

definition unanswered :: "HistoryEntry list \<Rightarrow> string \<Rightarrow> bool" where
  "unanswered es k \<longleftrightarrow> (\<exists>xs e ys. es = xs @ e # ys \<and> is_call e \<and> call_key e = k \<and> (\<forall>y \<in> set ys. \<not> answers y k))"

lemma unanswered_Nil [simp]: "\<not> unanswered [] k" by (simp add: unanswered_def)

lemma unanswered_snoc:
  "unanswered (es @ [x]) k \<longleftrightarrow> (is_call x \<and> call_key x = k) \<or> (unanswered es k \<and> \<not> answers x k)"
proof
  assume "unanswered (es @ [x]) k"
  then obtain xs e ys where w: "es @ [x] = xs @ e # ys" "is_call e" "call_key e = k" "\<forall>y \<in> set ys. \<not> answers y k"
    by (auto simp: unanswered_def)
  show "(is_call x \<and> call_key x = k) \<or> (unanswered es k \<and> \<not> answers x k)"
  proof (cases ys rule: rev_cases)
    case Nil
    then have "x = e" using w(1) by simp
    then show ?thesis using w(2,3) by blast
  next
    case (snoc zs z)
    then have "es = xs @ e # zs" "x = z" using w(1) by simp_all
    then show ?thesis using w snoc unfolding unanswered_def by auto
  qed
next
  assume "(is_call x \<and> call_key x = k) \<or> (unanswered es k \<and> \<not> answers x k)"
  then show "unanswered (es @ [x]) k"
  proof
    assume "is_call x \<and> call_key x = k"
    then show ?thesis unfolding unanswered_def by (intro exI [of _ es] exI [of _ x] exI [of _ "[]"]) simp
  next
    assume "unanswered es k \<and> \<not> answers x k"
    then obtain xs e ys where "es = xs @ e # ys" "is_call e" "call_key e = k" "\<forall>y \<in> set ys. \<not> answers y k" "\<not> answers x k"
      by (auto simp: unanswered_def)
    then show ?thesis unfolding unanswered_def by (intro exI [of _ xs] exI [of _ e] exI [of _ "ys @ [x]"]) auto
  qed
qed

lemma scan_skip: "\<not> of_request r t e \<Longrightarrow> scan_entry r t e st = st"
  by (auto simp: scan_entry_def of_request_def Let_def)

lemma scan_filter: "fold (scan_entry r t) es st = fold (scan_entry r t) (filter (of_request r t) es) st"
  by (induction es arbitrary: st) (simp_all add: scan_skip)

lemma scan_step:
  assumes "of_request r t e"
  shows "set (ls_open (scan_entry r t e st)) =
      (if is_call e then insert (call_key e) (set (ls_open st)) else set (ls_open st) - {k. answers e k})"
    "ls_terminal (scan_entry r t e st) = (case terminal_mark e of None \<Rightarrow> ls_terminal st | Some s \<Rightarrow> s)"
    "ls_seen (scan_entry r t e st) \<longleftrightarrow> ls_seen st \<or> shows_activity e"
proof -
  define kind where "kind = trim_space (he_Kind e)"
  consider "kind = ''tool_call''" | "kind = ''metadata''" | "kind \<in> set activity_kinds"
    | "kind \<noteq> ''tool_call''" "kind \<noteq> ''metadata''" "kind \<notin> set activity_kinds" by blast
  then have "set (ls_open (scan_entry r t e st)) =
      (if is_call e then insert (call_key e) (set (ls_open st)) else set (ls_open st) - {k. answers e k}) \<and>
    ls_terminal (scan_entry r t e st) = (case terminal_mark e of None \<Rightarrow> ls_terminal st | Some s \<Rightarrow> s) \<and>
    (ls_seen (scan_entry r t e st) \<longleftrightarrow> ls_seen st \<or> shows_activity e)"
    using assms
    by cases
      (auto simp: scan_entry_def of_request_def is_call_def answers_def terminal_mark_def shows_activity_def scan_metadata_def
        activity_kinds_def kind_def [symmetric] Let_def split: option.splits)
  then show "set (ls_open (scan_entry r t e st)) =
      (if is_call e then insert (call_key e) (set (ls_open st)) else set (ls_open st) - {k. answers e k})"
    "ls_terminal (scan_entry r t e st) = (case terminal_mark e of None \<Rightarrow> ls_terminal st | Some s \<Rightarrow> s)"
    "ls_seen (scan_entry r t e st) \<longleftrightarrow> ls_seen st \<or> shows_activity e" by blast+
qed

lemma scan_result:
  assumes "\<forall>e \<in> set es. of_request r t e"
  defines "st \<equiv> fold (scan_entry r t) es \<lparr>ls_open = [], ls_terminal = [], ls_seen = False\<rparr>"
  shows "set (ls_open st) = {k. unanswered es k} \<and>
    ls_terminal st = (if List.map_filter terminal_mark es = [] then [] else last (List.map_filter terminal_mark es)) \<and>
    (ls_seen st \<longleftrightarrow> (\<exists>e \<in> set es. shows_activity e))"
  using assms(1) unfolding st_def
proof (induction es rule: rev_induct)
  case (snoc e es)
  have "answers e k \<Longrightarrow> \<not> is_call e" for k by (simp add: answers_def is_call_def)
  then have "(if is_call e then insert (call_key e) {k. unanswered es k} else {k. unanswered es k} - {k. answers e k}) =
      {k. unanswered (es @ [e]) k}"
    unfolding unanswered_snoc by auto
  moreover have "List.map_filter terminal_mark (es @ [e]) =
      List.map_filter terminal_mark es @ (case terminal_mark e of None \<Rightarrow> [] | Some s \<Rightarrow> [s])"
    by (simp add: map_filter_def split: option.split)
  ultimately show ?case using snoc scan_step [of r t e] by (auto split: option.splits)
qed (simp add: map_filter_def)

lemma terminal_mark_nonempty: "terminal_mark e \<noteq> Some []"
  by (auto simp: terminal_mark_def split: if_splits option.splits)

text \<open>The status of the current loop is what its history says: among the entries of the request
  (and turn), the last terminal marker decides; without one, the loop waits for a tool exactly when
  some tool call has no later result with its id; otherwise it is running as soon as there is any
  activity, and keeps the given status if there is none.\<close>

lemma request_loop_status:
  fixes es :: "HistoryEntry list" and turnSeq :: int
  assumes "trim_space requestID \<noteq> []"
  defines "es' \<equiv> filter (of_request requestID turnSeq) es"
  shows "deriveRequestLoopStatus es requestID turnSeq fallback =
    (if List.map_filter terminal_mark es' \<noteq> [] then last (List.map_filter terminal_mark es')
     else if \<exists>k. unanswered es' k then ''waiting_tool''
     else if \<exists>e \<in> set es'. shows_activity e then ''running''
     else firstNonEmpty [trim_space fallback, ''idle''])"
proof -
  let ?st = "fold (scan_entry requestID turnSeq) es' \<lparr>ls_open = [], ls_terminal = [], ls_seen = False\<rparr>"
  have all: "\<forall>e \<in> set es'. of_request requestID turnSeq e" by (simp add: es'_def)
  note r = scan_result [OF all]
  have "last (List.map_filter terminal_mark es') \<noteq> []" if "List.map_filter terminal_mark es' \<noteq> []"
    using last_in_set [OF that] terminal_mark_nonempty by (auto simp: map_filter_def)
  moreover have "ls_open ?st \<noteq> [] \<longleftrightarrow> (\<exists>k. unanswered es' k)" using r by (metis Collect_empty_eq set_empty)
  ultimately show ?thesis
    using assms(1) r unfolding deriveRequestLoopStatus_def Let_def scan_filter [of _ _ es] es'_def [symmetric]
    by (cases "\<exists>k. unanswered es' k") (auto simp del: firstNonEmpty.simps)
qed

definition demo_call :: "string \<Rightarrow> string \<Rightarrow> HistoryEntry" where
  "demo_call kind callID = \<lparr>he_Seq = 1, he_TurnSeq = 1, he_RequestID = ''r1'', he_Role = [], he_Kind = kind,
     he_ToolCallID = callID, he_ParentToolCallID = [], he_Payload = RawJson JNull, he_CreatedAt = 5\<rparr>"

lemma request_loop_example:
  "deriveRequestLoopStatus [demo_call ''tool_call'' ''a'', demo_call ''tool_call'' ''b'', demo_call ''tool_result'' ''a''] ''r1'' 1 []
     = ''waiting_tool'' \<and>
   (\<exists>k. unanswered (filter (of_request ''r1'' 1)
      [demo_call ''tool_call'' ''a'', demo_call ''tool_call'' ''b'', demo_call ''tool_result'' ''a'']) k)"
proof
  let ?es = "[demo_call ''tool_call'' ''a'', demo_call ''tool_call'' ''b'', demo_call ''tool_result'' ''a'']"
  show w: "deriveRequestLoopStatus ?es ''r1'' 1 [] = ''waiting_tool''" by code_simp
  have r: "trim_space ''r1'' \<noteq> []" by code_simp
  have marks: "List.map_filter terminal_mark (filter (of_request ''r1'' 1) ?es) = []" by code_simp
  have idle: "firstNonEmpty [trim_space [], ''idle''] \<noteq> ''waiting_tool''" by code_simp
  note status = request_loop_status [OF r, where turnSeq = 1 and es = ?es and fallback = "[]"]
  show "\<exists>k. unanswered (filter (of_request ''r1'' 1) ?es) k"
  proof (rule ccontr)
    assume n: "\<not> (\<exists>k. unanswered (filter (of_request ''r1'' 1) ?es) k)"
    from status w have "(if \<exists>e \<in> set (filter (of_request ''r1'' 1) ?es). shows_activity e then ''running''
       else firstNonEmpty [trim_space [], ''idle'']) = ''waiting_tool''"
      by (simp only: marks n simp_thms if_False)
    with idle show False by (simp only: split: if_splits) simp
  qed
qed

subsection \<open>Canceled turns\<close>

lemma survives_activity:
  assumes "e \<in> set es" "isCanceledTurnActivityEntry e"
  shows "survives (canceledReplayPolicies es) (canceledReplayActivityTurns es) e"
  using assms by (auto simp: survives_def canceledReplayActivityTurns_def split: option.split)

lemma policies_None:
  "canceledReplayPolicies es t = None \<longleftrightarrow>
     (\<forall>e \<in> set es. he_TurnSeq e = t \<longrightarrow> he_TurnSeq e \<le> 0 \<or> canceledReplayPolicyForEntry e = None)"
proof -
  have "fold add_policy es m t = None \<longleftrightarrow>
      m t = None \<and> (\<forall>e \<in> set es. he_TurnSeq e = t \<longrightarrow> he_TurnSeq e \<le> 0 \<or> canceledReplayPolicyForEntry e = None)" for m
  proof (induction es arbitrary: m)
    case (Cons e es)
    have "add_policy e m t = None \<longleftrightarrow> m t = None \<and> (he_TurnSeq e = t \<longrightarrow> he_TurnSeq e \<le> 0 \<or> canceledReplayPolicyForEntry e = None)"
      by (auto simp: add_policy_def split: option.splits)
    with Cons show ?case by auto
  qed simp
  then show ?thesis by (simp add: canceledReplayPolicies_def)
qed

lemma control_entry_kind:
  assumes "canceledReplayPolicyForEntry e \<noteq> None"
  shows "\<not> isStableCanceledTurnInputEntry e" "\<not> isCanceledTurnActivityEntry e"
  using assms
  by (auto simp: canceledReplayPolicyForEntry_def isStableCanceledTurnInputEntry_def isCanceledTurnActivityEntry_def
      Let_def split: if_splits)

lemma control_entry_dropped:
  assumes "e \<in> set es" "0 < he_TurnSeq e" "canceledReplayPolicyForEntry e \<noteq> None"
  shows "\<not> survives (canceledReplayPolicies es) (canceledReplayActivityTurns es) e"
proof -
  have "canceledReplayPolicies es (he_TurnSeq e) \<noteq> None" using assms unfolding policies_None by force
  then show ?thesis using assms(2) control_entry_kind [OF assms(3)] by (auto simp: survives_def Let_def)
qed

lemma sanitize_no_policies:
  assumes "\<forall>e \<in> set es. he_TurnSeq e \<le> 0 \<or> canceledReplayPolicyForEntry e = None"
  shows "sanitizeCanceledReplayEntries es = es"
proof -
  have "canceledReplayPolicies es t = None" for t using assms unfolding policies_None by auto
  then show ?thesis by (simp add: sanitizeCanceledReplayEntries_def Let_def survives_def filter_id_conv)
qed

text \<open>Dropping canceled turns loses no work and is final: every assistant or tool entry is kept
  and so is every entry of a turn that was not canceled, in their order; what is dropped of a
  canceled turn includes the cancellation marks, so that dropping again changes nothing.\<close>

lemma canceled_turns_projection:
  "filter isCanceledTurnActivityEntry (sanitizeCanceledReplayEntries es) = filter isCanceledTurnActivityEntry es \<and>
   filter (\<lambda>e. canceledReplayPolicies es (he_TurnSeq e) = None) (sanitizeCanceledReplayEntries es) =
     filter (\<lambda>e. canceledReplayPolicies es (he_TurnSeq e) = None) es \<and>
   sanitizeCanceledReplayEntries (sanitizeCanceledReplayEntries es) = sanitizeCanceledReplayEntries es"
proof (intro conjI)
  let ?s = "survives (canceledReplayPolicies es) (canceledReplayActivityTurns es)"
  have S: "sanitizeCanceledReplayEntries es = filter ?s es" by (simp add: sanitizeCanceledReplayEntries_def)
  show "filter isCanceledTurnActivityEntry (sanitizeCanceledReplayEntries es) = filter isCanceledTurnActivityEntry es"
    unfolding S filter_filter using survives_activity by (auto intro: filter_cong)
  show "filter (\<lambda>e. canceledReplayPolicies es (he_TurnSeq e) = None) (sanitizeCanceledReplayEntries es) =
      filter (\<lambda>e. canceledReplayPolicies es (he_TurnSeq e) = None) es"
    unfolding S filter_filter by (intro filter_cong) (auto simp: survives_def)
  show "sanitizeCanceledReplayEntries (sanitizeCanceledReplayEntries es) = sanitizeCanceledReplayEntries es"
    by (rule sanitize_no_policies) (use control_entry_dropped in \<open>force simp: S\<close>)
qed

subsection \<open>Repeated prompt contexts\<close>

lemma filter_new_distinct:
  "distinct (List.map_filter key (filter_new key seen es)) \<and>
   set (List.map_filter key (filter_new key seen es)) \<inter> set seen = {} \<and>
   set (List.map_filter key es) \<subseteq> set (List.map_filter key (filter_new key seen es)) \<union> set seen"
proof (induction es arbitrary: seen)
  case (Cons e es)
  show ?case
  proof (cases "key e")
    case None
    then show ?thesis using Cons [of seen] by (simp add: map_filter_simps)
  next
    case (Some k)
    then show ?thesis using Cons [of seen] Cons [of "k # seen"] by (auto simp: map_filter_simps)
  qed
qed (simp add: map_filter_simps)

end
