(* ===== verification/Conversation_Store.thy ===== *)
theory Conversation_Store
  imports Structured_State
begin

text \<open>
  The conversation files, \<open>forwarder/file_store.go\<close>, and the copy of a conversation that a stream
  keeps in memory, \<open>checkpoint_memory.go\<close> and \<open>runtime_summary.go\<close>.

  A conversation has a directory with \<open>state.json\<close> (metadata) and \<open>context.json\<close> (entries).  A file
  is missing, unreadable, or holds a value; the model keeps the value that \<open>json.Unmarshal\<close> reads
  back, for strings of valid UTF-8.  An entry whose payload is not JSON cannot be written, and a nil
  payload is read back as \<open>null\<close>.  A write replaces the file or fails, and \<open>syncDirectory\<close> can report
  an error after the file has been replaced.  \<open>store_env\<close> fixes what one operation finds: the clock,
  read once per operation, whether the directory can be made and the lock taken, the outcome of the
  two writes, the path separator, the digest of prompt contexts and the message decoders.  A nil
  \<open>update\<close> callback is the callback that changes nothing.
\<close>

datatype 'a stored_file = FileMissing | FileBad | FileOk 'a

record conversation_disk =
  cd_state :: "ConversationFile stored_file"
  cd_context :: "HistoryEntry list stored_file"

type_synonym store = "string \<Rightarrow> conversation_disk"

definition emptyDisk :: conversation_disk where
  "emptyDisk = \<lparr>cd_state = FileMissing, cd_context = FileMissing\<rparr>"

datatype write_outcome = WriteOk | WriteFails | SyncFails

record store_env =
  se_now :: go_time
  se_separator :: char
  se_mkdir :: bool
  se_lock :: bool
  se_context_write :: write_outcome
  se_state_write :: write_outcome
  se_sha :: "string \<Rightarrow> string"
  se_codecs :: codecs

datatype store_error = BadConversationID string | MkdirFailed | LockFailed | StateUnreadable | ContextUnreadable
  | BadMode mode_error | BadStructuredState structured_error | UpdateFailed string | MarshalFailed | WriteFailed

subsection \<open>Files\<close>

definition stored_payload :: "raw_json \<Rightarrow> raw_json option" where
  "stored_payload r = (case r of RawInvalid \<Rightarrow> None | RawEmpty \<Rightarrow> Some (RawJson JNull) | RawJson j \<Rightarrow> Some (RawJson j))"

fun stored_entries :: "HistoryEntry list \<Rightarrow> HistoryEntry list option" where
  "stored_entries [] = Some []"
| "stored_entries (e # es) = (case (stored_payload (he_Payload e), stored_entries es) of
       (Some p, Some rest) \<Rightarrow> Some (e\<lparr>he_Payload := p\<rparr> # rest) | _ \<Rightarrow> None)"

definition writeJSONFileAtomic :: "write_outcome \<Rightarrow> 'a option \<Rightarrow> 'a stored_file \<Rightarrow> 'a stored_file \<times> store_error option" where
  "writeJSONFileAtomic w payload old = (case payload of
       None \<Rightarrow> (old, Some MarshalFailed)
     | Some v \<Rightarrow> (case w of
           WriteOk \<Rightarrow> (FileOk v, None) | WriteFails \<Rightarrow> (old, Some WriteFailed) | SyncFails \<Rightarrow> (FileOk v, Some WriteFailed)))"

definition readConversationMetaLocked ::
    "store_env \<Rightarrow> string \<Rightarrow> conversation_disk \<Rightarrow> store_error + ConversationFile option" where
  "readConversationMetaLocked env cid d = (case cd_state d of
       FileMissing \<Rightarrow> Inr None
     | FileBad \<Rightarrow> Inl StateUnreadable
     | FileOk c \<Rightarrow> Inr (Some ((normalizeConversationMetadata (se_now env) cid c)\<lparr>cf_Entries := []\<rparr>)))"

definition readContextLocked :: "conversation_disk \<Rightarrow> store_error + HistoryEntry list" where
  "readContextLocked d = (case cd_context d of
       FileMissing \<Rightarrow> Inr [] | FileBad \<Rightarrow> Inl ContextUnreadable | FileOk es \<Rightarrow> Inr es)"

definition readConversationLocked ::
    "store_env \<Rightarrow> string \<Rightarrow> conversation_disk \<Rightarrow> store_error + ConversationFile option" where
  "readConversationLocked env cid d = (case cd_state d of
       FileMissing \<Rightarrow> Inr None
     | FileBad \<Rightarrow> Inl StateUnreadable
     | FileOk c \<Rightarrow> (case readContextLocked d of
           Inl err \<Rightarrow> Inl err
         | Inr es \<Rightarrow> Inr (Some (normalizeLoadedConversation (se_now env) cid (c\<lparr>cf_Entries := es\<rparr>)))))"

definition writeContextLocked ::
    "store_env \<Rightarrow> ConversationFile \<Rightarrow> conversation_disk \<Rightarrow> conversation_disk \<times> store_error option" where
  "writeContextLocked env c d =
     (let (f, err) = writeJSONFileAtomic (se_context_write env) (stored_entries (cf_Entries c)) (cd_context d)
      in (d\<lparr>cd_context := f\<rparr>, err))"

text \<open>The metadata writers also change the conversation they are given; it is the third result.\<close>

definition restore_loop :: "ConversationFile \<Rightarrow> ConversationFile \<Rightarrow> ConversationFile" where
  "restore_loop old c =
     (if trim_space (cf_CurrentLoopStatus old) \<noteq> [] \<and>
         (trim_space (cf_CurrentRequestID old) = [] \<or>
          conversationHasRequestEntry (cf_Entries c) (cf_CurrentRequestID old) (cf_CurrentTurnSeq old))
      then c\<lparr>cf_CurrentLoopID := cf_CurrentLoopID old, cf_CurrentLoopStatus := cf_CurrentLoopStatus old,
             cf_CurrentRequestID := cf_CurrentRequestID old, cf_CurrentTurnSeq := cf_CurrentTurnSeq old\<rparr>
      else c)"

definition writeConversationMetaLocked ::
    "store_env \<Rightarrow> string \<Rightarrow> ConversationFile \<Rightarrow> conversation_disk
       \<Rightarrow> conversation_disk \<times> store_error option \<times> ConversationFile" where
  "writeConversationMetaLocked env cid c d =
     (let c1 = restore_loop c (normalizeLoadedConversation (se_now env) cid c) in
      case refreshConversationRuntimeState (se_codecs env) (se_now env) c1 of
        Inl err \<Rightarrow> (d, Some (BadStructuredState err), c1)
      | Inr c2 \<Rightarrow>
          (let metadata = (cloneConversationFile c2)\<lparr>cf_SchemaVersion := conversationSchemaVersion,
                 cf_ContextVersion := contextVersionForEntries (cf_Entries c2), cf_Entries := []\<rparr>;
               (f, err) = writeJSONFileAtomic (se_state_write env) (Some metadata) (cd_state d)
           in (d\<lparr>cd_state := f\<rparr>, err, c2)))"

definition writeConversationLocked ::
    "store_env \<Rightarrow> string \<Rightarrow> ConversationFile \<Rightarrow> conversation_disk
       \<Rightarrow> conversation_disk \<times> store_error option \<times> ConversationFile" where
  "writeConversationLocked env cid c d =
     (let c1 = normalizeLoadedConversation (se_now env) cid c in
      case writeContextLocked env c1 d of
        (d1, Some err) \<Rightarrow> (d1, Some err, c1)
      | (d1, None) \<Rightarrow> writeConversationMetaLocked env cid c1 d1)"

definition writeConversationMetaSnapshotLocked ::
    "store_env \<Rightarrow> string \<Rightarrow> ConversationFile \<Rightarrow> conversation_disk
       \<Rightarrow> conversation_disk \<times> store_error option \<times> ConversationFile" where
  "writeConversationMetaSnapshotLocked env cid c d =
     (let c1 = normalizeConversationMetadata (se_now env) cid c;
          metadata = (cloneConversationFile c1)\<lparr>cf_SchemaVersion := conversationSchemaVersion, cf_Entries := []\<rparr>;
          (f, err) = writeJSONFileAtomic (se_state_write env) (Some metadata) (cd_state d)
      in (d\<lparr>cd_state := f\<rparr>, err, c1))"

subsection \<open>Operations\<close>

text \<open>What every operation begins with: a valid id, the directory, the lock; then the operation
  runs on the files of that conversation.\<close>

definition locked ::
    "store_env \<Rightarrow> string \<Rightarrow> (string \<Rightarrow> conversation_disk \<Rightarrow> conversation_disk \<times> (store_error + 'a))
       \<Rightarrow> store \<Rightarrow> store \<times> (store_error + 'a)" where
  "locked env conversationID body st = (case validateConversationID (se_separator env) conversationID of
       Inl err \<Rightarrow> (st, Inl (BadConversationID err))
     | Inr cid \<Rightarrow>
         if \<not> se_mkdir env then (st, Inl MkdirFailed)
         else if \<not> se_lock env then (st, Inl LockFailed)
         else (let (d, r) = body cid (st cid) in (st(cid := d), r)))"

text \<open>The conversation the operations fall back to when there is no \<open>state.json\<close>.\<close>

definition newConversation :: "store_env \<Rightarrow> string \<Rightarrow> ConversationFile" where
  "newConversation env cid = emptyConversation\<lparr>cf_SchemaVersion := conversationSchemaVersion,
     cf_ConversationID := cid, cf_RootConversationID := cid, cf_PromptProfile := promptProfileBaseline,
     cf_NextTurnSeq := 1, cf_NextEntrySeq := 1, cf_CreatedAt := se_now env\<rparr>"

text \<open>Writing back, and what the operation then returns.\<close>

definition finish_write ::
    "conversation_disk \<times> store_error option \<times> ConversationFile \<Rightarrow> (ConversationFile \<Rightarrow> 'a)
       \<Rightarrow> conversation_disk \<times> (store_error + 'a)" where
  "finish_write w ret = (case w of (d, err, c) \<Rightarrow> (d, case err of Some e \<Rightarrow> Inl e | None \<Rightarrow> Inr (ret c)))"

definition create_body ::
    "store_env \<Rightarrow> AgentMode \<Rightarrow> string \<Rightarrow> string \<Rightarrow> string \<Rightarrow> string \<Rightarrow> string \<Rightarrow> conversation_disk
       \<Rightarrow> conversation_disk \<times> (store_error + ConversationFile)" where
  "create_body env mode parentID parentToolCallID rootID promptProfile cid d =
     (case readConversationMetaLocked env cid d of
        Inl err \<Rightarrow> (d, Inl err)
      | Inr (Some c) \<Rightarrow>
          if trim_space (cf_Mode c) = [] then
            (case modeAlias mode of
               Inl err \<Rightarrow> (d, Inl (BadMode err))
             | Inr alias \<Rightarrow> finish_write (writeConversationMetaSnapshotLocked env cid (c\<lparr>cf_Mode := alias\<rparr>) d)
                              cloneConversationFile)
          else (d, Inr (cloneConversationFile c))
      | Inr None \<Rightarrow>
          (case modeAlias mode of
             Inl err \<Rightarrow> (d, Inl (BadMode err))
           | Inr alias \<Rightarrow>
               (let c = emptyConversation\<lparr>cf_SchemaVersion := conversationSchemaVersion, cf_ConversationID := cid,
                      cf_RootConversationID := firstNonEmpty [trim_space rootID, cid],
                      cf_ParentConversationID := trim_space parentID,
                      cf_ParentToolCallID := trim_space parentToolCallID, cf_Mode := alias,
                      cf_PromptProfile := normalizedPromptProfile promptProfile, cf_CreatedAt := se_now env,
                      cf_UpdatedAt := se_now env, cf_NextTurnSeq := 1, cf_NextEntrySeq := 1,
                      cf_CurrentLoopStatus := ''idle''\<rparr>
                in finish_write (writeConversationLocked env cid c d) cloneConversationFile)))"

definition createConversation ::
    "store_env \<Rightarrow> string \<Rightarrow> AgentMode \<Rightarrow> string \<Rightarrow> string \<Rightarrow> string \<Rightarrow> string \<Rightarrow> store
       \<Rightarrow> store \<times> (store_error + ConversationFile)" where
  "createConversation env conversationID mode parentID parentToolCallID rootID promptProfile =
     locked env conversationID (create_body env mode parentID parentToolCallID rootID promptProfile)"

definition mutate_body ::
    "store_env \<Rightarrow> bool \<Rightarrow> (ConversationFile \<Rightarrow> string + ConversationFile) option \<Rightarrow> string \<Rightarrow> conversation_disk
       \<Rightarrow> conversation_disk \<times> (store_error + ConversationFile option)" where
  "mutate_body env createIfMissing upd cid d =
     (let go = (\<lambda>c. case upd of
            None \<Rightarrow> (d, Inr (Some (cloneConversationFile c)))
          | Some f \<Rightarrow> (case f c of
                Inl err \<Rightarrow> (d, Inl (UpdateFailed err))
              | Inr c1 \<Rightarrow> finish_write (writeConversationLocked env cid (deriveConversationLoopState c1) d)
                            (\<lambda>c2. Some (cloneConversationFile c2))))
      in case readConversationLocked env cid d of
           Inl err \<Rightarrow> (d, Inl err)
         | Inr (Some c) \<Rightarrow> go c
         | Inr None \<Rightarrow> if createIfMissing then go (newConversation env cid) else (d, Inr None))"

definition mutateConversation ::
    "store_env \<Rightarrow> string \<Rightarrow> bool \<Rightarrow> (ConversationFile \<Rightarrow> string + ConversationFile) option \<Rightarrow> store
       \<Rightarrow> store \<times> (store_error + ConversationFile option)" where
  "mutateConversation env conversationID createIfMissing upd =
     locked env conversationID (mutate_body env createIfMissing upd)"

definition LoadConversation ::
    "store_env \<Rightarrow> string \<Rightarrow> store \<Rightarrow> store \<times> (store_error + ConversationFile option)" where
  "LoadConversation env conversationID = mutateConversation env conversationID False None"

text \<open>What both append operations do once they have the conversation; \<open>ret\<close> is what they return.\<close>

definition append_to ::
    "store_env \<Rightarrow> string \<Rightarrow> (ConversationFile \<Rightarrow> ConversationFile) \<Rightarrow> HistoryEntry list \<Rightarrow> ConversationFile
       \<Rightarrow> conversation_disk \<Rightarrow> conversation_disk \<times> (store_error + ConversationFile option \<times> HistoryEntry list)" where
  "append_to env cid ret es c d =
     (let fresh = filterDuplicatePromptContextEntries (se_sha env) (cf_Entries c) es in
      if fresh = [] then (d, Inr (Some (cloneConversationFile c), []))
      else case appendEntriesInPlace (se_now env) fresh c of
        (c1, assigned) \<Rightarrow>
          finish_write (writeConversationLocked env cid (deriveConversationLoopState c1) d)
            (\<lambda>c2. (Some (ret c2), assigned)))"

definition append_body ::
    "store_env \<Rightarrow> HistoryEntry list \<Rightarrow> string \<Rightarrow> conversation_disk
       \<Rightarrow> conversation_disk \<times> (store_error + ConversationFile option \<times> HistoryEntry list)" where
  "append_body env es cid d = (case readConversationLocked env cid d of
       Inl err \<Rightarrow> (d, Inl err)
     | Inr (Some c) \<Rightarrow> append_to env cid cloneConversationFile es c d
     | Inr None \<Rightarrow> (case modeAlias AGENT_MODE_AGENT of
           Inl err \<Rightarrow> (d, Inl (BadMode err))
         | Inr alias \<Rightarrow> append_to env cid cloneConversationFile es ((newConversation env cid)\<lparr>cf_Mode := alias\<rparr>) d))"

definition AppendEntries ::
    "store_env \<Rightarrow> string \<Rightarrow> HistoryEntry list \<Rightarrow> store
       \<Rightarrow> store \<times> (store_error + ConversationFile option \<times> HistoryEntry list)" where
  "AppendEntries env conversationID es st =
     (if es = [] then (case LoadConversation env conversationID st of
          (st1, Inl err) \<Rightarrow> (st1, Inl err) | (st1, Inr c) \<Rightarrow> (st1, Inr (c, [])))
      else locked env conversationID (append_body env es) st)"

definition snapshot_matches :: "ConversationFile \<Rightarrow> ConversationFile \<Rightarrow> bool" where
  "snapshot_matches metadata snapshot \<longleftrightarrow>
     cf_ContextVersion metadata = cf_ContextVersion snapshot \<and>
     cf_NextEntrySeq metadata = cf_NextEntrySeq snapshot \<and> cf_UpdatedAt metadata = cf_UpdatedAt snapshot"

definition append_snapshot_body ::
    "store_env \<Rightarrow> ConversationFile \<Rightarrow> HistoryEntry list \<Rightarrow> string \<Rightarrow> conversation_disk
       \<Rightarrow> conversation_disk \<times> (store_error + ConversationFile option \<times> HistoryEntry list)" where
  "append_snapshot_body env snapshot es cid d = (case readConversationMetaLocked env cid d of
       Inl err \<Rightarrow> (d, Inl err)
     | Inr metadata \<Rightarrow>
         (case (case metadata of
                  Some md \<Rightarrow> if snapshot_matches md snapshot then Inr (Some (md\<lparr>cf_Entries := cf_Entries snapshot\<rparr>))
                            else readConversationLocked env cid d
                | None \<Rightarrow> readConversationLocked env cid d) of
            Inl err \<Rightarrow> (d, Inl err)
          | Inr (Some c) \<Rightarrow> append_to env cid id es c d
          | Inr None \<Rightarrow> append_to env cid id es (cloneConversationFile snapshot) d))"

definition AppendEntriesFromSnapshot ::
    "store_env \<Rightarrow> string \<Rightarrow> ConversationFile option \<Rightarrow> HistoryEntry list \<Rightarrow> store
       \<Rightarrow> store \<times> (store_error + ConversationFile option \<times> HistoryEntry list)" where
  "AppendEntriesFromSnapshot env conversationID snapshot es st = (case snapshot of
       None \<Rightarrow> AppendEntries env conversationID es st
     | Some s \<Rightarrow>
         if es = [] then (st, Inr (Some (cloneConversationFile s), []))
         else locked env conversationID (append_snapshot_body env s es) st)"

definition save_body ::
    "store_env \<Rightarrow> ConversationFile option \<Rightarrow> HistoryEntry list \<Rightarrow> string \<Rightarrow> conversation_disk
       \<Rightarrow> conversation_disk \<times> (store_error + ConversationFile)" where
  "save_body env source es cid d = (case readConversationLocked env cid d of
       Inl err \<Rightarrow> (d, Inl err)
     | Inr loaded \<Rightarrow>
         (let c0 = (case loaded of Some c \<Rightarrow> c | None \<Rightarrow> newConversation env cid);
              c1 = (case source of Some s \<Rightarrow> mergeConversationMetadata c0 s | None \<Rightarrow> c0);
              c2 = fst (appendEntriesInPlace (se_now env) (resetEntrySequences es) c1)
          in finish_write (writeConversationLocked env cid (deriveConversationLoopState c2) d) cloneConversationFile))"

definition SaveConversationWithEntries ::
    "store_env \<Rightarrow> string \<Rightarrow> ConversationFile option \<Rightarrow> HistoryEntry list \<Rightarrow> store
       \<Rightarrow> store \<times> (store_error + ConversationFile)" where
  "SaveConversationWithEntries env conversationID source es = locked env conversationID (save_body env source es)"

definition update_body ::
    "store_env \<Rightarrow> (ConversationFile \<Rightarrow> string + ConversationFile) \<Rightarrow> string \<Rightarrow> conversation_disk
       \<Rightarrow> conversation_disk \<times> (store_error + ConversationFile)" where
  "update_body env upd cid d = (case readConversationMetaLocked env cid d of
       Inl err \<Rightarrow> (d, Inl err)
     | Inr loaded \<Rightarrow>
         (case upd (case loaded of Some c \<Rightarrow> c | None \<Rightarrow> newConversation env cid) of
            Inl err \<Rightarrow> (d, Inl (UpdateFailed err))
          | Inr c1 \<Rightarrow> finish_write (writeConversationMetaSnapshotLocked env cid c1 d) cloneConversationFile))"

definition UpdateConversationMeta ::
    "store_env \<Rightarrow> string \<Rightarrow> (ConversationFile \<Rightarrow> string + ConversationFile) \<Rightarrow> store
       \<Rightarrow> store \<times> (store_error + ConversationFile)" where
  "UpdateConversationMeta env conversationID upd = locked env conversationID (update_body env upd)"

definition replace_body ::
    "store_env \<Rightarrow> HistoryEntry list \<Rightarrow> (ConversationFile \<Rightarrow> string + ConversationFile) \<Rightarrow> string \<Rightarrow> conversation_disk
       \<Rightarrow> conversation_disk \<times> (store_error + ConversationFile)" where
  "replace_body env es upd cid d = (case readConversationLocked env cid d of
       Inl err \<Rightarrow> (d, Inl err)
     | Inr loaded \<Rightarrow>
         (let c0 = (case loaded of Some c \<Rightarrow> c | None \<Rightarrow> newConversation env cid);
              c1 = c0\<lparr>cf_Entries := [], cf_NextEntrySeq := 1, cf_NextTurnSeq := 1\<rparr>;
              c2 = fst (appendEntriesInPlace (se_now env) (resetEntrySequences es) c1)
          in case upd c2 of
               Inl err \<Rightarrow> (d, Inl (UpdateFailed err))
             | Inr c3 \<Rightarrow> finish_write (writeConversationLocked env cid (deriveConversationLoopState c3) d)
                           cloneConversationFile))"

definition ReplaceEntries ::
    "store_env \<Rightarrow> string \<Rightarrow> HistoryEntry list \<Rightarrow> (ConversationFile \<Rightarrow> string + ConversationFile) \<Rightarrow> store
       \<Rightarrow> store \<times> (store_error + ConversationFile)" where
  "ReplaceEntries env conversationID es upd = locked env conversationID (replace_body env es upd)"

end
