(* ===== verification/Conversation_Invariants.thy ===== *)
theory Conversation_Invariants
  imports Conversation_Store "HOL-Library.Sublist"
begin

text \<open>
  What the conversation files keep: sequence numbers are unique and increasing, the counters of a
  loaded conversation are above every number in use, and an operation either leaves the history of
  a conversation alone or extends it, whatever write fails.
\<close>

subsection \<open>Counters\<close>

text \<open>A counter that is moved past a number in use.\<close>

definition bump :: "int \<Rightarrow> int \<Rightarrow> int" where
  "bump x n = (if x \<ge> n then i64 (x + 1) else n)"

lemma fold_bump:
  "\<forall>x \<in> set xs. 0 \<le> x \<and> x < max_i64 \<Longrightarrow> fold bump xs n = fold max (map (\<lambda>x. x + 1) xs) n"
proof (induction xs arbitrary: n)
  case (Cons x xs)
  then have "i64 (x + 1) = x + 1" by (intro i64_small) auto
  then have "bump x n = max (x + 1) n" by (auto simp: bump_def)
  with Cons show ?case by simp
qed simp

lemma absorb_counters:
  "cf_NextEntrySeq (fold absorb_entry es c) = fold bump (map he_Seq es) (cf_NextEntrySeq c)"
  "cf_NextTurnSeq (fold absorb_entry es c) = fold bump (map he_TurnSeq es) (cf_NextTurnSeq c)"
  "cf_Entries (fold absorb_entry es c) = cf_Entries c"
  by (induction es arbitrary: c) (simp_all add: absorb_entry_def bump_def)

lemma normalize_counters [simp]:
  "cf_NextEntrySeq (deriveConversationLoopState c) = cf_NextEntrySeq c"
  "cf_NextTurnSeq (deriveConversationLoopState c) = cf_NextTurnSeq c"
  "cf_Entries (deriveConversationLoopState c) = cf_Entries c"
  "cf_ContextVersion (deriveConversationLoopState c) = contextVersionForEntries (cf_Entries c)"
  "cf_NextEntrySeq (default_times now c) = cf_NextEntrySeq c"
  "cf_NextTurnSeq (default_times now c) = cf_NextTurnSeq c"
  "cf_Entries (default_times now c) = cf_Entries c"
  "cf_Entries (normalize_ids cid c) = cf_Entries c"
  "cf_NextEntrySeq (normalize_ids cid c) = (if cf_NextEntrySeq c \<le> 0 then 1 else cf_NextEntrySeq c)"
  "cf_NextTurnSeq (normalize_ids cid c) = (if cf_NextTurnSeq c \<le> 0 then 1 else cf_NextTurnSeq c)"
  by (simp_all add: deriveConversationLoopState_def default_times_def normalize_ids_def Let_def case_prod_beta)

lemma normalizeLoaded_Entries [simp]: "cf_Entries (normalizeLoadedConversation now cid c) = cf_Entries c"
  by (simp add: normalizeLoadedConversation_def Let_def absorb_counters)

lemma contextVersion_max: "contextVersionForEntries es = fold max (map he_Seq es) 0"
proof -
  have "fold (\<lambda>e v. if he_Seq e > v then he_Seq e else v) es n = fold max (map he_Seq es) n" for n
    by (induction es arbitrary: n) (simp_all add: max_def)
  then show ?thesis by (simp add: contextVersionForEntries_def)
qed

text \<open>Numbers within range, and histories with unique, increasing numbers.\<close>

definition numbers_ok :: "int list \<Rightarrow> int list \<Rightarrow> bool" where
  "numbers_ok seqs turns \<longleftrightarrow> sorted_wrt (<) seqs \<and> (\<forall>x \<in> set seqs. 0 < x \<and> x < max_i64) \<and>
     (\<forall>t \<in> set turns. 0 \<le> t \<and> t < max_i64)"

definition entries_ok :: "HistoryEntry list \<Rightarrow> bool" where
  "entries_ok es \<longleftrightarrow> numbers_ok (map he_Seq es) (map he_TurnSeq es)"

definition seq_ok :: "ConversationFile \<Rightarrow> bool" where
  "seq_ok c \<longleftrightarrow> entries_ok (cf_Entries c) \<and> 0 < cf_NextEntrySeq c \<and>
     (\<forall>e \<in> set (cf_Entries c). he_Seq e < cf_NextEntrySeq c)"

definition conv_ok :: "ConversationFile \<Rightarrow> bool" where
  "conv_ok c \<longleftrightarrow> seq_ok c \<and> 0 < cf_NextTurnSeq c \<and> (\<forall>e \<in> set (cf_Entries c). he_TurnSeq e < cf_NextTurnSeq c)"

lemma conv_seq_ok [dest]: "conv_ok c \<Longrightarrow> seq_ok c" by (simp add: conv_ok_def)

lemma normalizeLoaded_ok:
  assumes ok: "entries_ok (cf_Entries c)"
  shows "conv_ok (normalizeLoadedConversation now cid c)"
    and "cf_ContextVersion (normalizeLoadedConversation now cid c) = contextVersionForEntries (cf_Entries c)"
proof -
  let ?c1 = "normalize_ids cid c" and ?c2 = "normalizeLoadedConversation now cid c"
  have seqs: "cf_NextEntrySeq ?c2 = fold max (map (\<lambda>x. x + 1) (map he_Seq (cf_Entries c))) (cf_NextEntrySeq ?c1)"
    and turns: "cf_NextTurnSeq ?c2 = fold max (map (\<lambda>x. x + 1) (map he_TurnSeq (cf_Entries c))) (cf_NextTurnSeq ?c1)"
    using ok by (simp_all add: normalizeLoadedConversation_def Let_def absorb_counters entries_ok_def
        numbers_ok_def fold_bump less_imp_le del: map_map)
  have pos: "0 < cf_NextEntrySeq ?c1" "0 < cf_NextTurnSeq ?c1" by simp_all
  have "he_Seq e + 1 \<le> cf_NextEntrySeq ?c2 \<and> he_TurnSeq e + 1 \<le> cf_NextTurnSeq ?c2" if "e \<in> set (cf_Entries c)" for e
    unfolding seqs turns using that by (intro conjI fold_max_mem) auto
  moreover have "0 < cf_NextEntrySeq ?c2" "0 < cf_NextTurnSeq ?c2"
    unfolding seqs turns using pos by (meson fold_max_ge less_le_trans)+
  ultimately show "conv_ok ?c2" using ok by (fastforce simp: conv_ok_def seq_ok_def)
qed (simp add: normalizeLoadedConversation_def Let_def absorb_counters)

subsection \<open>Appending\<close>

definition stamp :: "go_time \<Rightarrow> HistoryEntry \<Rightarrow> HistoryEntry" where
  "stamp now e = (if isZeroTime (he_CreatedAt e) then e\<lparr>he_CreatedAt := now\<rparr> else e)"

text \<open>The specification of an append: the entries with consecutive numbers.\<close>

primrec number_from :: "go_time \<Rightarrow> int \<Rightarrow> HistoryEntry list \<Rightarrow> HistoryEntry list" where
  "number_from now n [] = []"
| "number_from now n (e # es) = (stamp now e)\<lparr>he_Seq := n\<rparr> # number_from now (n + 1) es"

definition unnumbered :: "HistoryEntry list \<Rightarrow> bool" where
  "unnumbered es \<longleftrightarrow> (\<forall>e \<in> set es. he_Seq e \<le> 0 \<and> 0 \<le> he_TurnSeq e \<and> he_TurnSeq e < max_i64)"

lemma stamp_fields [simp]: "he_Seq (stamp now e) = he_Seq e" "he_TurnSeq (stamp now e) = he_TurnSeq e"
  "he_Payload (stamp now e) = he_Payload e" "he_Kind (stamp now e) = he_Kind e" "he_RequestID (stamp now e) = he_RequestID e"
  by (simp_all add: stamp_def)

lemma number_from_seqs: "map he_Seq (number_from now n es) = map (\<lambda>k. n + int k) [0..<length es]"
proof (induction es arbitrary: n)
  case (Cons e es)
  have "map (\<lambda>k. n + int k) [0..<Suc (length es)] = n # map (\<lambda>k. n + 1 + int k) [0..<length es]"
    by (rule nth_equalityI) (auto simp: nth_Cons split: nat.split simp del: upt_Suc)
  with Cons show ?case by simp
qed simp

lemma number_from_turns [simp]: "map he_TurnSeq (number_from now n es) = map he_TurnSeq es"
  by (induction es arbitrary: n) simp_all

lemma number_from_Nil [simp]: "number_from now n es = [] \<longleftrightarrow> es = []"
  by (cases es) simp_all

lemma assign_fresh:
  "\<lbrakk> \<forall>e \<in> set es. he_Seq e \<le> 0; 0 < n; n + int (length es) \<le> max_i64 \<rbrakk> \<Longrightarrow>
   assign_entries now es n t = (n + int (length es), fold max (map he_TurnSeq es) t, number_from now n es)"
proof (induction es arbitrary: n t)
  case (Cons e es)
  have "i64 (n + 1) = n + 1" using Cons.prems by (intro i64_small) auto
  moreover have "assign_entries now es (n + 1) m = (n + 1 + int (length es), fold max (map he_TurnSeq es) m, number_from now (n + 1) es)" for m
    using Cons.prems by (intro Cons.IH) auto
  ultimately show ?case using Cons.prems by (simp add: stamp_def max.absorb1 max.absorb2)
qed simp

lemma numbers_ok_number_from:
  assumes "seq_ok c" "unnumbered es" "cf_NextEntrySeq c + int (length es) \<le> max_i64"
  shows "entries_ok (cf_Entries c @ number_from now (cf_NextEntrySeq c) es)"
proof -
  let ?n = "cf_NextEntrySeq c"
  have "sorted_wrt (<) (map (\<lambda>k. ?n + int k) [0..<length es])"
    by (simp add: sorted_wrt_map sorted_wrt_upt)
  moreover have "map he_TurnSeq (cf_Entries c) @ map he_TurnSeq (number_from now ?n es) = map he_TurnSeq (cf_Entries c @ es)"
    by simp
  ultimately show ?thesis
    using assms by (force simp: entries_ok_def numbers_ok_def seq_ok_def unnumbered_def number_from_seqs sorted_wrt_append)
qed

lemma appendEntriesInPlace_fresh:
  assumes "seq_ok c" "unnumbered es" "cf_NextEntrySeq c + int (length es) \<le> max_i64"
  shows "cf_Entries (fst (appendEntriesInPlace now es c)) = cf_Entries c @ number_from now (cf_NextEntrySeq c) es"
    and "snd (appendEntriesInPlace now es c) = number_from now (cf_NextEntrySeq c) es"
  using assms assign_fresh [of es "cf_NextEntrySeq c" now "i64 (cf_NextTurnSeq c - 1)"]
  by (simp_all add: appendEntriesInPlace_def seq_ok_def unnumbered_def Let_def)

lemma unnumbered_reset: "\<forall>e \<in> set es. 0 \<le> he_TurnSeq e \<and> he_TurnSeq e < max_i64 \<Longrightarrow> unnumbered (resetEntrySequences es)"
  by (simp add: unnumbered_def resetEntrySequences_def)

lemma length_reset [simp]: "length (resetEntrySequences es) = length es"
  by (simp add: resetEntrySequences_def)

lemma filter_new_subset: "set (filter_new key seen es) \<subseteq> set es" "length (filter_new key seen es) \<le> length es"
  by (induction key seen es rule: filter_new.induct) (auto split: option.splits intro: le_SucI)

lemma unnumbered_filter [intro]: "unnumbered es \<Longrightarrow> unnumbered (filterDuplicatePromptContextEntries sha old es)"
  using filter_new_subset(1) by (fastforce simp: unnumbered_def filterDuplicatePromptContextEntries_def)

lemma length_filterDuplicate: "length (filterDuplicatePromptContextEntries sha old es) \<le> length es"
  by (simp add: filterDuplicatePromptContextEntries_def filter_new_subset(2))

subsection \<open>Reading and writing the files\<close>

lemma stored_entries_numbers:
  "stored_entries es = Some es' \<Longrightarrow> map he_Seq es' = map he_Seq es \<and> map he_TurnSeq es' = map he_TurnSeq es"
  by (induction es arbitrary: es') (auto split: option.splits)

lemma stored_entries_ok [intro]: "stored_entries es = Some es' \<Longrightarrow> entries_ok es \<Longrightarrow> entries_ok es'"
  by (drule stored_entries_numbers) (simp add: entries_ok_def)

lemma stored_entries_idem: "stored_entries es = Some es' \<Longrightarrow> stored_entries es' = Some es'"
  by (induction es arbitrary: es') (auto simp: stored_payload_def split: option.splits raw_json.splits)

lemma stored_entries_append:
  "stored_entries (es @ fs) = (case (stored_entries es, stored_entries fs) of
     (Some a, Some b) \<Rightarrow> Some (a @ b) | _ \<Rightarrow> None)"
  by (induction es) (auto split: option.splits)

text \<open>The files a running program can leave: metadata is readable, and the entries are numbered.\<close>

definition disk_ok :: "conversation_disk \<Rightarrow> bool" where
  "disk_ok d \<longleftrightarrow> cd_state d \<noteq> FileBad \<and> (case cd_context d of
     FileOk es \<Rightarrow> entries_ok es \<and> stored_entries es = Some es | FileMissing \<Rightarrow> True | FileBad \<Rightarrow> False)"

text \<open>The history a conversation has on disk.\<close>

definition history :: "conversation_disk \<Rightarrow> HistoryEntry list" where
  "history d = (case (cd_state d, cd_context d) of (FileOk _, FileOk es) \<Rightarrow> es | _ \<Rightarrow> [])"

lemma disk_ok_empty [simp]: "disk_ok emptyDisk"
  by (simp add: disk_ok_def emptyDisk_def)

lemma disk_ok_history: "disk_ok d \<Longrightarrow> entries_ok (history d) \<and> stored_entries (history d) = Some (history d)"
  by (auto simp: disk_ok_def history_def entries_ok_def numbers_ok_def split: stored_file.splits)

lemma read_conversation:
  assumes "disk_ok d"
  shows "readConversationLocked env cid d = (case cd_state d of
       FileOk c \<Rightarrow> Inr (Some (normalizeLoadedConversation (se_now env) cid (c\<lparr>cf_Entries := history d\<rparr>)))
     | _ \<Rightarrow> Inr None)"
  using assms
  by (auto simp: disk_ok_def history_def readConversationLocked_def readContextLocked_def split: stored_file.splits)

lemma read_conversation_ok:
  assumes "disk_ok d" "readConversationLocked env cid d = Inr (Some c)"
  shows "conv_ok c" "cf_Entries c = history d"
    "cf_ContextVersion c = contextVersionForEntries (history d)"
  using assms disk_ok_history [OF assms(1)]
  by (auto simp: read_conversation normalizeLoaded_ok split: stored_file.splits)

text \<open>A write of the whole conversation: the context file is old or new, and after success both are new.\<close>

lemma write_json:
  "writeJSONFileAtomic w v old = (f, err) \<Longrightarrow>
     (f = old \<or> (\<exists>x. v = Some x \<and> f = FileOk x)) \<and> (err = None \<longrightarrow> (\<exists>x. v = Some x \<and> f = FileOk x))"
  by (auto simp: writeJSONFileAtomic_def split: option.splits write_outcome.splits)

lemma restore_loop_Entries [simp]: "cf_Entries (restore_loop old c) = cf_Entries c"
  by (simp add: restore_loop_def)

lemma refresh_Entries: "refreshConversationRuntimeState cd now c = Inr c' \<Longrightarrow> cf_Entries c' = cf_Entries c"
  by (auto simp: refreshConversationRuntimeState_def split: sum.splits)

lemma write_meta_spec:
  assumes "writeConversationMetaLocked env cid c d = (d', err, c')"
  shows "cd_context d' = cd_context d" "cf_Entries c' = cf_Entries c"
    "cd_state d' = cd_state d \<or> (\<exists>md. cd_state d' = FileOk md)" "err = None \<Longrightarrow> \<exists>md. cd_state d' = FileOk md"
  using assms
  by (auto simp: writeConversationMetaLocked_def Let_def eq_commute [of "FileOk _" "cd_state d"]
      split: sum.splits prod.splits dest!: refresh_Entries write_json)

text \<open>Files that differ in the metadata only.\<close>

definition touch_state :: "conversation_disk \<Rightarrow> conversation_disk \<Rightarrow> bool" where
  "touch_state d d' \<longleftrightarrow> cd_context d' = cd_context d \<and> (cd_state d' = cd_state d \<or> (\<exists>md. cd_state d' = FileOk md))"

lemma touch_state_refl [simp]: "touch_state d d" by (simp add: touch_state_def)

lemma touch_state_ok:
  assumes "touch_state d d'" "disk_ok d"
  shows "disk_ok d'" "prefix (history d) (history d')"
  using assms by (auto simp: touch_state_def disk_ok_def history_def split: stored_file.splits)

lemma write_snapshot_spec:
  assumes "writeConversationMetaSnapshotLocked env cid c d = (d', err, c')"
  shows "touch_state d d'"
  using assms by (auto simp: touch_state_def writeConversationMetaSnapshotLocked_def Let_def split: prod.splits dest!: write_json)

lemma write_context_spec:
  assumes "writeContextLocked env c d = (d', err)"
  shows "cd_state d' = cd_state d"
    "cd_context d' = cd_context d \<or> (\<exists>es. stored_entries (cf_Entries c) = Some es \<and> cd_context d' = FileOk es)"
    "err = None \<longrightarrow> (\<exists>es. stored_entries (cf_Entries c) = Some es \<and> cd_context d' = FileOk es)"
  using assms by (auto simp: writeContextLocked_def Let_def split: prod.splits dest!: write_json)

lemma write_conversation_spec:
  assumes w: "writeConversationLocked env cid c d = (d', err, c')"
  shows "cf_Entries c' = cf_Entries c"
    and "disk_ok d \<Longrightarrow> entries_ok (cf_Entries c) \<Longrightarrow> disk_ok d'"
    and "history d' = history d \<or> stored_entries (cf_Entries c) = Some (history d')"
    and "err = None \<Longrightarrow> stored_entries (cf_Entries c) = Some (history d') \<and> (\<exists>md. cd_state d' = FileOk md)"
proof -
  let ?c1 = "normalizeLoadedConversation (se_now env) cid c"
  obtain d1 e1 where w1: "writeContextLocked env ?c1 d = (d1, e1)" by (cases "writeContextLocked env ?c1 d")
  note ctx = write_context_spec [OF w1, simplified]
  consider (stop) e where "e1 = Some e" "d' = d1" "err = Some e" "c' = ?c1"
    | (go) "e1 = None" "writeConversationMetaLocked env cid ?c1 d1 = (d', err, c')"
    using w w1 by (cases e1) (auto simp: writeConversationLocked_def Let_def)
  then have "cf_Entries c' = cf_Entries c \<and> (disk_ok d \<longrightarrow> entries_ok (cf_Entries c) \<longrightarrow> disk_ok d') \<and>
      (history d' = history d \<or> stored_entries (cf_Entries c) = Some (history d')) \<and>
      (err = None \<longrightarrow> stored_entries (cf_Entries c) = Some (history d') \<and> (\<exists>md. cd_state d' = FileOk md))"
  proof cases
    case stop
    then show ?thesis using ctx(1,2)
      by (auto simp: disk_ok_def history_def split: stored_file.splits dest: stored_entries_idem)
  next
    case go
    obtain es where es: "stored_entries (cf_Entries c) = Some es" "cd_context d1 = FileOk es" using ctx(3) go(1) by blast
    note meta = write_meta_spec [OF go(2), simplified]
    have "history d' = es \<or> (cd_state d' = cd_state d \<and> history d' = [] \<and> history d = [])"
      using meta(1,3) ctx(1) es by (auto simp: history_def split: stored_file.splits)
    moreover have "disk_ok d \<longrightarrow> entries_ok (cf_Entries c) \<longrightarrow> disk_ok d'"
      using meta(1,3) ctx(1) es by (auto simp: disk_ok_def dest: stored_entries_idem)
    moreover have "err = None \<Longrightarrow> history d' = es \<and> (\<exists>md. cd_state d' = FileOk md)"
      using meta(1,4) es by (auto simp: history_def)
    ultimately show ?thesis using meta(2) es(1) by auto
  qed
  then show "cf_Entries c' = cf_Entries c"
    and "disk_ok d \<Longrightarrow> entries_ok (cf_Entries c) \<Longrightarrow> disk_ok d'"
    and "history d' = history d \<or> stored_entries (cf_Entries c) = Some (history d')"
    and "err = None \<Longrightarrow> stored_entries (cf_Entries c) = Some (history d') \<and> (\<exists>md. cd_state d' = FileOk md)"
    by blast+
qed

end
