(* ===== verification/Conversation_Guarantees.thy ===== *)
theory Conversation_Guarantees
  imports Conversation_Invariants
begin

text \<open>
  The guarantees of the conversation store: the invariant of every store the operations can leave,
  the history as an append-only log, and the equivalence of the two ways to append.
\<close>

subsection \<open>What each operation does to the files of its conversation\<close>

lemma clone_Entries [simp]: "cf_Entries (cloneConversationFile c) = cf_Entries c"
  by (simp add: cloneConversationFile_def)

definition fresh_entries :: "store_env \<Rightarrow> ConversationFile \<Rightarrow> HistoryEntry list \<Rightarrow> HistoryEntry list" where
  "fresh_entries env c es =
     number_from (se_now env) (cf_NextEntrySeq c) (filterDuplicatePromptContextEntries (se_sha env) (cf_Entries c) es)"

lemma append_to_spec:
  assumes c: "seq_ok c" and d: "disk_ok d" and es: "unnumbered es" "cf_NextEntrySeq c + int (length es) \<le> max_i64"
    and ret: "\<And>x. cf_Entries (ret x) = cf_Entries x" and a: "append_to env cid ret es c d = (d', r)"
  shows "disk_ok d'"
    and "history d' = history d \<or> stored_entries (cf_Entries c @ fresh_entries env c es) = Some (history d')"
    and "r = Inr (oc, assigned) \<Longrightarrow> assigned = fresh_entries env c es \<and>
      (\<exists>c2. oc = Some c2 \<and> cf_Entries c2 = cf_Entries c @ assigned) \<and>
      (if assigned = [] then d' = d else stored_entries (cf_Entries c @ assigned) = Some (history d'))"
proof -
  define fresh where "fresh = filterDuplicatePromptContextEntries (se_sha env) (cf_Entries c) es"
  have new: "fresh_entries env c es = number_from (se_now env) (cf_NextEntrySeq c) fresh"
    by (simp add: fresh_entries_def fresh_def)
  have "unnumbered fresh" using es(1) unfolding fresh_def by (rule unnumbered_filter)
  moreover have room: "cf_NextEntrySeq c + int (length fresh) \<le> max_i64"
    using es(2) length_filterDuplicate [of "se_sha env" "cf_Entries c" es] unfolding fresh_def by linarith
  ultimately have app: "appendEntriesInPlace (se_now env) fresh c = (c1, as) \<Longrightarrow>
      cf_Entries c1 = cf_Entries c @ fresh_entries env c es \<and> as = fresh_entries env c es" for c1 as
    using appendEntriesInPlace_fresh [OF c, of fresh "se_now env"] unfolding new by force
  have ok: "entries_ok (cf_Entries c @ fresh_entries env c es)"
    unfolding new by (rule numbers_ok_number_from) (fact c \<open>unnumbered fresh\<close> room)+
  consider (none) "fresh = []" "d' = d" "r = Inr (Some (cloneConversationFile c), [])"
    | (some) c1 err c2 where "fresh \<noteq> []" "cf_Entries c1 = cf_Entries c @ fresh_entries env c es"
        "writeConversationLocked env cid (deriveConversationLoopState c1) d = (d', err, c2)"
        "r = (case err of Some e \<Rightarrow> Inl e | None \<Rightarrow> Inr (Some (ret c2), fresh_entries env c es))"
    using a app
    by (auto simp: append_to_def Let_def finish_write_def fresh_def [symmetric] split: if_splits prod.splits)
  then have "disk_ok d' \<and> (history d' = history d \<or> stored_entries (cf_Entries c @ fresh_entries env c es) = Some (history d')) \<and>
    (r = Inr (oc, assigned) \<longrightarrow> assigned = fresh_entries env c es \<and>
      (\<exists>c2. oc = Some c2 \<and> cf_Entries c2 = cf_Entries c @ assigned) \<and>
      (if assigned = [] then d' = d else stored_entries (cf_Entries c @ assigned) = Some (history d')))"
  proof cases
    case none
    then show ?thesis using d by (auto simp: new)
  next
    case some
    have "fresh_entries env c es \<noteq> []" using some(1) by (simp add: new)
    with write_conversation_spec [OF some(3)] some(2,4) ok d ret show ?thesis by (auto split: option.splits)
  qed
  then show "disk_ok d'"
    and "history d' = history d \<or> stored_entries (cf_Entries c @ fresh_entries env c es) = Some (history d')"
    and "r = Inr (oc, assigned) \<Longrightarrow> assigned = fresh_entries env c es \<and>
      (\<exists>c2. oc = Some c2 \<and> cf_Entries c2 = cf_Entries c @ assigned) \<and>
      (if assigned = [] then d' = d else stored_entries (cf_Entries c @ assigned) = Some (history d'))"
    by blast+
qed

text \<open>The conversation an operation works on: what is on disk, or a new one.\<close>

definition current :: "store_env \<Rightarrow> string \<Rightarrow> conversation_disk \<Rightarrow> ConversationFile" where
  "current env cid d = (case cd_state d of
       FileOk c \<Rightarrow> normalizeLoadedConversation (se_now env) cid (c\<lparr>cf_Entries := history d\<rparr>)
     | _ \<Rightarrow> newConversation env cid)"

lemma newConversation_ok [simp]: "conv_ok (newConversation env cid)" "cf_Entries (newConversation env cid) = []"
  "cf_NextEntrySeq (newConversation env cid) = 1"
  by (simp_all add: conv_ok_def seq_ok_def newConversation_def emptyConversation_def entries_ok_def numbers_ok_def)

lemma conv_ok_Mode [simp]: "conv_ok (c\<lparr>cf_Mode := m\<rparr>) = conv_ok c" by (simp add: conv_ok_def seq_ok_def)

lemma current_ok:
  assumes "disk_ok d" shows "conv_ok (current env cid d)" "cf_Entries (current env cid d) = history d"
  using disk_ok_history [OF assms] by (auto simp: current_def normalizeLoaded_ok history_def split: stored_file.splits)

lemma read_current:
  "disk_ok d \<Longrightarrow> readConversationLocked env cid d =
     Inr (case cd_state d of FileOk _ \<Rightarrow> Some (current env cid d) | _ \<Rightarrow> None)"
  by (auto simp: read_conversation current_def split: stored_file.splits)

lemma append_body_current:
  assumes "disk_ok d"
  obtains c where "append_body env es cid d = append_to env cid cloneConversationFile es c d"
    "conv_ok c" "cf_Entries c = history d" "cf_NextEntrySeq c = cf_NextEntrySeq (current env cid d)"
    "c = (current env cid d)\<lparr>cf_Mode := cf_Mode c\<rparr>"
proof (cases "cd_state d")
  case (FileOk c)
  then show ?thesis using that [of "current env cid d"] assms
    by (simp add: append_body_def read_current current_ok)
next
  case FileMissing
  then have "history d = []" by (simp add: history_def)
  then show ?thesis using that [of "(newConversation env cid)\<lparr>cf_Mode := ''agent''\<rparr>"] FileMissing assms
    by (simp add: append_body_def read_current modeAlias_def normalizeMode_def current_def)
qed (use assms in \<open>simp add: disk_ok_def\<close>)

lemma append_body_spec:
  assumes d: "disk_ok d" and es: "unnumbered es" "cf_NextEntrySeq (current env cid d) + int (length es) \<le> max_i64"
    and a: "append_body env es cid d = (d', r)"
  defines "new \<equiv> number_from (se_now env) (cf_NextEntrySeq (current env cid d))
    (filterDuplicatePromptContextEntries (se_sha env) (history d) es)"
  shows "disk_ok d'"
    and "history d' = history d \<or> (\<exists>new'. stored_entries new = Some new' \<and> history d' = history d @ new')"
    and "r = Inr (oc, assigned) \<Longrightarrow> assigned = new \<and> (\<exists>c. oc = Some c \<and> cf_Entries c = history d @ new) \<and>
      (\<exists>new'. stored_entries new = Some new' \<and> history d' = history d @ new')"
proof -
  obtain c where c: "append_to env cid cloneConversationFile es c d = (d', r)" "conv_ok c" "cf_Entries c = history d"
    "cf_NextEntrySeq c = cf_NextEntrySeq (current env cid d)"
    using append_body_current [OF d, of env es cid] a by metis
  have new: "fresh_entries env c es = new" using c by (simp add: fresh_entries_def new_def)
  have room: "cf_NextEntrySeq c + int (length es) \<le> max_i64" using es c by simp
  note spec = append_to_spec [OF conv_seq_ok [OF c(2)] d es(1) room clone_Entries c(1), unfolded new c(3)]
  have stored: "stored_entries (history d @ new) = Some h \<longleftrightarrow> (\<exists>new'. stored_entries new = Some new' \<and> h = history d @ new')" for h
    using disk_ok_history [OF d] by (auto simp: stored_entries_append split: option.splits)
  show "disk_ok d'" by (fact spec(1))
  show "history d' = history d \<or> (\<exists>new'. stored_entries new = Some new' \<and> history d' = history d @ new')"
    using spec(2) unfolding stored .
  show "assigned = new \<and> (\<exists>c. oc = Some c \<and> cf_Entries c = history d @ new) \<and>
      (\<exists>new'. stored_entries new = Some new' \<and> history d' = history d @ new')" if "r = Inr (oc, assigned)"
    using spec(3) [OF that] stored [of "history d'"] by (auto split: if_splits)
qed

lemma update_body_touch: "update_body env upd cid d = (d', r) \<Longrightarrow> touch_state d d'"
  by (auto simp: update_body_def finish_write_def split: sum.splits prod.splits dest!: write_snapshot_spec)

text \<open>A write of entries that extend the history on disk extends it or leaves it alone.\<close>

lemma finish_write_spec:
  assumes "finish_write (writeConversationLocked env cid c d) ret = (d', r)" "disk_ok d" "entries_ok (cf_Entries c)"
  shows "disk_ok d'" "cf_Entries c = history d @ new \<Longrightarrow> prefix (history d) (history d')"
    "r = Inr x \<Longrightarrow> stored_entries (cf_Entries c) = Some (history d')"
proof -
  obtain d1 err c1 where w: "writeConversationLocked env cid c d = (d1, err, c1)"
    by (cases "writeConversationLocked env cid c d") auto
  then have d': "d' = d1" "r = (case err of Some e \<Rightarrow> Inl e | None \<Rightarrow> Inr (ret c1))"
    using assms(1) by (simp_all add: finish_write_def)
  note spec = write_conversation_spec [OF w]
  show "disk_ok d'" using spec(2) assms(2,3) d' by simp
  show "prefix (history d) (history d')" if "cf_Entries c = history d @ new"
    using spec(3) disk_ok_history [OF assms(2)] d' that
    by (auto simp: stored_entries_append prefix_def eq_commute [of _ "history d1"] split: option.splits)
  show "stored_entries (cf_Entries c) = Some (history d')" if "r = Inr x"
    using spec(4) d' that by (auto split: option.splits)
qed

lemma create_body_spec:
  assumes "create_body env mode p t root prof cid d = (d', r)" "disk_ok d"
  shows "disk_ok d'" "prefix (history d) (history d')"
proof -
  have "disk_ok d' \<and> prefix (history d) (history d')"
  proof (cases "cd_state d")
    case FileMissing
    then have "history d = []" by (simp add: history_def)
    with assms FileMissing show ?thesis
      by (auto simp: create_body_def readConversationMetaLocked_def Let_def emptyConversation_def entries_ok_def numbers_ok_def
          split: sum.splits dest!: finish_write_spec(1))
  next
    case FileBad
    then show ?thesis using assms(2) by (simp add: disk_ok_def)
  next
    case (FileOk c)
    then have "touch_state d d'" using assms(1)
      by (auto simp: create_body_def readConversationMetaLocked_def finish_write_def
          split: sum.splits prod.splits if_splits dest!: write_snapshot_spec)
    then show ?thesis using touch_state_ok assms(2) by blast
  qed
  then show "disk_ok d'" "prefix (history d) (history d')" by blast+
qed

lemma merge_ok:
  assumes "conv_ok c" shows "conv_ok (mergeConversationMetadata c s)" "cf_Entries (mergeConversationMetadata c s) = cf_Entries c"
    "cf_NextEntrySeq (mergeConversationMetadata c s) = max (cf_NextEntrySeq s) (cf_NextEntrySeq c)"
  using assms by (auto simp: conv_ok_def seq_ok_def mergeConversationMetadata_def Let_def)

text \<open>Where the numbering of a save starts.\<close>

definition save_start :: "store_env \<Rightarrow> ConversationFile option \<Rightarrow> string \<Rightarrow> conversation_disk \<Rightarrow> int" where
  "save_start env source cid d = (case source of
     None \<Rightarrow> cf_NextEntrySeq (current env cid d) | Some s \<Rightarrow> max (cf_NextEntrySeq s) (cf_NextEntrySeq (current env cid d)))"

definition turns_ok :: "HistoryEntry list \<Rightarrow> bool" where
  "turns_ok es \<longleftrightarrow> (\<forall>e \<in> set es. 0 \<le> he_TurnSeq e \<and> he_TurnSeq e < max_i64)"

lemma save_body_spec:
  assumes "save_body env source es cid d = (d', r)" "disk_ok d" "turns_ok es"
    "save_start env source cid d + int (length es) \<le> max_i64"
  shows "disk_ok d'" "prefix (history d) (history d')"
proof -
  let ?c = "current env cid d"
  define c1 where "c1 = (case source of Some s \<Rightarrow> mergeConversationMetadata ?c s | None \<Rightarrow> ?c)"
  define c2 where "c2 = fst (appendEntriesInPlace (se_now env) (resetEntrySequences es) c1)"
  have c1: "conv_ok c1" "cf_Entries c1 = history d" "cf_NextEntrySeq c1 = save_start env source cid d"
    using current_ok [OF assms(2), of env cid] by (simp_all add: c1_def merge_ok save_start_def split: option.split)
  have un: "unnumbered (resetEntrySequences es)" using assms(3) by (intro unnumbered_reset) (simp add: turns_ok_def)
  have room: "cf_NextEntrySeq c1 + int (length (resetEntrySequences es)) \<le> max_i64" using assms(4) c1(3) by simp
  have c2: "cf_Entries c2 = history d @ number_from (se_now env) (cf_NextEntrySeq c1) (resetEntrySequences es)"
    unfolding c2_def using appendEntriesInPlace_fresh(1) [OF conv_seq_ok [OF c1(1)] un room] c1(2) by simp
  have ok: "entries_ok (cf_Entries c2)" unfolding c2 using numbers_ok_number_from [OF conv_seq_ok [OF c1(1)] un room] c1(2) by simp
  have "(case (case cd_state d of FileOk _ \<Rightarrow> Some ?c | _ \<Rightarrow> None) of Some c \<Rightarrow> c | None \<Rightarrow> newConversation env cid) = ?c"
    by (simp add: current_def split: stored_file.split)
  then have "finish_write (writeConversationLocked env cid (deriveConversationLoopState c2) d) cloneConversationFile = (d', r)"
    using assms(1) by (simp add: save_body_def read_current [OF assms(2)] Let_def c1_def c2_def)
  from finish_write_spec(1,2) [OF this assms(2)] ok c2 show "disk_ok d'" "prefix (history d) (history d')" by auto
qed

text \<open>An update callback that leaves the entries alone.\<close>

definition keeps_entries :: "(ConversationFile \<Rightarrow> string + ConversationFile) \<Rightarrow> bool" where
  "keeps_entries upd \<longleftrightarrow> (\<forall>c c'. upd c = Inr c' \<longrightarrow> cf_Entries c' = cf_Entries c)"

lemma replace_body_spec:
  assumes "replace_body env es upd cid d = (d', r)" "disk_ok d" "turns_ok es" "int (length es) < max_i64" "keeps_entries upd"
  shows "disk_ok d'"
    and "r = Inr x \<Longrightarrow> stored_entries (number_from (se_now env) 1 (resetEntrySequences es)) = Some (history d')"
proof -
  define c1 where "c1 = (current env cid d)\<lparr>cf_Entries := [], cf_NextEntrySeq := 1, cf_NextTurnSeq := 1\<rparr>"
  define c2 where "c2 = fst (appendEntriesInPlace (se_now env) (resetEntrySequences es) c1)"
  have c1: "conv_ok c1" "cf_Entries c1 = []" "cf_NextEntrySeq c1 = 1"
    by (simp_all add: c1_def conv_ok_def seq_ok_def entries_ok_def numbers_ok_def)
  have un: "unnumbered (resetEntrySequences es)" using assms(3) by (intro unnumbered_reset) (simp add: turns_ok_def)
  have room: "cf_NextEntrySeq c1 + int (length (resetEntrySequences es)) \<le> max_i64" using assms(4) c1(3) by simp
  have c2: "cf_Entries c2 = number_from (se_now env) 1 (resetEntrySequences es)"
    unfolding c2_def using appendEntriesInPlace_fresh(1) [OF conv_seq_ok [OF c1(1)] un room] c1(2,3) by simp
  have ok: "entries_ok (cf_Entries c2)" unfolding c2 using numbers_ok_number_from [OF conv_seq_ok [OF c1(1)] un room] c1(2,3) by simp
  have "(case (case cd_state d of FileOk _ \<Rightarrow> Some (current env cid d) | _ \<Rightarrow> None) of
      Some c \<Rightarrow> c | None \<Rightarrow> newConversation env cid) = current env cid d"
    by (simp add: current_def split: stored_file.split)
  then have body: "replace_body env es upd cid d = (case upd c2 of
      Inl err \<Rightarrow> (d, Inl (UpdateFailed err))
    | Inr c3 \<Rightarrow> finish_write (writeConversationLocked env cid (deriveConversationLoopState c3) d) cloneConversationFile)"
    by (simp add: replace_body_def read_current [OF assms(2)] Let_def c1_def c2_def split: sum.split)
  have "disk_ok d' \<and> (r = Inr x \<longrightarrow> stored_entries (cf_Entries c2) = Some (history d'))"
  proof (cases "upd c2")
    case Inl
    then show ?thesis using assms(1,2) body by auto
  next
    case (Inr c3)
    then have "cf_Entries c3 = cf_Entries c2" using assms(5) by (simp add: keeps_entries_def)
    moreover have w: "finish_write (writeConversationLocked env cid (deriveConversationLoopState c3) d) cloneConversationFile = (d', r)"
      using Inr assms(1) body by simp
    ultimately show ?thesis using finish_write_spec(1,3) [OF w assms(2)] ok by auto
  qed
  then show "disk_ok d'"
    and "r = Inr x \<Longrightarrow> stored_entries (number_from (se_now env) 1 (resetEntrySequences es)) = Some (history d')"
    unfolding c2 by blast+
qed

lemma snapshot_body_cases:
  assumes "disk_ok d"
  shows "append_snapshot_body env snapshot es cid d = (case cd_state d of
      FileOk md \<Rightarrow>
        if snapshot_matches (normalizeConversationMetadata (se_now env) cid md) snapshot
        then append_to env cid id es ((normalizeConversationMetadata (se_now env) cid md)\<lparr>cf_Entries := cf_Entries snapshot\<rparr>) d
        else append_to env cid id es (current env cid d) d
    | _ \<Rightarrow> append_to env cid id es (cloneConversationFile snapshot) d)"
proof (cases "cd_state d")
  case (FileOk md)
  then have "readConversationMetaLocked env cid d = Inr (Some ((normalizeConversationMetadata (se_now env) cid md)\<lparr>cf_Entries := []\<rparr>))"
    by (simp add: readConversationMetaLocked_def)
  moreover have "snapshot_matches (c\<lparr>cf_Entries := []\<rparr>) snapshot = snapshot_matches c snapshot" for c
    by (simp add: snapshot_matches_def)
  ultimately show ?thesis
    using FileOk by (simp add: append_snapshot_body_def read_current [OF assms])
next
  case FileBad
  then show ?thesis using assms by (simp add: disk_ok_def)
qed (use assms in \<open>simp add: append_snapshot_body_def readConversationMetaLocked_def read_current [OF assms]\<close>)

text \<open>A snapshot that is usable: its numbers are in order and within its counters.\<close>

lemma metadata_counters [simp]:
  "cf_NextEntrySeq (normalizeConversationMetadata now cid c) = (if cf_NextEntrySeq c \<le> 0 then 1 else cf_NextEntrySeq c)"
  "cf_NextTurnSeq (normalizeConversationMetadata now cid c) = (if cf_NextTurnSeq c \<le> 0 then 1 else cf_NextTurnSeq c)"
  "cf_Entries (normalizeConversationMetadata now cid c) = cf_Entries c"
  by (simp_all add: normalizeConversationMetadata_def)

lemma snapshot_body_ok:
  assumes "append_snapshot_body env snapshot es cid d = (d', r)" "disk_ok d" "conv_ok snapshot" "unnumbered es"
    "cf_NextEntrySeq snapshot + int (length es) \<le> max_i64" "cf_NextEntrySeq (current env cid d) + int (length es) \<le> max_i64"
  shows "disk_ok d'"
proof -
  have ok: "disk_ok d'" if "append_to env cid id es c d = (d', r)" "seq_ok c" "cf_NextEntrySeq c + int (length es) \<le> max_i64" for c
    using append_to_spec(1) [OF that(2) assms(2,4) that(3) _ that(1)] by simp
  have snap: "seq_ok snapshot" using assms(3) by blast
  consider (fast) md where "cd_state d = FileOk md" "snapshot_matches (normalizeConversationMetadata (se_now env) cid md) snapshot"
    | (slow) "append_to env cid id es (current env cid d) d = (d', r)"
    | (none) "append_to env cid id es (cloneConversationFile snapshot) d = (d', r)"
    using assms(1) by (auto simp: snapshot_body_cases [OF assms(2)] split: stored_file.splits if_splits)
  then show ?thesis
  proof cases
    case fast
    let ?md = "normalizeConversationMetadata (se_now env) cid md"
    have "cf_NextEntrySeq ?md = cf_NextEntrySeq snapshot" using fast(2) unfolding snapshot_matches_def by blast
    then have "seq_ok (?md\<lparr>cf_Entries := cf_Entries snapshot\<rparr>)"
      "cf_NextEntrySeq (?md\<lparr>cf_Entries := cf_Entries snapshot\<rparr>) + int (length es) \<le> max_i64"
      using snap assms(5) by (auto simp: seq_ok_def simp del: metadata_counters)
    moreover have "append_to env cid id es (?md\<lparr>cf_Entries := cf_Entries snapshot\<rparr>) d = (d', r)"
      using assms(1) fast by (simp add: snapshot_body_cases [OF assms(2)])
    ultimately show ?thesis by (intro ok)
  next
    case slow
    then show ?thesis using ok current_ok(1) [OF assms(2)] assms(6) by blast
  next
    case none
    have "seq_ok (cloneConversationFile snapshot)" "cf_NextEntrySeq (cloneConversationFile snapshot) = cf_NextEntrySeq snapshot"
      using snap by (simp_all add: seq_ok_def cloneConversationFile_def)
    then show ?thesis using ok none assms(5) by simp
  qed
qed

text \<open>Whether the entries of a snapshot may be taken for the stored ones: its version, its counter and its
  time of change are those of the file.\<close>

definition taken_over :: "store_env \<Rightarrow> string \<Rightarrow> ConversationFile \<Rightarrow> conversation_disk \<Rightarrow> bool" where
  "taken_over env cid snapshot d = (case readConversationMetaLocked env cid d of
       Inr (Some md) \<Rightarrow> cf_ContextVersion md = cf_ContextVersion snapshot \<and> cf_NextEntrySeq md = cf_NextEntrySeq snapshot \<and>
         cf_UpdatedAt md = cf_UpdatedAt snapshot
     | _ \<Rightarrow> False)"

lemma snapshot_body_extends:
  assumes "append_snapshot_body env snapshot es cid d = (d', r)" "disk_ok d" "conv_ok snapshot" "unnumbered es"
    "cf_NextEntrySeq snapshot + int (length es) \<le> max_i64" "cf_NextEntrySeq (current env cid d) + int (length es) \<le> max_i64"
    "taken_over env cid snapshot d \<longrightarrow> stored_entries (cf_Entries snapshot) = Some (history d)"
  shows "prefix (history d) (history d')"
proof -
  have ext: "prefix (history d) (history d')" if "append_to env cid id es c d = (d', r)" "seq_ok c"
      "cf_NextEntrySeq c + int (length es) \<le> max_i64" "stored_entries (cf_Entries c) = Some (history d)" for c
    using append_to_spec(2) [OF that(2) assms(2,4) that(3) _ that(1)] that(4)
    by (auto simp: stored_entries_append prefix_def eq_commute [of _ "history d'"] split: option.splits)
  have snap: "seq_ok snapshot" using assms(3) by blast
  show ?thesis
  proof (cases "cd_state d")
    case (FileOk md)
    let ?md = "normalizeConversationMetadata (se_now env) cid md"
    show ?thesis
    proof (cases "snapshot_matches ?md snapshot")
      case True
      then have "cf_NextEntrySeq ?md = cf_NextEntrySeq snapshot" unfolding snapshot_matches_def by blast
      then have "seq_ok (?md\<lparr>cf_Entries := cf_Entries snapshot\<rparr>)"
        "cf_NextEntrySeq (?md\<lparr>cf_Entries := cf_Entries snapshot\<rparr>) + int (length es) \<le> max_i64"
        using snap assms(5) by (auto simp: seq_ok_def simp del: metadata_counters)
      moreover have "taken_over env cid snapshot d"
        using FileOk True by (simp add: taken_over_def readConversationMetaLocked_def snapshot_matches_def)
      ultimately show ?thesis using assms(1,7) FileOk True ext by (simp add: snapshot_body_cases [OF assms(2)])
    next
      case False
      then show ?thesis using assms(1,6) FileOk ext current_ok [OF assms(2), of env cid] disk_ok_history [OF assms(2)]
        by (auto simp: snapshot_body_cases [OF assms(2)])
    qed
  qed (simp_all add: history_def)
qed

subsection \<open>The store as a whole\<close>

definition store_ok :: "store \<Rightarrow> bool" where
  "store_ok st \<longleftrightarrow> (\<forall>cid. disk_ok (st cid))"

datatype store_op =
    OpCreate store_env string AgentMode string string string string
  | OpAppend store_env string "HistoryEntry list"
  | OpAppendSnapshot store_env string ConversationFile "HistoryEntry list"
  | OpSave store_env string "ConversationFile option" "HistoryEntry list"
  | OpUpdate store_env string "ConversationFile \<Rightarrow> string + ConversationFile"
  | OpReplace store_env string "HistoryEntry list" "ConversationFile \<Rightarrow> string + ConversationFile"
  | OpLoad store_env string

fun run_op :: "store_op \<Rightarrow> store \<Rightarrow> store" where
  "run_op (OpCreate env cid mode p t root prof) st = fst (createConversation env cid mode p t root prof st)"
| "run_op (OpAppend env cid es) st = fst (AppendEntries env cid es st)"
| "run_op (OpAppendSnapshot env cid s es) st = fst (AppendEntriesFromSnapshot env cid (Some s) es st)"
| "run_op (OpSave env cid s es) st = fst (SaveConversationWithEntries env cid s es st)"
| "run_op (OpUpdate env cid upd) st = fst (UpdateConversationMeta env cid upd st)"
| "run_op (OpReplace env cid es upd) st = fst (ReplaceEntries env cid es upd st)"
| "run_op (OpLoad env cid) st = fst (LoadConversation env cid st)"

text \<open>What the callers guarantee: entries to append are unnumbered, turns are non-negative, there is
  room for the numbers in \<open>int64\<close>, snapshots are conversations, and the callback of a replacement
  leaves the entries alone.\<close>

definition room :: "store_env \<Rightarrow> string \<Rightarrow> nat \<Rightarrow> store \<Rightarrow> bool" where
  "room env conversationID k st \<longleftrightarrow>
     (\<forall>cid. validateConversationID (se_separator env) conversationID = Inr cid \<longrightarrow>
        cf_NextEntrySeq (current env cid (st cid)) + int k \<le> max_i64)"

fun admissible :: "store_op \<Rightarrow> store \<Rightarrow> bool" where
  "admissible (OpAppend env cid es) st \<longleftrightarrow> unnumbered es \<and> room env cid (length es) st"
| "admissible (OpAppendSnapshot env cid s es) st \<longleftrightarrow> unnumbered es \<and> room env cid (length es) st \<and> conv_ok s \<and>
     cf_NextEntrySeq s + int (length es) \<le> max_i64"
| "admissible (OpSave env cid s es) st \<longleftrightarrow> turns_ok es \<and>
     (\<forall>n. validateConversationID (se_separator env) cid = Inr n \<longrightarrow> save_start env s n (st n) + int (length es) \<le> max_i64)"
| "admissible (OpReplace env cid es upd) st \<longleftrightarrow> turns_ok es \<and> int (length es) < max_i64 \<and> keeps_entries upd"
| "admissible _ st \<longleftrightarrow> True"

text \<open>The operations that extend the history: all but a replacement.  Of an append from a snapshot: when the
  metadata of the snapshot are those stored, so that it is taken over, its entries are the stored ones.\<close>

fun extending :: "store_op \<Rightarrow> store \<Rightarrow> bool" where
  "extending (OpReplace env cid es upd) st \<longleftrightarrow> False"
| "extending (OpAppendSnapshot env cid s es) st \<longleftrightarrow>
     (\<forall>n. validateConversationID (se_separator env) cid = Inr n \<and> taken_over env n s (st n) \<longrightarrow>
       stored_entries (cf_Entries s) = Some (history (st n)))"
| "extending _ st \<longleftrightarrow> True"

lemma locked_effect:
  assumes "\<And>n d r. validateConversationID (se_separator env) cid = Inr n \<Longrightarrow> body n (st n) = (d, r) \<Longrightarrow> P (st n) d" "\<And>d. P d d"
  shows "P (st k) (fst (locked env cid body st) k)"
  using assms by (auto simp: locked_def split: sum.splits prod.splits)

lemma locked_ok:
  assumes "\<And>n d r. validateConversationID (se_separator env) cid = Inr n \<Longrightarrow> body n (st n) = (d, r) \<Longrightarrow> disk_ok d"
    "\<And>n. disk_ok (st n)"
  shows "disk_ok (fst (locked env cid body st) k)"
  using assms by (auto simp: locked_def split: sum.splits prod.splits)

lemma load_effect [simp]: "fst (LoadConversation env cid st) = st"
  by (auto simp: LoadConversation_def mutateConversation_def locked_def mutate_body_def Let_def
      split: sum.splits prod.splits option.splits)

lemma append_effect:
  "fst (AppendEntries env cid es st) = (if es = [] then st else fst (locked env cid (append_body env es) st))"
  using load_effect [of env cid st]
  by (cases "LoadConversation env cid st") (simp add: AppendEntries_def split: sum.split)

lemmas op_defs = createConversation_def SaveConversationWithEntries_def UpdateConversationMeta_def ReplaceEntries_def
  AppendEntriesFromSnapshot_def append_effect

lemma run_op_ok:
  assumes "store_ok st" "admissible op st"
  shows "store_ok (run_op op st)"
proof -
  have d: "disk_ok (st n)" for n using assms(1) by (simp add: store_ok_def)
  have app: "append_body env es cid (st cid) = (d', r) \<Longrightarrow> unnumbered es \<Longrightarrow>
      cf_NextEntrySeq (current env cid (st cid)) + int (length es) \<le> max_i64 \<Longrightarrow> disk_ok d'" for env es cid d' r
    using append_body_spec(1) [OF d] by blast
  have upd: "update_body env u cid (st cid) = (d', r) \<Longrightarrow> disk_ok d'" for env u cid d' r
    using update_body_touch touch_state_ok(1) d by blast
  have "disk_ok (run_op op st k)" for k
    using assms(2) d
    by (cases op)
      (auto simp: op_defs room_def intro!: locked_ok
        dest: create_body_spec(1) app snapshot_body_ok save_body_spec(1) upd replace_body_spec(1))
  then show ?thesis by (simp add: store_ok_def)
qed

lemma run_op_extends:
  assumes "store_ok st" "admissible op st" "extending op st"
  shows "prefix (history (st k)) (history (run_op op st k))"
proof -
  have d: "disk_ok (st n)" for n using assms(1) by (simp add: store_ok_def)
  have app: "append_body env es cid (st cid) = (d', r) \<Longrightarrow> unnumbered es \<Longrightarrow>
      cf_NextEntrySeq (current env cid (st cid)) + int (length es) \<le> max_i64 \<Longrightarrow> prefix (history (st cid)) (history d')" for env es cid d' r
    using append_body_spec(2) [OF d] by (force simp: prefix_def)
  show ?thesis
    using assms(2,3) d
    by (cases op)
      (auto simp: op_defs room_def split: option.splits
        intro!: locked_effect [where P = "\<lambda>d d'. prefix (history d) (history d')"]
        dest: create_body_spec(2) app snapshot_body_extends save_body_spec(2) update_body_touch touch_state_ok(2))
qed

end
