(* ===== verification/Store_Log.thy ===== *)
theory Store_Log
  imports Conversation_Guarantees
begin

text \<open>
  The conversation store as an append-only log: the interface of a system whose operations keep an
  invariant and extend a log, its interpretation on the store, and the properties of the store that
  follow.
\<close>

subsection \<open>Logs\<close>

primrec good_run :: "('op \<Rightarrow> 's \<Rightarrow> 's) \<Rightarrow> ('op \<Rightarrow> 's \<Rightarrow> bool) \<Rightarrow> 'op list \<Rightarrow> 's \<Rightarrow> bool" where
  "good_run step p [] s \<longleftrightarrow> True"
| "good_run step p (a # as) s \<longleftrightarrow> p a s \<and> good_run step p as (step a s)"

locale logged_system =
  fixes step :: "'op \<Rightarrow> 's \<Rightarrow> 's"
    and allowed :: "'op \<Rightarrow> 's \<Rightarrow> bool"
    and extends :: "'op \<Rightarrow> 's \<Rightarrow> bool"
    and inv_ok :: "'s \<Rightarrow> bool"
    and log :: "'s \<Rightarrow> 'e list"
  assumes step_inv: "inv_ok s \<Longrightarrow> allowed a s \<Longrightarrow> inv_ok (step a s)"
    and step_log: "inv_ok s \<Longrightarrow> allowed a s \<Longrightarrow> extends a s \<Longrightarrow> prefix (log s) (log (step a s))"
begin

lemma run_inv: "inv_ok s \<Longrightarrow> good_run step allowed as s \<Longrightarrow> inv_ok (fold step as s)"
  by (induction as arbitrary: s) (simp_all add: step_inv)

lemma run_log:
  "inv_ok s \<Longrightarrow> good_run step (\<lambda>a s. allowed a s \<and> extends a s) as s \<Longrightarrow> prefix (log s) (log (fold step as s))"
proof (induction as arbitrary: s)
  case (Cons a as)
  then have "prefix (log s) (log (step a s))" by (simp add: step_log)
  also have "prefix (log (step a s)) (log (fold step as (step a s)))" using Cons by (simp add: step_inv)
  finally show ?case by simp
qed simp

lemma log_kept_nth:
  assumes "inv_ok s" "good_run step (\<lambda>a s. allowed a s \<and> extends a s) as s" "i < length (log s)"
  shows "log (fold step as s) ! i = log s ! i"
  using run_log [OF assms(1,2)] assms(3) by (auto simp: prefix_def nth_append)

end

interpretation conversation_log: logged_system run_op admissible extending store_ok "\<lambda>st. history (st cid)" for cid
  by unfold_locales (auto intro: run_op_ok run_op_extends)

text \<open>The stores a program can leave behind, whatever fails on the way.\<close>

inductive store_reach :: "store \<Rightarrow> bool" where
  reach_empty: "store_reach (\<lambda>_. emptyDisk)"
| reach_step: "store_reach st \<Longrightarrow> admissible op st \<Longrightarrow> store_reach (run_op op st)"

lemma store_reach_ok: "store_reach st \<Longrightarrow> store_ok st"
  by (induction rule: store_reach.induct) (simp_all add: store_ok_def run_op_ok [unfolded store_ok_def])

lemma store_reach_disk: "store_reach st \<Longrightarrow> disk_ok (st cid)"
  using store_reach_ok by (simp add: store_ok_def)

lemma load_spec:
  assumes "disk_ok (st cid)" "validateConversationID (se_separator env) conversationID = Inr cid" "se_mkdir env" "se_lock env"
  shows "LoadConversation env conversationID st = (st, Inr (case cd_state (st cid) of
     FileOk _ \<Rightarrow> Some (cloneConversationFile (current env cid (st cid))) | _ \<Rightarrow> None))"
  using assms
  by (simp add: LoadConversation_def mutateConversation_def locked_def mutate_body_def Let_def read_current split: stored_file.split)

lemma contextVersion_bound: "e \<in> set es \<Longrightarrow> he_Seq e \<le> contextVersionForEntries es"
  unfolding contextVersion_max by (rule fold_max_mem) simp

lemma current_version:
  "disk_ok d \<Longrightarrow> cd_state d = FileOk c \<Longrightarrow> cf_ContextVersion (current env cid d) = contextVersionForEntries (history d)"
  using disk_ok_history [of d] by (simp add: current_def normalizeLoaded_ok)

text \<open>C28. Every conversation that the store can hold loads, and loads well-formed: for any sequence
  of creations, appends, saves, metadata updates and replacements, in which any write of either
  file may have failed or have been reported as failed, loading a conversation succeeds, changes
  nothing, and gives entries with strictly increasing positive numbers, none above the context
  version, all below the counters for the next entry and the next turn.\<close>

theorem stored_conversation_loads:
  assumes "store_reach st" "validateConversationID (se_separator env) conversationID = Inr cid" "se_mkdir env" "se_lock env"
  shows "\<exists>r. LoadConversation env conversationID st = (st, Inr r) \<and>
    (\<forall>c. r = Some c \<longrightarrow> cf_Entries c = history (st cid) \<and> sorted_wrt (<) (map he_Seq (cf_Entries c)) \<and>
       (\<forall>e \<in> set (cf_Entries c). 0 < he_Seq e \<and> he_Seq e \<le> cf_ContextVersion c \<and>
          he_Seq e < cf_NextEntrySeq c \<and> he_TurnSeq e < cf_NextTurnSeq c))"
proof -
  have d: "disk_ok (st cid)" using assms(1) by (rule store_reach_disk)
  note cur = current_ok [OF d, of env cid]
  have clone: "cf_ContextVersion (cloneConversationFile c) = cf_ContextVersion c"
    "cf_NextEntrySeq (cloneConversationFile c) = cf_NextEntrySeq c" "cf_NextTurnSeq (cloneConversationFile c) = cf_NextTurnSeq c" for c
    by (simp_all add: cloneConversationFile_def)
  show ?thesis
    using cur current_version [OF d] contextVersion_bound
    by (simp add: load_spec [of st cid, OF d assms(2-4)] clone conv_ok_def seq_ok_def entries_ok_def numbers_ok_def split: stored_file.split)
qed

text \<open>C29. \<open>AppendEntries\<close> with unnumbered entries is atomic and numbers them consecutively.  Entries that repeat
  a prompt context are left out first; of the others, the new entries, all or none are added: whatever
  fails, the history on disk afterwards is the old one, or the old one followed by the new entries,
  numbered from the next free number; when the call succeeds it is the
  latter, and the call returns the new entries and the conversation they end; and no other
  conversation is touched.\<close>

theorem append_entries_atomic:
  fixes st :: store
  assumes "store_reach st" "validateConversationID (se_separator env) conversationID = Inr cid"
    and "unnumbered es" "es \<noteq> []" "room env conversationID (length es) st"
    and "AppendEntries env conversationID es st = (st', r)"
  defines "old \<equiv> history (st cid)"
    and "new \<equiv> number_from (se_now env) (cf_NextEntrySeq (current env cid (st cid)))
      (filterDuplicatePromptContextEntries (se_sha env) (history (st cid)) es)"
  shows "(\<forall>k. k \<noteq> cid \<longrightarrow> st' k = st k) \<and>
    (history (st' cid) = old \<or> (\<exists>new'. stored_entries new = Some new' \<and> history (st' cid) = old @ new')) \<and>
    (\<forall>oc assigned. r = Inr (oc, assigned) \<longrightarrow> assigned = new \<and> (\<exists>c. oc = Some c \<and> cf_Entries c = old @ new) \<and>
       (\<exists>new'. stored_entries new = Some new' \<and> history (st' cid) = old @ new'))"
proof -
  have d: "disk_ok (st cid)" using assms(1) by (rule store_reach_disk)
  have rm: "cf_NextEntrySeq (current env cid (st cid)) + int (length es) \<le> max_i64"
    using assms(2,5) by (simp add: room_def)
  obtain d' r' where b: "append_body env es cid (st cid) = (d', r')" by (cases "append_body env es cid (st cid)")
  note spec = append_body_spec [OF d assms(3) rm b, folded old_def new_def]
  consider (run) "st' = st(cid := d')" "r = r'" | (stop) x where "st' = st" "r = Inl x"
    using assms(2,4,6) b by (auto simp: AppendEntries_def locked_def split: if_splits)
  then show ?thesis
    using spec(2) spec(3) [folded old_def new_def] by cases (auto simp: old_def new_def)
qed

text \<open>C30. The history of a conversation is append-only: along any run of loads, creations, appends, saves,
  metadata updates and appends from any snapshots, with any failures, every entry that was visible on
  disk keeps its place, provided that a snapshot which has the stored metadata also has the stored
  entries (after a failed write of the metadata it may not, as \<open>failed_append_overwritten\<close> below shows).
  Replacements, which rewrite history, are left out.\<close>

theorem history_append_only:
  assumes "store_reach st" "good_run run_op (\<lambda>a s. admissible a s \<and> extending a s) ops st"
  shows "prefix (history (st cid)) (history (fold run_op ops st cid))"
  using conversation_log.run_log [OF store_reach_ok [OF assms(1)] assms(2)] .

subsection \<open>A store in use\<close>

definition store_env0 :: store_env where
  "store_env0 = \<lparr>se_now = 7, se_separator = CHR ''/'', se_mkdir = True, se_lock = True, se_context_write = WriteOk,
     se_state_write = WriteOk, se_sha = id,
     se_codecs = \<lparr>decode_runtime_state = (\<lambda>_. None), decode_tool_call = (\<lambda>_. None)\<rparr>\<rparr>"

definition demo_entry :: "string \<Rightarrow> HistoryEntry" where
  "demo_entry kind = \<lparr>he_Seq = 0, he_TurnSeq = 1, he_RequestID = ''r1'', he_Role = ''user'', he_Kind = kind,
     he_ToolCallID = [], he_ParentToolCallID = [], he_Payload = RawJson JNull, he_CreatedAt = 5\<rparr>"

definition demo_store :: store where
  "demo_store = run_op (OpAppend store_env0 ''c1'' [demo_entry ''user_message'']) (\<lambda>_. emptyDisk)"

lemma demo_valid: "validateConversationID (se_separator store_env0) ''c1'' = Inr ''c1''"
  by code_simp

lemma demo_flags: "se_mkdir store_env0" "se_lock store_env0"
  by (simp_all add: store_env0_def)

lemma demo_unnumbered: "unnumbered [demo_entry k]" "turns_ok [demo_entry k]"
  by (simp_all add: unnumbered_def turns_ok_def demo_entry_def)

lemma demo_room_empty: "room store_env0 ''c1'' 1 (\<lambda>_. emptyDisk)"
  by (simp add: room_def demo_valid) code_simp

lemma demo_store_reach: "store_reach demo_store"
  unfolding demo_store_def
  by (rule reach_step [OF reach_empty]) (use demo_room_empty in \<open>simp add: demo_unnumbered\<close>)

lemma demo_room: "room store_env0 ''c1'' 1 demo_store"
  by (simp add: room_def demo_valid) code_simp

theorem stored_conversation_loads_witness:
  "store_reach demo_store \<and> snd (LoadConversation store_env0 ''c1'' demo_store) \<noteq> Inr None \<and>
   (\<exists>r. LoadConversation store_env0 ''c1'' demo_store = (demo_store, Inr r) \<and>
    (\<forall>c. r = Some c \<longrightarrow> cf_Entries c = history (demo_store ''c1'') \<and> sorted_wrt (<) (map he_Seq (cf_Entries c)) \<and>
       (\<forall>e \<in> set (cf_Entries c). 0 < he_Seq e \<and> he_Seq e \<le> cf_ContextVersion c \<and>
          he_Seq e < cf_NextEntrySeq c \<and> he_TurnSeq e < cf_NextTurnSeq c)))"
proof (intro conjI)
  show "snd (LoadConversation store_env0 ''c1'' demo_store) \<noteq> Inr None" by code_simp
qed (fact demo_store_reach stored_conversation_loads [OF demo_store_reach demo_valid demo_flags])+

definition demo_append :: "store \<times> (store_error + ConversationFile option \<times> HistoryEntry list)" where
  "demo_append = AppendEntries store_env0 ''c1'' [demo_entry ''assistant_text''] demo_store"

theorem append_entries_atomic_witness:
  "map he_Seq (history (demo_store ''c1'')) = [1] \<and> map he_Seq (history (fst demo_append ''c1'')) = [1, 2] \<and>
   (history (fst demo_append ''c1'') = history (demo_store ''c1'') \<or>
    (\<exists>new'. stored_entries (number_from 7 (cf_NextEntrySeq (current store_env0 ''c1'' (demo_store ''c1'')))
        (filterDuplicatePromptContextEntries id (history (demo_store ''c1'')) [demo_entry ''assistant_text''])) = Some new' \<and>
      history (fst demo_append ''c1'') = history (demo_store ''c1'') @ new'))"
proof (intro conjI)
  show "map he_Seq (history (demo_store ''c1'')) = [1]" by code_simp
  show "map he_Seq (history (fst demo_append ''c1'')) = [1, 2]" by code_simp
  have env: "se_now store_env0 = 7" "se_sha store_env0 = id" by (simp_all add: store_env0_def)
  show "history (fst demo_append ''c1'') = history (demo_store ''c1'') \<or>
    (\<exists>new'. stored_entries (number_from 7 (cf_NextEntrySeq (current store_env0 ''c1'' (demo_store ''c1'')))
        (filterDuplicatePromptContextEntries id (history (demo_store ''c1'')) [demo_entry ''assistant_text''])) = Some new' \<and>
      history (fst demo_append ''c1'') = history (demo_store ''c1'') @ new')"
    using append_entries_atomic [OF demo_store_reach demo_valid demo_unnumbered(1) _ _ prod.collapse [symmetric],
        of "''assistant_text''"] demo_room
    by (simp add: env demo_append_def)
qed

theorem history_append_only_witness:
  "map he_Seq (history (fold run_op [OpLoad store_env0 ''c1'', OpSave store_env0 ''c1'' None [demo_entry ''tool_call'']] demo_store ''c1'')) = [1, 2] \<and>
   prefix (history (demo_store ''c1''))
     (history (fold run_op [OpLoad store_env0 ''c1'', OpSave store_env0 ''c1'' None [demo_entry ''tool_call'']] demo_store ''c1''))"
proof
  show "map he_Seq (history (fold run_op [OpLoad store_env0 ''c1'', OpSave store_env0 ''c1'' None [demo_entry ''tool_call'']] demo_store ''c1'')) = [1, 2]"
    by code_simp
  have "good_run run_op (\<lambda>a s. admissible a s \<and> extending a s)
      [OpLoad store_env0 ''c1'', OpSave store_env0 ''c1'' None [demo_entry ''tool_call'']] demo_store"
    using demo_room by (simp add: demo_unnumbered save_start_def room_def demo_valid)
  from history_append_only [OF demo_store_reach this]
  show "prefix (history (demo_store ''c1''))
     (history (fold run_op [OpLoad store_env0 ''c1'', OpSave store_env0 ''c1'' None [demo_entry ''tool_call'']] demo_store ''c1''))" .
qed

text \<open>Why the proviso is needed.  An append writes the entries and then fails to write the metadata; the
  stream appends again from the snapshot it had before.  The metadata still match, so that the entries
  of the snapshot are taken for the stored ones, and the new entry replaces the one on disk.\<close>

lemma failed_append_overwritten:
  "\<exists>snapshot. snd (LoadConversation store_env0 ''c1'' demo_store) = Inr (Some snapshot) \<and>
     (let st1 = fst (AppendEntries (store_env0\<lparr>se_state_write := WriteFails\<rparr>) ''c1'' [demo_entry ''assistant_text''] demo_store);
          st2 = fst (AppendEntriesFromSnapshot store_env0 ''c1'' (Some snapshot) [demo_entry ''tool_call''] st1)
      in map he_Kind (history (st1 ''c1'')) = [''user_message'', ''assistant_text''] \<and>
         map he_Kind (history (st2 ''c1'')) = [''user_message'', ''tool_call''])"
proof -
  define snapshot where "snapshot = (case snd (LoadConversation store_env0 ''c1'' demo_store) of Inr (Some c) \<Rightarrow> c | _ \<Rightarrow> emptyConversation)"
  have "case snd (LoadConversation store_env0 ''c1'' demo_store) of Inr (Some c) \<Rightarrow> True | _ \<Rightarrow> False" by code_simp
  then have "snd (LoadConversation store_env0 ''c1'' demo_store) = Inr (Some snapshot)"
    by (auto simp: snapshot_def split: sum.splits option.splits)
  moreover have "map he_Kind (history (fst (AppendEntries (store_env0\<lparr>se_state_write := WriteFails\<rparr>) ''c1'' [demo_entry ''assistant_text''] demo_store) ''c1'')) =
      [''user_message'', ''assistant_text'']" by code_simp
  moreover have "map he_Kind (history (fst (AppendEntriesFromSnapshot store_env0 ''c1'' (Some snapshot) [demo_entry ''tool_call'']
      (fst (AppendEntries (store_env0\<lparr>se_state_write := WriteFails\<rparr>) ''c1'' [demo_entry ''assistant_text''] demo_store))) ''c1'')) =
      [''user_message'', ''tool_call'']" unfolding snapshot_def by code_simp
  ultimately show ?thesis unfolding Let_def by (intro exI [of _ snapshot] conjI)
qed

end
