(* ===== verification/Run_Rewind.thy ===== *)
theory Run_Rewind
  imports Store_Log
begin

text \<open>
  Rewinding a conversation, \<open>forwarder/rewind.go\<close>, and the part of \<open>handleRunIntent\<close>
  (\<open>service.go\<close>) that persists the first entries of a turn.  When the user edits an earlier message
  the client sends its id again; the conversation is cut before that message's turn and the turn
  starts over.

  A \<open>run_intent\<close> holds what the code reads of an \<open>InboundIntent\<close>: the case name of the client
  message's action, the id of the user message and the number of turns the client knows.
  \<open>message_id\<close> is the parameter that stands for \<open>protojson.Unmarshal\<close> into the generated
  \<open>agentv1.UserMessage\<close> followed by \<open>GetMessageId\<close>; \<open>None\<close> is a decoding error.
\<close>

record run_intent =
  ri_Kind :: string
  ri_RequestID :: string
  ri_Prewarm :: bool
  ri_UserMessage :: "string option"
  ri_ActionCase :: string
  ri_ClientTurns :: "nat option"

record runRewindDecision =
  rd_Evaluated :: bool
  rd_Apply :: bool
  rd_Reason :: string
  rd_SkipReason :: string
  rd_IncomingMessageID :: string
  rd_HasClientTurnCount :: bool
  rd_ClientTurnCount :: int
  rd_ServerTailTurnSeq :: int
  rd_ServerNextTurnSeq :: int
  rd_TargetTurnSeq :: int
  rd_TargetEntrySeq :: int
  rd_TargetRequestID :: string
  rd_MatchCount :: nat
  rd_DroppedEntryCount :: nat
  rd_DroppedTurnCount :: nat
  rd_DroppedSeqStart :: int
  rd_DroppedSeqEnd :: int
  rd_PrefixEntries :: "HistoryEntry list"

definition noDecision :: runRewindDecision where
  "noDecision = \<lparr>rd_Evaluated = False, rd_Apply = False, rd_Reason = [], rd_SkipReason = [], rd_IncomingMessageID = [],
     rd_HasClientTurnCount = False, rd_ClientTurnCount = -1, rd_ServerTailTurnSeq = 0, rd_ServerNextTurnSeq = 0,
     rd_TargetTurnSeq = 0, rd_TargetEntrySeq = 0, rd_TargetRequestID = [], rd_MatchCount = 0, rd_DroppedEntryCount = 0,
     rd_DroppedTurnCount = 0, rd_DroppedSeqStart = 0, rd_DroppedSeqEnd = 0, rd_PrefixEntries = []\<rparr>"

definition shouldEvaluateRunRewind :: "run_intent \<Rightarrow> bool" where
  "shouldEvaluateRunRewind intent \<longleftrightarrow>
     (if trim_space (ri_Kind intent) \<noteq> ''run'' \<or> ri_Prewarm intent \<or> ri_UserMessage intent = None then False
      else ri_ActionCase intent = ''user_message_action'')"

definition is_user_message :: "(raw_json \<Rightarrow> string option) \<Rightarrow> string \<Rightarrow> HistoryEntry \<Rightarrow> bool" where
  "is_user_message message_id messageID e \<longleftrightarrow>
     trim_space (he_Kind e) = ''user_message'' \<and> \<not> raw_is_empty (he_Payload e) \<and>
     (case message_id (he_Payload e) of None \<Rightarrow> False | Some i \<Rightarrow> trim_space i = messageID)"

definition findUserMessageEntriesByMessageID ::
    "(raw_json \<Rightarrow> string option) \<Rightarrow> HistoryEntry list \<Rightarrow> string \<Rightarrow> HistoryEntry list" where
  "findUserMessageEntriesByMessageID message_id es messageID =
     (let i = trim_space messageID in if i = [] then [] else filter (is_user_message message_id i) es)"

definition earlierHistoryEntry :: "HistoryEntry \<Rightarrow> HistoryEntry \<Rightarrow> bool" where
  "earlierHistoryEntry left right \<longleftrightarrow>
     (if he_TurnSeq left \<noteq> he_TurnSeq right then he_TurnSeq left < he_TurnSeq right
      else if he_Seq left \<noteq> he_Seq right then he_Seq left < he_Seq right
      else he_CreatedAt left < he_CreatedAt right)"

definition pick_earlier :: "HistoryEntry \<Rightarrow> HistoryEntry option \<Rightarrow> HistoryEntry option" where
  "pick_earlier e candidate = (case candidate of
       None \<Rightarrow> Some e | Some c \<Rightarrow> if earlierHistoryEntry e c then Some e else Some c)"

definition selectRunRewindMatch :: "HistoryEntry list \<Rightarrow> int \<Rightarrow> bool \<Rightarrow> HistoryEntry option \<times> string" where
  "selectRunRewindMatch matches clientTurnCount hasClientTurnCount =
     (if matches = [] then (None, ''no_match'')
      else let earliest = (fold pick_earlier matches None, ''earliest_message_id_match'') in
        if hasClientTurnCount \<and> clientTurnCount \<ge> 0 then
          (case find (\<lambda>e. he_TurnSeq e = i64 (clientTurnCount + 1)) matches of
             Some e \<Rightarrow> (Some e, ''client_turn_count_aligned'')
           | None \<Rightarrow>
               (case fold pick_earlier (filter (\<lambda>e. \<not> he_TurnSeq e \<le> clientTurnCount) matches) None of
                  Some e \<Rightarrow> (Some e, ''first_match_after_client_turn_count'')
                | None \<Rightarrow> earliest))
        else earliest)"

definition maxHistoryTurnSeq :: "HistoryEntry list \<Rightarrow> int" where
  "maxHistoryTurnSeq es = fold (\<lambda>e m. if he_TurnSeq e > m then he_TurnSeq e else m) es 0"

definition prefixEntriesBeforeTurn :: "HistoryEntry list \<Rightarrow> int \<Rightarrow> HistoryEntry list" where
  "prefixEntriesBeforeTurn es target = filter (\<lambda>e. he_TurnSeq e < target) es"

definition drop_stat :: "HistoryEntry \<Rightarrow> nat \<times> int list \<times> int \<times> int \<Rightarrow> nat \<times> int list \<times> int \<times> int" where
  "drop_stat e st = (case st of (n, turns, seqStart, seqEnd) \<Rightarrow>
     (Suc n, (if he_TurnSeq e > 0 then List.insert (he_TurnSeq e) turns else turns),
      (if he_Seq e > 0 \<and> (seqStart = 0 \<or> he_Seq e < seqStart) then he_Seq e else seqStart),
      (if he_Seq e > seqEnd then he_Seq e else seqEnd)))"

definition droppedEntryStats :: "HistoryEntry list \<Rightarrow> int \<Rightarrow> nat \<times> nat \<times> int \<times> int" where
  "droppedEntryStats es target =
     (case fold drop_stat (filter (\<lambda>e. \<not> he_TurnSeq e < target) es) (0, [], 0, 0) of
        (n, turns, seqStart, seqEnd) \<Rightarrow> (n, length turns, seqStart, seqEnd))"

definition decideRunRewind ::
    "(raw_json \<Rightarrow> string option) \<Rightarrow> run_intent \<Rightarrow> ConversationFile option \<Rightarrow> runRewindDecision" where
  "decideRunRewind message_id intent conversation =
     (case (shouldEvaluateRunRewind intent, ri_UserMessage intent) of
        (True, Some msg) \<Rightarrow>
          (let mid = trim_space msg;
               has = ri_ClientTurns intent \<noteq> None;
               count = (case ri_ClientTurns intent of None \<Rightarrow> -1 | Some n \<Rightarrow> int n);
               es = (case conversation of None \<Rightarrow> [] | Some c \<Rightarrow> cf_Entries c);
               tail = (case conversation of None \<Rightarrow> 0 | Some c \<Rightarrow> maxHistoryTurnSeq (cf_Entries c));
               d0 = noDecision\<lparr>rd_Evaluated := True, rd_IncomingMessageID := mid, rd_HasClientTurnCount := has,
                      rd_ClientTurnCount := count, rd_ServerTailTurnSeq := tail,
                      rd_ServerNextTurnSeq := (case conversation of None \<Rightarrow> 0 | Some c \<Rightarrow> cf_NextTurnSeq c)\<rparr>
           in if mid = [] then d0\<lparr>rd_SkipReason := ''missing_message_id''\<rparr>
              else if es = [] then d0\<lparr>rd_SkipReason := ''message_id_not_found''\<rparr>
              else let matches = findUserMessageEntriesByMessageID message_id es mid;
                       d1 = d0\<lparr>rd_MatchCount := length matches\<rparr>
                   in case selectRunRewindMatch matches count has of
                        (None, _) \<Rightarrow> d1\<lparr>rd_SkipReason := ''message_id_not_found''\<rparr>
                      | (Some sel, reason) \<Rightarrow>
                          (let target = he_TurnSeq sel;
                               d2 = d1\<lparr>rd_TargetTurnSeq := target, rd_TargetEntrySeq := he_Seq sel,
                                      rd_TargetRequestID := trim_space (he_RequestID sel)\<rparr>
                           in if target \<le> 0 then d2\<lparr>rd_SkipReason := ''target_turn_seq_missing''\<rparr>
                              else if \<not> tail > target \<and> \<not> (has \<and> count < tail)
                              then d2\<lparr>rd_SkipReason := ''message_id_at_active_tail''\<rparr>
                              else case droppedEntryStats es target of
                                (n, k, a, b) \<Rightarrow> d2\<lparr>rd_Apply := True, rd_Reason := reason,
                                  rd_PrefixEntries := prefixEntriesBeforeTurn es target,
                                  rd_DroppedEntryCount := n, rd_DroppedTurnCount := k,
                                  rd_DroppedSeqStart := a, rd_DroppedSeqEnd := b\<rparr>))
      | _ \<Rightarrow> noDecision)"

definition appendReplacementRunEntries :: "HistoryEntry list \<Rightarrow> HistoryEntry list \<Rightarrow> HistoryEntry list" where
  "appendReplacementRunEntries pre es = pre @ es"

definition projectedConversationMaxTokens :: int where
  "projectedConversationMaxTokens = 130000"

definition clearConversationAutoCompactionState :: "ConversationFile \<Rightarrow> ConversationFile" where
  "clearConversationAutoCompactionState c = c\<lparr>cf_AutoCompactionPending := False, cf_AutoCompactionPromptTokens := 0,
     cf_AutoCompactionReserveTokens := 0, cf_AutoCompactionTriggeredAt := [], cf_AutoCompactionSourceModelCallID := []\<rparr>"

definition applyRunRewindConversationState :: "run_intent \<Rightarrow> int \<Rightarrow> ConversationFile \<Rightarrow> ConversationFile" where
  "applyRunRewindConversationState intent turnSeq c =
     (clearConversationAutoCompactionState (c\<lparr>cf_TokenDetailsUsedTokens := 0,
        cf_TokenDetailsMaxTokens := (if cf_TokenDetailsMaxTokens c = 0 then projectedConversationMaxTokens
                                     else cf_TokenDetailsMaxTokens c)\<rparr>))\<lparr>
        cf_LatestRequestPrefix := None, cf_LastProviderCall := None,
        cf_CurrentLoopID := int_dec turnSeq @ '':'' @ trim_space (ri_RequestID intent),
        cf_CurrentLoopStatus := ''running'', cf_CurrentRequestID := trim_space (ri_RequestID intent),
        cf_CurrentTurnSeq := turnSeq\<rparr>"

definition applyRunRewindMetadata ::
    "ConversationFile option \<Rightarrow> run_intent \<Rightarrow> int \<Rightarrow> ConversationFile \<Rightarrow> ConversationFile" where
  "applyRunRewindMetadata source intent turnSeq c =
     applyRunRewindConversationState intent turnSeq (case source of
         None \<Rightarrow> c
       | Some s \<Rightarrow> c\<lparr>
           cf_ConversationID := pick_trimmed (cf_ConversationID s) (cf_ConversationID c),
           cf_RootConversationID := pick_trimmed (cf_RootConversationID s) (cf_RootConversationID c),
           cf_ParentConversationID := trim_space (cf_ParentConversationID s),
           cf_ParentToolCallID := trim_space (cf_ParentToolCallID s),
           cf_SubagentTypeName := trim_space (cf_SubagentTypeName s),
           cf_Mode := pick_trimmed (cf_Mode s) (cf_Mode c),
           cf_TokenDetailsMaxTokens := (if cf_TokenDetailsMaxTokens s > 0 then cf_TokenDetailsMaxTokens s
                                        else cf_TokenDetailsMaxTokens c)\<rparr>)"

definition applyRunRewindToConversation ::
    "go_time \<Rightarrow> runRewindDecision \<Rightarrow> HistoryEntry list \<Rightarrow> run_intent \<Rightarrow> int \<Rightarrow> ConversationFile \<Rightarrow> ConversationFile" where
  "applyRunRewindToConversation now decision es intent turnSeq c =
     (if \<not> rd_Apply decision then c
      else deriveConversationLoopState (applyRunRewindConversationState intent turnSeq
        (fst (appendEntriesInPlace now (appendReplacementRunEntries (rd_PrefixEntries decision) es)
          (c\<lparr>cf_Entries := [], cf_NextEntrySeq := 1, cf_NextTurnSeq := 1\<rparr>)))))"

text \<open>How \<open>handleRunIntent\<close> persists the entries of a turn when there is a store: \<open>entries_for\<close> is
  \<open>buildRunEntries\<close> for the turn the run starts, \<open>conversation\<close> the conversation it loaded.\<close>

definition persist_run ::
    "store_env \<Rightarrow> string \<Rightarrow> runRewindDecision \<Rightarrow> run_intent \<Rightarrow> ConversationFile \<Rightarrow> HistoryEntry list
       \<Rightarrow> (int \<Rightarrow> HistoryEntry list) \<Rightarrow> store \<Rightarrow> store \<times> (store_error + ConversationFile)" where
  "persist_run env conversationID decision intent conversation initial entries_for st =
     (if rd_Apply decision
      then let turnSeq = rd_TargetTurnSeq decision
           in ReplaceEntries env conversationID
                (appendReplacementRunEntries (rd_PrefixEntries decision) (entries_for turnSeq))
                (\<lambda>item. Inr (applyRunRewindMetadata (Some conversation) intent turnSeq item)) st
      else SaveConversationWithEntries env conversationID (Some conversation) initial st)"

subsection \<open>The decision\<close>

lemma fold_pick_mem: "fold pick_earlier es c = Some e \<Longrightarrow> e \<in> set es \<or> c = Some e"
  by (induction es arbitrary: c) (force simp: pick_earlier_def split: option.splits if_splits)+

lemma select_mem: "selectRunRewindMatch ms n h = (Some e, r) \<Longrightarrow> e \<in> set ms"
  by (auto simp: selectRunRewindMatch_def Let_def find_Some_iff split: if_splits option.splits dest!: fold_pick_mem)

lemma decide_applies:
  assumes "rd_Apply (decideRunRewind message_id intent (Some c))"
  defines "d \<equiv> decideRunRewind message_id intent (Some c)"
  shows "\<exists>msg e. ri_UserMessage intent = Some msg \<and> e \<in> set (cf_Entries c) \<and> is_user_message message_id (trim_space msg) e \<and>
      he_TurnSeq e = rd_TargetTurnSeq d \<and> 0 < rd_TargetTurnSeq d \<and>
      rd_PrefixEntries d = prefixEntriesBeforeTurn (cf_Entries c) (rd_TargetTurnSeq d)"
proof -
  define P where "P d \<longleftrightarrow> (rd_Apply d \<longrightarrow> (\<exists>msg e. ri_UserMessage intent = Some msg \<and> e \<in> set (cf_Entries c) \<and>
      is_user_message message_id (trim_space msg) e \<and> he_TurnSeq e = rd_TargetTurnSeq d \<and> 0 < rd_TargetTurnSeq d \<and>
      rd_PrefixEntries d = prefixEntriesBeforeTurn (cf_Entries c) (rd_TargetTurnSeq d)))" for d :: runRewindDecision
  have "P (decideRunRewind message_id intent (Some c))"
    unfolding decideRunRewind_def Let_def findUserMessageEntriesByMessageID_def
    by (auto split: bool.split option.split prod.split dest!: select_mem) (auto simp: P_def noDecision_def)
  then show ?thesis using assms(1) by (simp add: P_def d_def)
qed

subsection \<open>The counters after a write\<close>

lemma fold_max_absorb: "\<forall>x \<in> set xs. x \<le> n \<Longrightarrow> fold max xs n = (n :: int)"
  by (induction xs) (simp_all add: max.absorb2)

lemma normalizeLoaded_turn:
  assumes "entries_ok (cf_Entries c)" "0 < cf_NextTurnSeq c" "\<forall>e \<in> set (cf_Entries c). he_TurnSeq e < cf_NextTurnSeq c"
  shows "cf_NextTurnSeq (normalizeLoadedConversation now cid c) = cf_NextTurnSeq c"
proof -
  have "fold bump (map he_TurnSeq (cf_Entries c)) (cf_NextTurnSeq c) = cf_NextTurnSeq c"
    using assms by (subst fold_bump) (auto simp: entries_ok_def numbers_ok_def add1_zle_eq intro!: fold_max_absorb)
  then show ?thesis using assms(2) by (simp add: normalizeLoadedConversation_def Let_def absorb_counters)
qed

lemma write_turn:
  assumes "writeConversationLocked env cid c d = (d', None, c')"
  shows "cf_NextTurnSeq c' = cf_NextTurnSeq (normalizeLoadedConversation (se_now env) cid (normalizeLoadedConversation (se_now env) cid c))"
proof -
  from assms obtain d1 where "writeConversationMetaLocked env cid (normalizeLoadedConversation (se_now env) cid c) d1 = (d', None, c')"
    by (auto simp: writeConversationLocked_def Let_def split: prod.splits option.splits)
  then show ?thesis
    by (auto simp: writeConversationMetaLocked_def refreshConversationRuntimeState_def restore_loop_def Let_def
        split: sum.splits prod.splits)
qed

lemma rewind_metadata_keeps:
  "cf_Entries (applyRunRewindMetadata s intent t c) = cf_Entries c"
  "cf_NextTurnSeq (applyRunRewindMetadata s intent t c) = cf_NextTurnSeq c"
  by (auto simp: applyRunRewindMetadata_def applyRunRewindConversationState_def clearConversationAutoCompactionState_def
      split: option.split)

lemma replaced_turn:
  assumes r: "replace_body env es upd cid d = (d', Inr c)" and d: "disk_ok d" "turns_ok es" "int (length es) < max_i64"
    and upd: "\<And>x. \<exists>y. upd x = Inr y \<and> cf_Entries y = cf_Entries x \<and> cf_NextTurnSeq y = cf_NextTurnSeq x"
    and t: "\<forall>e \<in> set es. he_TurnSeq e \<le> t" "\<exists>e \<in> set es. he_TurnSeq e = t" "0 < t" "t < max_i64"
  shows "cf_NextTurnSeq c = t + 1"
proof -
  define c1 where "c1 = (case readConversationLocked env cid d of Inr (Some c) \<Rightarrow> c | _ \<Rightarrow> newConversation env cid)
    \<lparr>cf_Entries := [], cf_NextEntrySeq := 1, cf_NextTurnSeq := 1\<rparr>"
  define c2 where "c2 = fst (appendEntriesInPlace (se_now env) (resetEntrySequences es) c1)"
  have c1: "seq_ok c1" "cf_NextEntrySeq c1 = 1" "cf_NextTurnSeq c1 = 1" "cf_Entries c1 = []"
    by (simp_all add: c1_def seq_ok_def entries_ok_def numbers_ok_def)
  have un: "unnumbered (resetEntrySequences es)" using d(2) by (intro unnumbered_reset) (simp add: turns_ok_def)
  have room: "cf_NextEntrySeq c1 + int (length (resetEntrySequences es)) \<le> max_i64" using d(3) c1(2) by simp
  have e2: "cf_Entries c2 = number_from (se_now env) 1 (resetEntrySequences es)" "entries_ok (cf_Entries c2)"
    using appendEntriesInPlace_fresh(1) [OF c1(1) un room] numbers_ok_number_from [OF c1(1) un room] c1 by (simp_all add: c2_def)
  have turns: "map he_TurnSeq (cf_Entries c2) = map he_TurnSeq es" by (simp add: e2 resetEntrySequences_def)
  have mx: "fold max (map he_TurnSeq es) 0 = t"
    using t fold_max_in [of "map he_TurnSeq es" 0] fold_max_mem [of t "map he_TurnSeq es" 0] by force
  have asg: "assign_entries (se_now env) (resetEntrySequences es) 1 0 =
      (1 + int (length es), t, number_from (se_now env) 1 (resetEntrySequences es))"
    using assign_fresh [of "resetEntrySequences es" 1 "se_now env" 0] un room c1(2) mx
    by (simp add: unnumbered_def resetEntrySequences_def comp_def)
  have ne: "resetEntrySequences es \<noteq> []" using t(2) by (auto simp: resetEntrySequences_def)
  have i: "i64 0 = 0" "i64 (t + 1) = t + 1" using t(3,4) by (auto intro!: i64_small)
  have n2: "cf_NextTurnSeq c2 = t + 1"
    unfolding c2_def appendEntriesInPlace_def using t(3) by (simp add: ne c1 i asg)
  obtain c3 where c3: "upd c2 = Inr c3" "cf_Entries c3 = cf_Entries c2" "cf_NextTurnSeq c3 = t + 1" using upd [of c2] n2 by auto
  have "finish_write (writeConversationLocked env cid (deriveConversationLoopState c3) d) cloneConversationFile = (d', Inr c)"
    using r c3(1) by (auto simp: replace_body_def Let_def c1_def c2_def split: sum.splits option.splits)
  then obtain c4 where c4: "writeConversationLocked env cid (deriveConversationLoopState c3) d = (d', None, c4)" "c = cloneConversationFile c4"
    by (auto simp: finish_write_def split: prod.splits option.splits)
  have "\<forall>e \<in> set (cf_Entries c3). he_TurnSeq e < t + 1"
  proof
    fix e assume "e \<in> set (cf_Entries c3)"
    then have "he_TurnSeq e \<in> set (map he_TurnSeq es)" unfolding turns [symmetric] c3(2) by simp
    then show "he_TurnSeq e < t + 1" using t(1) by auto
  qed
  then show ?thesis
    using write_turn [OF c4(1)] c3 e2(2) c4(2) t(3) by (simp add: normalizeLoaded_turn cloneConversationFile_def)
qed

subsection \<open>A rewind\<close>

lemma rewind_updates: "keeps_entries (\<lambda>item. Inr (applyRunRewindMetadata s intent t item))"
  by (simp add: keeps_entries_def rewind_metadata_keeps)

text \<open>C34. A rewind cuts the conversation before the edited message's turn and starts that turn over:
  it applies only if the history has a user message with the incoming id, at a positive turn; when
  it is persisted, what is on disk is the entries of the earlier turns followed by the new ones,
  renumbered from 1, nothing of the target turn or later remains, and the next turn is the one
  after the target.\<close>

theorem rewind_cuts_history:
  fixes c :: ConversationFile
  assumes "store_reach st" "validateConversationID (se_separator env) conversationID = Inr cid"
    and "rd_Apply (decideRunRewind message_id intent (Some c))" "turns_ok (cf_Entries c)"
  defines "target \<equiv> rd_TargetTurnSeq (decideRunRewind message_id intent (Some c))"
  assumes "entries_for target \<noteq> []" "\<forall>e \<in> set (entries_for target). he_TurnSeq e = target"
    and "int (length (cf_Entries c)) + int (length (entries_for target)) < max_i64"
    and "persist_run env conversationID (decideRunRewind message_id intent (Some c)) intent c initial entries_for st = (st', Inr c')"
  shows "(\<exists>msg e. ri_UserMessage intent = Some msg \<and> e \<in> set (cf_Entries c) \<and>
      is_user_message message_id (trim_space msg) e \<and> he_TurnSeq e = target \<and> 0 < target) \<and>
    stored_entries (number_from (se_now env) 1
      (resetEntrySequences (filter (\<lambda>e. he_TurnSeq e < target) (cf_Entries c) @ entries_for target))) = Some (history (st' cid)) \<and>
    cf_NextTurnSeq c' = target + 1"
proof -
  let ?es = "filter (\<lambda>e. he_TurnSeq e < target) (cf_Entries c) @ entries_for target"
  let ?upd = "\<lambda>item. Inr (applyRunRewindMetadata (Some c) intent target item) :: string + ConversationFile"
  have d: "disk_ok (st cid)" using assms(1) by (rule store_reach_disk)
  from decide_applies [OF assms(3), folded target_def] obtain msg e where
    m: "ri_UserMessage intent = Some msg" "e \<in> set (cf_Entries c)" "is_user_message message_id (trim_space msg) e"
      "he_TurnSeq e = target" "0 < target"
      and pre: "rd_PrefixEntries (decideRunRewind message_id intent (Some c)) = filter (\<lambda>e. he_TurnSeq e < target) (cf_Entries c)"
    by (auto simp: prefixEntriesBeforeTurn_def)
  have tm: "target < max_i64" using assms(4) m(2,4) by (auto simp: turns_ok_def)
  have t: "turns_ok ?es" using assms(4,7) m(5) tm by (auto simp: turns_ok_def)
  have "length (filter (\<lambda>e. he_TurnSeq e < target) (cf_Entries c)) \<le> length (cf_Entries c)" by simp
  then have len: "int (length ?es) < max_i64" using assms(8) by (simp only: length_append)
  obtain d' r where b: "replace_body env ?es ?upd cid (st cid) = (d', r)" by (cases "replace_body env ?es ?upd cid (st cid)")
  then have r: "st' = st(cid := d')" "r = Inr c'"
    using assms(2,3,9) by (auto simp: persist_run_def pre appendReplacementRunEntries_def ReplaceEntries_def locked_def
        target_def [symmetric] split: if_splits)
  note keep = replace_body_spec(2) [OF b d t len rewind_updates r(2)]
  have "cf_NextTurnSeq c' = target + 1"
    by (rule replaced_turn [OF b [unfolded r(2)] d t len])
      (use assms(6,7) m(5) tm in \<open>auto simp: rewind_metadata_keeps dest: hd_in_set\<close>)
  then show ?thesis using m keep r(1) by auto
qed

definition demo_user_entry :: "string \<Rightarrow> int \<Rightarrow> HistoryEntry" where
  "demo_user_entry mid turn = \<lparr>he_Seq = 0, he_TurnSeq = turn, he_RequestID = ''r1'', he_Role = ''user'', he_Kind = ''user_message'',
     he_ToolCallID = [], he_ParentToolCallID = [], he_Payload = RawJson (JString mid), he_CreatedAt = 5\<rparr>"

definition demo_message_id :: "raw_json \<Rightarrow> string option" where
  "demo_message_id r = (case r of RawJson (JString s) \<Rightarrow> Some s | _ \<Rightarrow> None)"

definition demo_rewind_intent :: run_intent where
  "demo_rewind_intent = \<lparr>ri_Kind = ''run'', ri_RequestID = ''r2'', ri_Prewarm = False, ri_UserMessage = Some ''m2'',
     ri_ActionCase = ''user_message_action'', ri_ClientTurns = Some 1\<rparr>"

definition demo_conversation :: ConversationFile where
  "demo_conversation = emptyConversation\<lparr>cf_Entries := [demo_user_entry ''m1'' 1, demo_user_entry ''m2'' 2, demo_user_entry ''m3'' 3]\<rparr>"

definition demo_rewound :: "store \<times> (store_error + ConversationFile)" where
  "demo_rewound = persist_run store_env0 ''c1'' (decideRunRewind demo_message_id demo_rewind_intent (Some demo_conversation))
     demo_rewind_intent demo_conversation [] (\<lambda>t. [demo_user_entry ''m2'' t]) demo_store"

theorem rewind_cuts_history_witness:
  "map he_TurnSeq (history (fst demo_rewound ''c1'')) = [1, 2] \<and>
   stored_entries (number_from 7 1 (resetEntrySequences [demo_user_entry ''m1'' 1, demo_user_entry ''m2'' 2])) = Some (history (fst demo_rewound ''c1''))"
proof
  show "map he_TurnSeq (history (fst demo_rewound ''c1'')) = [1, 2]" by code_simp
  let ?d = "decideRunRewind demo_message_id demo_rewind_intent (Some demo_conversation)"
  have dec: "rd_Apply ?d" "rd_TargetTurnSeq ?d = 2" by code_simp+
  have "(case snd demo_rewound of Inr c \<Rightarrow> True | _ \<Rightarrow> False)" by code_simp
  then obtain c' where c': "demo_rewound = (fst demo_rewound, Inr c')" by (metis (no_types, lifting) prod.collapse sum.case_eq_if sum.collapse(2))
  have "turns_ok (cf_Entries demo_conversation)"
    by (simp add: turns_ok_def demo_conversation_def demo_user_entry_def)
  note cut = rewind_cuts_history [OF demo_store_reach demo_valid dec(1) this, where entries_for = "\<lambda>t. [demo_user_entry ''m2'' t]",
      unfolded dec(2), OF _ _ _ c' [unfolded demo_rewound_def]]
  have "stored_entries (number_from (se_now store_env0) 1
      (resetEntrySequences (filter (\<lambda>e. he_TurnSeq e < 2) (cf_Entries demo_conversation) @ [demo_user_entry ''m2'' 2]))) = Some (history (fst demo_rewound ''c1''))"
    unfolding demo_rewound_def by (rule cut [THEN conjunct2, THEN conjunct1]) (simp_all add: demo_user_entry_def demo_conversation_def)
  then show "stored_entries (number_from 7 1 (resetEntrySequences [demo_user_entry ''m1'' 1, demo_user_entry ''m2'' 2])) = Some (history (fst demo_rewound ''c1''))"
    by (simp add: demo_conversation_def demo_user_entry_def store_env0_def)
qed

end
