(* ===== verification/Snapshot_Append.thy ===== *)
theory Snapshot_Append
  imports Store_Log
begin

text \<open>
  The two ways to append: \<open>AppendEntries\<close> reads both files, \<open>AppendEntriesFromSnapshot\<close> trusts a
  conversation kept in memory when the metadata on disk matches it.  Normalisation is shown to be
  idempotent, so that a conversation that was just written reads back as it was returned.
\<close>

subsection \<open>The loop state is stable\<close>

lemma trim_idle: "trim_space ''idle'' = ''idle''" by code_simp

lemma loop_status_fallback:
  defines "f \<equiv> \<lambda>s. firstNonEmpty [trim_space s, ''idle'']"
  shows "deriveRequestLoopStatus es r t (f (deriveRequestLoopStatus es r t x)) = deriveRequestLoopStatus es r t x"
proof -
  have ff: "f (f x) = f x" for x by (auto simp: f_def trim_idle)
  define st where "st = fold (scan_entry r t) es \<lparr>ls_open = [], ls_terminal = [], ls_seen = False\<rparr>"
  have D: "deriveRequestLoopStatus es r t x = (if trim_space r = [] then f x
      else if ls_terminal st \<noteq> [] then ls_terminal st
      else if ls_open st \<noteq> [] then ''waiting_tool'' else if ls_seen st then ''running'' else f x)" for x
    by (simp add: deriveRequestLoopStatus_def f_def st_def Let_def)
  show ?thesis unfolding D by (simp add: ff)
qed

lemma last_request_has:
  "last_request es = Some e \<Longrightarrow> trim_space (he_RequestID e) \<noteq> [] \<and> conversationHasRequestEntry es (he_RequestID e) (he_TurnSeq e)"
  by (auto simp: last_request_def conversationHasRequestEntry_def list_ex_iff find_Some_iff
      intro!: bexI [of _ e] nth_mem [of _ "rev es", simplified])

definition loop_lost :: "ConversationFile \<Rightarrow> bool" where
  "loop_lost c \<longleftrightarrow> trim_space (cf_CurrentRequestID c) \<noteq> [] \<and>
     \<not> conversationHasRequestEntry (cf_Entries c) (trim_space (cf_CurrentRequestID c)) (cf_CurrentTurnSeq c)"

definition loop_fallback :: "ConversationFile \<Rightarrow> string" where
  "loop_fallback c = (if loop_lost c then ''idle'' else firstNonEmpty [trim_space (cf_CurrentLoopStatus c), ''idle''])"

text \<open>The request and turn that \<open>deriveConversationLoopState\<close> settles on.\<close>

definition loop_request :: "ConversationFile \<Rightarrow> string \<times> int" where
  "loop_request c =
     (let req = (if loop_lost c then [] else trim_space (cf_CurrentRequestID c));
          turn = (if loop_lost c then 0 else cf_CurrentTurnSeq c)
      in case last_request (cf_Entries c) of
           Some e \<Rightarrow> if req = [] then (trim_space (he_RequestID e), he_TurnSeq e) else (req, turn)
         | None \<Rightarrow> (req, turn))"

lemma derive_alt:
  "deriveConversationLoopState c = (case loop_request c of (req, turn) \<Rightarrow>
     c\<lparr>cf_SchemaVersion := conversationSchemaVersion, cf_ContextVersion := contextVersionForEntries (cf_Entries c),
       cf_CurrentRequestID := req, cf_CurrentTurnSeq := turn,
       cf_CurrentLoopID := (if req \<noteq> [] then int_dec turn @ '':'' @ req else cf_CurrentLoopID c),
       cf_CurrentLoopStatus := deriveRequestLoopStatus (cf_Entries c) req turn (loop_fallback c)\<rparr>)"
  by (simp only: deriveConversationLoopState_def loop_request_def loop_lost_def loop_fallback_def Let_def)

lemma has_request_trim: "conversationHasRequestEntry es (trim_space r) t = conversationHasRequestEntry es r t"
  by (simp add: conversationHasRequestEntry_def)

lemma loop_request_found:
  assumes "loop_request c = (req, turn)"
  shows "trim_space req = req" "req \<noteq> [] \<Longrightarrow> conversationHasRequestEntry (cf_Entries c) req turn"
    "req = [] \<Longrightarrow> last_request (cf_Entries c) = None"
  using assms last_request_has [of "cf_Entries c"]
  by (auto simp: loop_request_def loop_lost_def Let_def has_request_trim split: option.splits if_splits)

definition loop_settled :: "ConversationFile \<Rightarrow> bool" where
  "loop_settled x \<longleftrightarrow> conversationSchemaVersion = cf_SchemaVersion x \<and>
     contextVersionForEntries (cf_Entries x) = cf_ContextVersion x \<and>
     loop_request x = (cf_CurrentRequestID x, cf_CurrentTurnSeq x) \<and>
     (if cf_CurrentRequestID x \<noteq> [] then int_dec (cf_CurrentTurnSeq x) @ '':'' @ cf_CurrentRequestID x else cf_CurrentLoopID x) =
       cf_CurrentLoopID x \<and>
     deriveRequestLoopStatus (cf_Entries x) (cf_CurrentRequestID x) (cf_CurrentTurnSeq x) (loop_fallback x) =
       cf_CurrentLoopStatus x"

lemma derive_fix:
  assumes "loop_settled x" shows "deriveConversationLoopState x = x"
  using assms unfolding loop_settled_def by (elim conjE) (simp only: derive_alt prod.case, simp)

lemma settled_derive: "loop_settled (deriveConversationLoopState c)"
proof -
  obtain req turn where r: "loop_request c = (req, turn)" by (cases "loop_request c")
  let ?c = "deriveConversationLoopState c"
  note found = loop_request_found [OF r]
  have f: "cf_CurrentRequestID ?c = req" "cf_CurrentTurnSeq ?c = turn" "cf_Entries ?c = cf_Entries c"
    "cf_CurrentLoopStatus ?c = deriveRequestLoopStatus (cf_Entries c) req turn (loop_fallback c)"
    "req \<noteq> [] \<longrightarrow> cf_CurrentLoopID ?c = int_dec turn @ '':'' @ req"
    by (simp_all add: derive_alt r)
  have lost: "\<not> loop_lost ?c" using f found by (auto simp: loop_lost_def)
  have req: "loop_request ?c = (req, turn)" using f found lost by (auto simp: loop_request_def split: option.splits)
  have st: "deriveRequestLoopStatus (cf_Entries ?c) req turn (loop_fallback ?c) = cf_CurrentLoopStatus ?c"
    using lost f loop_status_fallback [of "cf_Entries c" req turn "loop_fallback c"] by (simp add: loop_fallback_def)
  show ?thesis
    using f req st by (simp add: loop_settled_def derive_alt r)
qed

subsection \<open>A normalised conversation stays as it is\<close>

definition times_cover :: "ConversationFile \<Rightarrow> bool" where
  "times_cover c \<longleftrightarrow> 0 < cf_CreatedAt c \<and> 0 < cf_UpdatedAt c \<and>
     (\<forall>e \<in> set (cf_Entries c). (he_CreatedAt e = 0 \<or> cf_CreatedAt c \<le> he_CreatedAt e) \<and> he_CreatedAt e \<le> cf_UpdatedAt c)"

definition normal :: "ConversationFile \<Rightarrow> bool" where
  "normal c \<longleftrightarrow> trim_space (cf_ConversationID c) \<noteq> [] \<and> trim_space (cf_RootConversationID c) \<noteq> [] \<and>
     conv_ok c \<and> times_cover c \<and> loop_settled c"

lemma normal_schema: "normal c \<Longrightarrow> conversationSchemaVersion = cf_SchemaVersion c"
  by (simp add: normal_def loop_settled_def)

lemma absorb_fix:
  assumes "\<forall>e \<in> set es. he_Seq e < cf_NextEntrySeq c \<and> he_TurnSeq e < cf_NextTurnSeq c \<and>
      (he_CreatedAt e = 0 \<or> cf_CreatedAt c \<le> he_CreatedAt e) \<and> he_CreatedAt e \<le> cf_UpdatedAt c" "cf_CreatedAt c \<noteq> 0"
  shows "fold absorb_entry es c = c"
  using assms
proof (induction es)
  case (Cons e es)
  then have "\<not> cf_NextEntrySeq c \<le> he_Seq e" "\<not> cf_NextTurnSeq c \<le> he_TurnSeq e"
    "\<not> (he_CreatedAt e \<noteq> 0 \<and> he_CreatedAt e < cf_CreatedAt c)" "\<not> cf_UpdatedAt c < he_CreatedAt e"
    by auto
  then have "absorb_entry e c = c" using Cons.prems(2) by (simp add: absorb_entry_def isZeroTime_def)
  with Cons show ?case by simp
qed simp

lemma normal_meta_fix:
  assumes "trim_space (cf_ConversationID c) \<noteq> []" "trim_space (cf_RootConversationID c) \<noteq> []"
    "0 < cf_NextEntrySeq c" "0 < cf_NextTurnSeq c" "conversationSchemaVersion = cf_SchemaVersion c"
  shows "normalize_ids cid c = c"
  using assms by (simp add: normalize_ids_def Let_def)

lemma normal_fix:
  assumes "normal c"
  shows "normalizeLoadedConversation now cid c = c" "normalizeConversationMetadata now cid c = c"
proof -
  have ids: "normalize_ids cid c = c"
    using assms by (intro normal_meta_fix) (auto simp: normal_def loop_settled_def conv_ok_def seq_ok_def)
  have absorb: "fold absorb_entry (cf_Entries c) c = c"
    using assms by (intro absorb_fix) (auto simp: normal_def times_cover_def conv_ok_def seq_ok_def)
  have times: "default_times now c = c"
    using assms by (simp add: default_times_def normal_def times_cover_def isZeroTime_def)
  show "normalizeLoadedConversation now cid c = c" "normalizeConversationMetadata now cid c = c"
    using assms derive_fix [of c]
    by (simp_all add: normalizeLoadedConversation_def normalizeConversationMetadata_def ids absorb times normal_def Let_def)
qed

text \<open>Times after absorbing entries.\<close>

definition times_pos :: "ConversationFile \<Rightarrow> bool" where
  "times_pos c \<longleftrightarrow> 0 \<le> cf_CreatedAt c \<and> 0 \<le> cf_UpdatedAt c \<and> (\<forall>e \<in> set (cf_Entries c). 0 \<le> he_CreatedAt e)"

lemma absorb_times:
  assumes "0 \<le> cf_CreatedAt c" "0 \<le> cf_UpdatedAt c" "\<forall>e \<in> set es. 0 \<le> he_CreatedAt e"
  defines "c' \<equiv> fold absorb_entry es c"
  shows "0 \<le> cf_CreatedAt c' \<and> cf_UpdatedAt c \<le> cf_UpdatedAt c' \<and>
    (cf_CreatedAt c \<noteq> 0 \<longrightarrow> cf_CreatedAt c' \<noteq> 0 \<and> cf_CreatedAt c' \<le> cf_CreatedAt c) \<and>
    (\<forall>e \<in> set es. he_CreatedAt e \<le> cf_UpdatedAt c' \<and>
       (he_CreatedAt e \<noteq> 0 \<longrightarrow> cf_CreatedAt c' \<noteq> 0 \<and> cf_CreatedAt c' \<le> he_CreatedAt e))"
  using assms(1-3) unfolding c'_def
proof (induction es arbitrary: c)
  case (Cons e es)
  let ?c = "absorb_entry e c"
  have step: "0 \<le> cf_CreatedAt ?c" "0 \<le> cf_UpdatedAt ?c" "cf_UpdatedAt c \<le> cf_UpdatedAt ?c" "he_CreatedAt e \<le> cf_UpdatedAt ?c"
    "cf_CreatedAt c \<noteq> 0 \<longrightarrow> cf_CreatedAt ?c \<noteq> 0 \<and> cf_CreatedAt ?c \<le> cf_CreatedAt c"
    "he_CreatedAt e \<noteq> 0 \<longrightarrow> cf_CreatedAt ?c \<noteq> 0 \<and> cf_CreatedAt ?c \<le> he_CreatedAt e"
    using Cons.prems by (auto simp: absorb_entry_def isZeroTime_def)
  from Cons.IH [of ?c] step Cons.prems show ?case
    by simp (meson order_trans)
qed simp

lemma default_times_cover:
  assumes "0 \<le> cf_CreatedAt x" "0 \<le> cf_UpdatedAt x" "0 < now"
    and es: "\<forall>e \<in> set (cf_Entries x). 0 \<le> he_CreatedAt e \<and> he_CreatedAt e \<le> cf_UpdatedAt x \<and>
      (he_CreatedAt e \<noteq> 0 \<longrightarrow> cf_CreatedAt x \<noteq> 0 \<and> cf_CreatedAt x \<le> he_CreatedAt e)"
  shows "times_cover (default_times now x)"
proof -
  have f: "cf_CreatedAt (default_times now x) = (if cf_CreatedAt x = 0 then now else cf_CreatedAt x)"
    "cf_UpdatedAt (default_times now x) = (if cf_UpdatedAt x = 0 then cf_CreatedAt (default_times now x) else cf_UpdatedAt x)"
    by (simp_all add: default_times_def isZeroTime_def Let_def)
  have "(he_CreatedAt e = 0 \<or> cf_CreatedAt (default_times now x) \<le> he_CreatedAt e) \<and>
      he_CreatedAt e \<le> cf_UpdatedAt (default_times now x)" if "e \<in> set (cf_Entries x)" for e
    using es [rule_format, OF that] assms(1-3) unfolding f by (cases "he_CreatedAt e = 0") auto
  then show ?thesis using assms(1-3) f by (simp add: times_cover_def)
qed

lemma normalize_normal:
  assumes "entries_ok (cf_Entries c)" "times_pos c" "0 < now" "trim_space cid \<noteq> []"
  shows "normal (normalizeLoadedConversation now cid c)"
proof -
  let ?c1 = "normalize_ids cid c" and ?N = "normalizeLoadedConversation now cid c"
  let ?c2 = "fold absorb_entry (cf_Entries ?c1) ?c1"
  have keep: "cf_ConversationID (fold absorb_entry es x) = cf_ConversationID x"
    "cf_RootConversationID (fold absorb_entry es x) = cf_RootConversationID x" for es x
    by (induction es arbitrary: x) (simp_all add: absorb_entry_def)
  have derive: "cf_ConversationID (deriveConversationLoopState x) = cf_ConversationID x"
    "cf_RootConversationID (deriveConversationLoopState x) = cf_RootConversationID x"
    "cf_CreatedAt (deriveConversationLoopState x) = cf_CreatedAt x"
    "cf_UpdatedAt (deriveConversationLoopState x) = cf_UpdatedAt x" for x
    by (simp_all add: derive_alt split: prod.split)
  have "trim_space (cf_ConversationID ?N) \<noteq> [] \<and> trim_space (cf_RootConversationID ?N) \<noteq> []"
    using assms(4) by (simp add: normalizeLoadedConversation_def Let_def derive default_times_def keep normalize_ids_def)
  moreover have "times_cover ?N"
  proof -
    have t: "0 \<le> cf_CreatedAt ?c1" "0 \<le> cf_UpdatedAt ?c1" "\<forall>e \<in> set (cf_Entries ?c1). 0 \<le> he_CreatedAt e"
      using assms(2) by (auto simp: times_pos_def normalize_ids_def Let_def)
    note a = absorb_times [OF t]
    have "times_cover (default_times now ?c2)"
      using a t assms(3) by (intro default_times_cover) (auto simp: absorb_counters)
    then show ?thesis
      by (simp add: normalizeLoadedConversation_def Let_def times_cover_def derive)
  qed
  ultimately show ?thesis
    using normalizeLoaded_ok(1) [OF assms(1)] settled_derive
    by (simp add: normal_def normalizeLoadedConversation_def Let_def)
qed

subsection \<open>Cloning\<close>

definition plan_normal :: "string \<times> PlanRegistryEntry option \<Rightarrow> bool" where
  "plan_normal kv \<longleftrightarrow> fst kv \<noteq> [] \<and> trim_space (fst kv) = fst kv \<and> (case snd kv of None \<Rightarrow> False | Some p \<Rightarrow>
     pre_Id p \<noteq> [] \<and> trim_space (pre_Id p) = pre_Id p \<and> trim_space (pre_Path p) = pre_Path p)"

definition plans_normal :: "plan_registry \<Rightarrow> bool" where
  "plans_normal ps \<longleftrightarrow> distinct (map fst ps) \<and> (\<forall>kv \<in> set ps. plan_normal kv)"

lemma clone_plan_normal: "plans_normal ps \<Longrightarrow> plans_normal (clone_plan kv ps)"
proof -
  assume ps: "plans_normal ps"
  obtain k item where kv: "kv = (k, item)" by (cases kv)
  show ?thesis
  proof (cases "item = None \<or> trim_space k = []")
    case True
    then show ?thesis using ps by (auto simp: clone_plan_def kv split: option.split)
  next
    case False
    then obtain p where p: "item = Some p" "trim_space k \<noteq> []" by (cases item) auto
    define q where "q = \<lparr>pre_Id = (if trim_space (pre_Id p) = [] then trim_space k else trim_space (pre_Id p)),
      pre_Path = trim_space (pre_Path p)\<rparr>"
    have "plan_normal (trim_space k, Some q)" using p by (simp add: plan_normal_def q_def)
    moreover have "set (AList.update (trim_space k) (Some q) ps) \<subseteq> insert (trim_space k, Some q) (set ps)"
      by (induction ps) auto
    moreover have "distinct (map fst (AList.update (trim_space k) (Some q) ps))"
      using ps by (simp add: plans_normal_def distinct_update)
    moreover have "clone_plan kv ps = AList.update (trim_space k) (Some q) ps" using p by (simp add: clone_plan_def kv q_def)
    ultimately show ?thesis using ps by (auto simp: plans_normal_def)
  qed
qed

lemma clone_plans_normal: "plans_normal (clonePlanRegistryEntries ps)"
proof -
  have "plans_normal acc \<Longrightarrow> plans_normal (fold clone_plan ps acc)" for acc
    by (induction ps arbitrary: acc) (simp_all add: clone_plan_normal)
  from this [of "[]"] show ?thesis unfolding clonePlanRegistryEntries_def by (simp add: plans_normal_def)
qed

lemma update_new: "k \<notin> set (map fst ps) \<Longrightarrow> AList.update k v ps = ps @ [(k, v)]"
  by (induction ps) auto

lemma clone_plan_snoc:
  assumes "plan_normal kv" "fst kv \<notin> set (map fst ps)" shows "clone_plan kv ps = ps @ [kv]"
proof -
  obtain k p where "kv = (k, Some p)" using assms(1) by (cases kv) (auto simp: plan_normal_def split: option.splits)
  then show ?thesis using assms by (simp add: clone_plan_def plan_normal_def update_new)
qed

lemma clone_normal: "plans_normal ps \<Longrightarrow> clonePlanRegistryEntries ps = ps"
proof -
  have "plans_normal (acc @ ps) \<Longrightarrow> fold clone_plan ps acc = acc @ ps" for acc
  proof (induction ps arbitrary: acc)
    case (Cons kv ps)
    then have "clone_plan kv acc = acc @ [kv]" by (intro clone_plan_snoc) (auto simp: plans_normal_def)
    with Cons show ?case by simp
  qed simp
  then show "plans_normal ps \<Longrightarrow> clonePlanRegistryEntries ps = ps" by (simp add: clonePlanRegistryEntries_def)
qed

lemma clone_idem [simp]: "clonePlanRegistryEntries (clonePlanRegistryEntries ps) = clonePlanRegistryEntries ps"
  by (rule clone_normal) (rule clone_plans_normal)

lemma refresh_clone: "refreshConversationRuntimeState cd now c = Inr c' \<Longrightarrow> cloneConversationFile c' = c'"
  by (auto simp: refreshConversationRuntimeState_def cloneConversationFile_def split: sum.splits)

subsection \<open>What was written reads back\<close>

lemma normal_plan_fields:
  assumes "normal c" "refreshConversationRuntimeState cd now c = Inr c'" shows "normal c'"
proof -
  obtain t ps ts where c': "c' = c\<lparr>cf_CurrentPlanText := t, cf_CurrentPlans := ps, cf_CurrentTodos := ts\<rparr>"
    using assms(2) by (auto simp: refreshConversationRuntimeState_def split: sum.splits)
  have "loop_request c' = loop_request c" "loop_fallback c' = loop_fallback c"
    by (simp_all add: c' loop_request_def loop_fallback_def loop_lost_def)
  then show ?thesis
    using assms(1) by (auto simp: normal_def times_cover_def conv_ok_def seq_ok_def loop_settled_def c' simp del: append_Cons split: if_splits)
qed

lemma restore_same [simp]: "restore_loop c c = c"
  by (simp add: restore_loop_def)

lemma write_reads_back:
  assumes w: "writeConversationLocked env cid c d = (d', None, c')"
    and c: "entries_ok (cf_Entries c)" "times_pos c" "0 < se_now env" "trim_space cid \<noteq> []"
    and st: "stored_entries (cf_Entries c) = Some (cf_Entries c)"
  shows "normal c' \<and> cloneConversationFile c' = c' \<and>
    d' = \<lparr>cd_state = FileOk (c'\<lparr>cf_Entries := []\<rparr>), cd_context = FileOk (cf_Entries c')\<rparr>"
proof -
  let ?c1 = "normalizeLoadedConversation (se_now env) cid c"
  have n1: "normal ?c1" by (rule normalize_normal) (fact c)+
  obtain d1 e1 where x: "writeContextLocked env ?c1 d = (d1, e1)" by (cases "writeContextLocked env ?c1 d")
  with w have e1: "e1 = None" and m: "writeConversationMetaLocked env cid ?c1 d1 = (d', None, c')"
    by (auto simp: writeConversationLocked_def Let_def split: option.splits)
  have ctx: "cd_context d1 = FileOk (cf_Entries c)" using write_context_spec(3) [OF x] e1 st by auto
  from m normal_fix [OF n1] have r: "refreshConversationRuntimeState (se_codecs env) (se_now env) ?c1 = Inr c'"
    and d': "d' = d1\<lparr>cd_state := FileOk ((cloneConversationFile c')\<lparr>cf_SchemaVersion := conversationSchemaVersion,
      cf_ContextVersion := contextVersionForEntries (cf_Entries c'), cf_Entries := []\<rparr>)\<rparr>"
    by (auto simp: writeConversationMetaLocked_def Let_def writeJSONFileAtomic_def split: sum.splits write_outcome.splits)
  have n': "normal c'" by (rule normal_plan_fields [OF n1 r])
  then have "contextVersionForEntries (cf_Entries c') = cf_ContextVersion c'" "conversationSchemaVersion = cf_SchemaVersion c'"
    by (simp_all add: normal_def loop_settled_def)
  moreover have "cf_Entries c' = cf_Entries c" using refresh_Entries [OF r] by simp
  ultimately show ?thesis using n' refresh_clone [OF r] ctx d' by simp
qed

lemma append_to_ret:
  "append_to env cid id es c d = append_to env cid cloneConversationFile es c d"
proof -
  have "cloneConversationFile c3 = c3" if "writeConversationLocked env cid c2 d = (d', None, c3)" for c2 d' c3
  proof -
    from that obtain c1 d1 where "writeConversationMetaLocked env cid c1 d1 = (d', None, c3)"
      by (auto simp: writeConversationLocked_def Let_def split: prod.splits option.splits)
    then show ?thesis
      by (auto simp: writeConversationMetaLocked_def Let_def split: sum.splits prod.splits dest: refresh_clone)
  qed
  then show ?thesis
    by (auto simp: append_to_def Let_def finish_write_def split: prod.splits option.splits)
qed

lemma stored_fix_iff: "stored_entries es = Some es \<longleftrightarrow> (\<forall>e \<in> set es. \<exists>j. he_Payload e = RawJson j)"
proof (induction es)
  case (Cons e es)
  have "e\<lparr>he_Payload := p\<rparr> = e \<longleftrightarrow> p = he_Payload e" for p by (cases e) auto
  then show ?case using Cons by (auto simp: stored_payload_def split: option.splits raw_json.splits)
qed simp

lemma number_from_mem:
  "e \<in> set (number_from now n es) \<Longrightarrow> \<exists>x \<in> set es. he_Payload e = he_Payload x \<and> (he_CreatedAt e = he_CreatedAt x \<or> he_CreatedAt e = now)"
  by (induction es arbitrary: n) (auto simp: stamp_def)

lemma appended_times:
  assumes "times_pos c" "0 < now" "\<forall>e \<in> set es. 0 \<le> he_CreatedAt e" "es \<noteq> []"
    "cf_Entries (fst (appendEntriesInPlace now es c)) = cf_Entries c @ number_from now n es"
  shows "times_pos (deriveConversationLoopState (fst (appendEntriesInPlace now es c)))"
proof -
  let ?c = "fst (appendEntriesInPlace now es c)"
  have "cf_CreatedAt (deriveConversationLoopState ?c) = (if isZeroTime (cf_CreatedAt c) then now else cf_CreatedAt c)"
    "cf_UpdatedAt (deriveConversationLoopState ?c) = now"
    using assms(4) by (simp_all add: derive_alt appendEntriesInPlace_def Let_def case_prod_beta)
  moreover have "\<forall>e \<in> set (cf_Entries ?c). 0 \<le> he_CreatedAt e"
    using assms number_from_mem [of _ now n es] by (fastforce simp: times_pos_def)
  ultimately show ?thesis using assms(1,2) by (simp add: times_pos_def)
qed

text \<open>A successful append of new entries, and the files it leaves.\<close>

lemma append_body_reads_back:
  assumes d: "disk_ok d" and es: "unnumbered es" "cf_NextEntrySeq (current env cid d) + int (length es) \<le> max_i64"
    and st: "stored_entries es = Some es" and t: "times_pos (current env cid d)" "0 < se_now env" "\<forall>e \<in> set es. 0 \<le> he_CreatedAt e"
    and cid: "trim_space cid \<noteq> []"
    and a: "append_body env es cid d = (d', Inr (oc, as))" "as \<noteq> []"
  shows "\<exists>c. oc = Some c \<and> normal c \<and> cloneConversationFile c = c \<and>
    d' = \<lparr>cd_state = FileOk (c\<lparr>cf_Entries := []\<rparr>), cd_context = FileOk (cf_Entries c)\<rparr>"
proof -
  obtain c where c: "append_to env cid cloneConversationFile es c d = (d', Inr (oc, as))" "conv_ok c" "cf_Entries c = history d"
    "cf_NextEntrySeq c = cf_NextEntrySeq (current env cid d)" "c = (current env cid d)\<lparr>cf_Mode := cf_Mode c\<rparr>"
    using append_body_current [OF d, of env es cid] a(1) by metis
  define fresh where "fresh = filterDuplicatePromptContextEntries (se_sha env) (cf_Entries c) es"
  define c1 where "c1 = fst (appendEntriesInPlace (se_now env) fresh c)"
  have sub: "set fresh \<subseteq> set es"
    using filter_new_subset(1) by (force simp: fresh_def filterDuplicatePromptContextEntries_def)
  have un: "unnumbered fresh" using es(1) unfolding fresh_def by (rule unnumbered_filter)
  have room: "cf_NextEntrySeq c + int (length fresh) \<le> max_i64"
    using es(2) c(4) length_filterDuplicate [of "se_sha env" "cf_Entries c" es] unfolding fresh_def by linarith
  note app = appendEntriesInPlace_fresh [OF conv_seq_ok [OF c(2)] un room, of "se_now env"]
  have "times_pos ((current env cid d)\<lparr>cf_Mode := m\<rparr>)" for m using t(1) by (simp add: times_pos_def)
  then have tc: "times_pos c" by (subst c(5))
  have "\<exists>c2. writeConversationLocked env cid (deriveConversationLoopState c1) d = (d', None, c2) \<and>
      oc = Some (cloneConversationFile c2) \<and> fresh \<noteq> []"
    using c(1) a(2)
    by (auto simp: append_to_def Let_def finish_write_def fresh_def [symmetric] c1_def split: if_splits prod.splits option.splits)
  then obtain c2 where c2: "writeConversationLocked env cid (deriveConversationLoopState c1) d = (d', None, c2)"
    "oc = Some (cloneConversationFile c2)" "fresh \<noteq> []" by blast
  have ok: "entries_ok (cf_Entries (deriveConversationLoopState c1))"
    using numbers_ok_number_from [OF conv_seq_ok [OF c(2)] un room] app(1) by (simp add: c1_def)
  have "\<forall>e \<in> set (number_from (se_now env) (cf_NextEntrySeq c) fresh). \<exists>j. he_Payload e = RawJson j"
    using st sub number_from_mem unfolding stored_fix_iff by fastforce
  then have stored: "stored_entries (cf_Entries (deriveConversationLoopState c1)) = Some (cf_Entries (deriveConversationLoopState c1))"
    using disk_ok_history [OF d] app(1) c(3) by (auto simp: stored_fix_iff c1_def)
  have times: "times_pos (deriveConversationLoopState c1)"
    unfolding c1_def by (rule appended_times [OF tc t(2) _ c2(3) app(1)]) (use t(3) sub in blast)
  from write_reads_back [OF c2(1) ok times t(2) cid stored] c2(2) show ?thesis by simp
qed

lemma current_written:
  assumes "normal c" "cloneConversationFile c = c"
    "d = \<lparr>cd_state = FileOk (c\<lparr>cf_Entries := []\<rparr>), cd_context = FileOk (cf_Entries c)\<rparr>" "disk_ok d" "es \<noteq> []"
  shows "append_snapshot_body env c es cid d = append_body env es cid d"
proof -
  have meta: "normalizeConversationMetadata now cid (c\<lparr>cf_Entries := []\<rparr>) = c\<lparr>cf_Entries := []\<rparr>" for now
    using normal_fix(2) [OF assms(1), of now cid] assms(1)
    by (simp add: normalizeConversationMetadata_def default_times_def normalize_ids_def normal_def times_cover_def
        conv_ok_def seq_ok_def loop_settled_def isZeroTime_def Let_def)
  have "history d = cf_Entries c" using assms(3) by (simp add: history_def)
  then have cur: "current env cid d = c" using normal_fix(1) [OF assms(1)] assms(3) by (simp add: current_def)
  have "snapshot_matches (c\<lparr>cf_Entries := []\<rparr>) c" by (simp add: snapshot_matches_def)
  then have "append_snapshot_body env c es cid d = append_to env cid id es c d"
    using assms(3,4) by (simp add: snapshot_body_cases meta)
  moreover have "append_body env es cid d = append_to env cid cloneConversationFile es c d"
    using assms(3,4) cur by (simp add: append_body_def read_current)
  ultimately show ?thesis by (simp add: append_to_ret)
qed

lemma validate_trimmed: "validateConversationID sep raw = Inr cid \<Longrightarrow> cid \<noteq> [] \<and> trim_space cid = cid"
  by (auto simp: validateConversationID_def Let_def split: if_splits)

text \<open>C31. Appending from a snapshot is appending: after a successful append of new entries, using the
  conversation it returned as the snapshot of the next append, which then skips reading the
  context file, leaves the same files and returns the same conversation and entries as the append
  that reads both files, whatever the outcome of its writes.\<close>

theorem snapshot_append_equivalent:
  assumes "store_reach st" "validateConversationID (se_separator env) conversationID = Inr cid"
    and "unnumbered es" "es \<noteq> []" "room env conversationID (length es) st" "stored_entries es = Some es"
    and "0 < se_now env" "times_pos (current env cid (st cid))" "\<forall>e \<in> set es. 0 \<le> he_CreatedAt e"
    and "AppendEntries env conversationID es st = (st', Inr (Some c, assigned))" "assigned \<noteq> []"
    and "se_separator env' = se_separator env" "es' \<noteq> []"
  shows "AppendEntriesFromSnapshot env' conversationID (Some c) es' st' = AppendEntries env' conversationID es' st'"
proof -
  have d: "disk_ok (st cid)" using assms(1) by (rule store_reach_disk)
  have rm: "cf_NextEntrySeq (current env cid (st cid)) + int (length es) \<le> max_i64"
    using assms(2,5) by (simp add: room_def)
  obtain d' r' where b: "append_body env es cid (st cid) = (d', r')" by (cases "append_body env es cid (st cid)")
  with assms(2,4,10) have st': "st' = st(cid := d')" "append_body env es cid (st cid) = (d', Inr (Some c, assigned))"
    by (auto simp: AppendEntries_def locked_def split: if_splits)
  have "trim_space cid \<noteq> []" using validate_trimmed [OF assms(2)] by simp
  from append_body_reads_back [OF d assms(3) rm assms(6,8,7,9) this st'(2) assms(11)]
  have c: "normal c" "cloneConversationFile c = c"
    "d' = \<lparr>cd_state = FileOk (c\<lparr>cf_Entries := []\<rparr>), cd_context = FileOk (cf_Entries c)\<rparr>" by blast+
  have "append_snapshot_body env' c es' cid d' = append_body env' es' cid d'"
    using current_written [OF c append_body_spec(1) [OF d assms(3) rm b] assms(13)] .
  then show ?thesis
    using assms(2,12,13) st'(1)
    by (simp add: AppendEntriesFromSnapshot_def AppendEntries_def locked_def)
qed

definition demo_snapshot :: ConversationFile where
  "demo_snapshot = (case snd demo_append of Inr (Some c, _) \<Rightarrow> c | _ \<Rightarrow> emptyConversation)"

theorem snapshot_append_equivalent_witness:
  "map he_Seq (history (fst (AppendEntriesFromSnapshot store_env0 ''c1'' (Some demo_snapshot) [demo_entry ''tool_call''] (fst demo_append)) ''c1''))
     = [1, 2, 3] \<and>
   AppendEntriesFromSnapshot store_env0 ''c1'' (Some demo_snapshot) [demo_entry ''tool_call''] (fst demo_append) =
   AppendEntries store_env0 ''c1'' [demo_entry ''tool_call''] (fst demo_append)"
proof
  show "map he_Seq (history (fst (AppendEntriesFromSnapshot store_env0 ''c1'' (Some demo_snapshot) [demo_entry ''tool_call''] (fst demo_append)) ''c1''))
     = [1, 2, 3]" by code_simp
  have some: "(case snd demo_append of Inr (Some c, a) \<Rightarrow> a \<noteq> [] | _ \<Rightarrow> False)" by code_simp
  then obtain a where a: "snd demo_append = Inr (Some demo_snapshot, a)" "a \<noteq> []"
    by (auto simp: demo_snapshot_def split: sum.splits option.splits prod.splits)
  have app: "AppendEntries store_env0 ''c1'' [demo_entry ''assistant_text''] demo_store = (fst demo_append, Inr (Some demo_snapshot, a))"
    using a(1) by (simp add: demo_append_def prod_eq_iff)
  have t: "times_pos (current store_env0 ''c1'' (demo_store ''c1''))" unfolding times_pos_def by code_simp
  have e: "stored_entries [demo_entry ''assistant_text''] = Some [demo_entry ''assistant_text'']"
    "\<forall>e \<in> set [demo_entry ''assistant_text'']. 0 \<le> he_CreatedAt e" "0 < se_now store_env0"
    by (simp_all add: demo_entry_def stored_payload_def store_env0_def)
  show "AppendEntriesFromSnapshot store_env0 ''c1'' (Some demo_snapshot) [demo_entry ''tool_call''] (fst demo_append) =
   AppendEntries store_env0 ''c1'' [demo_entry ''tool_call''] (fst demo_append)"
    by (rule snapshot_append_equivalent [OF demo_store_reach demo_valid demo_unnumbered(1) _ _ e(1,3) t e(2) app a(2)])
      (use demo_room in simp_all)
qed

end
