(* ===== verification/Checkpoint_Memory.thy ===== *)
theory Checkpoint_Memory
  imports Snapshot_Append
begin

text \<open>
  The conversation a stream keeps in memory, \<open>forwarder/checkpoint_memory.go\<close>, and its mirror in the
  store (\<open>syncConversationRecord\<close> and \<open>newRuntimeConversation\<close> of \<open>runtime_summary.go\<close>).

  The stream's \<open>CheckpointConversation\<close> is an option.  The operations that persist release the
  stream's lock while they write: \<open>append_begin\<close> and \<open>append_finish\<close> are the two critical sections, and
  \<open>between\<close> is what other goroutines did to the checkpoint while the lock was free.
\<close>

datatype checkpoint_error = CheckpointNotInitialized | StoreError store_error | NotPersisted

definition replaceCheckpointConversation :: "ConversationFile \<Rightarrow> ConversationFile option \<Rightarrow> ConversationFile option" where
  "replaceCheckpointConversation conversation checkpoint = Some (cloneConversationFile conversation)"

definition checkpointConversationInitialized :: "ConversationFile option \<Rightarrow> bool" where
  "checkpointConversationInitialized checkpoint \<longleftrightarrow> checkpoint \<noteq> None"

definition appendCheckpointEntries ::
    "go_time \<Rightarrow> HistoryEntry list \<Rightarrow> ConversationFile option \<Rightarrow> ConversationFile option \<times> checkpoint_error option" where
  "appendCheckpointEntries now es checkpoint =
     (if es = [] then (checkpoint, None)
      else case checkpoint of
        None \<Rightarrow> (None, Some CheckpointNotInitialized)
      | Some c \<Rightarrow> (Some (fst (appendEntriesInPlace now es c)), None))"

definition snapshotCheckpointConversation :: "ConversationFile option \<Rightarrow> checkpoint_error + ConversationFile" where
  "snapshotCheckpointConversation checkpoint = (case checkpoint of
       None \<Rightarrow> Inl CheckpointNotInitialized | Some c \<Rightarrow> Inr (cloneConversationFile c))"

text \<open>Putting a conversation back: it must not be older than what the stream has.\<close>

definition append_finish :: "ConversationFile \<Rightarrow> ConversationFile option \<Rightarrow> ConversationFile option" where
  "append_finish persisted checkpoint = (case checkpoint of
       None \<Rightarrow> Some persisted
     | Some c \<Rightarrow> if cf_ContextVersion c < cf_ContextVersion persisted then Some persisted else Some c)"

definition working_finish :: "ConversationFile \<Rightarrow> ConversationFile option \<Rightarrow> ConversationFile option" where
  "working_finish working checkpoint = (case checkpoint of
       None \<Rightarrow> Some working
     | Some c \<Rightarrow> if cf_ContextVersion c \<le> cf_ContextVersion working then Some working else Some c)"

definition appendConversationEntries ::
    "store_env \<Rightarrow> string \<Rightarrow> HistoryEntry list \<Rightarrow> (ConversationFile option \<Rightarrow> ConversationFile option)
       \<Rightarrow> store option \<Rightarrow> ConversationFile option
       \<Rightarrow> store option \<times> ConversationFile option \<times> (checkpoint_error + HistoryEntry list)" where
  "appendConversationEntries env conversationID es between st checkpoint =
     (if es = [] then (st, checkpoint, Inr [])
      else case checkpoint of
        None \<Rightarrow> (st, None, Inl CheckpointNotInitialized)
      | Some c \<Rightarrow> (case st of
          Some s \<Rightarrow>
            (case AppendEntriesFromSnapshot env conversationID (Some (cloneConversationFile c)) (resetEntrySequences es) s of
               (s', Inl err) \<Rightarrow> (Some s', between checkpoint, Inl (StoreError err))
             | (s', Inr (None, assigned)) \<Rightarrow> (Some s', between checkpoint, Inl NotPersisted)
             | (s', Inr (Some persisted, assigned)) \<Rightarrow> (Some s', append_finish persisted (between checkpoint), Inr assigned))
        | None \<Rightarrow>
            (case appendEntriesInPlace (se_now env) es (cloneConversationFile c) of
               (working, assigned) \<Rightarrow> (None, working_finish working (between checkpoint), Inr assigned))))"

definition newRuntimeConversation :: "go_time \<Rightarrow> string \<Rightarrow> AgentMode \<Rightarrow> string \<Rightarrow> mode_error + ConversationFile" where
  "newRuntimeConversation now conversationID mode promptProfile = (case modeAlias mode of
       Inl err \<Rightarrow> Inl err
     | Inr alias \<Rightarrow> Inr (emptyConversation\<lparr>cf_ConversationID := trim_space conversationID,
         cf_RootConversationID := trim_space conversationID, cf_Mode := alias,
         cf_PromptProfile := normalizedPromptProfile promptProfile, cf_CreatedAt := now, cf_UpdatedAt := now,
         cf_NextTurnSeq := 1, cf_NextEntrySeq := 1\<rparr>))"

text \<open>The metadata \<open>syncConversationRecord\<close> copies into \<open>state.json\<close>.\<close>

definition sync_fields :: "ConversationFile \<Rightarrow> ConversationFile \<Rightarrow> ConversationFile" where
  "sync_fields c item =
     (let start = trim_space (cf_StartPromptContent item) = [] \<and> trim_space (cf_StartPromptContent c) \<noteq> [] in
      item\<lparr>cf_ConversationID := cf_ConversationID c, cf_RootConversationID := cf_RootConversationID c,
        cf_ParentConversationID := cf_ParentConversationID c, cf_ParentToolCallID := cf_ParentToolCallID c,
        cf_SubagentTypeName := cf_SubagentTypeName c, cf_Mode := cf_Mode c,
        cf_StartPromptMode := (if start then trim_space (cf_StartPromptMode c) else cf_StartPromptMode item),
        cf_StartPromptPath := (if start then trim_space (cf_StartPromptPath c) else cf_StartPromptPath item),
        cf_StartPromptModel := (if start then trim_space (cf_StartPromptModel c) else cf_StartPromptModel item),
        cf_StartPromptContent := (if start then cf_StartPromptContent c else cf_StartPromptContent item),
        cf_TokenDetailsUsedTokens := cf_TokenDetailsUsedTokens c, cf_TokenDetailsMaxTokens := cf_TokenDetailsMaxTokens c,
        cf_AutoCompactionPending := cf_AutoCompactionPending c,
        cf_AutoCompactionPromptTokens := cf_AutoCompactionPromptTokens c,
        cf_AutoCompactionReserveTokens := cf_AutoCompactionReserveTokens c,
        cf_AutoCompactionTriggeredAt := cf_AutoCompactionTriggeredAt c,
        cf_AutoCompactionSourceModelCallID := cf_AutoCompactionSourceModelCallID c,
        cf_LatestRequestPrefix := cf_LatestRequestPrefix c, cf_LastProviderCall := cf_LastProviderCall c,
        cf_CreatedAt := cf_CreatedAt c, cf_UpdatedAt := cf_UpdatedAt c, cf_NextTurnSeq := cf_NextTurnSeq c,
        cf_NextEntrySeq := cf_NextEntrySeq c, cf_CurrentLoopID := cf_CurrentLoopID c,
        cf_CurrentLoopStatus := cf_CurrentLoopStatus c, cf_CurrentRequestID := cf_CurrentRequestID c,
        cf_CurrentTurnSeq := cf_CurrentTurnSeq c\<rparr>)"

definition syncConversationRecord ::
    "store_env \<Rightarrow> string \<Rightarrow> ConversationFile \<Rightarrow> store option \<Rightarrow> store option \<times> store_error option" where
  "syncConversationRecord env conversationID c st = (case st of
       None \<Rightarrow> (None, None)
     | Some s \<Rightarrow> (case parseModeAlias (cf_Mode c) of
           Inl err \<Rightarrow> (Some s, Some (BadMode err))
         | Inr mode \<Rightarrow>
             (case createConversation env conversationID mode (cf_ParentConversationID c) (cf_ParentToolCallID c)
                     (cf_RootConversationID c) (cf_PromptProfile c) s of
                (s1, Inl err) \<Rightarrow> (Some s1, Some err)
              | (s1, Inr _) \<Rightarrow>
                  (case UpdateConversationMeta env conversationID (\<lambda>item. Inr (sync_fields c item)) s1 of
                     (s2, Inl err) \<Rightarrow> (Some s2, Some err) | (s2, Inr _) \<Rightarrow> (Some s2, None)))))"

definition updateConversationMetaAndCheckpoint ::
    "store_env \<Rightarrow> string \<Rightarrow> (ConversationFile \<Rightarrow> string + ConversationFile)
       \<Rightarrow> (ConversationFile option \<Rightarrow> ConversationFile option) \<Rightarrow> store option \<Rightarrow> ConversationFile option
       \<Rightarrow> store option \<times> ConversationFile option \<times> (checkpoint_error + ConversationFile option)" where
  "updateConversationMetaAndCheckpoint env conversationID upd between st checkpoint = (case checkpoint of
       None \<Rightarrow> (st, None, Inl CheckpointNotInitialized)
     | Some c0 \<Rightarrow> (case upd (cloneConversationFile c0) of
           Inl err \<Rightarrow> (st, between checkpoint, Inl (StoreError (UpdateFailed err)))
         | Inr c \<Rightarrow> (case syncConversationRecord env conversationID c st of
               (st1, Some err) \<Rightarrow> (st1, between checkpoint, Inl (StoreError err))
             | (st1, None) \<Rightarrow>
                 (let checkpoint' = working_finish c (between checkpoint)
                  in (st1, checkpoint', Inr (map_option cloneConversationFile checkpoint'))))))"

subsection \<open>The checkpoint mirrors the disk\<close>

definition mirrors :: "ConversationFile \<Rightarrow> conversation_disk \<Rightarrow> bool" where
  "mirrors c d \<longleftrightarrow> normal c \<and> cloneConversationFile c = c \<and> times_pos c \<and>
     d = \<lparr>cd_state = FileOk (c\<lparr>cf_Entries := []\<rparr>), cd_context = FileOk (cf_Entries c)\<rparr>"

lemma mirrors_current: "mirrors c d \<Longrightarrow> current env cid d = c \<and> history d = cf_Entries c"
  using normal_fix(1) by (auto simp: mirrors_def current_def history_def)

lemma mirrors_load:
  assumes "mirrors c (st cid)" "disk_ok (st cid)" "validateConversationID (se_separator env) conversationID = Inr cid"
    "se_mkdir env" "se_lock env"
  shows "LoadConversation env conversationID st = (st, Inr (Some c))"
proof -
  obtain md where "cd_state (st cid) = FileOk md" "cloneConversationFile c = c" using assms(1) by (auto simp: mirrors_def)
  then show ?thesis
    using load_spec [of st cid, OF assms(2-5)] mirrors_current [OF assms(1)] by simp
qed

lemma version_grows:
  assumes "seq_ok c" "es \<noteq> []"
  shows "contextVersionForEntries (cf_Entries c) < contextVersionForEntries (cf_Entries c @ number_from now (cf_NextEntrySeq c) es)"
proof -
  let ?n = "cf_NextEntrySeq c"
  have "contextVersionForEntries (cf_Entries c) \<in> insert 0 (set (map he_Seq (cf_Entries c)))"
    unfolding contextVersion_max by (rule fold_max_in)
  then have "contextVersionForEntries (cf_Entries c) < ?n" using assms(1) by (auto simp: seq_ok_def)
  moreover obtain e es' where "es = e # es'" using assms(2) by (cases es) auto
  then have "\<exists>x \<in> set (cf_Entries c @ number_from now ?n es). he_Seq x = ?n" by auto
  then have "?n \<le> contextVersionForEntries (cf_Entries c @ number_from now ?n es)" by (metis contextVersion_bound)
  ultimately show ?thesis by linarith
qed

lemma mirrored_append:
  assumes m: "mirrors c d" "disk_ok d" and es: "unnumbered es" "cf_NextEntrySeq c + int (length es) \<le> max_i64" "es \<noteq> []"
    and st: "stored_entries es = Some es" and t: "0 < se_now env" "\<forall>e \<in> set es. 0 \<le> he_CreatedAt e" and cid: "trim_space cid \<noteq> []"
    and a: "append_snapshot_body env c es cid d = (d', Inr (oc, as))"
  shows "disk_ok d' \<and> (\<exists>p. oc = Some p \<and> mirrors p d' \<and> cf_Entries p = cf_Entries c @ as \<and>
    as = fresh_entries env c es \<and> (if as = [] then p = c else cf_ContextVersion c < cf_ContextVersion p))"
proof -
  have n: "normal c" "cloneConversationFile c = c" "times_pos c" "conv_ok c"
    and d: "d = \<lparr>cd_state = FileOk (c\<lparr>cf_Entries := []\<rparr>), cd_context = FileOk (cf_Entries c)\<rparr>"
    using m(1) by (auto simp: mirrors_def normal_def)
  note cur = mirrors_current [OF m(1), of env cid]
  have b: "append_body env es cid d = (d', Inr (oc, as))"
    using a current_written [OF n(1,2) d m(2) es(3)] by simp
  then have to: "append_to env cid cloneConversationFile es c d = (d', Inr (oc, as))"
    using m(2) cur d by (simp add: append_body_def read_current)
  note spec = append_to_spec [OF conv_seq_ok [OF n(4)] m(2) es(1,2) clone_Entries to]
  show ?thesis
  proof (cases "as = []")
    case True
    have "as = fresh_entries env c es" using spec(3) [OF refl] by blast
    then have "filterDuplicatePromptContextEntries (se_sha env) (cf_Entries c) es = []"
      using True number_from_Nil by (simp add: fresh_entries_def eq_commute [of "[]"])
    then have "oc = Some c" "d' = d" using to n(2) by (simp_all add: append_to_def Let_def)
    then show ?thesis using m True \<open>as = fresh_entries env c es\<close> by simp
  next
    case False
    have room: "cf_NextEntrySeq (current env cid d) + int (length es) \<le> max_i64" using es(2) cur by simp
    have tp: "times_pos (current env cid d)" using n(3) cur by simp
    obtain p where p: "oc = Some p" "normal p" "cloneConversationFile p = p"
      "d' = \<lparr>cd_state = FileOk (p\<lparr>cf_Entries := []\<rparr>), cd_context = FileOk (cf_Entries p)\<rparr>"
      using append_body_reads_back [OF m(2) es(1) room st tp t(1,2) cid b False] by blast
    have new: "cf_Entries p = cf_Entries c @ as" "as = fresh_entries env c es" using spec(3) [OF refl] p(1) by auto
    have "times_pos p"
    proof -
      have "set (filterDuplicatePromptContextEntries (se_sha env) (cf_Entries c) es) \<subseteq> set es"
        using filter_new_subset(1) by (force simp: filterDuplicatePromptContextEntries_def)
      then have "\<forall>e \<in> set as. 0 \<le> he_CreatedAt e"
        using t number_from_mem unfolding new(2) fresh_entries_def by fastforce
      then show ?thesis using n(3) p(2) new(1) by (auto simp: times_pos_def normal_def times_cover_def)
    qed
    moreover have "cf_ContextVersion c < cf_ContextVersion p"
    proof -
      have "cf_ContextVersion x = contextVersionForEntries (cf_Entries x)" if "normal x" for x
        using that by (simp add: normal_def loop_settled_def)
      then show ?thesis using n(1) p(2) new version_grows [OF conv_seq_ok [OF n(4)]] False by (simp add: fresh_entries_def)
    qed
    ultimately show ?thesis using p new False spec(1) by (simp add: mirrors_def)
  qed
qed

lemma append_through_checkpoint:
  assumes "mirrors c (st cid)" "disk_ok (st cid)" "validateConversationID (se_separator env) conversationID = Inr cid"
    and "turns_ok es" "es \<noteq> []" "cf_NextEntrySeq c + int (length es) \<le> max_i64" "stored_entries es = Some es"
    and "0 < se_now env" "\<forall>e \<in> set es. 0 \<le> he_CreatedAt e"
    and "appendConversationEntries env conversationID es id (Some st) (Some c) = (st', checkpoint, Inr assigned)"
  shows "\<exists>s c'. st' = Some s \<and> checkpoint = Some c' \<and> mirrors c' (s cid) \<and> disk_ok (s cid) \<and>
    cf_Entries c' = cf_Entries c @ assigned \<and> assigned = fresh_entries env c (resetEntrySequences es) \<and>
    LoadConversation env conversationID s = (s, Inr (Some c'))"
proof -
  let ?es = "resetEntrySequences es"
  have clone: "cloneConversationFile c = c" using assms(1) by (simp add: mirrors_def)
  have un: "unnumbered ?es" using assms(4) by (intro unnumbered_reset) (simp add: turns_ok_def)
  have st: "stored_entries ?es = Some ?es" using assms(7) by (simp add: stored_fix_iff resetEntrySequences_def)
  have ne: "?es \<noteq> []" using assms(5) by (simp add: resetEntrySequences_def)
  have room: "cf_NextEntrySeq c + int (length ?es) \<le> max_i64" using assms(6) by simp
  have t: "\<forall>e \<in> set ?es. 0 \<le> he_CreatedAt e" using assms(9) by (simp add: resetEntrySequences_def)
  have cid: "trim_space cid \<noteq> []" using validate_trimmed [OF assms(3)] by simp
  obtain d' oc where a: "append_snapshot_body env c ?es cid (st cid) = (d', Inr (oc, assigned))" "se_mkdir env" "se_lock env"
    "st' = Some (st(cid := d'))" "\<exists>p. oc = Some p \<and> checkpoint = append_finish p (Some c)"
    using assms(3,5,10) ne
    by (auto simp: appendConversationEntries_def AppendEntriesFromSnapshot_def locked_def clone
        split: prod.splits sum.splits option.splits if_splits)
  from mirrored_append [OF assms(1,2) un room ne st assms(8) t cid a(1)] obtain p where
    p: "disk_ok d'" "oc = Some p" "mirrors p d'" "cf_Entries p = cf_Entries c @ assigned"
      "assigned = fresh_entries env c ?es" "if assigned = [] then p = c else cf_ContextVersion c < cf_ContextVersion p" by blast
  have "checkpoint = Some p" using a(5) p(2,6) by (auto simp: append_finish_def split: if_splits)
  moreover have "LoadConversation env conversationID (st(cid := d')) = (st(cid := d'), Inr (Some p))"
    using p(1,3) assms(3) a(2,3) by (intro mirrors_load) simp_all
  ultimately show ?thesis using a(4) p by simp
qed

text \<open>C35. The checkpoint mirrors the disk: when the conversation a stream keeps in memory is what the
  store would load, and no other goroutine touches the checkpoint meanwhile, appending entries
  through the stream succeeds only in a state where this is true again, with exactly the appended
  entries added, so that any number of appends may rely on the checkpoint alone.\<close>

theorem checkpoint_mirrors_disk:
  assumes "mirrors c (st cid)" "disk_ok (st cid)" "validateConversationID (se_separator env) conversationID = Inr cid"
    and "turns_ok es" "es \<noteq> []" "cf_NextEntrySeq c + int (length es) \<le> max_i64" "stored_entries es = Some es"
    and "0 < se_now env" "\<forall>e \<in> set es. 0 \<le> he_CreatedAt e"
    and "appendConversationEntries env conversationID es id (Some st) (Some c) = (st', checkpoint, Inr assigned)"
  shows "\<exists>s c'. st' = Some s \<and> checkpoint = Some c' \<and> mirrors c' (s cid) \<and> disk_ok (s cid) \<and>
    cf_Entries c' = cf_Entries c @ assigned \<and> LoadConversation env conversationID s = (s, Inr (Some c'))"
  using append_through_checkpoint [OF assms] by blast

definition demo_append_result :: "store option \<times> ConversationFile option \<times> (checkpoint_error + HistoryEntry list)" where
  "demo_append_result = appendConversationEntries store_env0 ''c1'' [demo_entry ''tool_call''] id (Some (fst demo_append)) (Some demo_snapshot)"

lemma demo_mirrors:
  "mirrors demo_snapshot (fst demo_append ''c1'')" "disk_ok (fst demo_append ''c1'')"
proof -
  have "(case snd demo_append of Inr (Some c, a) \<Rightarrow> a \<noteq> [] | _ \<Rightarrow> False)" by code_simp
  then obtain a where a: "snd demo_append = Inr (Some demo_snapshot, a)" "a \<noteq> []"
    by (auto simp: demo_snapshot_def split: sum.splits option.splits prod.splits)
  obtain d' r where b: "append_body store_env0 [demo_entry ''assistant_text''] ''c1'' (demo_store ''c1'') = (d', r)"
    by (cases "append_body store_env0 [demo_entry ''assistant_text''] ''c1'' (demo_store ''c1'')")
  then have d: "fst demo_append ''c1'' = d'" "snd demo_append = r"
    by (simp_all add: demo_append_def AppendEntries_def locked_def demo_valid demo_flags)
  have t: "times_pos (current store_env0 ''c1'' (demo_store ''c1''))" unfolding times_pos_def by code_simp
  have e: "stored_entries [demo_entry ''assistant_text''] = Some [demo_entry ''assistant_text'']"
    "\<forall>e \<in> set [demo_entry ''assistant_text'']. 0 \<le> he_CreatedAt e" "0 < se_now store_env0"
    by (simp_all add: demo_entry_def stored_payload_def store_env0_def)
  have rm: "cf_NextEntrySeq (current store_env0 ''c1'' (demo_store ''c1'')) + int (length [demo_entry ''assistant_text'']) \<le> max_i64"
    using demo_room by (simp add: room_def demo_valid)
  have ok: "disk_ok (demo_store ''c1'')" using demo_store_reach by (rule store_reach_disk)
  have c: "trim_space ''c1'' \<noteq> []" by code_simp
  have "normal demo_snapshot \<and> cloneConversationFile demo_snapshot = demo_snapshot \<and>
    d' = \<lparr>cd_state = FileOk (demo_snapshot\<lparr>cf_Entries := []\<rparr>), cd_context = FileOk (cf_Entries demo_snapshot)\<rparr>"
    using append_body_reads_back [OF ok demo_unnumbered(1) rm e(1) t e(3,2) c b [unfolded d(2) [symmetric] a(1)] a(2)] by simp
  moreover have "times_pos demo_snapshot" unfolding times_pos_def by code_simp
  ultimately show "mirrors demo_snapshot (fst demo_append ''c1'')" using d(1) by (simp add: mirrors_def)
  show "disk_ok (fst demo_append ''c1'')" unfolding d(1) by (rule append_body_spec(1) [OF ok demo_unnumbered(1) rm b])
qed

theorem checkpoint_mirrors_disk_witness:
  "\<exists>a s c'. demo_append_result = (Some s, Some c', Inr a) \<and> mirrors c' (s ''c1'') \<and> cf_Entries c' = cf_Entries demo_snapshot @ a \<and>
    map he_Seq a = [3]"
proof -
  have "(case snd (snd demo_append_result) of Inr a \<Rightarrow> map he_Seq a = [3] | _ \<Rightarrow> False)" by code_simp
  then obtain a where "snd (snd demo_append_result) = Inr a" "map he_Seq a = [3]" by (cases "snd (snd demo_append_result)") auto
  then obtain st' cp where a: "demo_append_result = (st', cp, Inr a)" "map he_Seq a = [3]" by (metis prod.collapse)
  have e: "turns_ok [demo_entry ''tool_call'']" "stored_entries [demo_entry ''tool_call''] = Some [demo_entry ''tool_call'']"
    "\<forall>e \<in> set [demo_entry ''tool_call'']. 0 \<le> he_CreatedAt e" "0 < se_now store_env0"
    by (simp_all add: turns_ok_def demo_entry_def stored_payload_def store_env0_def)
  have rm: "cf_NextEntrySeq demo_snapshot + int (length [demo_entry ''tool_call'']) \<le> max_i64" by code_simp
  from checkpoint_mirrors_disk [OF demo_mirrors demo_valid e(1) _ rm e(2,4,3) a(1) [unfolded demo_append_result_def]]
  obtain s c' where "st' = Some s" "cp = Some c'" "mirrors c' (s ''c1'')" "cf_Entries c' = cf_Entries demo_snapshot @ a" by auto
  with a show ?thesis by (intro exI [of _ a] exI [of _ s] exI [of _ c']) simp
qed

end
