(* ===== verification/Conversation_Lock.thy ===== *)
theory Conversation_Lock
  imports Go_Strings
begin

text \<open>
  The locks around a conversation's files, \<open>forwarder/file_store.go\<close>: a mutex per path within a
  process, counted by the goroutines that use it, and a lock file between processes, with its owner,
  its staleness test and the retry loop of the acquisition.

  The lock file's text is what the code writes and parses; \<open>parse_time\<close> and \<open>format_time\<close> stand for
  \<open>time.Parse\<close> and \<open>Time.Format\<close> with the RFC 3339 layout.  Whether a process is alive, and when it
  started, are arguments.
\<close>

subsection \<open>The mutex of a process\<close>

record conversationProcessLock =
  pl_held :: bool
  pl_refs :: int

datatype lock_user = LockIdle | LockWaiting string nat | LockHolding string nat | LockLeaving string nat

record process_locks =
  pw_map :: "string \<rightharpoonup> nat"
  pw_heap :: "nat \<Rightarrow> conversationProcessLock"
  pw_next :: nat
  pw_user :: "nat \<Rightarrow> lock_user"

definition init_process_locks :: process_locks where
  "init_process_locks = \<lparr>pw_map = Map.empty, pw_heap = (\<lambda>_. \<lparr>pl_held = False, pl_refs = 0\<rparr>), pw_next = 0, pw_user = (\<lambda>_. LockIdle)\<rparr>"

text \<open>The critical sections of \<open>acquireConversationProcessLock\<close> and of the function it returns.\<close>

definition process_lock_enter :: "nat \<Rightarrow> string \<Rightarrow> process_locks \<Rightarrow> process_locks" where
  "process_lock_enter g key w =
     (let (i, w1) = (case pw_map w key of
            Some i \<Rightarrow> (i, w)
          | None \<Rightarrow> (pw_next w, w\<lparr>pw_map := (pw_map w)(key \<mapsto> pw_next w),
              pw_heap := (pw_heap w)(pw_next w := \<lparr>pl_held = False, pl_refs = 0\<rparr>), pw_next := Suc (pw_next w)\<rparr>))
      in w1\<lparr>pw_heap := (pw_heap w1)(i := (pw_heap w1 i)\<lparr>pl_refs := pl_refs (pw_heap w1 i) + 1\<rparr>),
            pw_user := (pw_user w1)(g := LockWaiting key i)\<rparr>)"

definition process_lock_take :: "nat \<Rightarrow> string \<Rightarrow> nat \<Rightarrow> process_locks \<Rightarrow> process_locks" where
  "process_lock_take g key i w = w\<lparr>pw_heap := (pw_heap w)(i := (pw_heap w i)\<lparr>pl_held := True\<rparr>),
     pw_user := (pw_user w)(g := LockHolding key i)\<rparr>"

definition process_lock_unlock :: "nat \<Rightarrow> string \<Rightarrow> nat \<Rightarrow> process_locks \<Rightarrow> process_locks" where
  "process_lock_unlock g key i w = w\<lparr>pw_heap := (pw_heap w)(i := (pw_heap w i)\<lparr>pl_held := False\<rparr>),
     pw_user := (pw_user w)(g := LockLeaving key i)\<rparr>"

definition process_lock_leave :: "nat \<Rightarrow> string \<Rightarrow> nat \<Rightarrow> process_locks \<Rightarrow> process_locks" where
  "process_lock_leave g key i w =
     (let refs = pl_refs (pw_heap w i) - 1
      in w\<lparr>pw_heap := (pw_heap w)(i := (pw_heap w i)\<lparr>pl_refs := refs\<rparr>),
           pw_map := (if refs \<le> 0 then (pw_map w)(key := None) else pw_map w),
           pw_user := (pw_user w)(g := LockIdle)\<rparr>)"

inductive process_lock_step :: "process_locks \<Rightarrow> process_locks \<Rightarrow> bool" where
  enter: "pw_user w g = LockIdle \<Longrightarrow> process_lock_step w (process_lock_enter g key w)"
| take: "pw_user w g = LockWaiting key i \<Longrightarrow> \<not> pl_held (pw_heap w i) \<Longrightarrow> process_lock_step w (process_lock_take g key i w)"
| unlock: "pw_user w g = LockHolding key i \<Longrightarrow> process_lock_step w (process_lock_unlock g key i w)"
| leave: "pw_user w g = LockLeaving key i \<Longrightarrow> process_lock_step w (process_lock_leave g key i w)"

inductive process_lock_reach :: "process_locks \<Rightarrow> bool" where
  start: "process_lock_reach init_process_locks"
| step: "process_lock_reach w \<Longrightarrow> process_lock_step w w' \<Longrightarrow> process_lock_reach w'"

subsection \<open>The lock file\<close>

text \<open>\<open>strings.Cut\<close> at an equals sign.\<close>

fun cut_eq :: "string \<Rightarrow> (string \<times> string) option" where
  "cut_eq [] = None"
| "cut_eq (c # s) = (if c = CHR ''='' then Some ([], s) else map_option (\<lambda>(a, b). (c # a, b)) (cut_eq s))"

definition nl :: char where
  "nl = CHR 0x0A"

definition lock_line :: "(string \<Rightarrow> go_time option) \<Rightarrow> string \<Rightarrow> int \<times> go_time \<times> string \<Rightarrow> int \<times> go_time \<times> string" where
  "lock_line parse_time line md = (case md of (pid, createdAt, owner) \<Rightarrow>
     (case cut_eq (trim_space line) of
        None \<Rightarrow> md
      | Some (key, v) \<Rightarrow>
          if trim_space key = ''pid'' then
            (case atoi_go (trim_space v) of Some n \<Rightarrow> (if n > 0 then (n, createdAt, owner) else md) | None \<Rightarrow> md)
          else if trim_space key = ''created_at'' then
            (case parse_time (trim_space v) of Some t \<Rightarrow> (pid, t, owner) | None \<Rightarrow> md)
          else if trim_space key = ''owner'' then (pid, createdAt, trim_space v)
          else md))"

definition readConversationLockMetadata :: "(string \<Rightarrow> go_time option) \<Rightarrow> string option \<Rightarrow> int \<times> go_time \<times> string" where
  "readConversationLockMetadata parse_time body = (case body of
       None \<Rightarrow> (0, 0, [])
     | Some s \<Rightarrow> fold (lock_line parse_time) (split_on nl s) (0, 0, []))"

definition conversationLockOwnerToken :: "int \<Rightarrow> int \<Rightarrow> string" where
  "conversationLockOwnerToken pid unixNano = int_dec pid @ ''-'' @ int_dec unixNano"

definition lock_text :: "(go_time \<Rightarrow> string) \<Rightarrow> int \<Rightarrow> string \<Rightarrow> go_time \<Rightarrow> string" where
  "lock_text format_time pid owner now =
     ''pid='' @ int_dec pid @ [nl] @ ''owner='' @ owner @ [nl] @ ''created_at='' @ format_time now @ [nl]"

record lock_file =
  lf_inode :: nat
  lf_text :: string
  lf_mod :: go_time

definition conversationLockStaleAfter :: int where
  "conversationLockStaleAfter = 30 * 60 * 10 ^ 9"

definition legacyConversationLockStaleAfter :: int where
  "legacyConversationLockStaleAfter = 30 * 10 ^ 9"

definition lockCreatedBeforeCurrentProcess :: "(string \<Rightarrow> go_time option) \<Rightarrow> go_time \<Rightarrow> lock_file \<Rightarrow> bool" where
  "lockCreatedBeforeCurrentProcess parse_time processStartedAt f =
     (let startedAt = processStartedAt - 10 ^ 9; (_, createdAt, _) = readConversationLockMetadata parse_time (Some (lf_text f)) in
      if \<not> isZeroTime createdAt then createdAt < startedAt
      else \<not> isZeroTime (lf_mod f) \<and> lf_mod f < startedAt)"

text \<open>The staleness test of the process with the given pid; a file that has gone counts as stale.\<close>

definition conversationLockIsStale ::
    "(string \<Rightarrow> go_time option) \<Rightarrow> (int \<Rightarrow> bool) \<Rightarrow> go_time \<Rightarrow> int \<Rightarrow> go_time \<Rightarrow> lock_file option \<Rightarrow> bool" where
  "conversationLockIsStale parse_time alive processStartedAt getpid now lock = (case lock of
       None \<Rightarrow> True
     | Some f \<Rightarrow>
         if now - lf_mod f > conversationLockStaleAfter then True
         else let (pid, _, _) = readConversationLockMetadata parse_time (Some (lf_text f)) in
           if pid \<le> 0 then now - lf_mod f > legacyConversationLockStaleAfter
           else if pid = getpid then lockCreatedBeforeCurrentProcess parse_time processStartedAt f
           else \<not> alive pid)"

text \<open>\<open>removeConversationLockIfOwner\<close>: what is at the path afterwards.\<close>

definition removeConversationLockIfOwner ::
    "(string \<Rightarrow> go_time option) \<Rightarrow> string \<Rightarrow> lock_file option \<Rightarrow> lock_file option" where
  "removeConversationLockIfOwner parse_time owner lock =
     (let (_, _, currentOwner) = readConversationLockMetadata parse_time (map_option lf_text lock) in
      if trim_space owner \<noteq> [] \<and> currentOwner \<noteq> [] \<and> currentOwner \<noteq> owner then lock else None)"

text \<open>Processes that contend for one lock file.  A process is between the steps of its loop: before
  opening the file, with the file created but not yet written, after an open that failed because the
  file exists, before removing a file it found stale, or holding the lock.\<close>

datatype lock_pc = TryOpen | Created string nat | FoundExisting | RemoveStale | HoldsLock string

record lock_world =
  lw_file :: "lock_file option"
  lw_inode :: nat
  lw_pc :: "int \<Rightarrow> lock_pc"

inductive lock_step :: "(string \<Rightarrow> go_time option) \<Rightarrow> (go_time \<Rightarrow> string) \<Rightarrow> (int \<Rightarrow> bool) \<Rightarrow> (int \<Rightarrow> go_time) \<Rightarrow> go_time
    \<Rightarrow> lock_world \<Rightarrow> lock_world \<Rightarrow> bool"
  for parse_time format_time alive started now where
  open_new: "lw_pc w p = TryOpen \<Longrightarrow> lw_file w = None \<Longrightarrow>
    lock_step parse_time format_time alive started now w
      (w\<lparr>lw_file := Some \<lparr>lf_inode = lw_inode w, lf_text = [], lf_mod = now\<rparr>, lw_inode := Suc (lw_inode w),
         lw_pc := (lw_pc w)(p := Created (conversationLockOwnerToken p now) (lw_inode w))\<rparr>)"
| open_exists: "lw_pc w p = TryOpen \<Longrightarrow> lw_file w = Some f \<Longrightarrow>
    lock_step parse_time format_time alive started now w (w\<lparr>lw_pc := (lw_pc w)(p := FoundExisting)\<rparr>)"
| write_text: "lw_pc w p = Created owner i \<Longrightarrow>
    lock_step parse_time format_time alive started now w
      (w\<lparr>lw_file := map_option (\<lambda>f. if lf_inode f = i then f\<lparr>lf_text := lock_text format_time p owner now, lf_mod := now\<rparr> else f) (lw_file w),
         lw_pc := (lw_pc w)(p := HoldsLock owner)\<rparr>)"
| stale: "lw_pc w p = FoundExisting \<Longrightarrow> conversationLockIsStale parse_time alive (started p) p now (lw_file w) \<Longrightarrow>
    lock_step parse_time format_time alive started now w (w\<lparr>lw_pc := (lw_pc w)(p := RemoveStale)\<rparr>)"
| not_stale: "lw_pc w p = FoundExisting \<Longrightarrow> \<not> conversationLockIsStale parse_time alive (started p) p now (lw_file w) \<Longrightarrow>
    lock_step parse_time format_time alive started now w (w\<lparr>lw_pc := (lw_pc w)(p := TryOpen)\<rparr>)"
| remove: "lw_pc w p = RemoveStale \<Longrightarrow>
    lock_step parse_time format_time alive started now w (w\<lparr>lw_file := None, lw_pc := (lw_pc w)(p := TryOpen)\<rparr>)"
| release: "lw_pc w p = HoldsLock owner \<Longrightarrow>
    lock_step parse_time format_time alive started now w
      (w\<lparr>lw_file := removeConversationLockIfOwner parse_time owner (lw_file w), lw_pc := (lw_pc w)(p := TryOpen)\<rparr>)"

inductive lock_reach :: "(string \<Rightarrow> go_time option) \<Rightarrow> (go_time \<Rightarrow> string) \<Rightarrow> (int \<Rightarrow> bool) \<Rightarrow> (int \<Rightarrow> go_time)
    \<Rightarrow> go_time \<Rightarrow> lock_world \<Rightarrow> bool"
  for parse_time format_time alive started where
  none: "lock_reach parse_time format_time alive started now \<lparr>lw_file = None, lw_inode = 0, lw_pc = (\<lambda>_. TryOpen)\<rparr>"
| tick: "lock_reach parse_time format_time alive started now w \<Longrightarrow> now \<le> now' \<Longrightarrow>
    lock_reach parse_time format_time alive started now' w"
| step: "lock_reach parse_time format_time alive started now w \<Longrightarrow>
    lock_step parse_time format_time alive started now w w' \<Longrightarrow>
    lock_reach parse_time format_time alive started now w'"

subsection \<open>The retry loop\<close>

text \<open>What one round of \<open>acquireConversationFileLock\<close> meets.\<close>

datatype lock_round = OpenOk | OpenFails | StatFails | StaleRemoved | StaleKept | LockBusy

datatype lock_result = LockAcquired | LockCreateFailed | LockStatFailed | LockTimeout bool

definition conversationLockAcquireTimeout :: int where
  "conversationLockAcquireTimeout = 30 * 10 ^ 9"

definition staleConversationLockRemoveTimeout :: int where
  "staleConversationLockRemoveTimeout = 30 * 10 ^ 9"

definition conversationLockRetryInterval :: int where
  "conversationLockRetryInterval = 10 * 10 ^ 6"

definition wait_deadline :: "go_time \<Rightarrow> go_time \<Rightarrow> bool \<Rightarrow> go_time" where
  "wait_deadline deadline staleRemoveDeadline failed =
     (if failed \<and> staleRemoveDeadline > deadline then staleRemoveDeadline else deadline)"

text \<open>The loop over the rounds to come: \<open>None\<close> means that it is still running when they end.
  \<open>failed\<close> is \<open>lastStaleRemoveErr != nil\<close>.  The process sleeps exactly as long as it asks to.\<close>

fun acquire_loop :: "go_time \<Rightarrow> go_time \<Rightarrow> go_time \<Rightarrow> bool \<Rightarrow> lock_round list \<Rightarrow> lock_result option" where
  "acquire_loop now deadline srd failed [] = None"
| "acquire_loop now deadline srd failed (r # rs) = (case r of
     OpenOk \<Rightarrow> Some LockAcquired
   | OpenFails \<Rightarrow> Some LockCreateFailed
   | StatFails \<Rightarrow> Some LockStatFailed
   | StaleRemoved \<Rightarrow> acquire_loop now deadline 0 False rs
   | _ \<Rightarrow>
       (let failed' = (r = StaleKept);
            srd' = (if r = StaleKept then (if isZeroTime srd then now + staleConversationLockRemoveTimeout else srd) else 0);
            remaining = wait_deadline deadline srd' failed' - now
        in if remaining \<le> 0 then Some (LockTimeout failed')
           else acquire_loop (now + min remaining conversationLockRetryInterval) deadline srd' failed' rs))"

definition acquireConversationFileLock :: "go_time \<Rightarrow> lock_round list \<Rightarrow> lock_result option" where
  "acquireConversationFileLock now rs = acquire_loop now (now + conversationLockAcquireTimeout) 0 False rs"

end
