(* ===== verification/Lock_Guarantees.thy ===== *)
theory Lock_Guarantees
  imports Conversation_Lock
begin

text \<open>
  What the locks give: exclusion within a process, a bound on the time an acquisition takes, and the
  interleaving in which two processes hold the lock file at once.
\<close>

subsection \<open>The mutex\<close>

fun lock_ref :: "lock_user \<Rightarrow> (string \<times> nat) option" where
  "lock_ref LockIdle = None"
| "lock_ref (LockWaiting k i) = Some (k, i)"
| "lock_ref (LockHolding k i) = Some (k, i)"
| "lock_ref (LockLeaving k i) = Some (k, i)"

definition users :: "process_locks \<Rightarrow> string \<Rightarrow> nat set" where
  "users w k = {g. \<exists>i. lock_ref (pw_user w g) = Some (k, i)}"

definition holders :: "process_locks \<Rightarrow> nat \<Rightarrow> nat set" where
  "holders w i = {g. \<exists>k. pw_user w g = LockHolding k i}"

text \<open>Every user of a path refers to the lock object the map has for it, the object counts its users,
  different paths have different objects, and a held object has one holder.\<close>

definition locks_ok :: "process_locks \<Rightarrow> bool" where
  "locks_ok w \<longleftrightarrow>
     (\<forall>k. finite (users w k)) \<and>
     (\<forall>g k i. lock_ref (pw_user w g) = Some (k, i) \<longrightarrow> pw_map w k = Some i) \<and>
     (\<forall>k i. pw_map w k = Some i \<longrightarrow> i < pw_next w \<and> users w k \<noteq> {} \<and> pl_refs (pw_heap w i) = int (card (users w k))) \<and>
     (\<forall>k k' i. pw_map w k = Some i \<longrightarrow> pw_map w k' = Some i \<longrightarrow> k = k') \<and>
     (\<forall>i. (if pl_held (pw_heap w i) then \<exists>g. holders w i = {g} else holders w i = {}))"

lemma locks_okD:
  assumes "locks_ok w"
  shows "finite (users w k)" "lock_ref (pw_user w g) = Some (k, i) \<Longrightarrow> pw_map w k = Some i"
    "pw_map w k = Some i \<Longrightarrow> i < pw_next w" "pw_map w k = Some i \<Longrightarrow> pl_refs (pw_heap w i) = int (card (users w k))"
    "pw_map w k = Some i \<Longrightarrow> users w k \<noteq> {}"
    "pw_map w k = Some i \<Longrightarrow> pw_map w k' = Some i \<Longrightarrow> k = k'"
    "pl_held (pw_heap w i) \<Longrightarrow> \<exists>g. holders w i = {g}" "\<not> pl_held (pw_heap w i) \<Longrightarrow> holders w i = {}"
  using assms unfolding locks_ok_def by (blast, blast, blast, blast, blast, blast, metis, metis)

lemma users_None: "locks_ok w \<Longrightarrow> pw_map w k = None \<Longrightarrow> users w k = {}"
  using locks_okD(2) by (fastforce simp: users_def)

lemma init_locks_ok: "locks_ok init_process_locks"
  by (simp add: locks_ok_def init_process_locks_def users_def holders_def)

text \<open>Changing the object and the state of one user.\<close>

lemma same_ref_ok:
  assumes w: "locks_ok w" and r: "lock_ref u = lock_ref (pw_user w g)" "lock_ref u = Some (k, i)"
    and h: "if b then \<exists>g'. {x. x \<noteq> g \<and> x \<in> holders w i} \<union> {x. x = g \<and> u = LockHolding k i} = {g'}
      else {x. x \<noteq> g \<and> x \<in> holders w i} \<union> {x. x = g \<and> u = LockHolding k i} = {}"
  shows "locks_ok (w\<lparr>pw_heap := (pw_heap w)(i := (pw_heap w i)\<lparr>pl_held := b\<rparr>), pw_user := (pw_user w)(g := u)\<rparr>)"
    (is "locks_ok ?w")
proof -
  have U: "users ?w k' = users w k'" for k' using r by (auto simp: users_def)
  have u: "u = LockHolding k' j \<Longrightarrow> k' = k \<and> j = i" "pw_user w g = LockHolding k' j \<Longrightarrow> k' = k \<and> j = i" for k' j
    using r by auto
  have H: "holders ?w j = (if j = i then {x. x \<noteq> g \<and> x \<in> holders w i} \<union> {x. x = g \<and> u = LockHolding k i} else holders w j)" for j
    using u by (auto simp: holders_def)
  have refs: "pl_refs (pw_heap ?w j) = pl_refs (pw_heap w j)" for j by simp
  show ?thesis
    unfolding locks_ok_def
  proof (intro conjI allI impI)
    fix x k' i' assume "lock_ref (pw_user ?w x) = Some (k', i')"
    then have "lock_ref (pw_user w x) = Some (k', i')" using r by (auto split: if_splits)
    then show "pw_map ?w k' = Some i'" using locks_okD(2) [OF w] by simp
  next
    fix j show "if pl_held (pw_heap ?w j) then \<exists>g. holders ?w j = {g} else holders ?w j = {}"
      using h locks_okD(7,8) [OF w, of j] unfolding H by simp
  qed (use locks_okD [OF w] in \<open>simp_all add: U refs\<close>)
qed

lemma take_ok:
  assumes "locks_ok w" "pw_user w g = LockWaiting k i" "\<not> pl_held (pw_heap w i)"
  shows "locks_ok (process_lock_take g k i w)"
  unfolding process_lock_take_def
  by (rule same_ref_ok [OF assms(1), of _ g k i]) (use assms locks_okD(8) [OF assms(1,3)] in auto)

lemma unlock_ok:
  assumes "locks_ok w" "pw_user w g = LockHolding k i"
  shows "locks_ok (process_lock_unlock g k i w)"
proof -
  have "g \<in> holders w i" using assms(2) by (simp add: holders_def)
  then have "holders w i = {g}" using locks_okD(7,8) [OF assms(1), of i] by (cases "pl_held (pw_heap w i)") auto
  then show ?thesis
    unfolding process_lock_unlock_def by (intro same_ref_ok [OF assms(1), of _ g k i]) (use assms in auto)
qed

lemma enter_ok:
  assumes w: "locks_ok w" and g: "pw_user w g = LockIdle"
  shows "locks_ok (process_lock_enter g k w)"
proof (cases "pw_map w k")
  case (Some i)
  let ?w = "process_lock_enter g k w"
  have e: "?w = w\<lparr>pw_heap := (pw_heap w)(i := (pw_heap w i)\<lparr>pl_refs := pl_refs (pw_heap w i) + 1\<rparr>),
      pw_user := (pw_user w)(g := LockWaiting k i)\<rparr>"
    by (simp add: process_lock_enter_def Some)
  have U: "users ?w k' = (if k' = k then insert g (users w k) else users w k')" for k'
    using g by (auto simp: users_def e)
  have H: "holders ?w j = holders w j" for j using g by (auto simp: holders_def e)
  have "g \<notin> users w k" using g by (simp add: users_def)
  then have card: "int (card (insert g (users w k))) = int (card (users w k)) + 1" using locks_okD(1) [OF w] by simp
  show ?thesis
    unfolding locks_ok_def H U
    using locks_okD [OF w] Some card by (auto simp: e split: if_splits)
next
  case None
  let ?w = "process_lock_enter g k w" and ?i = "pw_next w"
  have e: "?w = w\<lparr>pw_map := (pw_map w)(k \<mapsto> ?i), pw_heap := (pw_heap w)(?i := \<lparr>pl_held = False, pl_refs = 1\<rparr>),
      pw_next := Suc ?i, pw_user := (pw_user w)(g := LockWaiting k ?i)\<rparr>"
    by (simp add: process_lock_enter_def None)
  have U: "users ?w k' = (if k' = k then {g} else users w k')" for k'
    using g users_None [OF w None] by (auto simp: users_def e)
  have H: "holders ?w j = holders w j" for j using g by (auto simp: holders_def e)
  have new: "pw_map w k' \<noteq> Some ?i" for k' using locks_okD(3) [OF w] by force
  have "holders w ?i = {}"
  proof (rule equals0I)
    fix x assume "x \<in> holders w ?i"
    then obtain k' where "lock_ref (pw_user w x) = Some (k', ?i)" by (auto simp: holders_def)
    then show False using locks_okD(2) [OF w] new by blast
  qed
  then show ?thesis
    unfolding locks_ok_def H U
    using locks_okD [OF w] new None by (auto simp: e less_Suc_eq split: if_splits)
qed

lemma leave_ok:
  assumes w: "locks_ok w" and g: "pw_user w g = LockLeaving k i"
  shows "locks_ok (process_lock_leave g k i w)"
proof -
  let ?w = "process_lock_leave g k i w" and ?r = "pl_refs (pw_heap w i) - 1"
  have e: "?w = w\<lparr>pw_heap := (pw_heap w)(i := (pw_heap w i)\<lparr>pl_refs := ?r\<rparr>),
      pw_map := (if ?r \<le> 0 then (pw_map w)(k := None) else pw_map w), pw_user := (pw_user w)(g := LockIdle)\<rparr>"
    by (simp add: process_lock_leave_def)
  have m: "pw_map w k = Some i" using locks_okD(2) [OF w, of g k i] g by simp
  have gU: "g \<in> users w k" using g by (simp add: users_def)
  have fin: "finite (users w k)" by (rule locks_okD(1) [OF w])
  have U: "users ?w k' = (if k' = k then users w k - {g} else users w k')" for k'
    using g by (auto simp: users_def e)
  have H: "holders ?w j = holders w j" for j using g by (auto simp: holders_def e)
  have r: "?r = int (card (users w k - {g}))"
    using locks_okD(4) [OF w m] card_Suc_Diff1 [OF fin gU] by linarith
  then have empty: "?r \<le> 0 \<longleftrightarrow> users w k - {g} = {}" using fin by (simp add: card_eq_0_iff)
  have few: "users w k \<subseteq> {g} \<Longrightarrow> card (users w k) \<le> Suc 0" using card_mono [of "{g}"] by simp
  show ?thesis
    unfolding locks_ok_def H U
  proof (intro conjI allI impI)
    fix x k' i' assume "lock_ref (pw_user ?w x) = Some (k', i')"
    then have x: "x \<noteq> g" "lock_ref (pw_user w x) = Some (k', i')" by (auto simp: e split: if_splits)
    moreover have "k' = k \<Longrightarrow> \<not> ?r \<le> 0" using x empty by (auto simp: users_def)
    ultimately show "pw_map ?w k' = Some i'" using locks_okD(2) [OF w] by (auto simp: e)
  next
    fix j show "if pl_held (pw_heap ?w j) then \<exists>g. holders w j = {g} else holders w j = {}"
      using locks_okD(7,8) [OF w, of j] by (auto simp: e)
  qed (use locks_okD [OF w] m r empty few in \<open>auto simp: e split: if_splits\<close>)
qed

lemma process_reach_ok: "process_lock_reach w \<Longrightarrow> locks_ok w"
proof (induction rule: process_lock_reach.induct)
  case (step w w')
  from step(2,3) show ?case
    by (cases rule: process_lock_step.cases) (auto intro: enter_ok take_ok unlock_ok leave_ok)
qed (rule init_locks_ok)

text \<open>C36. Within a process at most one goroutine is inside a conversation's critical section: in every
  interleaving of the acquisitions and releases of any number of goroutines, two goroutines that
  hold the lock of the same path are the same, although the lock objects are created and deleted on
  the way; and when nobody uses a path, the map has no lock for it.\<close>

theorem process_lock_exclusive:
  assumes "process_lock_reach w"
  shows "(pw_user w g = LockHolding key i \<and> pw_user w g' = LockHolding key j \<longrightarrow> g = g' \<and> i = j) \<and>
    (users w key = {} \<longrightarrow> pw_map w key = None)"
proof (intro conjI impI)
  have ok: "locks_ok w" using assms by (rule process_reach_ok)
  show "pw_map w key = None" if "users w key = {}"
    using that locks_okD(5) [OF ok] by (cases "pw_map w key") auto
  assume h: "pw_user w g = LockHolding key i \<and> pw_user w g' = LockHolding key j"
  then show ij: "i = j" using locks_okD(2) [OF ok, of g key i] locks_okD(2) [OF ok, of g' key j] by simp
  have "g \<in> holders w i" "g' \<in> holders w i" using h ij by (auto simp: holders_def)
  then show "g = g'" using locks_okD(7,8) [OF ok, of i] by (cases "pl_held (pw_heap w i)") auto
qed

theorem process_lock_exclusive_witness:
  "\<exists>w. process_lock_reach w \<and> pw_user w 1 = LockHolding ''c1'' 0 \<and> pw_user w 2 = LockWaiting ''c1'' 0 \<and>
     \<not> (\<exists>g j. g \<noteq> 1 \<and> pw_user w g = LockHolding ''c1'' j)"
proof -
  let ?w1 = "process_lock_enter 1 ''c1'' init_process_locks"
  let ?w2 = "process_lock_enter 2 ''c1'' ?w1"
  let ?w3 = "process_lock_take 1 ''c1'' 0 ?w2"
  have r1: "process_lock_reach ?w1"
    by (rule process_lock_reach.step [OF process_lock_reach.start process_lock_step.enter]) (simp add: init_process_locks_def)
  have r2: "process_lock_reach ?w2"
    by (rule process_lock_reach.step [OF r1 process_lock_step.enter]) (simp add: process_lock_enter_def init_process_locks_def)
  have r3: "process_lock_reach ?w3"
    by (rule process_lock_reach.step [OF r2 process_lock_step.take])
      (simp_all add: process_lock_enter_def init_process_locks_def)
  have u: "pw_user ?w3 1 = LockHolding ''c1'' 0" "pw_user ?w3 2 = LockWaiting ''c1'' 0"
    by (simp_all add: process_lock_take_def process_lock_enter_def init_process_locks_def)
  have "\<not> (\<exists>g j. g \<noteq> 1 \<and> pw_user ?w3 g = LockHolding ''c1'' j)"
    using process_lock_exclusive [OF r3] u(1) by blast
  with r3 u show ?thesis by blast
qed

subsection \<open>The retry loop ends\<close>

text \<open>The rounds that sleep; a round that removes a stale lock goes on at once.\<close>

definition waits :: "lock_round list \<Rightarrow> nat" where
  "waits rs = length (filter (\<lambda>r. r \<noteq> StaleRemoved) rs)"

lemma waits_simps [simp]: "waits [] = 0" "waits (r # rs) = (if r = StaleRemoved then 0 else 1) + waits rs"
  by (simp_all add: waits_def)

lemma acquire_loop_bound:
  assumes "acquire_loop now deadline srd failed rs = None" "3000 \<le> cap"
    and "deadline = base + conversationLockAcquireTimeout" "now = base + int k * conversationLockRetryInterval"
    and "srd = 0 \<and> k \<le> cap \<or> (\<exists>m \<le> cap. m \<le> k \<and> k \<le> m + 3000 \<and>
      srd = base + int m * conversationLockRetryInterval + staleConversationLockRemoveTimeout)"
    and "0 < base"
  shows "k + waits rs \<le> cap + 3000 + 3000 * count_list rs StaleRemoved"
  using assms
proof (induction rs arbitrary: now srd failed k cap)
  case Nil
  then show ?case by auto
next
  case (Cons r rs)
  note defs = conversationLockAcquireTimeout_def conversationLockRetryInterval_def staleConversationLockRemoveTimeout_def
  define I where "I = conversationLockRetryInterval"
  have I: "I > 0" "conversationLockAcquireTimeout = 3000 * I" "staleConversationLockRemoveTimeout = 3000 * I"
    by (simp_all add: I_def defs)
  have now: "now = base + int k * I" "deadline = base + 3000 * I" using Cons.prems(3,4) I by (simp_all add: I_def)
  consider "r = StaleRemoved" | "r = StaleKept" | "r = LockBusy" using Cons.prems(1) by (cases r) auto
  then show ?case
  proof cases
    case 1
    have "k \<le> cap + 3000" using Cons.prems(5) by auto
    then show ?thesis using 1 Cons.IH [of now 0 False "cap + 3000" k] Cons.prems by simp
  next
    case 2
    define srd' where "srd' = (if isZeroTime srd then now + staleConversationLockRemoveTimeout else srd)"
    obtain m where m: "m \<le> cap" "m \<le> k" "k \<le> m + 3000" "srd' = base + int (m + 3000) * I"
    proof (cases "srd = 0")
      case True
      show ?thesis
      proof (rule that [of k])
        have "srd \<noteq> base + int m * I + 3000 * I" for m
          using True Cons.prems(6) I(1) add_pos_nonneg [of base "int m * I + 3000 * I"] by simp
        then show "k \<le> cap" using Cons.prems(5) I by (auto simp: I_def [symmetric])
        show "srd' = base + int (k + 3000) * I" using True now I by (simp add: srd'_def isZeroTime_def algebra_simps)
      qed simp_all
    next
      case False
      then show ?thesis using Cons.prems(5) I that by (auto simp: srd'_def isZeroTime_def I_def [symmetric] algebra_simps)
    qed
    have "deadline \<le> srd'" using m(4) now(2) I by (simp add: distrib_right)
    then have wd: "wait_deadline deadline srd' True = srd'" by (auto simp: wait_deadline_def)
    have rem: "srd' - now = (int (m + 3000) - int k) * I" using m(4) now(1) by (simp add: algebra_simps)
    have "acquire_loop now deadline srd failed (r # rs) =
        (if srd' - now \<le> 0 then Some (LockTimeout True)
         else acquire_loop (now + min (srd' - now) I) deadline srd' True rs)"
      using 2 wd by (simp add: srd'_def [symmetric] I_def Let_def)
    then have go: "\<not> srd' - now \<le> 0" "acquire_loop (now + min (srd' - now) I) deadline srd' True rs = None"
      using Cons.prems(1) by (auto split: if_splits)
    then have k: "k < m + 3000" using rem I(1) by (simp add: mult_le_0_iff)
    then have "I \<le> srd' - now" using rem I by (simp add: mult_le_cancel_right1)
    then have "now + min (srd' - now) I = base + int (Suc k) * I" using now(1) by (simp add: algebra_simps)
    then have "Suc k + waits rs \<le> cap + 3000 + 3000 * count_list rs StaleRemoved"
      using Cons.IH [OF go(2) Cons.prems(2,3), of "Suc k"] Cons.prems(6) m k I
      by (auto simp: I_def [symmetric] algebra_simps)
    then show ?thesis using 2 by simp
  next
    case 3
    have "acquire_loop now deadline srd failed (r # rs) =
        (if deadline - now \<le> 0 then Some (LockTimeout False)
         else acquire_loop (now + min (deadline - now) I) deadline 0 False rs)"
      using 3 by (simp add: wait_deadline_def I_def Let_def)
    then have go: "\<not> deadline - now \<le> 0" "acquire_loop (now + min (deadline - now) I) deadline 0 False rs = None"
      using Cons.prems(1) by (auto split: if_splits)
    have rem: "deadline - now = (3000 - int k) * I" using now by (simp add: algebra_simps)
    then have k: "k < 3000" using go(1) I(1) by (simp add: mult_le_0_iff)
    then have "I \<le> deadline - now" using rem I by (simp add: mult_le_cancel_right1)
    then have "now + min (deadline - now) I = base + int (Suc k) * I" using now(1) by (simp add: algebra_simps)
    then have "Suc k + waits rs \<le> cap + 3000 + 3000 * count_list rs StaleRemoved"
      using Cons.IH [OF go(2) Cons.prems(2,3), of "Suc k"] Cons.prems(2,6) k
      by (auto simp: I_def [symmetric])
    then show ?thesis using 3 by simp
  qed
qed

text \<open>C37. Acquiring the lock file ends: the loop sleeps in at most 6000 rounds, that is for at most a
  minute, and in 3000 more for every stale lock it removed on the way.  Whatever the rounds meet, it
  has returned, with the lock or an error, by the next round that would sleep.\<close>

theorem acquire_lock_terminates:
  assumes "0 < now" "6000 + 3000 * count_list rs StaleRemoved < waits rs"
  shows "acquireConversationFileLock now rs \<noteq> None"
proof
  assume "acquireConversationFileLock now rs = None"
  from acquire_loop_bound [OF this [unfolded acquireConversationFileLock_def], of 3000 now 0] assms
  show False by simp
qed

theorem acquire_lock_terminates_witness:
  "acquireConversationFileLock 1 (StaleRemoved # replicate 9001 LockBusy) \<noteq> None"
  by (rule acquire_lock_terminates) (simp_all add: waits_def)

subsection \<open>Two holders of the lock file\<close>

lemma cut_eq_append: "CHR ''='' \<notin> set k \<Longrightarrow> cut_eq (k @ CHR ''='' # v) = Some (k, v)"
  by (induction k) auto

lemma cut_eq_Some: "cut_eq s = Some (k, v) \<Longrightarrow> CHR ''='' \<notin> set k \<and> s = k @ CHR ''='' # v"
  by (induction s arbitrary: k v) (auto split: if_splits)

lemma cut_eq_prefix:
  assumes "cut_eq s = Some (k, v)" "key @ CHR ''='' # rest = s @ q" "CHR ''='' \<notin> set key"
  shows "k = key"
proof -
  have tw: "CHR ''='' \<notin> set x \<Longrightarrow> takeWhile (\<lambda>c. c \<noteq> CHR ''='') (x @ CHR ''='' # r) = x" for x r
    by (induction x) auto
  have "key @ CHR ''='' # rest = k @ CHR ''='' # v @ q" using assms(2) cut_eq_Some [OF assms(1)] by simp
  then show ?thesis using tw [of k "v @ q"] tw [of key rest] cut_eq_Some [OF assms(1)] assms(3) by simp
qed

lemma trim_graphic_front: "graphic c \<Longrightarrow> \<exists>q. c # s = trim_space (c # s) @ q"
  using trim_right_prefix [of "c # s"] by (simp add: trim_space_def trim_left_id space_front_graphic)

lemma token_graphic: "c \<in> set (conversationLockOwnerToken p t) \<Longrightarrow> graphic c"
  by (auto simp: conversationLockOwnerToken_def graphic_def dest: set_int_dec)

lemma int_dec_not_Nil [simp]: "int_dec x \<noteq> []"
  by (simp add: int_dec_def)

lemma lock_names: "trim_space ''pid'' = ''pid''" "trim_space ''owner'' = ''owner''" "trim_space ''created_at'' = ''created_at''"
  by code_simp+

lemma owner_readback:
  assumes "nl \<notin> set (format_time now)"
  shows "snd (snd (readConversationLockMetadata parse_time
    (Some (lock_text format_time p (conversationLockOwnerToken p t) now)))) = conversationLockOwnerToken p t"
proof -
  let ?o = "conversationLockOwnerToken p t"
  have nlg: "\<not> graphic nl" by (simp add: nl_def graphic_def)
  have n1: "nl \<notin> set (''pid='' @ int_dec p)" by (auto simp: nl_def dest: set_int_dec)
  have n2: "nl \<notin> set (''owner='' @ ?o)" using nlg token_graphic by (auto simp: nl_def)
  have n3: "nl \<notin> set (''created_at='' @ format_time now)" using assms by (simp add: nl_def)
  have lines: "split_on nl (lock_text format_time p ?o now) =
      [''pid='' @ int_dec p, ''owner='' @ ?o, ''created_at='' @ format_time now, []]"
    using split_on_append [OF n1] split_on_append [OF n2] split_on_append [OF n3] by (simp add: lock_text_def)
  have o: "?o \<noteq> []" by (simp add: conversationLockOwnerToken_def)
  have ends: "graphic (hd ?o)" "graphic (last ?o)" using o token_graphic [of _ p t] by simp_all
  have "trim_space ?o = ?o" using o ends by (intro trim_graphic)
  moreover have "trim_space (''owner='' @ ?o) = ''owner='' @ ?o"
    using o ends by (intro trim_graphic) (simp_all add: graphic_def)
  moreover have "cut_eq (''owner='' @ ?o) = Some (''owner'', ?o)" using cut_eq_append [of "''owner''" ?o] by simp
  ultimately have owner: "snd (snd (lock_line parse_time (''owner='' @ ?o) md)) = ?o" for md
    by (simp add: lock_line_def lock_names split: prod.split)
  have pid: "snd (snd (lock_line parse_time (''pid='' @ int_dec p) md)) = snd (snd md)" for md
  proof -
    have "\<forall>c \<in> set (int_dec p). graphic c" by (auto simp: graphic_def dest: set_int_dec)
    then have "trim_space (''pid='' @ int_dec p) = ''pid='' @ int_dec p"
      by (intro trim_graphic) (simp_all add: graphic_def)
    moreover have "cut_eq (''pid='' @ int_dec p) = Some (''pid'', int_dec p)" using cut_eq_append [of "''pid''" "int_dec p"] by simp
    ultimately show ?thesis by (simp add: lock_line_def lock_names split: prod.split option.split)
  qed
  have created: "snd (snd (lock_line parse_time (''created_at='' @ format_time now) md)) = snd (snd md)" for md
  proof -
    obtain q where q: "''created_at='' @ format_time now = trim_space (''created_at='' @ format_time now) @ q"
      using trim_graphic_front [of "CHR ''c''"] by (auto simp: graphic_def)
    have "k = ''created_at''" if "cut_eq (trim_space (''created_at='' @ format_time now)) = Some (k, v)" for k v
      by (rule cut_eq_prefix [OF that, of _ "format_time now" q]) (use q in simp_all)
    then show ?thesis
      unfolding lock_line_def by (cases md) (auto simp: lock_names split: prod.splits option.splits)
  qed
  have blank: "lock_line parse_time [] md = md" for md by (simp add: lock_line_def split: prod.split)
  show ?thesis
    by (simp add: readConversationLockMetadata_def lines blank created owner del: append.simps)
qed

text \<open>C38. The lock file does not exclude: two live processes can hold it at once, without a crash and
  without a moment passing.  A process whose open failed takes a lock file that has since been
  removed for stale, and the removal that follows deletes whatever file is there by then, here the
  lock its rival has just taken again.\<close>

theorem lock_file_race:
  assumes "p \<noteq> q" "nl \<notin> set (format_time now)"
  shows "\<exists>w owner owner'. lock_reach parse_time format_time (\<lambda>_. True) started now w \<and>
    lw_pc w p = HoldsLock owner \<and> lw_pc w q = HoldsLock owner'"
proof -
  let ?tok = "conversationLockOwnerToken p now" and ?tok' = "conversationLockOwnerToken q now"
  let ?text = "\<lambda>r o'. lock_text format_time r o' now"
  let ?W = "\<lambda>f n u v. \<lparr>lw_file = f, lw_inode = n, lw_pc = (\<lambda>_. TryOpen)(p := u, q := v)\<rparr>"
  let ?R = "lock_reach parse_time format_time (\<lambda>_. True) started now"
  note go = lock_reach.step [where parse_time = parse_time and format_time = format_time and alive = "\<lambda>_. True" and started = started]
  have upd: "((\<lambda>_. TryOpen)(p := u, q := v))(p := u') = (\<lambda>_. TryOpen)(p := u', q := v)"
    "((\<lambda>_. TryOpen)(p := u, q := v))(q := v') = (\<lambda>_. TryOpen)(p := u, q := v')" for u v u' v' :: lock_pc
    using assms(1) by (auto simp: fun_eq_iff)
  let ?f = "\<lambda>i t. Some \<lparr>lf_inode = i, lf_text = t, lf_mod = now\<rparr>"
  have rel: "removeConversationLockIfOwner parse_time ?tok (?f 0 (?text p ?tok)) = None"
    using owner_readback [of format_time now, OF assms(2), of parse_time p now]
    by (simp add: removeConversationLockIfOwner_def case_prod_beta Let_def)
  have "(\<lambda>_. TryOpen)(p := TryOpen, q := TryOpen) = (\<lambda>_. TryOpen)" by auto
  then have "?R (?W None 0 TryOpen TryOpen)" by (simp only: lock_reach.none)
  then have "?R (?W (?f 0 []) 1 (Created ?tok 0) TryOpen)"
    by (rule go) (use lock_step.open_new [of "?W None 0 TryOpen TryOpen" p] assms(1) in \<open>simp add: upd\<close>)
  then have "?R (?W (?f 0 (?text p ?tok)) 1 (HoldsLock ?tok) TryOpen)"
    by (rule go) (use lock_step.write_text [of "?W (?f 0 []) 1 (Created ?tok 0) TryOpen" p ?tok 0] assms(1) in \<open>simp add: upd\<close>)
  then have "?R (?W (?f 0 (?text p ?tok)) 1 (HoldsLock ?tok) FoundExisting)"
    by (rule go) (use lock_step.open_exists [of "?W (?f 0 (?text p ?tok)) 1 (HoldsLock ?tok) TryOpen" q] assms(1) in \<open>simp add: upd\<close>)
  then have "?R (?W None 1 TryOpen FoundExisting)"
    by (rule go) (use lock_step.release [where w = "?W (?f 0 (?text p ?tok)) 1 (HoldsLock ?tok) FoundExisting" and p = p and owner = ?tok
        and parse_time = parse_time] assms(1) in \<open>simp add: upd rel\<close>)
  then have "?R (?W None 1 TryOpen RemoveStale)"
    by (rule go) (use lock_step.stale [of "?W None 1 TryOpen FoundExisting" q] assms(1) in \<open>simp add: upd conversationLockIsStale_def\<close>)
  then have "?R (?W (?f 1 []) 2 (Created ?tok 1) RemoveStale)"
    by (rule go) (use lock_step.open_new [of "?W None 1 TryOpen RemoveStale" p] assms(1) in \<open>simp add: upd numeral_2_eq_2\<close>)
  then have "?R (?W (?f 1 (?text p ?tok)) 2 (HoldsLock ?tok) RemoveStale)"
    by (rule go) (use lock_step.write_text [of "?W (?f 1 []) 2 (Created ?tok 1) RemoveStale" p ?tok 1] assms(1) in \<open>simp add: upd\<close>)
  then have "?R (?W None 2 (HoldsLock ?tok) TryOpen)"
    by (rule go) (use lock_step.remove [of "?W (?f 1 (?text p ?tok)) 2 (HoldsLock ?tok) RemoveStale" q] assms(1) in \<open>simp add: upd\<close>)
  then have "?R (?W (?f 2 []) 3 (HoldsLock ?tok) (Created ?tok' 2))"
    by (rule go) (use lock_step.open_new [of "?W None 2 (HoldsLock ?tok) TryOpen" q] assms(1) in \<open>simp add: upd numeral_3_eq_3 numeral_2_eq_2\<close>)
  then have r: "?R (?W (?f 2 (?text q ?tok')) 3 (HoldsLock ?tok) (HoldsLock ?tok'))"
    by (rule go) (use lock_step.write_text [of "?W (?f 2 []) 3 (HoldsLock ?tok) (Created ?tok' 2)" q ?tok' 2] assms(1) in \<open>simp add: upd\<close>)
  show ?thesis by (rule exI, rule exI, rule exI, rule conjI, rule r) (use assms(1) in simp)
qed

theorem lock_file_race_witness:
  "\<exists>w owner owner'. lock_reach (\<lambda>_. None) (\<lambda>_. ''2025-01-01T00:00:00Z'') (\<lambda>_. True) (\<lambda>_. 1) 5 w \<and>
    lw_pc w 1 = HoldsLock owner \<and> lw_pc w 2 = HoldsLock owner'"
  by (rule lock_file_race) (simp_all add: nl_def)

end
