(* ===== verification/Usage_Store.thy ===== *)
theory Usage_Store
  imports Conversation_Store
begin

text \<open>
  Token usage, \<open>forwarder/usage_store.go\<close>: one file with totals, buckets per day and per hour, the 500
  most recent events and an index of them.  Recording an event again under the same id takes back
  what the earlier record added.

  \<open>usage_time\<close> stands for the calendar functions of \<open>time\<close>: the texts of a day and of an hour, and
  parsing the latter.  Counters are \<open>int64\<close>.
\<close>

record usage_counters =
  uc_ProviderCalls :: int
  uc_TurnsTotal :: int
  uc_ValidTurnsTotal :: int
  uc_InvalidTurnsTotal :: int
  uc_InputTokens :: int
  uc_OutputTokens :: int
  uc_CacheReadTokens :: int
  uc_CacheWriteTokens :: int
  uc_TotalTokens :: int

record usageFileEvent =
  ue_EventID :: string
  ue_Kind :: string
  ue_Status :: string
  ue_At :: go_time
  ue_InputTokens :: int
  ue_OutputTokens :: int
  ue_CacheReadTokens :: int
  ue_CacheWriteTokens :: int
  ue_TotalTokens :: int
  ue_UsagePresent :: bool

record usageFileDocument =
  uf_SchemaVersion :: int
  uf_UpdatedAt :: go_time
  uf_Totals :: usage_counters
  uf_Daily :: "(string \<times> usage_counters) list"
  uf_Hourly :: "(string \<times> usage_counters) list"
  uf_RecentEvents :: "usageFileEvent list"
  uf_EventIndex :: "(string \<times> usageFileEvent) list"

record usage_time =
  ut_day :: "go_time \<Rightarrow> string"
  ut_hour :: "go_time \<Rightarrow> string"
  ut_parse :: "string \<Rightarrow> go_time option"

definition usageFileSchemaVersion :: int where
  "usageFileSchemaVersion = 3"

definition usageRecentEventLimit :: nat where
  "usageRecentEventLimit = 500"

definition zeroCounters :: usage_counters where
  "zeroCounters = \<lparr>uc_ProviderCalls = 0, uc_TurnsTotal = 0, uc_ValidTurnsTotal = 0, uc_InvalidTurnsTotal = 0,
     uc_InputTokens = 0, uc_OutputTokens = 0, uc_CacheReadTokens = 0, uc_CacheWriteTokens = 0, uc_TotalTokens = 0\<rparr>"

definition emptyUsageDocument :: usageFileDocument where
  "emptyUsageDocument = \<lparr>uf_SchemaVersion = usageFileSchemaVersion, uf_UpdatedAt = 0, uf_Totals = zeroCounters,
     uf_Daily = [], uf_Hourly = [], uf_RecentEvents = [], uf_EventIndex = []\<rparr>"

definition nonNegativeInt64 :: "int \<Rightarrow> int" where
  "nonNegativeInt64 v = (if v < 0 then 0 else v)"

definition clampNonNegativeInt64 :: "int \<Rightarrow> int" where
  "clampNonNegativeInt64 v = (if v < 0 then 0 else v)"

definition normalizeUsageEventKind :: "string \<Rightarrow> string" where
  "normalizeUsageEventKind kind = (if trim_space kind = ''turn_finalized'' then ''turn_finalized'' else ''provider_call'')"

definition usageFileEventDelta :: "usageFileEvent \<Rightarrow> usage_counters" where
  "usageFileEventDelta e =
     (if normalizeUsageEventKind (ue_Kind e) = ''turn_finalized''
      then zeroCounters\<lparr>uc_TurnsTotal := 1,
             uc_ValidTurnsTotal := (if trim_space (ue_Status e) = ''completed'' then 1 else 0),
             uc_InvalidTurnsTotal := (if trim_space (ue_Status e) = ''completed'' then 0 else 1)\<rparr>
      else zeroCounters\<lparr>uc_ProviderCalls := 1, uc_InputTokens := nonNegativeInt64 (ue_InputTokens e),
             uc_OutputTokens := nonNegativeInt64 (ue_OutputTokens e),
             uc_CacheReadTokens := nonNegativeInt64 (ue_CacheReadTokens e),
             uc_CacheWriteTokens := nonNegativeInt64 (ue_CacheWriteTokens e),
             uc_TotalTokens := nonNegativeInt64 (ue_TotalTokens e)\<rparr>)"

definition negateUsageFileDelta :: "usage_counters \<Rightarrow> usage_counters" where
  "negateUsageFileDelta d = \<lparr>uc_ProviderCalls = i64 (- uc_ProviderCalls d), uc_TurnsTotal = i64 (- uc_TurnsTotal d),
     uc_ValidTurnsTotal = i64 (- uc_ValidTurnsTotal d), uc_InvalidTurnsTotal = i64 (- uc_InvalidTurnsTotal d),
     uc_InputTokens = i64 (- uc_InputTokens d), uc_OutputTokens = i64 (- uc_OutputTokens d),
     uc_CacheReadTokens = i64 (- uc_CacheReadTokens d), uc_CacheWriteTokens = i64 (- uc_CacheWriteTokens d),
     uc_TotalTokens = i64 (- uc_TotalTokens d)\<rparr>"

text \<open>Adding a delta to the counters of the totals or of a bucket.\<close>

definition add_delta :: "usage_counters \<Rightarrow> usage_counters \<Rightarrow> usage_counters" where
  "add_delta c d = \<lparr>uc_ProviderCalls = clampNonNegativeInt64 (i64 (uc_ProviderCalls c + uc_ProviderCalls d)),
     uc_TurnsTotal = clampNonNegativeInt64 (i64 (uc_TurnsTotal c + uc_TurnsTotal d)),
     uc_ValidTurnsTotal = clampNonNegativeInt64 (i64 (uc_ValidTurnsTotal c + uc_ValidTurnsTotal d)),
     uc_InvalidTurnsTotal = clampNonNegativeInt64 (i64 (uc_InvalidTurnsTotal c + uc_InvalidTurnsTotal d)),
     uc_InputTokens = clampNonNegativeInt64 (i64 (uc_InputTokens c + uc_InputTokens d)),
     uc_OutputTokens = clampNonNegativeInt64 (i64 (uc_OutputTokens c + uc_OutputTokens d)),
     uc_CacheReadTokens = clampNonNegativeInt64 (i64 (uc_CacheReadTokens c + uc_CacheReadTokens d)),
     uc_CacheWriteTokens = clampNonNegativeInt64 (i64 (uc_CacheWriteTokens c + uc_CacheWriteTokens d)),
     uc_TotalTokens = clampNonNegativeInt64 (i64 (uc_TotalTokens c + uc_TotalTokens d))\<rparr>"

fun bump_bucket :: "string \<Rightarrow> usage_counters \<Rightarrow> (string \<times> usage_counters) list \<Rightarrow> (string \<times> usage_counters) list" where
  "bump_bucket key d [] = [(key, add_delta zeroCounters d)]"
| "bump_bucket key d ((k, c) # bs) = (if k = key then (k, add_delta c d) # bs else (k, c) # bump_bucket key d bs)"

definition truncate_hour :: "go_time \<Rightarrow> go_time" where
  "truncate_hour t = t - t mod (3600 * 10 ^ 9)"

definition applyUsageHourlyDelta :: "usage_time \<Rightarrow> go_time \<Rightarrow> usage_counters \<Rightarrow> usageFileDocument \<Rightarrow> usageFileDocument" where
  "applyUsageHourlyDelta ut at d doc =
     (if isZeroTime at then doc else doc\<lparr>uf_Hourly := bump_bucket (ut_hour ut (truncate_hour at)) d (uf_Hourly doc)\<rparr>)"

definition applyUsageFileDelta :: "usage_time \<Rightarrow> go_time \<Rightarrow> usage_counters \<Rightarrow> usageFileDocument \<Rightarrow> usageFileDocument" where
  "applyUsageFileDelta ut at d doc =
     (let doc1 = applyUsageHourlyDelta ut at d (doc\<lparr>uf_Totals := add_delta (uf_Totals doc) d\<rparr>)
      in doc1\<lparr>uf_Daily := bump_bucket (ut_day ut at) d (uf_Daily doc1)\<rparr>)"

definition upsertRecentUsageEvent :: "usageFileEvent list \<Rightarrow> usageFileEvent \<Rightarrow> usageFileEvent list" where
  "upsertRecentUsageEvent items event =
     (let e = event\<lparr>ue_EventID := trim_space (ue_EventID event)\<rparr> in
      if ue_EventID e = [] then items
      else e # filter (\<lambda>i. trim_space (ue_EventID i) \<noteq> ue_EventID e) items)"

definition trimRecentUsageEvents :: "usageFileEvent list \<Rightarrow> nat \<Rightarrow> usageFileEvent list" where
  "trimRecentUsageEvents items limit = (if limit = 0 \<or> length items \<le> limit then items else take limit items)"

definition index_event :: "usageFileEvent \<Rightarrow> (string \<times> usageFileEvent) list \<Rightarrow> (string \<times> usageFileEvent) list" where
  "index_event event idx =
     (let e = event\<lparr>ue_EventID := trim_space (ue_EventID event), ue_Kind := normalizeUsageEventKind (ue_Kind event)\<rparr> in
      if ue_EventID e = [] then idx else AList.update (ue_EventID e) e idx)"

definition buildUsageEventIndex :: "usageFileEvent list \<Rightarrow> (string \<times> usageFileEvent) list" where
  "buildUsageEventIndex items = fold index_event items []"

definition trimUsageHourlyBuckets ::
    "usage_time \<Rightarrow> (string \<times> usage_counters) list \<Rightarrow> go_time \<Rightarrow> (string \<times> usage_counters) list" where
  "trimUsageHourlyBuckets ut items cutoff =
     filter (\<lambda>(key, _). case ut_parse ut (trim_space key) of None \<Rightarrow> False | Some h \<Rightarrow> \<not> h < truncate_hour cutoff) items"

definition readUsageFileDocument :: "usage_time \<Rightarrow> usageFileDocument stored_file \<Rightarrow> store_error + usageFileDocument" where
  "readUsageFileDocument ut f = (case f of
       FileMissing \<Rightarrow> Inr emptyUsageDocument
     | FileBad \<Rightarrow> Inl StateUnreadable
     | FileOk doc \<Rightarrow>
         (let v = (if uf_SchemaVersion doc = 0 then 1 else uf_SchemaVersion doc);
              doc1 = doc\<lparr>uf_SchemaVersion := v\<rparr>;
              doc2 = (if v < 3 \<and> uf_Hourly doc1 = []
                      then fold (\<lambda>e. applyUsageHourlyDelta ut (ue_At e) (usageFileEventDelta e)) (uf_RecentEvents doc1) doc1
                      else doc1);
              recent = trimRecentUsageEvents (uf_RecentEvents doc2) usageRecentEventLimit
          in Inr (doc2\<lparr>uf_RecentEvents := recent,
               uf_EventIndex := (if uf_EventIndex doc2 = [] then buildUsageEventIndex recent else uf_EventIndex doc2)\<rparr>)))"

text \<open>The event as \<open>UpsertEvent\<close> stores it.\<close>

definition prepare_event :: "go_time \<Rightarrow> usageFileEvent \<Rightarrow> usageFileEvent" where
  "prepare_event now e =
     (let i = nonNegativeInt64 (ue_InputTokens e); out = nonNegativeInt64 (ue_OutputTokens e);
          cr = nonNegativeInt64 (ue_CacheReadTokens e); cw = nonNegativeInt64 (ue_CacheWriteTokens e)
      in e\<lparr>ue_EventID := trim_space (ue_EventID e), ue_Kind := normalizeUsageEventKind (ue_Kind e),
           ue_Status := trim_space (ue_Status e), ue_At := (if isZeroTime (ue_At e) then now else ue_At e),
           ue_InputTokens := i, ue_OutputTokens := out, ue_CacheReadTokens := cr, ue_CacheWriteTokens := cw,
           ue_TotalTokens := i64 (i + out + cr + cw)\<rparr>)"

definition upsert_document :: "usage_time \<Rightarrow> go_time \<Rightarrow> usageFileEvent \<Rightarrow> usageFileDocument \<Rightarrow> usageFileDocument" where
  "upsert_document ut now e doc =
     (let doc1 = (case map_of (uf_EventIndex doc) (ue_EventID e) of
            None \<Rightarrow> doc
          | Some old \<Rightarrow> applyUsageFileDelta ut (ue_At old) (negateUsageFileDelta (usageFileEventDelta old)) doc);
          doc2 = applyUsageFileDelta ut (ue_At e) (usageFileEventDelta e) doc1;
          recent = trimRecentUsageEvents (upsertRecentUsageEvent (uf_RecentEvents doc2) e) usageRecentEventLimit
      in doc2\<lparr>uf_RecentEvents := recent, uf_Hourly := trimUsageHourlyBuckets ut (uf_Hourly doc2) (now - 48 * 3600 * 10 ^ 9),
           uf_EventIndex := buildUsageEventIndex recent, uf_SchemaVersion := usageFileSchemaVersion, uf_UpdatedAt := now\<rparr>)"

definition UpsertEvent ::
    "store_env \<Rightarrow> usage_time \<Rightarrow> usageFileEvent \<Rightarrow> usageFileDocument stored_file \<Rightarrow> usageFileDocument stored_file \<times> store_error option" where
  "UpsertEvent env ut event f =
     (let e = prepare_event (se_now env) event in
      if ue_EventID e = [] then (f, None)
      else if \<not> se_mkdir env then (f, Some MkdirFailed)
      else if \<not> se_lock env then (f, Some LockFailed)
      else case readUsageFileDocument ut f of
        Inl err \<Rightarrow> (f, Some err)
      | Inr doc \<Rightarrow> writeJSONFileAtomic (se_state_write env) (Some (upsert_document ut (se_now env) e doc)) f)"

text \<open>Looking events up by id or by the id's prefix before two colons; the aggregate starts from the
  first match in the order of the map's iteration.\<close>

definition aggregate_event :: "string \<Rightarrow> usageFileEvent \<Rightarrow> usageFileEvent option \<Rightarrow> usageFileEvent option" where
  "aggregate_event needle e acc =
     (let ident = trim_space (ue_EventID e) in
      if ident \<noteq> needle \<and> \<not> has_prefix ident (needle @ ''::'') then acc
      else let a = (case acc of Some a \<Rightarrow> a
             | None \<Rightarrow> \<lparr>ue_EventID = needle, ue_Kind = [], ue_Status = [], ue_At = ue_At e, ue_InputTokens = 0,
                 ue_OutputTokens = 0, ue_CacheReadTokens = 0, ue_CacheWriteTokens = 0, ue_TotalTokens = 0, ue_UsagePresent = False\<rparr>)
           in Some (a\<lparr>ue_At := (if ue_At e > ue_At a then ue_At e else ue_At a),
                ue_InputTokens := i64 (ue_InputTokens a + nonNegativeInt64 (ue_InputTokens e)),
                ue_OutputTokens := i64 (ue_OutputTokens a + nonNegativeInt64 (ue_OutputTokens e)),
                ue_CacheReadTokens := i64 (ue_CacheReadTokens a + nonNegativeInt64 (ue_CacheReadTokens e)),
                ue_CacheWriteTokens := i64 (ue_CacheWriteTokens a + nonNegativeInt64 (ue_CacheWriteTokens e)),
                ue_TotalTokens := i64 (ue_TotalTokens a + nonNegativeInt64 (ue_TotalTokens e)),
                ue_UsagePresent := ue_UsagePresent a \<or> ue_UsagePresent e\<rparr>))"

definition lookup_index :: "usageFileEvent list \<Rightarrow> (string \<times> usageFileEvent) list" where
  "lookup_index items = fold (\<lambda>e idx. if trim_space (ue_EventID e) = [] then idx
     else AList.update (trim_space (ue_EventID e)) e idx) items []"

definition LookupEvent ::
    "usage_time \<Rightarrow> string \<Rightarrow> usageFileDocument stored_file \<Rightarrow> store_error + usageFileEvent option" where
  "LookupEvent ut needle f = (case readUsageFileDocument ut f of
       Inl err \<Rightarrow> Inl err
     | Inr doc \<Rightarrow>
         (let n = trim_space needle;
              events = (if uf_EventIndex doc = [] then lookup_index (uf_RecentEvents doc) else uf_EventIndex doc)
          in if n = [] then Inr None else Inr (fold (aggregate_event n) (map snd events) None)))"

end
