(* ===== verification/Usage_Guarantees.thy ===== *)
theory Usage_Guarantees
  imports Usage_Store "HOL-Library.Multiset"
begin

text \<open>
  What the usage file adds up to.  \<open>counters_add\<close> and \<open>counters_sum\<close> are the sums over the integers
  the file's clamped \<open>int64\<close> arithmetic stands for; \<open>latest_events\<close> is the abstract history, the last
  record of each id, the most recent first.
\<close>

named_theorems counter_defs \<open>the counters field by field\<close>

definition counters_add :: "usage_counters \<Rightarrow> usage_counters \<Rightarrow> usage_counters" where
  "counters_add c d = \<lparr>uc_ProviderCalls = uc_ProviderCalls c + uc_ProviderCalls d,
     uc_TurnsTotal = uc_TurnsTotal c + uc_TurnsTotal d, uc_ValidTurnsTotal = uc_ValidTurnsTotal c + uc_ValidTurnsTotal d,
     uc_InvalidTurnsTotal = uc_InvalidTurnsTotal c + uc_InvalidTurnsTotal d, uc_InputTokens = uc_InputTokens c + uc_InputTokens d,
     uc_OutputTokens = uc_OutputTokens c + uc_OutputTokens d, uc_CacheReadTokens = uc_CacheReadTokens c + uc_CacheReadTokens d,
     uc_CacheWriteTokens = uc_CacheWriteTokens c + uc_CacheWriteTokens d, uc_TotalTokens = uc_TotalTokens c + uc_TotalTokens d\<rparr>"

definition counters_sum :: "usageFileEvent list \<Rightarrow> usage_counters" where
  "counters_sum es = foldr (\<lambda>e. counters_add (usageFileEventDelta e)) es zeroCounters"

definition counter_fields :: "usage_counters \<Rightarrow> int list" where
  "counter_fields c = [uc_ProviderCalls c, uc_TurnsTotal c, uc_ValidTurnsTotal c, uc_InvalidTurnsTotal c, uc_InputTokens c,
     uc_OutputTokens c, uc_CacheReadTokens c, uc_CacheWriteTokens c, uc_TotalTokens c]"

definition counters_pos :: "usage_counters \<Rightarrow> bool" where
  "counters_pos c \<longleftrightarrow> list_all (\<lambda>x. 0 \<le> x) (counter_fields c)"

definition counters_fit :: "usage_counters \<Rightarrow> bool" where
  "counters_fit c \<longleftrightarrow> list_all (\<lambda>x. 0 \<le> x \<and> x \<le> max_i64) (counter_fields c)"

definition bucket_counters :: "(string \<times> usage_counters) list \<Rightarrow> string \<Rightarrow> usage_counters" where
  "bucket_counters bs key = (case map_of bs key of None \<Rightarrow> zeroCounters | Some c \<Rightarrow> c)"

lemmas [counter_defs] = counters_add_def counter_fields_def counters_pos_def counters_fit_def zeroCounters_def

definition event_taken :: "store_env \<Rightarrow> usageFileEvent \<Rightarrow> bool" where
  "event_taken env e \<longleftrightarrow> trim_space (ue_EventID e) \<noteq> [] \<and> se_mkdir env \<and> se_lock env \<and> se_state_write env \<noteq> WriteFails"

definition latest_event :: "usageFileEvent \<Rightarrow> usageFileEvent list \<Rightarrow> usageFileEvent list" where
  "latest_event e L = e # filter (\<lambda>i. ue_EventID i \<noteq> ue_EventID e) L"

definition latest_events :: "(store_env \<times> usageFileEvent) list \<Rightarrow> usageFileEvent list" where
  "latest_events es = fold (\<lambda>(env, e) L. if event_taken env e then latest_event (prepare_event (se_now env) e) L else L) es []"

definition run_upserts :: "usage_time \<Rightarrow> (store_env \<times> usageFileEvent) list \<Rightarrow> usageFileDocument stored_file" where
  "run_upserts ut es = fold (\<lambda>(env, e) f. fst (UpsertEvent env ut e f)) es FileMissing"

section \<open>Exact sums\<close>

lemma counters_add_zero [simp]: "counters_add c zeroCounters = c" "counters_add zeroCounters c = c"
  by (simp_all add: counter_defs)

lemma counters_add_commute: "counters_add c d = counters_add d c"
  by (simp add: counter_defs)

lemma counters_add_left_commute: "counters_add c (counters_add d e) = counters_add d (counters_add c e)"
  by (simp add: counter_defs)

lemma counters_add_assoc: "counters_add (counters_add c d) e = counters_add c (counters_add d e)"
  by (simp add: counter_defs)

lemma counters_sum_simps [simp]: "counters_sum [] = zeroCounters"
  "counters_sum (e # es) = counters_add (usageFileEventDelta e) (counters_sum es)"
  by (simp_all add: counters_sum_def)

lemma delta_pos [simp]: "counters_pos (usageFileEventDelta e)"
  by (simp add: usageFileEventDelta_def counter_defs nonNegativeInt64_def)

lemma add_pos: "counters_pos c \<Longrightarrow> counters_pos d \<Longrightarrow> counters_pos (counters_add c d)"
  by (simp add: counter_defs)

lemma sum_pos [simp]: "counters_pos (counters_sum es)"
  by (induction es) (simp_all add: add_pos, simp add: counter_defs)

lemma fit_left: "counters_fit (counters_add c d) \<Longrightarrow> counters_pos c \<Longrightarrow> counters_pos d \<Longrightarrow> counters_fit c"
  by (simp add: counter_defs)

lemma fit_right: "counters_fit (counters_add c d) \<Longrightarrow> counters_pos c \<Longrightarrow> counters_pos d \<Longrightarrow> counters_fit d"
  by (simp add: counter_defs)

lemma sum_partition: "counters_sum es = counters_add (counters_sum (filter P es)) (counters_sum (filter (\<lambda>e. \<not> P e) es))"
  by (induction es) (simp_all add: counters_add_assoc counters_add_left_commute)

lemma fit_filter: "counters_fit (counters_sum es) \<Longrightarrow> counters_fit (counters_sum (filter P es))"
  using sum_partition [of es P] by (auto intro: fit_left)

lemma add_delta_exact:
  "counters_fit (counters_add c d) \<Longrightarrow> counters_pos c \<Longrightarrow> counters_pos d \<Longrightarrow> add_delta c d = counters_add c d"
  by (simp add: counter_defs add_delta_def clampNonNegativeInt64_def go_int)

lemma take_back: "0 \<le> c \<Longrightarrow> 0 \<le> d \<Longrightarrow> d + c \<le> max_i64 \<Longrightarrow> clampNonNegativeInt64 (i64 (d + c + i64 (- d))) = c"
  by (simp add: i64_id in_i64_def clampNonNegativeInt64_def)

lemma add_delta_negate:
  assumes "counters_fit (counters_add d c)" "counters_pos c" "counters_pos d"
  shows "add_delta (counters_add d c) (negateUsageFileDelta d) = c"
  using assms by (simp add: counter_defs add_delta_def negateUsageFileDelta_def take_back)

lemma filter_unused_id: "i \<notin> ue_EventID ` set L \<Longrightarrow> filter (\<lambda>e. ue_EventID e \<noteq> i) L = L"
  by (induction L) auto

lemma sum_remove:
  assumes "distinct (map ue_EventID L)" "old \<in> set L"
  shows "counters_sum (filter P L) = (if P old
    then counters_add (usageFileEventDelta old) (counters_sum (filter P (filter (\<lambda>i. ue_EventID i \<noteq> ue_EventID old) L)))
    else counters_sum (filter P (filter (\<lambda>i. ue_EventID i \<noteq> ue_EventID old) L)))"
  using assms
proof (induction L)
  case (Cons e L)
  show ?case
  proof (cases "e = old")
    case True
    then have "filter (\<lambda>i. ue_EventID i \<noteq> ue_EventID old) L = L" using Cons.prems(1) by (simp add: filter_unused_id)
    then show ?thesis using True by (simp del: filter_filter)
  next
    case False
    then have "ue_EventID e \<noteq> ue_EventID old" using Cons.prems by auto
    then show ?thesis using Cons False by (auto simp: counters_add_left_commute simp del: filter_filter)
  qed
qed simp

lemma bucket_bump:
  "bucket_counters (bump_bucket key d bs) k = (if k = key then add_delta (bucket_counters bs key) d else bucket_counters bs k)"
  by (induction key d bs rule: bump_bucket.induct) (auto simp: bucket_counters_def)

section \<open>One record\<close>

lemma normalizeUsageEventKind_idem [simp]: "normalizeUsageEventKind (normalizeUsageEventKind k) = normalizeUsageEventKind k"
proof -
  have "trim_space ''turn_finalized'' = ''turn_finalized''" "trim_space ''provider_call'' \<noteq> ''turn_finalized''" by code_simp+
  then show ?thesis by (simp add: normalizeUsageEventKind_def)
qed

definition event_prepared :: "usageFileEvent \<Rightarrow> bool" where
  "event_prepared e \<longleftrightarrow> ue_EventID e \<noteq> [] \<and> trim_space (ue_EventID e) = ue_EventID e \<and>
     normalizeUsageEventKind (ue_Kind e) = ue_Kind e"

lemma prepare_prepared: "trim_space (ue_EventID e) \<noteq> [] \<Longrightarrow> event_prepared (prepare_event now e)"
  by (simp add: prepare_event_def event_prepared_def Let_def)

lemma index_prepared: "event_prepared e \<Longrightarrow> index_event e idx = AList.update (ue_EventID e) e idx"
  by (cases e) (simp add: index_event_def event_prepared_def)

definition events_ok :: "usageFileEvent list \<Rightarrow> bool" where
  "events_ok L \<longleftrightarrow> list_all event_prepared L \<and> distinct (map ue_EventID L)"

lemma index_lookup:
  assumes "events_ok L"
  shows "map_of (buildUsageEventIndex L) i = Some old \<longleftrightarrow> old \<in> set L \<and> ue_EventID old = i"
proof -
  have "map_of (fold index_event L idx) i = (case find (\<lambda>e. ue_EventID e = i) L of None \<Rightarrow> map_of idx i | Some e \<Rightarrow> Some e)"
    if "events_ok L" for idx
    using that
  proof (induction L arbitrary: idx)
    case (Cons e L)
    then have ok: "events_ok L" "event_prepared e" and new: "ue_EventID e \<notin> ue_EventID ` set L" by (simp_all add: events_ok_def)
    from new have "find (\<lambda>x. ue_EventID x = ue_EventID e) L = None" by (induction L) auto
    then show ?case using Cons.IH [OF ok(1)] by (auto simp: index_prepared [OF ok(2)] update_conv' split: option.split)
  qed simp
  from this [OF assms, of "[]"] have "map_of (buildUsageEventIndex L) i = find (\<lambda>e. ue_EventID e = i) L"
    by (simp add: buildUsageEventIndex_def split: option.split)
  moreover have "distinct (map ue_EventID L)" using assms by (simp add: events_ok_def)
  then have "find (\<lambda>e. ue_EventID e = i) L = Some old \<longleftrightarrow> old \<in> set L \<and> ue_EventID old = i"
    by (induction L) (auto simp: image_iff)
  ultimately show ?thesis by simp
qed

lemma latest_event_ok: "event_prepared e \<Longrightarrow> events_ok L \<Longrightarrow> events_ok (latest_event e L)"
  by (auto simp: events_ok_def latest_event_def list_all_iff distinct_map inj_on_def)

definition sums_ok :: "usage_time \<Rightarrow> usageFileEvent list \<Rightarrow> usageFileDocument \<Rightarrow> bool" where
  "sums_ok ut L doc \<longleftrightarrow> uf_Totals doc = counters_sum L \<and>
     (\<forall>day. bucket_counters (uf_Daily doc) day = counters_sum (filter (\<lambda>e. ut_day ut (ue_At e) = day) L))"

lemma apply_delta_fields [simp]:
  "uf_Totals (applyUsageFileDelta ut at d doc) = add_delta (uf_Totals doc) d"
  "uf_Daily (applyUsageFileDelta ut at d doc) = bump_bucket (ut_day ut at) d (uf_Daily doc)"
  "uf_RecentEvents (applyUsageFileDelta ut at d doc) = uf_RecentEvents doc"
  by (simp_all add: applyUsageFileDelta_def applyUsageHourlyDelta_def Let_def)

lemma delta_added:
  assumes "sums_ok ut L doc" "counters_fit (counters_sum (e # L))"
  shows "sums_ok ut (e # L) (applyUsageFileDelta ut (ue_At e) (usageFileEventDelta e) doc)"
proof -
  have "add_delta (counters_sum (filter P L)) (usageFileEventDelta e) = counters_add (usageFileEventDelta e) (counters_sum (filter P L))"
    if "P e" for P
    using add_delta_exact [of "counters_sum (filter P L)" "usageFileEventDelta e"] fit_filter [OF assms(2), of P] that
    by (simp add: counters_add_commute)
  from this [of "\<lambda>_. True"] this show ?thesis using assms(1) by (auto simp: sums_ok_def bucket_bump)
qed

lemma delta_removed:
  assumes "sums_ok ut L doc" "counters_fit (counters_sum L)" "events_ok L" "old \<in> set L"
  shows "sums_ok ut (filter (\<lambda>i. ue_EventID i \<noteq> ue_EventID old) L)
    (applyUsageFileDelta ut (ue_At old) (negateUsageFileDelta (usageFileEventDelta old)) doc)"
proof -
  let ?R = "filter (\<lambda>i. ue_EventID i \<noteq> ue_EventID old) L"
  note split = sum_remove [of L old, OF _ assms(4)]
  have dist: "distinct (map ue_EventID L)" using assms(3) by (simp add: events_ok_def)
  have "add_delta (counters_sum (filter P L)) (negateUsageFileDelta (usageFileEventDelta old)) = counters_sum (filter P ?R)"
    if "P old" for P
    using add_delta_negate [of "usageFileEventDelta old" "counters_sum (filter P ?R)"] fit_filter [OF assms(2), of P]
      split [OF dist, of P] that by (simp del: filter_filter)
  note gone = this
  have kept: "counters_sum (filter P L) = counters_sum (filter P ?R)" if "\<not> P old" for P
    using split [OF dist, of P] that by simp
  have "add_delta (counters_sum L) (negateUsageFileDelta (usageFileEventDelta old)) = counters_sum ?R"
    using gone [of "\<lambda>_. True"] by simp
  then show ?thesis using assms(1) gone [of "\<lambda>e. ut_day ut (ue_At e) = ut_day ut (ue_At old)"]
      kept [of "\<lambda>e. ut_day ut (ue_At e) = _"]
    by (auto simp: sums_ok_def bucket_bump simp del: filter_filter)
qed

definition usage_ok :: "usage_time \<Rightarrow> usageFileEvent list \<Rightarrow> usageFileDocument \<Rightarrow> bool" where
  "usage_ok ut L doc \<longleftrightarrow> sums_ok ut L doc \<and> uf_RecentEvents doc = L \<and> uf_EventIndex doc = buildUsageEventIndex L \<and>
     uf_SchemaVersion doc = usageFileSchemaVersion"

lemma upsert_recent: "event_prepared e \<Longrightarrow>
    upsertRecentUsageEvent L e = e # filter (\<lambda>i. trim_space (ue_EventID i) \<noteq> ue_EventID e) L"
  by (cases e) (simp add: upsertRecentUsageEvent_def event_prepared_def)

lemma upsert_usage_ok:
  assumes "usage_ok ut L doc" "events_ok L" "event_prepared e" "length (latest_event e L) \<le> usageRecentEventLimit"
    and fit: "counters_fit (counters_sum L)" "counters_fit (counters_sum (latest_event e L))"
  shows "usage_ok ut (latest_event e L) (upsert_document ut now e doc)"
proof -
  let ?R = "filter (\<lambda>i. ue_EventID i \<noteq> ue_EventID e) L"
  define doc1 where "doc1 = (case map_of (uf_EventIndex doc) (ue_EventID e) of None \<Rightarrow> doc
    | Some old \<Rightarrow> applyUsageFileDelta ut (ue_At old) (negateUsageFileDelta (usageFileEventDelta old)) doc)"
  have recent: "uf_RecentEvents doc1 = L" using assms(1) by (simp add: doc1_def usage_ok_def split: option.split)
  have s: "sums_ok ut ?R doc1"
  proof (cases "map_of (uf_EventIndex doc) (ue_EventID e)")
    case None
    then have "?R = L" using assms(1) index_lookup [OF assms(2), of "ue_EventID e"] by (auto simp: usage_ok_def filter_id_conv)
    then show ?thesis using None assms(1) by (simp add: doc1_def usage_ok_def)
  next
    case (Some old)
    then have "old \<in> set L" "ue_EventID old = ue_EventID e"
      using assms(1) index_lookup [OF assms(2), of "ue_EventID e" old] by (simp_all add: usage_ok_def)
    with delta_removed [OF _ fit(1) assms(2), of ut doc old] show ?thesis using assms(1) Some by (simp add: doc1_def usage_ok_def)
  qed
  have "sums_ok ut (latest_event e L) (applyUsageFileDelta ut (ue_At e) (usageFileEventDelta e) doc1)"
    using delta_added [OF s] fit(2) by (simp add: latest_event_def)
  moreover have "filter (\<lambda>i. trim_space (ue_EventID i) \<noteq> ue_EventID e) L = ?R"
    using assms(2) by (intro filter_cong) (auto simp: events_ok_def list_all_iff event_prepared_def)
  then have "trimRecentUsageEvents (upsertRecentUsageEvent L e) usageRecentEventLimit = latest_event e L"
    using assms(4) by (simp add: upsert_recent [OF assms(3)] trimRecentUsageEvents_def latest_event_def)
  ultimately show ?thesis
    by (simp add: usage_ok_def upsert_document_def Let_def recent doc1_def [symmetric]) (simp add: sums_ok_def)
qed

section \<open>A sequence of records\<close>

lemma usage_read_back:
  assumes "usage_ok ut L doc" "length L \<le> usageRecentEventLimit"
  shows "readUsageFileDocument ut (FileOk doc) = Inr doc"
proof -
  obtain recent idx v where parts: "uf_RecentEvents doc = recent" "uf_EventIndex doc = idx" "uf_SchemaVersion doc = v" by simp
  then have "recent = L" "idx = buildUsageEventIndex L" "v = usageFileSchemaVersion" using assms(1) by (simp_all add: usage_ok_def)
  with parts assms(2) show ?thesis
    by (cases doc) (auto simp: readUsageFileDocument_def usageFileSchemaVersion_def trimRecentUsageEvents_def Let_def)
qed

lemma upsert_step:
  assumes read: "readUsageFileDocument ut f = Inr doc" and "usage_ok ut L doc" "events_ok L"
    and L': "L' = (if event_taken env e then latest_event (prepare_event (se_now env) e) L else L)"
    and "length L' \<le> usageRecentEventLimit" "counters_fit (counters_sum L)" "counters_fit (counters_sum L')"
  shows "\<exists>doc'. readUsageFileDocument ut (fst (UpsertEvent env ut e f)) = Inr doc' \<and> usage_ok ut L' doc' \<and> events_ok L'"
proof (cases "event_taken env e")
  case False
  then have "fst (UpsertEvent env ut e f) = f"
    by (auto simp: event_taken_def UpsertEvent_def prepare_event_def Let_def read writeJSONFileAtomic_def)
  then show ?thesis using assms False by auto
next
  case True
  let ?e = "prepare_event (se_now env) e" and ?doc = "upsert_document ut (se_now env) (prepare_event (se_now env) e) doc"
  have "ue_EventID ?e = trim_space (ue_EventID e)" by (simp add: prepare_event_def Let_def)
  then have "fst (UpsertEvent env ut e f) = FileOk ?doc"
    using True by (auto simp: event_taken_def UpsertEvent_def Let_def read writeJSONFileAtomic_def split: write_outcome.split)
  moreover have p: "event_prepared ?e" using True by (simp add: prepare_prepared event_taken_def)
  have ok: "usage_ok ut L' ?doc" using upsert_usage_ok [OF assms(2,3) p] assms True by simp
  ultimately show ?thesis using usage_read_back [OF ok] assms(3,5) True L' latest_event_ok [OF p] by auto
qed

lemma run_snoc: "run_upserts ut (es @ [(env, e)]) = fst (UpsertEvent env ut e (run_upserts ut es))"
  "latest_events (es @ [(env, e)]) =
     (if event_taken env e then latest_event (prepare_event (se_now env) e) (latest_events es) else latest_events es)"
  by (simp_all add: run_upserts_def latest_events_def)

lemma latest_length: "length (latest_events es) \<le> card ((\<lambda>(_, e). trim_space (ue_EventID e)) ` set es)"
proof -
  have "distinct (map ue_EventID (latest_events es)) \<and>
    ue_EventID ` set (latest_events es) \<subseteq> (\<lambda>(_, e). trim_space (ue_EventID e)) ` set es"
  proof (induction es rule: rev_induct)
    case (snoc x es)
    obtain env e where x: "x = (env, e)" by (cases x)
    have "ue_EventID (prepare_event (se_now env) e) = trim_space (ue_EventID e)" by (simp add: prepare_event_def Let_def)
    with snoc show ?case by (auto simp: x run_snoc latest_event_def distinct_map_filter)
  qed (simp add: latest_events_def)
  moreover from this have "length (latest_events es) = card (ue_EventID ` set (latest_events es))"
    using distinct_card [of "map ue_EventID (latest_events es)"] by simp
  ultimately show ?thesis by (simp add: card_mono)
qed

lemma usage_ok_empty: "usage_ok ut [] emptyUsageDocument"
  by (simp add: usage_ok_def sums_ok_def emptyUsageDocument_def bucket_counters_def buildUsageEventIndex_def)

lemma run_usage_ok:
  assumes "card ((\<lambda>(_, e). trim_space (ue_EventID e)) ` set es) \<le> usageRecentEventLimit"
    and "\<And>k. counters_fit (counters_sum (latest_events (take k es)))"
  shows "\<exists>doc. readUsageFileDocument ut (run_upserts ut es) = Inr doc \<and> usage_ok ut (latest_events es) doc \<and>
    events_ok (latest_events es)"
  using assms
proof (induction es rule: rev_induct)
  case Nil
  then show ?case
    using usage_ok_empty by (auto simp: run_upserts_def latest_events_def readUsageFileDocument_def events_ok_def)
next
  case (snoc x es)
  obtain env e where x: "x = (env, e)" by (cases x)
  have fit: "counters_fit (counters_sum (latest_events (take k es)))" for k
  proof -
    have "take k es = take (min k (length es)) (es @ [x])" by (cases "k \<le> length es") (simp_all add: min_def)
    then show ?thesis using snoc.prems(2) [of "min k (length es)"] by simp
  qed
  have "card ((\<lambda>(_, e). trim_space (ue_EventID e)) ` set es) \<le> card ((\<lambda>(_, e). trim_space (ue_EventID e)) ` set (es @ [x]))"
    by (intro card_mono) auto
  then obtain doc where doc: "readUsageFileDocument ut (run_upserts ut es) = Inr doc" "usage_ok ut (latest_events es) doc"
      "events_ok (latest_events es)"
    using snoc fit by fastforce
  have "length (latest_events (es @ [x])) \<le> usageRecentEventLimit" using latest_length snoc.prems(1) by (rule order_trans)
  moreover have "counters_fit (counters_sum (latest_events es))" using fit [of "length es"] by simp
  moreover have "counters_fit (counters_sum (latest_events (es @ [x])))" using snoc.prems(2) [of "Suc (length es)"] by simp
  ultimately show ?case using upsert_step [OF doc run_snoc(2)] by (simp add: x run_snoc(1))
qed

text \<open>C39. After any sequence of records over at most 500 ids, with failed and repeated records among
  them, the usage file holds the latest record of each id, most recent first, and an index of
  exactly these; the totals are the sum of their contributions and each day's bucket the sum over
  that day, provided the sums on the way stay within \<open>int64\<close>.\<close>

theorem usage_totals:
  assumes "card ((\<lambda>(_, e). trim_space (ue_EventID e)) ` set es) \<le> usageRecentEventLimit"
    and "\<And>k. counters_fit (counters_sum (latest_events (take k es)))"
  shows "\<exists>doc. readUsageFileDocument ut (run_upserts ut es) = Inr doc \<and>
    uf_Totals doc = counters_sum (latest_events es) \<and>
    (\<forall>day. bucket_counters (uf_Daily doc) day = counters_sum (filter (\<lambda>e. ut_day ut (ue_At e) = day) (latest_events es))) \<and>
    uf_RecentEvents doc = latest_events es \<and>
    (\<forall>i e. map_of (uf_EventIndex doc) i = Some e \<longleftrightarrow> e \<in> set (latest_events es) \<and> ue_EventID e = i)"
proof -
  from run_usage_ok [OF assms] obtain doc where doc: "readUsageFileDocument ut (run_upserts ut es) = Inr doc"
    "usage_ok ut (latest_events es) doc" "events_ok (latest_events es)" by blast
  then show ?thesis using index_lookup [OF doc(3)] by (intro exI [of _ doc]) (simp add: usage_ok_def sums_ok_def)
qed

definition usage_env0 :: store_env where
  "usage_env0 = \<lparr>se_now = 90000000000000, se_separator = CHR ''/'', se_mkdir = True, se_lock = True, se_context_write = WriteOk,
     se_state_write = WriteOk, se_sha = id,
     se_codecs = \<lparr>decode_runtime_state = (\<lambda>_. None), decode_tool_call = (\<lambda>_. None)\<rparr>\<rparr>"

definition provider_event :: "string \<Rightarrow> int \<Rightarrow> usageFileEvent" where
  "provider_event i n = \<lparr>ue_EventID = i, ue_Kind = [], ue_Status = [], ue_At = 0, ue_InputTokens = n, ue_OutputTokens = 2,
     ue_CacheReadTokens = 0, ue_CacheWriteTokens = - 4, ue_TotalTokens = 0, ue_UsagePresent = True\<rparr>"

text \<open>Two records of one call, the second with the final numbers, and a record that could not be written.\<close>

definition demo_records :: "(store_env \<times> usageFileEvent) list" where
  "demo_records = [(usage_env0, provider_event ''call'' 10), (usage_env0, provider_event '' call '' 30),
     (usage_env0\<lparr>se_lock := False\<rparr>, provider_event ''other'' 1)]"

definition demo_clock :: usage_time where
  "demo_clock = \<lparr>ut_day = (\<lambda>t. if t < 86400000000000 then ''0001-01-01'' else ''0001-01-02''), ut_hour = (\<lambda>_. ''h''), ut_parse = (\<lambda>_. None)\<rparr>"

theorem usage_totals_witness:
  "\<exists>doc. readUsageFileDocument demo_clock (run_upserts demo_clock demo_records) = Inr doc \<and>
    uc_ProviderCalls (uf_Totals doc) = 1 \<and> uc_InputTokens (uf_Totals doc) = 30 \<and> uc_TotalTokens (uf_Totals doc) = 32 \<and>
    uc_InputTokens (bucket_counters (uf_Daily doc) ''0001-01-02'') = 30"
proof -
  have "counters_fit (counters_sum (latest_events (take k demo_records)))" for k
  proof -
    consider "k = 0" | "k = 1" | "k = 2" | "length demo_records \<le> k" by (fastforce simp: demo_records_def)
    moreover have "counters_fit (counters_sum (latest_events (take 0 demo_records)))"
      "counters_fit (counters_sum (latest_events (take 1 demo_records)))"
      "counters_fit (counters_sum (latest_events (take 2 demo_records)))"
      "counters_fit (counters_sum (latest_events demo_records))" by code_simp+
    ultimately show ?thesis by cases (simp_all add: take_all)
  qed
  moreover have "card ((\<lambda>(_, e). trim_space (ue_EventID e)) ` set demo_records) \<le> usageRecentEventLimit"
    by (rule order_trans [OF card_image_le]) (simp_all add: demo_records_def usageRecentEventLimit_def card_insert_if)
  ultimately obtain doc where doc: "readUsageFileDocument demo_clock (run_upserts demo_clock demo_records) = Inr doc"
    "uf_Totals doc = counters_sum (latest_events demo_records)"
    "bucket_counters (uf_Daily doc) ''0001-01-02'' = counters_sum (filter (\<lambda>e. ut_day demo_clock (ue_At e) = ''0001-01-02'') (latest_events demo_records))"
    using usage_totals [of demo_records demo_clock] by blast
  have "uc_ProviderCalls (counters_sum (latest_events demo_records)) = 1 \<and> uc_InputTokens (counters_sum (latest_events demo_records)) = 30 \<and>
    uc_TotalTokens (counters_sum (latest_events demo_records)) = 32 \<and>
    uc_InputTokens (counters_sum (filter (\<lambda>e. ut_day demo_clock (ue_At e) = ''0001-01-02'') (latest_events demo_records))) = 30"
    by code_simp
  then show ?thesis using doc by (intro exI [of _ doc]) simp
qed

section \<open>Looking events up\<close>

lemma i64_add_absorb [simp]: "i64 (i64 x + y) = i64 (x + y)" "i64 (y + i64 x) = i64 (y + x)"
proof -
  have "(i64 x + y + 2 ^ 63) mod 2 ^ 64 = ((x + 2 ^ 63) mod 2 ^ 64 + y) mod 2 ^ 64" by (simp add: i64_def algebra_simps)
  also have "\<dots> = (x + 2 ^ 63 + y) mod 2 ^ 64" by (rule mod_add_left_eq)
  also have "\<dots> = (x + y + 2 ^ 63) mod 2 ^ 64" by (simp add: ac_simps)
  finally show "i64 (i64 x + y) = i64 (x + y)" unfolding i64_def [of "i64 x + y"] i64_def [of "x + y"] by simp
  then show "i64 (y + i64 x) = i64 (y + x)" by (simp add: ac_simps)
qed

lemma aggregate_commute: "aggregate_event n e \<circ> aggregate_event n e' = aggregate_event n e' \<circ> aggregate_event n e"
proof (rule ext)
  fix acc
  show "(aggregate_event n e \<circ> aggregate_event n e') acc = (aggregate_event n e' \<circ> aggregate_event n e) acc"
    by (cases acc) (simp_all add: aggregate_event_def Let_def ac_simps)
qed

text \<open>The aggregate does not depend on the order in which Go's map iteration visits the events.\<close>

lemma lookup_order_irrelevant: "mset es = mset es' \<Longrightarrow> fold (aggregate_event n) es None = fold (aggregate_event n) es' None"
  by (metis aggregate_commute fold_multiset_equiv)

section \<open>Forgotten ids\<close>

lemma limit_pos: "0 < usageRecentEventLimit"
  by (simp add: usageRecentEventLimit_def)

lemma take_Cons_take: "take n (x # take n xs) = take n (x # xs)"
  by (cases n) (simp_all add: min_def)

lemma trimRecent_take: "0 < limit \<Longrightarrow> trimRecentUsageEvents items limit = take limit items"
  by (simp add: trimRecentUsageEvents_def)

definition event_id :: "store_env \<times> usageFileEvent \<Rightarrow> string" where
  "event_id x = trim_space (ue_EventID (snd x))"

definition prepared :: "store_env \<times> usageFileEvent \<Rightarrow> usageFileEvent" where
  "prepared x = prepare_event (se_now (fst x)) (snd x)"

lemma prepared_id [simp]: "ue_EventID (prepared x) = event_id x"
  by (simp add: prepared_def event_id_def prepare_event_def Let_def)

definition provider_record :: "store_env \<times> usageFileEvent \<Rightarrow> bool" where
  "provider_record x \<longleftrightarrow> event_taken (fst x) (snd x) \<and> normalizeUsageEventKind (ue_Kind (snd x)) = ''provider_call''"

text \<open>The document after records of new ids only: as many provider calls as records, the last 500 kept.\<close>

definition fresh_doc :: "(store_env \<times> usageFileEvent) list \<Rightarrow> int \<Rightarrow> usageFileDocument \<Rightarrow> bool" where
  "fresh_doc es n doc \<longleftrightarrow> uf_RecentEvents doc = take usageRecentEventLimit (rev (map prepared es)) \<and>
     uf_EventIndex doc = buildUsageEventIndex (uf_RecentEvents doc) \<and> uf_SchemaVersion doc = usageFileSchemaVersion \<and>
     uc_ProviderCalls (uf_Totals doc) = n"

lemma fresh_events_ok:
  assumes "list_all provider_record es" "distinct (map event_id es)"
  shows "events_ok (take n (rev (map prepared es)))"
proof -
  have "list_all event_prepared (rev (map prepared es))"
    using assms(1) by (auto simp: list_all_iff provider_record_def event_taken_def prepared_def prepare_prepared)
  moreover have "distinct (map ue_EventID (rev (map prepared es)))" using assms(2) by (simp add: rev_map [symmetric] comp_def)
  ultimately show ?thesis unfolding events_ok_def list_all_iff by (simp only: take_map [symmetric] distinct_take) (blast dest: in_set_takeD)
qed

lemma provider_delta: "provider_record x \<Longrightarrow> uc_ProviderCalls (usageFileEventDelta (prepared x)) = 1"
  using normalizeUsageEventKind_idem [of "ue_Kind (snd x)"]
  by (simp add: usageFileEventDelta_def provider_record_def prepared_def prepare_event_def Let_def zeroCounters_def)

lemma fresh_upsert:
  assumes "readUsageFileDocument ut f = Inr doc" "fresh_doc es n doc" "list_all provider_record es" "distinct (map event_id es)"
    and "provider_record x" "event_id x \<notin> ue_EventID ` set (uf_RecentEvents doc)" "0 \<le> n" "n < max_i64"
  obtains doc' where "readUsageFileDocument ut (fst (UpsertEvent (fst x) ut (snd x) f)) = Inr doc'" "fresh_doc (es @ [x]) (n + 1) doc'"
proof -
  let ?L = "take usageRecentEventLimit (rev (map prepared es))"
  let ?doc = "upsert_document ut (se_now (fst x)) (prepared x) doc"
  have taken: "event_taken (fst x) (snd x)" and p: "event_prepared (prepared x)"
    using assms(5) by (simp_all add: provider_record_def prepared_def prepare_prepared event_taken_def)
  have stored: "fst (UpsertEvent (fst x) ut (snd x) f) = FileOk ?doc"
    using taken assms(1) prepared_id [of x]
    by (auto simp: event_taken_def UpsertEvent_def Let_def prepared_def event_id_def writeJSONFileAtomic_def split: write_outcome.split)
  have ok: "events_ok ?L" using fresh_events_ok assms(3,4) by blast
  have L: "uf_RecentEvents doc = ?L" "uf_EventIndex doc = buildUsageEventIndex ?L" using assms(2) by (simp_all add: fresh_doc_def)
  have none: "map_of (buildUsageEventIndex ?L) (event_id x) = None"
  proof (rule ccontr)
    assume "\<not> ?thesis"
    then obtain old where "old \<in> set ?L" "ue_EventID old = event_id x" using index_lookup [OF ok] by blast
    then show False using assms(6) L(1) by force
  qed
  have "filter (\<lambda>i. trim_space (ue_EventID i) \<noteq> event_id x) ?L = ?L"
    using assms(6) ok L(1) by (force simp: filter_id_conv events_ok_def list_all_iff event_prepared_def)
  then have recent: "trimRecentUsageEvents (upsertRecentUsageEvent ?L (prepared x)) usageRecentEventLimit =
      take usageRecentEventLimit (rev (map prepared (es @ [x])))"
    by (simp add: upsert_recent [OF p] trimRecent_take limit_pos take_Cons_take)
  have "i64 (n + 1) = n + 1" using assms(7,8) by (intro i64_small) simp_all
  then have "uc_ProviderCalls (add_delta (uf_Totals doc) (usageFileEventDelta (prepared x))) = n + 1"
    using assms(2,7) provider_delta [OF assms(5)] by (simp add: fresh_doc_def add_delta_def clampNonNegativeInt64_def)
  then have "uc_ProviderCalls (uf_Totals ?doc) = n + 1"
    by (simp add: upsert_document_def Let_def none L(2))
  then have "fresh_doc (es @ [x]) (n + 1) ?doc"
    using recent none L by (simp add: fresh_doc_def upsert_document_def Let_def)
  moreover from this have "readUsageFileDocument ut (FileOk ?doc) = Inr ?doc"
    by (cases ?doc) (auto simp: fresh_doc_def readUsageFileDocument_def usageFileSchemaVersion_def trimRecent_take limit_pos Let_def)
  ultimately show ?thesis using that stored by simp
qed

lemma fresh_run:
  assumes "list_all provider_record es" "distinct (map event_id es)" "int (length es) \<le> max_i64"
  obtains doc where "readUsageFileDocument ut (run_upserts ut es) = Inr doc" "fresh_doc es (int (length es)) doc"
  using assms
proof (induction es arbitrary: thesis rule: rev_induct)
  case Nil
  have "fresh_doc [] 0 emptyUsageDocument"
    by (simp add: fresh_doc_def emptyUsageDocument_def buildUsageEventIndex_def zeroCounters_def)
  then show ?case by (intro Nil.prems(1)) (simp_all add: run_upserts_def readUsageFileDocument_def)
next
  case (snoc x es)
  then obtain doc where doc: "readUsageFileDocument ut (run_upserts ut es) = Inr doc" "fresh_doc es (int (length es)) doc" by auto
  have "ue_EventID ` set (uf_RecentEvents doc) \<subseteq> event_id ` set es"
    using doc(2) by (auto simp: fresh_doc_def dest!: in_set_takeD)
  then have "event_id x \<notin> ue_EventID ` set (uf_RecentEvents doc)" using snoc.prems(3) by auto
  with fresh_upsert [OF doc, of x] snoc.prems obtain doc' where
    "readUsageFileDocument ut (fst (UpsertEvent (fst x) ut (snd x) (run_upserts ut es))) = Inr doc'"
    "fresh_doc (es @ [x]) (int (length es) + 1) doc'" by auto
  then show ?case by (intro snoc.prems(1)) (cases x, simp_all add: run_snoc ac_simps)
qed

text \<open>Records are corrected only while their id is among the last 500: when more than 500 distinct
  provider calls have been recorded and the first of them is recorded once more, the file counts it
  again, one call more than there are calls.\<close>

lemma evicted_event_counts_again:
  assumes "list_all provider_record es" "distinct (map event_id es)" "usageRecentEventLimit < length es" "int (length es) < max_i64"
  shows "\<exists>doc. readUsageFileDocument ut (run_upserts ut (es @ [hd es])) = Inr doc \<and>
    uc_ProviderCalls (uf_Totals doc) = int (card (event_id ` set es)) + 1"
proof -
  obtain doc where doc: "readUsageFileDocument ut (run_upserts ut es) = Inr doc" "fresh_doc es (int (length es)) doc"
    by (rule fresh_run [OF assms(1,2), of ut]) (use assms(4) in simp_all)
  obtain x es' where es: "es = x # es'" using assms(3) by (cases es) auto
  have "take usageRecentEventLimit (rev (map prepared es)) = take usageRecentEventLimit (rev (map prepared es'))"
    using assms(3) es by simp
  then have "ue_EventID ` set (uf_RecentEvents doc) \<subseteq> event_id ` set es'"
    using doc(2) by (auto simp: fresh_doc_def dest!: in_set_takeD)
  then have "event_id x \<notin> ue_EventID ` set (uf_RecentEvents doc)" using assms(2) es by auto
  with fresh_upsert [OF doc assms(1,2), of x] assms(1,4) es obtain doc' where
    "readUsageFileDocument ut (fst (UpsertEvent (fst x) ut (snd x) (run_upserts ut es))) = Inr doc'"
    "fresh_doc (es @ [x]) (int (length es) + 1) doc'" by auto
  moreover have "card (event_id ` set es) = length es" using distinct_card [OF assms(2)] by simp
  ultimately show ?thesis using es by (cases x) (auto simp: fresh_doc_def run_snoc simp del: append.simps)
qed

lemma evicted_event_example:
  "\<exists>doc. readUsageFileDocument demo_clock (run_upserts demo_clock
      (let es = map (\<lambda>n. (usage_env0, provider_event (replicate (Suc n) CHR ''a'') 1)) [0..<501] in es @ [hd es])) = Inr doc \<and>
    uc_ProviderCalls (uf_Totals doc) = 502"
proof -
  let ?es = "map (\<lambda>n. (usage_env0, provider_event (replicate (Suc n) CHR ''a'') 1)) [0..<501]"
  have ident: "event_id (usage_env0, provider_event (replicate (Suc n) CHR ''a'') 1) = replicate (Suc n) CHR ''a''" for n
    unfolding event_id_def provider_event_def by (simp del: replicate_Suc, rule trim_graphic) (simp_all add: graphic_def)
  have kind: "normalizeUsageEventKind [] = ''provider_call''" by code_simp
  have "list_all provider_record ?es"
    using ident kind by (auto simp: list_all_iff provider_record_def event_taken_def event_id_def usage_env0_def provider_event_def)
  moreover have inj: "inj (\<lambda>n. replicate (Suc n) CHR ''a'')" by (auto simp: inj_def)
  have ids: "map event_id ?es = map (\<lambda>n. replicate (Suc n) CHR ''a'') [0..<501]" using ident by (simp del: replicate_Suc)
  then have d: "distinct (map event_id ?es)" using inj by (simp add: distinct_map inj_on_def)
  ultimately have "\<exists>doc. readUsageFileDocument demo_clock (run_upserts demo_clock (?es @ [hd ?es])) = Inr doc \<and>
    uc_ProviderCalls (uf_Totals doc) = int (card (event_id ` set ?es)) + 1"
    by (rule evicted_event_counts_again) (simp_all add: usageRecentEventLimit_def)
  moreover have "card (event_id ` set ?es) = 501" using distinct_card [OF d] by (simp only: set_map length_map) simp
  ultimately show ?thesis by (simp only: Let_def) simp
qed

end
