(* ===== verification/Replay_Truncation.thy ===== *)
theory Replay_Truncation
  imports Patch_Edit "HOL-Library.Sublist"
begin

text \<open>
  What the model is shown again of a tool's result, \<open>forwarder/tool_result_replay_truncation.go\<close>:
  limits per tool, compact forms of edit, shell and image results, and the two functions that cut
  a text to a number of bytes and say so in a notice.

  \<open>json_lib\<close> stands for \<open>json.Unmarshal\<close> into an \<open>any\<close>, whose objects have each key once, and
  \<open>json.Marshal\<close>; \<open>None\<close> is an error.  \<open>dmp\<close> is the diff library, as for \<open>PatchEdit\<close>.  Lengths are in
  bytes.
\<close>

record json_lib =
  jl_decode :: "string \<Rightarrow> json option"
  jl_encode :: "json \<Rightarrow> string option"

section \<open>Limits\<close>

definition projectedReplayKiB :: int where
  "projectedReplayKiB = 1024"

definition projectedReadReplayLimit :: int where
  "projectedReadReplayLimit = 64 * projectedReplayKiB"

definition projectedShellReplayLimit :: int where
  "projectedShellReplayLimit = 128 * projectedReplayKiB"

definition projectedShellStreamLimit :: int where
  "projectedShellStreamLimit = 16 * projectedReplayKiB"

definition projectedShellInterleavedLimit :: int where
  "projectedShellInterleavedLimit = 32 * projectedReplayKiB"

definition projectedGrepReplayLimit :: int where
  "projectedGrepReplayLimit = 32 * projectedReplayKiB"

definition projectedEditReplayLimit :: int where
  "projectedEditReplayLimit = 32 * projectedReplayKiB"

definition projectedPatchEditReplayLimit :: int where
  "projectedPatchEditReplayLimit = 4 * projectedReplayKiB"

definition projectedWebFetchReplayLimit :: int where
  "projectedWebFetchReplayLimit = 32 * projectedReplayKiB"

definition projectedWebSearchReplayLimit :: int where
  "projectedWebSearchReplayLimit = 16 * projectedReplayKiB"

definition projectedMcpReplayLimit :: int where
  "projectedMcpReplayLimit = 32 * projectedReplayKiB"

definition patch_tools :: "string list" where
  "patch_tools = [''PatchEdit'', ''PatchEditLines'', ''PatchEditSpan'']"

definition edit_tools :: "string list" where
  "edit_tools = patch_tools @ [''Edit'', ''Write'']"

definition projectedToolReplayLimit :: "string \<Rightarrow> int option" where
  "projectedToolReplayLimit toolName =
     (let n = trim_space toolName in
      if n = ''GenerateImage'' then Some projectedWebSearchReplayLimit
      else if n = ''Read'' then Some projectedReadReplayLimit
      else if n = ''Shell'' then Some projectedShellReplayLimit
      else if n = ''Grep'' \<or> n = ''Glob'' then Some projectedGrepReplayLimit
      else if n \<in> set patch_tools then Some projectedPatchEditReplayLimit
      else if n = ''Edit'' \<or> n = ''Write'' then Some projectedEditReplayLimit
      else if n = ''WebFetch'' then Some projectedWebFetchReplayLimit
      else if n = ''WebSearch'' then Some projectedWebSearchReplayLimit
      else if n = ''CallMcpTool'' \<or> n = ''FetchMcpResource'' \<or> n = ''ListMcpResources'' then Some projectedMcpReplayLimit
      else None)"

definition patchEditReplayLimit :: "string \<Rightarrow> int" where
  "patchEditReplayLimit toolName =
     (if trim_space toolName \<in> set patch_tools then projectedPatchEditReplayLimit else projectedEditReplayLimit)"

section \<open>Cutting a text\<close>

definition valid_string :: "string \<Rightarrow> bool" where
  "valid_string s = utf8_valid (map of_char s)"

text \<open>The longest valid prefix and suffix, by dropping one byte at a time.\<close>

function drop_invalid_back :: "string \<Rightarrow> string" where
  "drop_invalid_back s = (if \<not> valid_string s \<and> s \<noteq> [] then drop_invalid_back (butlast s) else s)"
  by auto
termination by (relation "measure length") auto

fun drop_invalid_front :: "string \<Rightarrow> string" where
  "drop_invalid_front [] = []"
| "drop_invalid_front (c # s) = (if \<not> valid_string (c # s) then drop_invalid_front s else c # s)"

definition truncateProjectedUTF8 :: "string \<Rightarrow> int \<Rightarrow> string" where
  "truncateProjectedUTF8 body limit =
     (if limit \<le> 0 then [] else if int (length body) \<le> limit then body else drop_invalid_back (take (nat limit) body))"

definition truncateProjectedUTF8Suffix :: "string \<Rightarrow> int \<Rightarrow> string" where
  "truncateProjectedUTF8Suffix body limit =
     (if limit \<le> 0 then [] else if int (length body) \<le> limit then body
      else drop_invalid_front (drop (length body - nat limit) body))"

definition trim_newlines :: "string \<Rightarrow> string" where
  "trim_newlines s = rev (dropWhile (\<lambda>c. c = LF) (rev s))"

definition replay_notice :: "string \<Rightarrow> int \<Rightarrow> int \<Rightarrow> nat \<Rightarrow> string" where
  "replay_notice toolName limit kept original = [LF, LF] @ ''[truncated: '' @ toolName @ '' result exceeded '' @ int_dec limit @
     '' bytes; showing '' @ int_dec kept @ '' of '' @ nat_dec original @ '' bytes]''"

definition middle_notice :: "string \<Rightarrow> int \<Rightarrow> int \<Rightarrow> nat \<Rightarrow> string" where
  "middle_notice toolName limit kept original = [LF, LF] @ ''[truncated: '' @ toolName @ '' result exceeded '' @ int_dec limit @
     '' bytes; omitted middle; showing '' @ int_dec kept @ '' of '' @ nat_dec original @ '' bytes]'' @ [LF, LF]"

declare drop_invalid_back.simps [simp del]

lemma drop_invalid_back_prefix: "prefix (drop_invalid_back s) s"
proof (induction s rule: drop_invalid_back.induct)
  case (1 s)
  have "prefix (butlast s) s" by (metis append_butlast_last_id butlast.simps(1) prefix_order.refl prefixI)
  then show ?case using 1 by (subst drop_invalid_back.simps) (auto intro: prefix_order.trans)
qed

lemma drop_invalid_front_suffix: "suffix (drop_invalid_front s) s"
  by (induction s) (auto intro: suffix_ConsI)

lemma truncate_prefix: "prefix (truncateProjectedUTF8 body limit) body"
  using prefix_order.trans [OF drop_invalid_back_prefix take_is_prefix]
  by (simp add: truncateProjectedUTF8_def)

lemma truncate_suffix: "suffix (truncateProjectedUTF8Suffix body limit) body"
  using suffix_order.trans [OF drop_invalid_front_suffix suffix_drop]
  by (simp add: truncateProjectedUTF8Suffix_def)

lemma truncate_length: "0 \<le> limit \<Longrightarrow> int (length (truncateProjectedUTF8 body limit)) \<le> limit"
  using prefix_length_le [OF drop_invalid_back_prefix, of "take (nat limit) body"]
  by (auto simp: truncateProjectedUTF8_def)

lemma truncate_suffix_length: "0 \<le> limit \<Longrightarrow> int (length (truncateProjectedUTF8Suffix body limit)) \<le> limit"
  using suffix_length_le [OF drop_invalid_front_suffix, of "drop (length body - nat limit) body"]
  by (auto simp: truncateProjectedUTF8Suffix_def)

lemma length_trim_newlines: "length (trim_newlines s) \<le> length s"
  using length_dropWhile_le [of _ "rev s"] by (simp add: trim_newlines_def)

lemma length_int_dec_mono: "0 \<le> m \<Longrightarrow> m \<le> n \<Longrightarrow> length (int_dec m) \<le> length (int_dec n)"
  by (simp add: int_dec_def length_nat_dec_mono)

lemma notice_mono: "0 \<le> k \<Longrightarrow> k \<le> k' \<Longrightarrow> length (replay_notice t limit k n) \<le> length (replay_notice t limit k' n)"
    "0 \<le> k \<Longrightarrow> k \<le> k' \<Longrightarrow> length (middle_notice t limit k n) \<le> length (middle_notice t limit k' n)"
  by (simp_all add: replay_notice_def middle_notice_def length_int_dec_mono)

text \<open>The loops go on only while the notice grows, and it cannot grow beyond the one for the whole text.\<close>

function truncate_loop :: "string \<Rightarrow> string \<Rightarrow> int \<Rightarrow> string \<Rightarrow> string" where
  "truncate_loop toolName body limit notice =
     (let keep = limit - int (length notice) in
      if keep \<le> 0 then truncateProjectedUTF8 body limit
      else let kept = truncateProjectedUTF8 body keep;
               nextNotice = replay_notice toolName limit (int (length kept)) (length body);
               out = trim_newlines kept @ nextNotice
           in if int (length out) \<le> limit \<or> nextNotice = notice then out
              else truncate_loop toolName body limit nextNotice)"
  by auto
termination
proof (relation "measure (\<lambda>(toolName, body, limit, notice).
    length (replay_notice toolName limit (int (length body)) (length body)) - length notice)")
  fix toolName body :: string and limit keep :: int and notice kept nextNotice out :: string
  assume "keep = limit - int (length notice)" "\<not> keep \<le> 0" and kept: "kept = truncateProjectedUTF8 body keep"
    and n: "nextNotice = replay_notice toolName limit (int (length kept)) (length body)"
    and "out = trim_newlines kept @ nextNotice" "\<not> (int (length out) \<le> limit \<or> nextNotice = notice)"
  then have grows: "length notice < length nextNotice"
    using truncate_length [of keep body] length_trim_newlines [of kept] by simp
  have "length nextNotice \<le> length (replay_notice toolName limit (int (length body)) (length body))"
    unfolding n by (rule notice_mono) (use prefix_length_le [OF truncate_prefix, of body keep] kept in simp_all)
  with grows show "((toolName, body, limit, nextNotice), toolName, body, limit, notice) \<in> measure (\<lambda>(toolName, body, limit, notice).
    length (replay_notice toolName limit (int (length body)) (length body)) - length notice)"
    by (simp add: diff_less_mono2)
qed simp

definition truncateProjectedReplayText :: "string \<Rightarrow> string \<Rightarrow> int \<Rightarrow> string" where
  "truncateProjectedReplayText toolName body limit =
     (if limit \<le> 0 \<or> int (length body) \<le> limit then trim_space body
      else truncate_loop toolName body limit (replay_notice toolName limit limit (length body)))"

definition middle_kept :: "string \<Rightarrow> int \<Rightarrow> string \<times> string" where
  "middle_kept body keep = (truncateProjectedUTF8 body (keep div 2), truncateProjectedUTF8Suffix body (keep - keep div 2))"

lemma div_le_dividend_int: "0 \<le> keep \<Longrightarrow> keep div 2 \<le> (keep :: int)"
  by presburger

lemma middle_kept_length: "0 \<le> keep \<Longrightarrow> middle_kept body keep = (h, t) \<Longrightarrow> int (length h) + int (length t) \<le> keep"
  using truncate_length [of "keep div 2" body] truncate_suffix_length [of "keep - keep div 2" body] div_le_dividend_int
  by (auto simp: middle_kept_def)

function middle_loop :: "string \<Rightarrow> string \<Rightarrow> int \<Rightarrow> string \<Rightarrow> string" where
  "middle_loop toolName body limit notice =
     (let keep = limit - int (length notice) in
      if keep \<le> 0 then truncateProjectedUTF8 body limit
      else let (head, tail) = middle_kept body keep;
               nextNotice = middle_notice toolName limit (int (length head) + int (length tail)) (length body);
               out = head @ nextNotice @ tail
           in if int (length out) \<le> limit \<or> nextNotice = notice then out
              else middle_loop toolName body limit nextNotice)"
  by auto
termination
proof (relation "measure (\<lambda>(toolName, body, limit, notice).
    length (middle_notice toolName limit (max 0 limit) (length body)) - length notice)")
  fix toolName body :: string and limit keep :: int and notice h t nextNotice out :: string and ht
  assume k: "keep = limit - int (length notice)" "\<not> keep \<le> 0" and ht: "ht = middle_kept body keep" "(h, t) = ht"
    and n: "nextNotice = middle_notice toolName limit (int (length h) + int (length t)) (length body)"
    and "out = h @ nextNotice @ t" "\<not> (int (length out) \<le> limit \<or> nextNotice = notice)"
  have kept: "int (length h) + int (length t) \<le> keep" using middle_kept_length [of keep body h t] k ht by simp
  have grows: "length notice < length nextNotice" using kept k \<open>out = _\<close> \<open>\<not> (_ \<or> _)\<close> by simp
  have "length nextNotice \<le> length (middle_notice toolName limit (max 0 limit) (length body))"
    unfolding n by (intro notice_mono) (use kept k in simp_all)
  with grows show "((toolName, body, limit, nextNotice), toolName, body, limit, notice) \<in> measure (\<lambda>(toolName, body, limit, notice).
    length (middle_notice toolName limit (max 0 limit) (length body)) - length notice)"
    by (simp add: diff_less_mono2 del: max.absorb1 max.absorb2 max.absorb3 max.absorb4)
qed simp

definition truncateProjectedReplayTextMiddle :: "string \<Rightarrow> string \<Rightarrow> int \<Rightarrow> string" where
  "truncateProjectedReplayTextMiddle toolName body limit =
     (if limit \<le> 0 then [] else if int (length body) \<le> limit then body
      else middle_loop toolName body limit (middle_notice toolName limit limit (length body)))"

declare truncate_loop.simps [simp del] middle_loop.simps [simp del]

section \<open>Compact forms\<close>

text \<open>Both compactions of a JSON value visit every object and list in it.  \<open>f\<close> decides on a text
  under a key: \<open>None\<close> leaves it, otherwise it gives the new text and whether it counts as a change.\<close>

fun rewrite_texts :: "(string \<Rightarrow> string \<Rightarrow> (string \<times> bool) option) \<Rightarrow> json \<Rightarrow> json \<times> bool"
  and rewrite_fields :: "(string \<Rightarrow> string \<Rightarrow> (string \<times> bool) option) \<Rightarrow> (string \<times> json) list \<Rightarrow> (string \<times> json) list \<times> bool"
  and rewrite_items :: "(string \<Rightarrow> string \<Rightarrow> (string \<times> bool) option) \<Rightarrow> json list \<Rightarrow> json list \<times> bool" where
  "rewrite_texts f (JObject fs) = (case rewrite_fields f fs of (fs', ch) \<Rightarrow> (JObject fs', ch))"
| "rewrite_texts f (JArray xs) = (case rewrite_items f xs of (xs', ch) \<Rightarrow> (JArray xs', ch))"
| "rewrite_texts f v = (v, False)"
| "rewrite_fields f [] = ([], False)"
| "rewrite_fields f ((k, v) # fs) =
     (let (v', ch) = (case v of
            JString t \<Rightarrow> (case f k t of Some (t', c) \<Rightarrow> (JString t', c) | None \<Rightarrow> (v, False))
          | _ \<Rightarrow> rewrite_texts f v);
          (fs', ch') = rewrite_fields f fs
      in ((k, v') # fs', ch \<or> ch'))"
| "rewrite_items f [] = ([], False)"
| "rewrite_items f (v # xs) = (let (v', ch) = rewrite_texts f v; (xs', ch') = rewrite_items f xs in (v' # xs', ch \<or> ch'))"

definition image_text :: "string \<Rightarrow> string \<Rightarrow> (string \<times> bool) option" where
  "image_text key t = (if key = ''image_data'' \<or> key = ''imageData''
     then Some (''[base64 image data omitted from replay; bytes='' @ nat_dec (length (trim_space t)) @ '']'', True) else None)"

definition compactGenerateImagePayload :: "json \<Rightarrow> json \<times> bool" where
  "compactGenerateImagePayload v = rewrite_texts image_text v"

definition shell_text :: "string \<Rightarrow> string \<Rightarrow> (string \<times> bool) option" where
  "shell_text key t =
     (if key = ''stdout'' \<or> key = ''stderr''
      then let t' = truncateProjectedReplayTextMiddle (''Shell '' @ key) t projectedShellStreamLimit in Some (t', t' \<noteq> t)
      else if key = ''interleaved_output'' \<or> key = ''interleavedOutput''
      then let t' = truncateProjectedReplayTextMiddle ''Shell interleaved output'' t projectedShellInterleavedLimit in Some (t', t' \<noteq> t)
      else None)"

definition compactProjectedShellFields :: "json \<Rightarrow> json \<times> bool" where
  "compactProjectedShellFields v = rewrite_texts shell_text v"

definition blank_result :: "string \<Rightarrow> bool" where
  "blank_result s \<longleftrightarrow> s = [] \<or> s = ''{}'' \<or> s = ''null''"

definition compactProjectedGenerateImageResultReplay :: "json_lib \<Rightarrow> string \<Rightarrow> string \<Rightarrow> string \<Rightarrow> string option" where
  "compactProjectedGenerateImageResultReplay jl toolName content resultText =
     (if trim_space toolName \<noteq> ''GenerateImage'' then None
      else let fallback = trim_space resultText; trimmed = trim_space content in
        if blank_result trimmed then (if fallback = [] then None else Some fallback)
        else case jl_decode jl trimmed of
          None \<Rightarrow> Some (if fallback = [] then truncateProjectedReplayText ''GenerateImage'' trimmed projectedWebSearchReplayLimit
                        else fallback)
        | Some payload \<Rightarrow>
            (case compactGenerateImagePayload payload of (payload', changed) \<Rightarrow>
               (case (if changed then jl_encode jl payload' else None) of
                  Some encoded \<Rightarrow> Some encoded
                | None \<Rightarrow> Some (if fallback \<noteq> [] then fallback else trimmed))))"

definition compactProjectedShellToolResultReplay :: "json_lib \<Rightarrow> string \<Rightarrow> string \<Rightarrow> string option" where
  "compactProjectedShellToolResultReplay jl toolName content =
     (if trim_space toolName \<noteq> ''Shell'' \<or> blank_result (trim_space content) then None
      else case jl_decode jl (trim_space content) of
        None \<Rightarrow> None
      | Some payload \<Rightarrow> (case compactProjectedShellFields payload of (payload', changed) \<Rightarrow>
          if changed then jl_encode jl payload' else None))"

fun firstJSONText :: "(string \<times> json) list \<Rightarrow> string list \<Rightarrow> string" where
  "firstJSONText fs [] = []"
| "firstJSONText fs (k # ks) = (case obj_get k fs of Some (JString t) \<Rightarrow> t | _ \<Rightarrow> firstJSONText fs ks)"

definition success_json :: "string \<Rightarrow> string \<Rightarrow> json" where
  "success_json key v = JObject [(''success'', JObject [(key, JString v)])]"

definition compact_success :: "json_lib \<Rightarrow> diff_lib \<Rightarrow> string \<Rightarrow> (string \<times> json) list \<Rightarrow> string option" where
  "compact_success jl dmp toolName success =
     (let given = firstJSONText success [''diff_string'', ''diffString''];
          before = (if given = [] then firstJSONText success [''before_full_file_content'', ''beforeFullFileContent''] else []);
          after = (if given = [] then firstJSONText success [''after_full_file_content'', ''afterFullFileContent''] else []);
          diffString = (if given = [] \<and> before \<noteq> [] then fst (computeEditDiff dmp before after) else given)
      in if diffString \<noteq> []
         then jl_encode jl (success_json ''diff_string''
                (truncateProjectedReplayText (firstNonEmpty [trim_space toolName, ''PatchEdit'']) diffString (patchEditReplayLimit toolName)))
         else if after \<noteq> []
         then jl_encode jl (success_json ''after_full_file_content''
                (truncateProjectedReplayText (firstNonEmpty [trim_space toolName, ''Write'']) after (patchEditReplayLimit toolName)))
         else None)"

definition compactProjectedEditToolResultReplay :: "json_lib \<Rightarrow> diff_lib \<Rightarrow> string \<Rightarrow> string \<Rightarrow> string option" where
  "compactProjectedEditToolResultReplay jl dmp toolName content =
     (if trim_space toolName \<notin> set edit_tools \<or> blank_result (trim_space content) then None
      else case jl_decode jl (trim_space content) of
        Some (JObject payload) \<Rightarrow>
          (case obj_get ''success'' payload of Some (JObject success) \<Rightarrow> compact_success jl dmp toolName success | _ \<Rightarrow> None)
      | _ \<Rightarrow> None)"

definition compactHistoricalEditErrorReplay :: "json_lib \<Rightarrow> string \<Rightarrow> string \<Rightarrow> string option" where
  "compactHistoricalEditErrorReplay jl toolName content =
     (if trim_space toolName \<notin> set edit_tools \<or> trim_space content = [] then None
      else case jl_decode jl (trim_space content) of
        Some (JObject payload) \<Rightarrow>
          (case obj_get ''error'' payload of
             Some (JObject err) \<Rightarrow>
               if firstJSONText err [''error'', ''modelVisibleError''] = [] then None
               else jl_encode jl (JObject [(''error'', JObject [(''error'',
                      JString ''historical edit error omitted from replay; re-read the file before editing'')])])
           | _ \<Rightarrow> None)
      | _ \<Rightarrow> None)"

text \<open>A compaction that applies replaces the content, which then no longer is the stored tool call.\<close>

definition apply_compaction :: "(string \<Rightarrow> string option) \<Rightarrow> string \<times> bool \<Rightarrow> string \<times> bool" where
  "apply_compaction f c = (case f (fst c) of Some compacted \<Rightarrow> (compacted, False) | None \<Rightarrow> c)"

definition limitProjectedToolResultReplay ::
    "json_lib \<Rightarrow> diff_lib \<Rightarrow> string \<Rightarrow> string \<Rightarrow> string \<Rightarrow> bool \<Rightarrow> bool \<Rightarrow> string" where
  "limitProjectedToolResultReplay jl dmp toolName content resultText fromStoredToolCall historical =
     (case compactProjectedGenerateImageResultReplay jl toolName content resultText of
        Some compacted \<Rightarrow> compacted
      | None \<Rightarrow>
          (let c0 = (content, fromStoredToolCall);
               c1 = (if historical then apply_compaction (compactHistoricalEditErrorReplay jl toolName) c0 else c0);
               c2 = apply_compaction (compactProjectedEditToolResultReplay jl dmp toolName) c1;
               (c3, stored) = apply_compaction (compactProjectedShellToolResultReplay jl toolName) c2
           in case projectedToolReplayLimit toolName of
                None \<Rightarrow> trim_space c3
              | Some limit \<Rightarrow>
                  (let trimmed = trim_space c3 in
                   if int (length trimmed) \<le> limit then trimmed
                   else if stored
                   then let fallback = trim_space resultText;
                            notice = ''[tool result replay truncated: stored ToolCall result exceeded '' @ int_dec limit @ '' bytes]''
                        in truncateProjectedReplayText toolName (if fallback = [] then notice else fallback @ [LF, LF] @ notice) limit
                   else truncateProjectedReplayText toolName trimmed limit)))"

section \<open>Valid text\<close>

text \<open>Cutting valid UTF-8 anywhere costs at most the three bytes of an unfinished character.\<close>

lemma utf8_cut_step:
  assumes "\<And>m. m \<le> length s \<Longrightarrow> \<exists>k \<le> 3. k \<le> m \<and> utf8_valid (take (m - k) s)"
    and "length p \<le> 4" "n \<le> length (p @ s)" "\<And>t. utf8_valid t \<Longrightarrow> utf8_valid (p @ t)"
  shows "\<exists>k \<le> 3. k \<le> n \<and> utf8_valid (take (n - k) (p @ s))"
proof (cases "n < length p")
  case True
  then show ?thesis using assms(2) by (intro exI [of _ n]) simp
next
  case False
  then have "n - length p \<le> length s" using assms(3) by simp
  from assms(1) [OF this] obtain k where k: "k \<le> 3" "k \<le> n - length p" "utf8_valid (take (n - length p - k) s)" by blast
  then have "take (n - k) (p @ s) = p @ take (n - length p - k) s" using False by (simp add: add.commute)
  then show ?thesis using k assms(4) by (intro exI [of _ k]) simp
qed

lemma utf8_first_char:
  assumes "utf8_valid s" "s \<noteq> []"
  obtains p t where "s = p @ t" "p \<noteq> []" "length p \<le> 4" "utf8_valid t" "\<And>u. utf8_valid u \<Longrightarrow> utf8_valid (p @ u)"
proof -
  obtain a s0 where s: "s = a # s0" using assms(2) by (cases s) simp_all
  note v = assms(1) [unfolded s utf8_valid.simps]
  show thesis
  proof (cases "a < 0x80")
    case False
    with v obtain b s1 where s0: "s0 = b # s1" by (cases s0) simp_all
    show thesis
    proof (cases "0xC2 \<le> a \<and> a \<le> 0xDF")
      case two: False
      with v False s0 obtain c s2 where s1: "s1 = c # s2" by (cases s1) simp_all
      show thesis
      proof (cases "0xE0 \<le> a \<and> a \<le> 0xEF")
        case three: False
        with v False two s0 s1 obtain d s3 where s2: "s2 = d # s3" by (cases s2) simp_all
        show thesis by (rule that [of "[a, b, c, d]" s3]) (use v False two three in \<open>simp_all add: s s0 s1 s2\<close>)
      qed (rule that [of "[a, b, c]" s2], use v False two in \<open>simp_all add: s s0 s1\<close>)
    qed (rule that [of "[a, b]" s1], use v False in \<open>simp_all add: s s0\<close>)
  qed (rule that [of "[a]" s0], use v in \<open>simp_all add: s\<close>)
qed

lemma utf8_cut: "utf8_valid s \<Longrightarrow> n \<le> length s \<Longrightarrow> \<exists>k \<le> 3. k \<le> n \<and> utf8_valid (take (n - k) s)"
proof (induction s arbitrary: n rule: length_induct)
  case (1 s)
  show ?case
  proof (cases "s = []")
    case False
    obtain p t where p: "s = p @ t" "p \<noteq> []" "length p \<le> 4" "utf8_valid t"
      "\<And>u. utf8_valid u \<Longrightarrow> utf8_valid (p @ u)" using utf8_first_char [OF "1.prems"(1) False] by blast
    have "\<exists>k \<le> 3. k \<le> m \<and> utf8_valid (take (m - k) t)" if "m \<le> length t" for m
      using "1.IH" p(1,2,4) that by simp
    then show ?thesis unfolding p(1) by (rule utf8_cut_step) (use p "1.prems"(2) in simp_all)
  qed (use 1 in simp)
qed

lemma drop_invalid_back_cut: "valid_string (take m s) \<Longrightarrow> m \<le> n \<Longrightarrow> n \<le> length s \<Longrightarrow> m \<le> length (drop_invalid_back (take n s))"
proof (induction n)
  case (Suc n)
  show ?case
  proof (cases "valid_string (take (Suc n) s)")
    case False
    then have "m \<le> n" using Suc.prems by (metis le_Suc_eq)
    moreover have "butlast (take (Suc n) s) = take n s" using Suc.prems(3) by (simp add: butlast_take)
    ultimately show ?thesis using Suc False by (subst drop_invalid_back.simps) auto
  qed (use Suc.prems in \<open>subst drop_invalid_back.simps, simp\<close>)
qed simp

lemma drop_invalid_back_valid: "valid_string (drop_invalid_back s)"
proof (induction s rule: drop_invalid_back.induct)
  case (1 s)
  then show ?case by (subst drop_invalid_back.simps) (auto simp: valid_string_def)
qed

lemma truncate_valid:
  assumes "valid_string body" "0 \<le> limit" "limit \<le> int (length body)"
  shows "valid_string (truncateProjectedUTF8 body limit)" "limit - 3 \<le> int (length (truncateProjectedUTF8 body limit))"
proof -
  have nil: "valid_string []" by (simp add: valid_string_def)
  show "valid_string (truncateProjectedUTF8 body limit)"
    using assms(1) drop_invalid_back_valid nil by (simp add: truncateProjectedUTF8_def)
  have "nat limit \<le> length (map (of_char :: char \<Rightarrow> nat) body)" using assms by simp
  from utf8_cut [OF _ this] assms(1) obtain k where "k \<le> 3" "valid_string (take (nat limit - k) body)"
    by (auto simp: valid_string_def take_map)
  then have "nat limit - k \<le> length (drop_invalid_back (take (nat limit) body))"
    by (intro drop_invalid_back_cut) (use assms in simp_all)
  then show "limit - 3 \<le> int (length (truncateProjectedUTF8 body limit))" using \<open>k \<le> 3\<close> assms
    by (simp add: truncateProjectedUTF8_def, linarith)
qed

section \<open>Bounds\<close>

lemma truncate_loop_bound: "0 < limit \<Longrightarrow> int (length (truncate_loop toolName body limit notice)) \<le> limit"
proof (induction toolName body limit notice rule: truncate_loop.induct)
  case (1 toolName body limit notice)
  define keep where "keep = limit - int (length notice)"
  define kept where "kept = truncateProjectedUTF8 body keep"
  have "int (length (trim_newlines kept)) \<le> keep" if "0 < keep"
    using truncate_length [of keep body] length_trim_newlines [of kept] that by (simp add: kept_def)
  then show ?case using 1 truncate_length [of limit body]
    by (subst truncate_loop.simps) (auto simp: Let_def keep_def kept_def)
qed

lemma truncateReplayText_bound: "0 < limit \<Longrightarrow> int (length (truncateProjectedReplayText toolName body limit)) \<le> limit"
  using length_trim_space [of body] truncate_loop_bound by (auto simp: truncateProjectedReplayText_def)

lemma middle_loop_bound: "0 < limit \<Longrightarrow> int (length (middle_loop toolName body limit notice)) \<le> limit"
proof (induction toolName body limit notice rule: middle_loop.induct)
  case (1 toolName body limit notice)
  define keep where "keep = limit - int (length notice)"
  obtain h t where ht: "middle_kept body keep = (h, t)" by (cases "middle_kept body keep")
  have "int (length h) + int (length t) \<le> keep" if "0 < keep" using middle_kept_length [OF _ ht] that by simp
  then show ?case using 1 ht truncate_length [of limit body]
    by (subst middle_loop.simps) (auto simp: Let_def keep_def)
qed

lemma truncateMiddle_bound: "0 \<le> limit \<Longrightarrow> int (length (truncateProjectedReplayTextMiddle toolName body limit)) \<le> limit"
  using middle_loop_bound by (auto simp: truncateProjectedReplayTextMiddle_def)

text \<open>The loop leaves in its first round: the notice for fewer bytes is not longer.\<close>

lemma truncate_once:
  fixes toolName body :: string and limit :: int
  assumes "limit < int (length body)"
  defines "keep \<equiv> limit - int (length (replay_notice toolName limit limit (length body)))"
    and "kept \<equiv> truncateProjectedUTF8 body (limit - int (length (replay_notice toolName limit limit (length body))))"
  assumes "0 < keep"
  shows "truncateProjectedReplayText toolName body limit =
    trim_newlines kept @ replay_notice toolName limit (int (length kept)) (length body)"
proof -
  have k: "int (length kept) \<le> keep" using truncate_length assms(4) by (simp add: kept_def keep_def)
  then have "length (replay_notice toolName limit (int (length kept)) (length body)) \<le>
      length (replay_notice toolName limit limit (length body))"
    by (intro notice_mono) (simp_all add: keep_def)
  then have fits: "int (length (trim_newlines kept @ replay_notice toolName limit (int (length kept)) (length body))) \<le> limit"
    using k length_trim_newlines [of kept] by (simp add: keep_def)
  have "0 < limit" using assms(4) by (simp add: keep_def)
  then show ?thesis using assms(1,4) fits
    by (simp add: truncateProjectedReplayText_def truncate_loop.simps [of toolName body limit "replay_notice toolName limit limit (length body)"]
        Let_def kept_def keep_def)
qed

lemma limit_pos_tool: "projectedToolReplayLimit toolName = Some limit \<Longrightarrow> 0 < limit"
  by (auto simp: projectedToolReplayLimit_def Let_def projectedReplayKiB_def projectedReadReplayLimit_def projectedShellReplayLimit_def
      projectedGrepReplayLimit_def projectedEditReplayLimit_def projectedPatchEditReplayLimit_def projectedWebFetchReplayLimit_def
      projectedWebSearchReplayLimit_def projectedMcpReplayLimit_def split: if_splits)

lemma other_tool_replay:
  assumes "projectedToolReplayLimit toolName = Some limit"
    and "trim_space toolName \<notin> set (''GenerateImage'' # ''Shell'' # edit_tools)"
  shows "limitProjectedToolResultReplay jl dmp toolName content resultText False historical =
    truncateProjectedReplayText toolName (trim_space content) limit"
  using assms limit_pos_tool [OF assms(1)]
  by (simp add: limitProjectedToolResultReplay_def compactProjectedGenerateImageResultReplay_def apply_compaction_def
      compactHistoricalEditErrorReplay_def compactProjectedEditToolResultReplay_def compactProjectedShellToolResultReplay_def
      Let_def truncateProjectedReplayText_def)

lemma trimmed_twice: "truncateProjectedReplayText toolName (trim_space body) limit = trim_space body"
  if "int (length (trim_space body)) \<le> limit" for limit
  using that by (simp add: truncateProjectedReplayText_def)

text \<open>C5. The replay of a tool result stays within the tool's limit, whatever the result, its stored form
  and its JSON look like, for every tool with a limit but GenerateImage, whose results can exceed it.
  For tools other than Shell and the edit tools, which have compact forms, the replay of a result
  that is not read from a stored tool call is, when the notice leaves room for a prefix, the trimmed
  result when that fits; otherwise it is a prefix of it and a notice with the length of the
  prefix, and of valid UTF-8 text the prefix is valid and at most three bytes shorter than would fit
  beside the notice.\<close>

theorem tool_replay_bounded:
  fixes toolName content resultText :: string
  assumes "projectedToolReplayLimit toolName = Some limit" "trim_space toolName \<noteq> ''GenerateImage''"
  defines "body \<equiv> trim_space content"
  defines "keep \<equiv> limit - int (length (replay_notice toolName limit limit (length body)))"
  defines "kept \<equiv> truncateProjectedUTF8 body keep"
  shows "int (length (limitProjectedToolResultReplay jl dmp toolName content resultText stored historical)) \<le> limit \<and>
    (trim_space toolName \<notin> set (''Shell'' # edit_tools) \<and> 0 < keep \<longrightarrow>
      limitProjectedToolResultReplay jl dmp toolName content resultText False historical =
        (if int (length body) \<le> limit then body
         else trim_newlines kept @ replay_notice toolName limit (int (length kept)) (length body)) \<and>
      prefix kept body \<and>
      (valid_string body \<and> limit < int (length body) \<longrightarrow> valid_string kept \<and> keep - 3 \<le> int (length kept)))"
proof (rule conjI, goal_cases)
  case 1
  have "compactProjectedGenerateImageResultReplay jl toolName content resultText = None"
    using assms(2) by (simp add: compactProjectedGenerateImageResultReplay_def)
  then show ?case using assms(1) truncateReplayText_bound [OF limit_pos_tool [OF assms(1)]]
    by (simp add: limitProjectedToolResultReplay_def Let_def case_prod_beta)
next
  case 2
  show ?case
  proof (rule impI, elim conjE)
    assume other: "trim_space toolName \<notin> set (''Shell'' # edit_tools)" and k: "0 < keep"
    have "limitProjectedToolResultReplay jl dmp toolName content resultText False historical = truncateProjectedReplayText toolName body limit"
      unfolding body_def by (rule other_tool_replay [OF assms(1)]) (use other assms(2) in simp)
    also have "\<dots> = (if int (length body) \<le> limit then body
         else trim_newlines kept @ replay_notice toolName limit (int (length kept)) (length body))"
      using truncate_once [of limit body toolName] k trimmed_twice [of content limit] by (simp add: keep_def kept_def body_def)
    finally show "limitProjectedToolResultReplay jl dmp toolName content resultText False historical =
          (if int (length body) \<le> limit then body
           else trim_newlines kept @ replay_notice toolName limit (int (length kept)) (length body)) \<and>
        prefix kept body \<and>
        (valid_string body \<and> limit < int (length body) \<longrightarrow> valid_string kept \<and> keep - 3 \<le> int (length kept))"
      using truncate_prefix truncate_valid [of body keep] k by (simp add: kept_def keep_def)
  qed
qed

theorem tool_replay_bounded_witness:
  defines "result \<equiv> limitProjectedToolResultReplay \<lparr>jl_decode = (\<lambda>_. None), jl_encode = (\<lambda>_. None)\<rparr> (\<lambda>_ _. ([], []))
     ''Grep'' (replicate 40000 CHR ''a'') [] False False"
  shows "int (length result) \<le> 32768 \<and>
    (\<exists>kept. result = trim_newlines kept @ replay_notice ''Grep'' 32768 (int (length kept)) 40000 \<and>
       prefix kept (replicate 40000 CHR ''a'') \<and> 32600 \<le> length kept)"
proof -
  let ?s = "replicate 40000 CHR ''a''"
  have t: "trim_space ?s = ?s" by (rule trim_graphic) (simp_all add: graphic_def)
  have l: "projectedToolReplayLimit ''Grep'' = Some 32768" "trim_space ''Grep'' \<notin> set (''Shell'' # edit_tools)"
    "trim_space ''Grep'' \<noteq> ''GenerateImage''" by code_simp+
  have n: "length (replay_notice ''Grep'' 32768 32768 40000) = 77"
    by (simp add: replay_notice_def int_dec_def nat_dec.simps)
  have "utf8_valid (replicate n 97)" for n by (induction n) simp_all
  from this [of 40000] have v: "valid_string ?s" by (simp only: valid_string_def map_replicate) simp
  note b = tool_replay_bounded [OF l(1,3), of "\<lparr>jl_decode = (\<lambda>_. None), jl_encode = (\<lambda>_. None)\<rparr>" "\<lambda>_ _. ([], [])" ?s "[]" False False,
      unfolded t length_replicate, folded result_def]
  show ?thesis
  proof (intro conjI)
    show "int (length result) \<le> 32768" by (rule b [THEN conjunct1])
    show "\<exists>kept. result = trim_newlines kept @ replay_notice ''Grep'' 32768 (int (length kept)) 40000 \<and>
       prefix kept (replicate 40000 CHR ''a'') \<and> 32600 \<le> length kept"
      using b [THEN conjunct2] l(2) n v by (intro exI [of _ "truncateProjectedUTF8 ?s (32768 - 77)"]) simp
  qed
qed

end
