(* ===== verification/Replay_Messages.thy ===== *)
theory Replay_Messages
  imports Mcp_Capabilities Go_Replace "HOL-Library.AList" "HOL-Library.Sublist"
begin

text \<open>
  The order of messages a provider accepts.  The history projected to messages is put in order by
  \<open>normalizeReplayMessageSequence\<close> of \<open>forwarder/projector.go\<close>: neighbouring assistant messages with tool
  calls are merged, suppressed tools dropped, results gathered behind the batch of calls they belong
  to, and calls without a result removed.  Before a request is sent, \<open>sanitizeProviderMessages\<close> of
  \<open>agent/model/router.go\<close> does the merging and removing once more with its own copies of the functions.

  Copying a message (\<open>cloneReplayModelMessage\<close>, \<open>cloneProviderMessage\<close>) is the identity here; a map of
  tool results that is read in the order of insertion is an association list.
\<close>

abbreviation msg_role :: "Message \<Rightarrow> string" where
  "msg_role m \<equiv> trim_space (msg_Role m)"

definition is_tool_message :: "Message \<Rightarrow> bool" where
  "is_tool_message m \<longleftrightarrow> msg_role m = ''tool''"

definition is_call_message :: "Message \<Rightarrow> bool" where
  "is_call_message m \<longleftrightarrow> msg_role m = ''assistant'' \<and> msg_ToolCalls m \<noteq> []"

abbreviation answer_id :: "Message \<Rightarrow> string" where
  "answer_id m \<equiv> trim_space (msg_ToolCallID m)"

abbreviation call_id :: "ToolCallDescriptor \<Rightarrow> string" where
  "call_id c \<equiv> trim_space (tcd_ID c)"

section \<open>Merging\<close>

definition hasReplayableReasoningPayload :: "string \<Rightarrow> string \<Rightarrow> string \<Rightarrow> bool" where
  "hasReplayableReasoningPayload reasoningContent reasoningSignature source \<longleftrightarrow>
     trim_space reasoningContent \<noteq> [] \<or> (trim_space reasoningSignature \<noteq> [] \<and> trim_space source = ''openai_responses'')"

abbreviation has_reasoning :: "Message \<Rightarrow> bool" where
  "has_reasoning m \<equiv> hasReplayableReasoningPayload (msg_ReasoningContent m) (msg_ReasoningSignature m) (msg_ReasoningSignatureSource m)"

definition mergeReplayReasoning :: "string \<Rightarrow> string \<Rightarrow> string" where
  "mergeReplayReasoning left right =
     (let l = trim_space left; r = trim_space right in
      if l = [] then r else if r = [] \<or> r = l then l else l @ [LF, LF] @ r)"

definition mergeReplayReasoningSignature :: "string \<Rightarrow> string \<Rightarrow> string" where
  "mergeReplayReasoningSignature left right =
     (let l = trim_space left; r = trim_space right in
      if l = [] then r else if r = [] \<or> r = l then l else [])"

definition mergeReplayReasoningSignatureSource :: "string \<Rightarrow> string \<Rightarrow> string" where
  "mergeReplayReasoningSignatureSource left right =
     (let l = trim_space left; r = trim_space right in
      if l = [] then r else if r = [] \<or> r = l then l else [])"

definition mergeReplayReasoningMetadata :: "Message \<Rightarrow> Message \<Rightarrow> Message" where
  "mergeReplayReasoningMetadata prev current =
     (let left = trim_space (msg_ReasoningSignature prev); right = trim_space (msg_ReasoningSignature current);
          merged = mergeReplayReasoningSignature left right in
      if merged = []
      then prev\<lparr>msg_ReasoningSignature := merged, msg_ReasoningSignatureSource := [], msg_OpenAIResponsesReasoningID := [],
             msg_OpenAIResponsesReasoningStatus := [], msg_OpenAIResponsesReasoningSummary := RawEmpty\<rparr>
      else if left = [] \<and> right \<noteq> []
      then prev\<lparr>msg_ReasoningSignature := merged, msg_ReasoningSignatureSource := trim_space (msg_ReasoningSignatureSource current),
             msg_OpenAIResponsesReasoningID := msg_OpenAIResponsesReasoningID current,
             msg_OpenAIResponsesReasoningStatus := msg_OpenAIResponsesReasoningStatus current,
             msg_OpenAIResponsesReasoningSummary := msg_OpenAIResponsesReasoningSummary current\<rparr>
      else if left = right
      then prev\<lparr>msg_ReasoningSignature := merged,
             msg_ReasoningSignatureSource :=
               mergeReplayReasoningSignatureSource (msg_ReasoningSignatureSource prev) (msg_ReasoningSignatureSource current),
             msg_OpenAIResponsesReasoningID :=
               (if trim_space (msg_OpenAIResponsesReasoningID prev) = [] then msg_OpenAIResponsesReasoningID current
                else msg_OpenAIResponsesReasoningID prev),
             msg_OpenAIResponsesReasoningStatus :=
               (if trim_space (msg_OpenAIResponsesReasoningStatus prev) = [] then msg_OpenAIResponsesReasoningStatus current
                else msg_OpenAIResponsesReasoningStatus prev),
             msg_OpenAIResponsesReasoningSummary :=
               (if raw_is_empty (msg_OpenAIResponsesReasoningSummary prev) then msg_OpenAIResponsesReasoningSummary current
                else msg_OpenAIResponsesReasoningSummary prev)\<rparr>
      else prev\<lparr>msg_ReasoningSignature := merged\<rparr>)"

definition canMergeReplayAssistantToolCalls :: "Message \<Rightarrow> Message \<Rightarrow> bool" where
  "canMergeReplayAssistantToolCalls prev current \<longleftrightarrow>
     msg_role prev = ''assistant'' \<and> msg_role current = ''assistant'' \<and>
     msg_ToolCalls prev \<noteq> [] \<and> msg_ToolCalls current \<noteq> [] \<and>
     answer_id prev = [] \<and> trim_space (msg_Name prev) = [] \<and>
     answer_id current = [] \<and> trim_space (msg_Name current) = [] \<and>
     trim_space (msg_Content current) = [] \<and> msg_ContentParts current = []"

text \<open>The calls of \<open>current\<close> numbered on behind those of \<open>prev\<close>.\<close>

fun number_calls :: "int \<Rightarrow> ToolCallDescriptor list \<Rightarrow> ToolCallDescriptor list" where
  "number_calls n [] = []"
| "number_calls n (c # cs) = c\<lparr>tcd_Index := n\<rparr> # number_calls (n + 1) cs"

definition absorb_calls :: "Message \<Rightarrow> Message \<Rightarrow> Message" where
  "absorb_calls prev current =
     mergeReplayReasoningMetadata
       (prev\<lparr>msg_ToolCalls := msg_ToolCalls prev @ number_calls (int (length (msg_ToolCalls prev))) (msg_ToolCalls current),
             msg_ReasoningContent := mergeReplayReasoning (msg_ReasoningContent prev) (msg_ReasoningContent current)\<rparr>) current"

definition mergeReplayAssistantToolCalls :: "Message list \<Rightarrow> Message \<Rightarrow> Message list option" where
  "mergeReplayAssistantToolCalls messages m =
     (if messages = [] \<or> \<not> canMergeReplayAssistantToolCalls (last messages) m then None
      else Some (butlast messages @ [absorb_calls (last messages) m]))"

definition merge_step :: "Message \<Rightarrow> Message list \<Rightarrow> Message list" where
  "merge_step m messages = (case mergeReplayAssistantToolCalls messages m of Some ms \<Rightarrow> ms | None \<Rightarrow> messages @ [m])"

definition merge_adjacent :: "Message list \<Rightarrow> Message list" where
  "merge_adjacent ms = fold merge_step ms []"

section \<open>Suppressed tools\<close>

definition isProviderPromptReplaySuppressedToolName :: "string \<Rightarrow> bool" where
  "isProviderPromptReplaySuppressedToolName toolName \<longleftrightarrow> trim_space toolName = ''GenerateImage''"

text \<open>The loop of \<open>filterProviderSuppressedToolReplayMessages\<close>, with the ids skipped so far.\<close>

fun drop_suppressed :: "string list \<Rightarrow> Message list \<Rightarrow> Message list" where
  "drop_suppressed skipped [] = []"
| "drop_suppressed skipped (m # ms) =
     (if is_call_message m then
        let hidden = filter (\<lambda>c. isProviderPromptReplaySuppressedToolName (tcd_Name c)) (msg_ToolCalls m);
            calls = number_calls 0 (filter (\<lambda>c. \<not> isProviderPromptReplaySuppressedToolName (tcd_Name c)) (msg_ToolCalls m));
            skipped' = filter (\<lambda>i. i \<noteq> []) (map call_id hidden) @ skipped
        in if calls = [] \<and> trim_space (msg_Content m) = [] \<and> msg_ContentParts m = [] \<and> \<not> has_reasoning m
           then drop_suppressed skipped' ms
           else m\<lparr>msg_ToolCalls := calls\<rparr> # drop_suppressed skipped' ms
      else if is_tool_message m \<and> (answer_id m \<in> set skipped \<or> isProviderPromptReplaySuppressedToolName (msg_Name m))
      then drop_suppressed skipped ms
      else m # drop_suppressed skipped ms)"

definition filterProviderSuppressedToolReplayMessages :: "Message list \<Rightarrow> Message list" where
  "filterProviderSuppressedToolReplayMessages ms = drop_suppressed [] ms"

section \<open>Batches\<close>

definition replayToolCallGroupID :: "string \<Rightarrow> string" where
  "replayToolCallGroupID toolCallID =
     (let t = trim_space toolCallID in
      if t = [] then []
      else case index_of t ''::'' of
        Some i \<Rightarrow> trim_space (take i t)
      | None \<Rightarrow>
          if has_prefix t ''tc_'' then
            let part = trim_space (hd (split_on CHR ''_'' (drop 3 t))) in if part \<noteq> [] then ''tc_'' @ part else []
          else [])"

fun common_group :: "string \<Rightarrow> ToolCallDescriptor list \<Rightarrow> string" where
  "common_group g [] = g"
| "common_group g (c # cs) =
     (let g' = replayToolCallGroupID (tcd_ID c) in
      if g' = [] then [] else if g = [] then common_group g' cs else if g \<noteq> g' then [] else common_group g cs)"

definition replayAssistantToolGroupID :: "Message \<Rightarrow> string" where
  "replayAssistantToolGroupID m = (if is_call_message m then common_group [] (msg_ToolCalls m) else [])"

text \<open>The inner loop of \<open>coalesceInterleavedReplayToolBatches\<close>: the batch, the results by id in the order
  of their first occurrence, whether anything was taken, and the messages left.\<close>

fun gather_batch :: "string \<Rightarrow> Message \<Rightarrow> (string \<times> Message) list \<Rightarrow> bool \<Rightarrow> Message list
    \<Rightarrow> Message \<times> (string \<times> Message) list \<times> bool \<times> Message list" where
  "gather_batch groupID batch results changed [] = (batch, results, changed, [])"
| "gather_batch groupID batch results changed (m # ms) =
     (if is_tool_message m \<and> replayToolCallGroupID (msg_ToolCallID m) = groupID
      then gather_batch groupID batch (AList.update (answer_id m) m results) True ms
      else if replayAssistantToolGroupID m = groupID \<and> canMergeReplayAssistantToolCalls batch m
      then gather_batch groupID (absorb_calls batch m) results True ms
      else (batch, results, changed, m # ms))"

definition batch_results :: "Message \<Rightarrow> (string \<times> Message) list \<Rightarrow> Message list" where
  "batch_results batch results =
     List.map_filter (\<lambda>c. map_of results (call_id c)) (msg_ToolCalls batch) @
     map snd (filter (\<lambda>(i, _). i \<notin> call_id ` set (msg_ToolCalls batch)) results)"

lemma gather_batch_length: "gather_batch groupID batch results changed ms = (b, r, c, rest) \<Longrightarrow> length rest \<le> length ms"
  by (induction groupID batch results changed ms rule: gather_batch.induct) (auto split: if_splits)

function coalesceInterleavedReplayToolBatches :: "Message list \<Rightarrow> Message list" where
  "coalesceInterleavedReplayToolBatches [] = []"
| "coalesceInterleavedReplayToolBatches (m # ms) =
     (let groupID = replayAssistantToolGroupID m in
      if groupID = [] then m # coalesceInterleavedReplayToolBatches ms
      else case gather_batch groupID m [] False ms of
        (batch, results, changed, rest) \<Rightarrow>
          if \<not> changed then m # coalesceInterleavedReplayToolBatches ms
          else batch # batch_results batch results @ coalesceInterleavedReplayToolBatches rest)"
  by pat_completeness auto
termination
proof (relation "measure length")
  fix m :: Message and ms rest :: "Message list" and groupID results changed batch and y ya
  assume "(batch, y) = gather_batch groupID m [] False ms" "(results, ya) = y" "(changed, rest) = ya"
  then have "gather_batch groupID m [] False ms = (batch, results, changed, rest)" by simp
  then show "(rest, m # ms) \<in> measure length" by (auto dest: gather_batch_length)
qed simp_all

section \<open>Calls without a result\<close>

text \<open>One assistant message with calls and the tool messages behind it.  \<open>keeps\<close> says whether the message
  stays when none of its calls does.\<close>

definition answer_block :: "(Message \<Rightarrow> bool) \<Rightarrow> Message \<Rightarrow> Message list \<Rightarrow> Message list" where
  "answer_block keeps m block =
     (let responded = filter (\<lambda>i. i \<noteq> []) (map answer_id block);
          calls = number_calls 0 (filter (\<lambda>c. call_id c \<in> set responded) (msg_ToolCalls m)) in
      if calls \<noteq> [] then m\<lparr>msg_ToolCalls := calls\<rparr> # filter (\<lambda>t. answer_id t \<in> call_id ` set calls) block
      else if keeps m then [m\<lparr>msg_ToolCalls := []\<rparr>] else [])"

function trim_dangling :: "(Message \<Rightarrow> bool) \<Rightarrow> Message list \<Rightarrow> Message list" where
  "trim_dangling keeps [] = []"
| "trim_dangling keeps (m # ms) =
     (if \<not> is_call_message m then m # trim_dangling keeps ms
      else answer_block keeps m (takeWhile is_tool_message ms) @ trim_dangling keeps (dropWhile is_tool_message ms))"
  by pat_completeness auto
termination by (relation "measure (length \<circ> snd)") (auto intro: le_imp_less_Suc length_dropWhile_le)

definition trimReplayDanglingAssistantToolCalls :: "Message list \<Rightarrow> Message list" where
  "trimReplayDanglingAssistantToolCalls ms =
     trim_dangling (\<lambda>m. trim_space (msg_Content m) \<noteq> [] \<or> msg_ContentParts m \<noteq> [] \<or> has_reasoning m) ms"

definition normalizeReplayMessageSequence :: "Message list \<Rightarrow> Message list" where
  "normalizeReplayMessageSequence ms =
     trimReplayDanglingAssistantToolCalls (coalesceInterleavedReplayToolBatches
       (filterProviderSuppressedToolReplayMessages (merge_adjacent ms)))"

section \<open>Before a request is sent\<close>

definition isAssistantPlaceholderMessage :: "Message \<Rightarrow> bool" where
  "isAssistantPlaceholderMessage m \<longleftrightarrow> msg_role m = ''assistant'' \<and> msg_ToolCalls m = [] \<and> msg_ContentParts m = [] \<and>
     answer_id m = [] \<and> trim_space (msg_Name m) = [] \<and> trim_space (msg_ReasoningContent m) = [] \<and>
     trim_space (msg_ReasoningSignature m) = [] \<and> trim_space (msg_Content m) = []"

definition isAssistantPrefillMessage :: "Message \<Rightarrow> bool" where
  "isAssistantPrefillMessage m \<longleftrightarrow> msg_role m = ''assistant'' \<and> msg_ToolCalls m = [] \<and>
     answer_id m = [] \<and> trim_space (msg_Name m) = [] \<and>
     (trim_space (msg_Content m) \<noteq> [] \<or> trim_space (msg_ReasoningContent m) \<noteq> [])"

definition mergeAdjacentAssistantToolCallMessages :: "Message list \<Rightarrow> Message list" where
  "mergeAdjacentAssistantToolCallMessages ms = merge_adjacent ms"

definition trimDanglingAssistantToolCalls :: "Message list \<Rightarrow> Message list" where
  "trimDanglingAssistantToolCalls ms =
     trim_dangling (\<lambda>m. trim_space (msg_Content m) \<noteq> [] \<or> msg_ContentParts m \<noteq> [] \<or> trim_space (msg_ReasoningContent m) \<noteq> []) ms"

definition drop_prefill :: "Message list \<Rightarrow> Message list" where
  "drop_prefill ms = rev (dropWhile isAssistantPrefillMessage (rev ms))"

definition sanitizeProviderMessages :: "Message list \<Rightarrow> Message list" where
  "sanitizeProviderMessages input =
     drop_prefill (trimDanglingAssistantToolCalls (mergeAdjacentAssistantToolCallMessages
       (filter (\<lambda>m. \<not> isAssistantPlaceholderMessage m) input)))"

end
