(* ===== verification/Replay_Order.thy ===== *)
theory Replay_Order
  imports Replay_Messages
begin

text \<open>
  What the provider gets: every tool call is answered by the messages directly behind it, and nothing
  that was said is lost.  \<open>said\<close> is what a sequence of messages says: role, text and content parts of
  all messages but tool results and empty assistant messages.
\<close>

named_theorems said_simps \<open>what one message says\<close>

definition speaks :: "Message \<Rightarrow> bool" where
  "speaks m \<longleftrightarrow> \<not> is_tool_message m \<and> (msg_role m \<noteq> ''assistant'' \<or> trim_space (msg_Content m) \<noteq> [] \<or> msg_ContentParts m \<noteq> [])"

definition speech :: "Message \<Rightarrow> string \<times> string \<times> ContentPart list" where
  "speech m = (msg_Role m, msg_Content m, msg_ContentParts m)"

definition say :: "Message \<Rightarrow> (string \<times> string \<times> ContentPart list) list" where
  "say m = (if speaks m then [speech m] else [])"

definition said :: "Message list \<Rightarrow> (string \<times> string \<times> ContentPart list) list" where
  "said ms = concat (map say ms)"

lemma said_basics [simp]: "said [] = []" "said (m # ms) = say m @ said ms" "said (xs @ ys) = said xs @ said ys"
  by (simp_all add: said_def)

lemma say_speech: "speech m = speech m' \<Longrightarrow> say m = say m'"
  by (simp add: say_def speaks_def speech_def is_tool_message_def)

lemma say_silent: "\<not> speaks m \<Longrightarrow> say m = []"
  by (simp add: say_def)

lemma say_tool [simp]: "is_tool_message m \<Longrightarrow> say m = []"
  by (simp add: say_def speaks_def)

lemma said_tools: "list_all is_tool_message ms \<Longrightarrow> said ms = []"
  by (induction ms) simp_all

lemma say_calls [simp]: "say (m\<lparr>msg_ToolCalls := cs\<rparr>) = say m"
  by (rule say_speech) (simp add: speech_def)

section \<open>Numbered calls\<close>

lemma number_calls_ids [simp]: "map tcd_ID (number_calls n cs) = map tcd_ID cs"
  by (induction n cs rule: number_calls.induct) simp_all

lemma number_calls_id_set [simp]: "call_id ` set (number_calls n cs) = call_id ` set cs"
  by (induction n cs rule: number_calls.induct) simp_all

lemma number_calls_Nil [simp]: "number_calls n cs = [] \<longleftrightarrow> cs = []"
  by (cases cs) simp_all

lemma number_calls_idem [simp]: "number_calls n (number_calls n cs) = number_calls n cs"
  by (induction n cs rule: number_calls.induct) simp_all

section \<open>Merging and filtering\<close>

lemma metadata_fields [simp]:
  "msg_Role (mergeReplayReasoningMetadata p c) = msg_Role p" "msg_Content (mergeReplayReasoningMetadata p c) = msg_Content p"
  "msg_ContentParts (mergeReplayReasoningMetadata p c) = msg_ContentParts p"
  "msg_ToolCalls (mergeReplayReasoningMetadata p c) = msg_ToolCalls p"
  "msg_ToolCallID (mergeReplayReasoningMetadata p c) = msg_ToolCallID p" "msg_Name (mergeReplayReasoningMetadata p c) = msg_Name p"
  by (simp_all add: mergeReplayReasoningMetadata_def Let_def)

lemma absorb_fields [simp]:
  "speech (absorb_calls p c) = speech p"
  "msg_ToolCalls (absorb_calls p c) = msg_ToolCalls p @ number_calls (int (length (msg_ToolCalls p))) (msg_ToolCalls c)"
  by (simp_all add: absorb_calls_def speech_def)

lemma merged_silent: "canMergeReplayAssistantToolCalls p c \<Longrightarrow> say c = []"
  by (rule say_silent) (simp add: canMergeReplayAssistantToolCalls_def speaks_def)

lemma said_merge_step: "said (merge_step m ms) = said ms @ say m"
proof (cases "ms = [] \<or> \<not> canMergeReplayAssistantToolCalls (last ms) m")
  case False
  then have "ms = butlast ms @ [last ms]" by simp
  then have "said ms = said (butlast ms) @ say (last ms)" by (metis append.right_neutral said_basics)
  moreover have "say m = []" using False merged_silent by blast
  ultimately show ?thesis using False say_speech [of "absorb_calls (last ms) m" "last ms"]
    by (simp add: merge_step_def mergeReplayAssistantToolCalls_def)
qed (auto simp: merge_step_def mergeReplayAssistantToolCalls_def)

lemma said_merge: "said (merge_adjacent ms) = said ms"
proof -
  have "said (fold merge_step ms acc) = said acc @ said ms" for acc
    by (induction ms arbitrary: acc) (simp_all add: said_merge_step)
  then show ?thesis by (simp add: merge_adjacent_def)
qed

lemma say_blank_call: "is_call_message m \<Longrightarrow> trim_space (msg_Content m) = [] \<Longrightarrow> msg_ContentParts m = [] \<Longrightarrow> say m = []"
  by (intro say_silent) (simp add: speaks_def is_call_message_def)

lemma said_drop_suppressed: "said (drop_suppressed skipped ms) = said ms"
  by (induction skipped ms rule: drop_suppressed.induct) (simp_all add: Let_def say_blank_call)

section \<open>Batches\<close>

lemma said_gather:
  "gather_batch g batch results ch ms = (b, r, ch', rest) \<Longrightarrow> list_all is_tool_message (map snd results) \<Longrightarrow>
     said ms = said rest \<and> speech b = speech batch \<and> list_all is_tool_message (map snd r)"
proof (induction g batch results ch ms rule: gather_batch.induct)
  case (2 g batch results ch m ms)
  have upd: "list_all is_tool_message (map snd (AList.update k m results))" if "is_tool_message m" for k
    using "2.prems"(2) that by (induction results) auto
  show ?case
  proof (cases "is_tool_message m \<and> replayToolCallGroupID (msg_ToolCallID m) = g")
    case True
    then show ?thesis using "2.IH"(1) "2.prems" upd by simp
  next
    case tool: False
    show ?thesis
    proof (cases "replayAssistantToolGroupID m = g \<and> canMergeReplayAssistantToolCalls batch m")
      case True
      then show ?thesis using "2.IH"(2) [OF tool True] "2.prems" tool merged_silent [of batch m] by simp
    qed (use tool "2.prems" in auto)
  qed
qed auto

lemma batch_results_tools:
  assumes "list_all is_tool_message (map snd r)"
  shows "list_all is_tool_message (batch_results b r)"
  using assms by (fastforce simp: batch_results_def list_all_iff List.map_filter_def dest: map_of_SomeD split: option.splits)

lemma said_coalesce: "said (coalesceInterleavedReplayToolBatches ms) = said ms"
proof (induction ms rule: coalesceInterleavedReplayToolBatches.induct)
  case (2 m ms)
  obtain b r ch rest where g: "gather_batch (replayAssistantToolGroupID m) m [] False ms = (b, r, ch, rest)"
    by (metis prod_cases4)
  have "said ms = said rest" "speech b = speech m" "said (batch_results b r) = []"
    using said_gather [OF g] batch_results_tools said_tools by auto
  then show ?case using 2 g say_speech [of b m] by (auto simp: Let_def)
qed simp

section \<open>Answered calls\<close>

text \<open>Every message with calls is followed by a block of tool messages that answers all its calls and
  nothing else, and its calls are numbered from 0.\<close>

definition answered_by :: "Message \<Rightarrow> Message list \<Rightarrow> bool" where
  "answered_by m block \<longleftrightarrow> msg_ToolCalls m = number_calls 0 (msg_ToolCalls m) \<and>
     (\<forall>c \<in> set (msg_ToolCalls m). call_id c \<noteq> [] \<and> (\<exists>t \<in> set block. answer_id t = call_id c)) \<and>
     (\<forall>t \<in> set block. \<exists>c \<in> set (msg_ToolCalls m). answer_id t = call_id c)"

fun answered :: "Message list \<Rightarrow> bool" where
  "answered [] = True"
| "answered (m # ms) = ((is_call_message m \<longrightarrow> answered_by m (takeWhile is_tool_message ms)) \<and> answered ms)"

definition no_result_first :: "Message list \<Rightarrow> bool" where
  "no_result_first ms \<longleftrightarrow> (\<forall>m rest. ms = m # rest \<longrightarrow> \<not> is_tool_message m)"

lemma no_result_first_simps [simp]: "no_result_first []" "no_result_first (m # ms) \<longleftrightarrow> \<not> is_tool_message m"
    "no_result_first (dropWhile is_tool_message ms)"
  by (auto simp: no_result_first_def dropWhile_eq_Cons_conv)

lemma call_not_tool [simp]: "is_call_message m \<Longrightarrow> \<not> is_tool_message m"
  by (simp add: is_call_message_def is_tool_message_def)

lemma call_update [simp]: "is_call_message (m\<lparr>msg_ToolCalls := cs\<rparr>) \<longleftrightarrow> msg_role m = ''assistant'' \<and> cs \<noteq> []"
    "is_tool_message (m\<lparr>msg_ToolCalls := cs\<rparr>) = is_tool_message m"
  by (simp_all add: is_call_message_def is_tool_message_def)

lemma answer_block_cases:
  assumes "is_call_message m" "list_all is_tool_message block"
  obtains (none) "answer_block keeps m block = []" | (plain) m' where "answer_block keeps m block = [m']" "\<not> is_call_message m'" "\<not> is_tool_message m'"
  | (calls) m' block' where "answer_block keeps m block = m' # block'" "is_call_message m'" "list_all is_tool_message block'" "answered_by m' block'"
proof -
  define responded where "responded = filter (\<lambda>i. i \<noteq> []) (map answer_id block)"
  define cs where "cs = filter (\<lambda>c. call_id c \<in> set responded) (msg_ToolCalls m)"
  have eq: "answer_block keeps m block = (if cs \<noteq> [] then m\<lparr>msg_ToolCalls := number_calls 0 cs\<rparr> # filter (\<lambda>t. answer_id t \<in> call_id ` set cs) block
      else if keeps m then [m\<lparr>msg_ToolCalls := []\<rparr>] else [])"
    by (simp add: answer_block_def Let_def cs_def responded_def)
  show thesis
  proof (cases "cs = []")
    case True
    then show thesis using none plain eq assms(1) by (cases "keeps m") auto
  next
    case False
    let ?b = "filter (\<lambda>t. answer_id t \<in> call_id ` set cs) block"
    have ids: "call_id ` set (number_calls 0 cs) = call_id ` set cs" by simp
    have answers: "i \<noteq> [] \<and> (\<exists>t \<in> set ?b. answer_id t = i)" if i: "i \<in> call_id ` set cs" for i
    proof -
      from i have "i \<in> set responded" by (auto simp: cs_def)
      then obtain t where "i \<noteq> []" "t \<in> set block" "answer_id t = i" by (auto simp: responded_def)
      then show ?thesis using i by auto
    qed
    have "answered_by (m\<lparr>msg_ToolCalls := number_calls 0 cs\<rparr>) ?b"
      unfolding answered_by_def
    proof (intro conjI ballI)
      fix c
      assume "c \<in> set (msg_ToolCalls (m\<lparr>msg_ToolCalls := number_calls 0 cs\<rparr>))"
      then have "c \<in> set (number_calls 0 cs)" by simp
      then have "call_id c \<in> call_id ` set cs" unfolding ids [symmetric] by (rule imageI)
      then show "call_id c \<noteq> []" "\<exists>t \<in> set ?b. answer_id t = call_id c" using answers by auto
    next
      fix t
      assume "t \<in> set ?b"
      then have "answer_id t \<in> call_id ` set (number_calls 0 cs)" by simp
      then show "\<exists>c \<in> set (msg_ToolCalls (m\<lparr>msg_ToolCalls := number_calls 0 cs\<rparr>)). answer_id t = call_id c"
        by (auto simp del: number_calls_id_set)
    qed simp
    then show thesis using calls False eq assms by (auto simp: list_all_iff is_call_message_def)
  qed
qed

lemma takeWhile_tools: "list_all is_tool_message (takeWhile is_tool_message ms)"
  by (induction ms) simp_all

lemma trim_no_result_first: "no_result_first ms \<Longrightarrow> no_result_first (trim_dangling keeps ms)"
proof (induction keeps ms rule: trim_dangling.induct)
  case (2 keeps m ms)
  show ?case
  proof (cases "is_call_message m")
    case True
    note tools = takeWhile_tools [of ms]
    from answer_block_cases [OF True tools, of keeps] show ?thesis using "2.IH"(2) True by cases auto
  qed (use 2 in simp)
qed simp

lemma answered_tools: "list_all is_tool_message block \<Longrightarrow> answered (block @ ms) = answered ms"
  by (induction block) (auto dest: call_not_tool)

lemma takeWhile_block: "list_all is_tool_message block \<Longrightarrow> no_result_first ms \<Longrightarrow> takeWhile is_tool_message (block @ ms) = block"
proof (induction block)
  case Nil
  then show ?case by (cases ms) simp_all
qed simp

lemma trim_answered: "answered (trim_dangling keeps ms)"
proof (induction keeps ms rule: trim_dangling.induct)
  case (2 keeps m ms)
  show ?case
  proof (cases "is_call_message m")
    case True
    note tools = takeWhile_tools [of ms]
    have first: "no_result_first (trim_dangling keeps (dropWhile is_tool_message ms))" by (rule trim_no_result_first) simp
    note rest = "2.IH"(2)
    from answer_block_cases [OF True tools, of keeps] show ?thesis
    proof cases
      case (3 m' block')
      then show ?thesis using True rest first by (simp add: takeWhile_block answered_tools)
    qed (use True rest in simp_all)
  qed (use 2 in simp)
qed simp

lemma trim_fixpoint: "answered ms \<Longrightarrow> trim_dangling keeps ms = ms"
proof (induction keeps ms rule: trim_dangling.induct)
  case (2 keeps m ms)
  show ?case
  proof (cases "is_call_message m")
    case True
    let ?b = "takeWhile is_tool_message ms"
    have ab: "answered_by m ?b" using 2 True by simp
    then have "filter (\<lambda>c. call_id c \<in> set (filter (\<lambda>i. i \<noteq> []) (map answer_id ?b))) (msg_ToolCalls m) = msg_ToolCalls m"
      by (force simp: answered_by_def filter_id_conv)
    moreover have "filter (\<lambda>t. answer_id t \<in> call_id ` set (msg_ToolCalls m)) ?b = ?b"
      using ab by (force simp: answered_by_def filter_id_conv)
    moreover have "number_calls 0 (msg_ToolCalls m) = msg_ToolCalls m" using ab by (simp add: answered_by_def)
    moreover have "msg_ToolCalls m \<noteq> []" using True by (simp add: is_call_message_def)
    ultimately have block: "answer_block keeps m ?b = m # ?b" by (simp add: answer_block_def Let_def)
    have "answered (?b @ dropWhile is_tool_message ms)" using "2.prems" by simp
    then have "answered (dropWhile is_tool_message ms)"
      by (subst (asm) answered_tools) (rule takeWhile_tools)
    then show ?thesis using "2.IH"(2) True block by simp
  qed (use 2 in simp)
qed simp

lemma said_trim:
  assumes "\<And>m. is_call_message m \<Longrightarrow> speaks m \<Longrightarrow> keeps m"
  shows "said (trim_dangling keeps ms) = said ms"
  using assms
proof (induction keeps ms rule: trim_dangling.induct)
  case (2 keeps m ms)
  show ?case
  proof (cases "is_call_message m")
    case True
    have "said (takeWhile is_tool_message ms @ dropWhile is_tool_message ms) = said (dropWhile is_tool_message ms)"
      using said_tools [OF takeWhile_tools] by (simp del: takeWhile_dropWhile_id)
    moreover have "said (filter P (takeWhile is_tool_message ms)) = []" for P
      by (rule said_tools) (use takeWhile_tools in \<open>auto simp: list_all_iff\<close>)
    moreover have "say m = []" if "\<not> keeps m" using that True "2.prems" by (intro say_silent) blast
    ultimately show ?thesis using 2 True by (auto simp: answer_block_def Let_def)
  qed (use 2 in simp)
qed simp

section \<open>Requests\<close>

lemma said_filter_placeholders: "said (filter (\<lambda>m. \<not> isAssistantPlaceholderMessage m) ms) = said ms"
  by (induction ms) (simp_all add: say_silent speaks_def isAssistantPlaceholderMessage_def)

lemma drop_prefill_last: "drop_prefill ms \<noteq> [] \<Longrightarrow> \<not> isAssistantPrefillMessage (last (drop_prefill ms))"
  by (simp add: drop_prefill_def last_rev hd_dropWhile)

lemma answered_butlast: "answered (ms @ [m]) \<Longrightarrow> \<not> is_tool_message m \<Longrightarrow> answered ms"
proof (induction ms)
  case (Cons a ms)
  then show ?case by (simp add: takeWhile_tail)
qed simp

lemma drop_prefill_answered: "answered ms \<Longrightarrow> answered (drop_prefill ms)"
proof (induction ms rule: rev_induct)
  case (snoc m ms)
  show ?case
  proof (cases "isAssistantPrefillMessage m")
    case True
    then have "\<not> is_tool_message m" by (simp add: isAssistantPrefillMessage_def is_tool_message_def)
    then show ?thesis using snoc True answered_butlast by (simp add: drop_prefill_def)
  qed (use snoc in \<open>simp add: drop_prefill_def\<close>)
qed (simp add: drop_prefill_def)

lemma drop_prefill_split: "\<exists>dropped. list_all isAssistantPrefillMessage dropped \<and> ms = drop_prefill ms @ dropped"
proof (intro exI conjI)
  let ?d = "rev (takeWhile isAssistantPrefillMessage (rev ms))"
  show "list_all isAssistantPrefillMessage ?d" by (auto simp: list_all_iff dest: set_takeWhileD)
  show "ms = drop_prefill ms @ ?d" unfolding drop_prefill_def by (metis rev_append rev_rev_ident takeWhile_dropWhile_id)
qed

text \<open>C7. The messages a request is built from are in an order providers accept.
  In a normalised history every assistant message with tool calls is directly followed by tool
  messages that answer each of its calls and nothing else; the texts of users, systems and
  assistants are all there in their order; and putting it in order again changes nothing.  In the
  messages sent every call is answered in the same way.  They do not end with an assistant text:
  the assistant messages without calls at the end are dropped, and what these said is all that is lost.\<close>

theorem replay_calls_answered:
  "answered (normalizeReplayMessageSequence ms) \<and> said (normalizeReplayMessageSequence ms) = said ms \<and>
   trimDanglingAssistantToolCalls (normalizeReplayMessageSequence ms) = normalizeReplayMessageSequence ms \<and>
   answered (sanitizeProviderMessages ms) \<and>
   (\<exists>dropped. list_all isAssistantPrefillMessage dropped \<and> said ms = said (sanitizeProviderMessages ms) @ said dropped) \<and>
   \<not> (sanitizeProviderMessages ms \<noteq> [] \<and> isAssistantPrefillMessage (last (sanitizeProviderMessages ms)))"
proof (intro conjI)
  let ?n = "normalizeReplayMessageSequence ms" and ?s = "sanitizeProviderMessages ms"
  show n: "answered ?n" by (simp add: normalizeReplayMessageSequence_def trimReplayDanglingAssistantToolCalls_def trim_answered)
  show "said ?n = said ms"
    unfolding normalizeReplayMessageSequence_def trimReplayDanglingAssistantToolCalls_def
    by (subst said_trim) (auto simp: speaks_def is_call_message_def said_coalesce filterProviderSuppressedToolReplayMessages_def
        said_drop_suppressed said_merge)
  show "trimDanglingAssistantToolCalls ?n = ?n" using n by (simp add: trimDanglingAssistantToolCalls_def trim_fixpoint)
  show "answered ?s"
    by (simp add: sanitizeProviderMessages_def trimDanglingAssistantToolCalls_def drop_prefill_answered trim_answered)
  have "said (trimDanglingAssistantToolCalls (mergeAdjacentAssistantToolCallMessages (filter (\<lambda>m. \<not> isAssistantPlaceholderMessage m) ms))) = said ms"
    unfolding trimDanglingAssistantToolCalls_def mergeAdjacentAssistantToolCallMessages_def
    by (subst said_trim) (auto simp: speaks_def is_call_message_def said_merge said_filter_placeholders)
  then show "\<exists>dropped. list_all isAssistantPrefillMessage dropped \<and> said ms = said ?s @ said dropped"
    using drop_prefill_split by (metis sanitizeProviderMessages_def said_basics(3))
  show "\<not> (?s \<noteq> [] \<and> isAssistantPrefillMessage (last ?s))" using drop_prefill_last by (auto simp: sanitizeProviderMessages_def)
qed

section \<open>Results behind a text\<close>

text \<open>C25. A result that does not directly follow its call makes an invalid request.  When the model goes on
  talking after a tool call and the result comes later, the call is taken for one without a result
  and dropped, but the result is kept, and the last check before sending keeps it too: the provider
  gets a tool message that answers no call.\<close>

theorem late_result_orphaned:
  assumes "is_call_message m" "\<not> speaks m" "\<not> has_reasoning m" "\<forall>c \<in> set (msg_ToolCalls m). \<not> isProviderPromptReplaySuppressedToolName (tcd_Name c)"
    and "msg_role talk = ''assistant''" "msg_ToolCalls talk = []" "trim_space (msg_Content talk) \<noteq> []"
    and "is_tool_message result" "\<not> isProviderPromptReplaySuppressedToolName (msg_Name result)"
    and "msg_role ask = ''user''"
  shows "normalizeReplayMessageSequence [m, talk, result] = [talk, result] \<and>
    sanitizeProviderMessages [talk, result, ask] = [talk, result, ask]"
proof -
  have talk: "\<not> is_call_message talk" "\<not> is_tool_message talk" using assms(5,6) by (simp_all add: is_call_message_def is_tool_message_def)
  have result: "\<not> is_call_message result" using assms(8) by (auto dest: call_not_tool)
  have ask: "\<not> is_call_message ask" "\<not> is_tool_message ask" using assms(10) by (simp_all add: is_call_message_def is_tool_message_def)
  have no_merge: "\<not> canMergeReplayAssistantToolCalls x talk" "\<not> canMergeReplayAssistantToolCalls x result" "\<not> canMergeReplayAssistantToolCalls x ask" for x
    using assms(6) result ask by (auto simp: canMergeReplayAssistantToolCalls_def is_call_message_def)
  have merge: "merge_adjacent [m, talk, result] = [m, talk, result]" "merge_adjacent [talk, result, ask] = [talk, result, ask]"
    using no_merge by (simp_all add: merge_adjacent_def merge_step_def mergeReplayAssistantToolCalls_def)
  define m' where "m' = m\<lparr>msg_ToolCalls := number_calls 0 (msg_ToolCalls m)\<rparr>"
  have "filter (\<lambda>c. isProviderPromptReplaySuppressedToolName (tcd_Name c)) (msg_ToolCalls m) = []"
    "filter (\<lambda>c. \<not> isProviderPromptReplaySuppressedToolName (tcd_Name c)) (msg_ToolCalls m) = msg_ToolCalls m"
    using assms(4) by (auto simp: filter_empty_conv filter_id_conv)
  then have sup: "filterProviderSuppressedToolReplayMessages [m, talk, result] = [m', talk, result]"
    using assms(1,9) talk result by (simp add: filterProviderSuppressedToolReplayMessages_def m'_def Let_def is_call_message_def)
  have gather: "gather_batch g m' [] False [talk, result] = (m', [], False, [talk, result])" for g
    using talk no_merge by simp
  have group: "replayAssistantToolGroupID talk = []" "replayAssistantToolGroupID result = []"
    using talk result by (simp_all add: replayAssistantToolGroupID_def)
  have coal: "coalesceInterleavedReplayToolBatches [m', talk, result] = [m', talk, result]"
    using gather group by (simp add: Let_def)
  have m': "is_call_message m'" "answer_block keeps m' [] = (if keeps m' then [m'\<lparr>msg_ToolCalls := []\<rparr>] else [])" for keeps
    using assms(1) by (simp_all add: m'_def is_call_message_def answer_block_def Let_def)
  have "trim_space (msg_Content m') = []" "msg_ContentParts m' = []" "\<not> has_reasoning m'"
    using assms(1-3) by (auto simp: m'_def speaks_def is_call_message_def dest: call_not_tool)
  then have "trimReplayDanglingAssistantToolCalls [m', talk, result] = [talk, result]"
    using m' talk result by (simp add: trimReplayDanglingAssistantToolCalls_def)
  moreover have "\<not> isAssistantPlaceholderMessage talk" "\<not> isAssistantPlaceholderMessage result" "\<not> isAssistantPlaceholderMessage ask"
    "\<not> isAssistantPrefillMessage ask"
    using assms(7,8,10) by (simp_all add: isAssistantPlaceholderMessage_def isAssistantPrefillMessage_def is_tool_message_def)
  ultimately show ?thesis using merge sup coal talk result ask
    by (simp add: normalizeReplayMessageSequence_def sanitizeProviderMessages_def mergeAdjacentAssistantToolCallMessages_def
        trimDanglingAssistantToolCalls_def drop_prefill_def)
qed

definition demo_call_message :: Message where
  "demo_call_message = (text_message ''assistant'' [])\<lparr>msg_ToolCalls := [\<lparr>tcd_ID = ''tc_1_a'', tcd_Index = 0, tcd_Type = ''function'', tcd_Name = ''Read'',
     tcd_Arguments = ''{}'', tcd_OpenAIResponsesID = [], tcd_OpenAIResponsesCallID = [], tcd_OpenAIResponsesStatus = []\<rparr>]\<rparr>"

definition demo_result :: Message where
  "demo_result = (text_message ''tool'' ''contents'')\<lparr>msg_ToolCallID := ''tc_1_a'', msg_Name := ''Read''\<rparr>"

theorem late_result_orphaned_witness:
  "normalizeReplayMessageSequence [demo_call_message, text_message ''assistant'' ''Reading.'', demo_result] =
     [text_message ''assistant'' ''Reading.'', demo_result] \<and>
   sanitizeProviderMessages [text_message ''assistant'' ''Reading.'', demo_result, text_message ''user'' ''go on''] =
     [text_message ''assistant'' ''Reading.'', demo_result, text_message ''user'' ''go on'']"
  by (rule late_result_orphaned) code_simp+

end
