(* ===== verification/History_Entries.thy ===== *)
theory History_Entries
  imports Replay_Truncation Structured_State
begin

text \<open>
  The entries the service writes, \<open>forwarder/types.go\<close> (the payload structs) and \<open>service.go\<close> (their
  constructors).  A payload is a JSON object: \<open>tool_call_fields\<close>, \<open>tool_result_fields\<close> and
  \<open>assistant_text_fields\<close> are what \<open>json.Marshal\<close> produces from a struct, the \<open>decode\<close> functions are
  \<open>json.Unmarshal\<close> into it.  A raw message that is no JSON makes the encoding fail; the constructors
  ignore the error and keep an empty payload.

  \<open>json.Marshal\<close> replaces invalid UTF-8 in strings; the strings the service stores come from
  decoded JSON and protobuf messages and are valid.
\<close>

section \<open>Payloads\<close>

record toolCallEntryPayload =
  tp_ToolCallID :: string
  tp_ToolName :: string
  tp_Arguments :: string
  tp_ReasoningContent :: string
  tp_ReasoningSignature :: string
  tp_ReasoningSignatureSource :: string
  tp_ReasoningItemID :: string
  tp_ReasoningStatus :: string
  tp_ReasoningSummary :: raw_json
  tp_ProviderItemID :: string
  tp_ProviderCallID :: string
  tp_ProviderStatus :: string
  tp_ToolCall :: raw_json

record toolResultEntryPayload = toolCallEntryPayload +
  tp_ResultText :: string

record assistantTextPayload =
  ap_Text :: string
  ap_ReasoningContent :: string
  ap_ReasoningSignature :: string
  ap_ReasoningSignatureSource :: string
  ap_ReasoningItemID :: string
  ap_ReasoningStatus :: string
  ap_ReasoningSummary :: raw_json

definition omit_raw :: "string \<Rightarrow> raw_json \<Rightarrow> (string \<times> json) list" where
  "omit_raw key r = (case r of RawJson j \<Rightarrow> [(key, j)] | _ \<Rightarrow> [])"

definition reasoning_fields :: "string \<Rightarrow> string \<Rightarrow> string \<Rightarrow> string \<Rightarrow> string \<Rightarrow> raw_json \<Rightarrow> (string \<times> json) list" where
  "reasoning_fields content signature source itemID status summary =
     omit_empty ''reasoning_content'' content @ omit_empty ''reasoning_signature'' signature @
     omit_empty ''reasoning_signature_source'' source @ omit_empty ''reasoning_item_id'' itemID @
     omit_empty ''reasoning_status'' status @ omit_raw ''reasoning_summary'' summary"

definition common_fields :: "('a) toolCallEntryPayload_scheme \<Rightarrow> (string \<times> json) list" where
  "common_fields p =
     reasoning_fields (tp_ReasoningContent p) (tp_ReasoningSignature p) (tp_ReasoningSignatureSource p)
       (tp_ReasoningItemID p) (tp_ReasoningStatus p) (tp_ReasoningSummary p) @
     omit_empty ''provider_item_id'' (tp_ProviderItemID p) @ omit_empty ''provider_call_id'' (tp_ProviderCallID p) @
     omit_empty ''provider_status'' (tp_ProviderStatus p) @ omit_raw ''tool_call'' (tp_ToolCall p)"

definition tool_call_fields :: "toolCallEntryPayload \<Rightarrow> (string \<times> json) list" where
  "tool_call_fields p =
     [(''tool_call_id'', JString (tp_ToolCallID p)), (''tool_name'', JString (tp_ToolName p))] @
     omit_empty ''arguments'' (tp_Arguments p) @ common_fields p"

definition tool_result_fields :: "toolResultEntryPayload \<Rightarrow> (string \<times> json) list" where
  "tool_result_fields p =
     [(''tool_call_id'', JString (tp_ToolCallID p)), (''tool_name'', JString (tp_ToolName p))] @
     omit_empty ''arguments'' (tp_Arguments p) @ omit_empty ''result_text'' (tp_ResultText p) @ common_fields p"

definition assistant_text_fields :: "assistantTextPayload \<Rightarrow> (string \<times> json) list" where
  "assistant_text_fields p = (''text'', JString (ap_Text p)) #
     reasoning_fields (ap_ReasoningContent p) (ap_ReasoningSignature p) (ap_ReasoningSignatureSource p)
       (ap_ReasoningItemID p) (ap_ReasoningStatus p) (ap_ReasoningSummary p)"

definition marshal_object :: "raw_json list \<Rightarrow> (string \<times> json) list \<Rightarrow> raw_json option" where
  "marshal_object raws fs = (if RawInvalid \<in> set raws then None else Some (RawJson (JObject fs)))"

text \<open>\<open>payload, _ := json.Marshal(...)\<close>\<close>

definition or_nil :: "raw_json option \<Rightarrow> raw_json" where
  "or_nil r = (case r of None \<Rightarrow> RawEmpty | Some x \<Rightarrow> x)"

definition marshal_tool_call :: "toolCallEntryPayload \<Rightarrow> raw_json option" where
  "marshal_tool_call p = marshal_object [tp_ReasoningSummary p, tp_ToolCall p] (tool_call_fields p)"

definition marshal_tool_result :: "toolResultEntryPayload \<Rightarrow> raw_json option" where
  "marshal_tool_result p = marshal_object [tp_ReasoningSummary p, tp_ToolCall p] (tool_result_fields p)"

definition marshal_assistant_text :: "assistantTextPayload \<Rightarrow> raw_json option" where
  "marshal_assistant_text p = marshal_object [ap_ReasoningSummary p] (assistant_text_fields p)"

definition raw_field :: "string \<Rightarrow> raw_json \<Rightarrow> raw_json" where
  "raw_field name r = (case r of
       RawJson (JObject fs) \<Rightarrow> (case decode_field dec_raw name fs RawEmpty of Some v \<Rightarrow> v | None \<Rightarrow> RawEmpty)
     | _ \<Rightarrow> RawEmpty)"

definition decode_tool_call_payload :: "raw_json \<Rightarrow> toolCallEntryPayload option" where
  "decode_tool_call_payload r = (case unmarshal_strings tool_payload_strings r of
       None \<Rightarrow> None
     | Some p \<Rightarrow> Some \<lparr>tp_ToolCallID = p ''tool_call_id'', tp_ToolName = p ''tool_name'', tp_Arguments = p ''arguments'',
         tp_ReasoningContent = p ''reasoning_content'', tp_ReasoningSignature = p ''reasoning_signature'',
         tp_ReasoningSignatureSource = p ''reasoning_signature_source'', tp_ReasoningItemID = p ''reasoning_item_id'',
         tp_ReasoningStatus = p ''reasoning_status'', tp_ReasoningSummary = raw_field ''reasoning_summary'' r,
         tp_ProviderItemID = p ''provider_item_id'', tp_ProviderCallID = p ''provider_call_id'',
         tp_ProviderStatus = p ''provider_status'', tp_ToolCall = raw_field ''tool_call'' r\<rparr>)"

definition decode_tool_result_payload :: "raw_json \<Rightarrow> toolResultEntryPayload option" where
  "decode_tool_result_payload r = (case unmarshal_strings (''result_text'' # tool_payload_strings) r of
       None \<Rightarrow> None
     | Some p \<Rightarrow> Some \<lparr>tp_ToolCallID = p ''tool_call_id'', tp_ToolName = p ''tool_name'', tp_Arguments = p ''arguments'',
         tp_ReasoningContent = p ''reasoning_content'', tp_ReasoningSignature = p ''reasoning_signature'',
         tp_ReasoningSignatureSource = p ''reasoning_signature_source'', tp_ReasoningItemID = p ''reasoning_item_id'',
         tp_ReasoningStatus = p ''reasoning_status'', tp_ReasoningSummary = raw_field ''reasoning_summary'' r,
         tp_ProviderItemID = p ''provider_item_id'', tp_ProviderCallID = p ''provider_call_id'',
         tp_ProviderStatus = p ''provider_status'', tp_ToolCall = raw_field ''tool_call'' r, tp_ResultText = p ''result_text''\<rparr>)"

definition assistant_payload_strings :: "string list" where
  "assistant_payload_strings = [''text'', ''reasoning_content'', ''reasoning_signature'', ''reasoning_signature_source'',
     ''reasoning_item_id'', ''reasoning_status'']"

definition decode_assistant_text_payload :: "raw_json \<Rightarrow> assistantTextPayload option" where
  "decode_assistant_text_payload r = (case unmarshal_strings assistant_payload_strings r of
       None \<Rightarrow> None
     | Some p \<Rightarrow> Some \<lparr>ap_Text = p ''text'', ap_ReasoningContent = p ''reasoning_content'',
         ap_ReasoningSignature = p ''reasoning_signature'', ap_ReasoningSignatureSource = p ''reasoning_signature_source'',
         ap_ReasoningItemID = p ''reasoning_item_id'', ap_ReasoningStatus = p ''reasoning_status'',
         ap_ReasoningSummary = raw_field ''reasoning_summary'' r\<rparr>)"

section \<open>Constructors\<close>

definition new_entry :: "int \<Rightarrow> string \<Rightarrow> string \<Rightarrow> string \<Rightarrow> string \<Rightarrow> raw_json \<Rightarrow> HistoryEntry" where
  "new_entry turnSeq requestID role kind toolCallID payload =
     \<lparr>he_Seq = 0, he_TurnSeq = turnSeq, he_RequestID = trim_space requestID, he_Role = role, he_Kind = kind,
      he_ToolCallID = toolCallID, he_ParentToolCallID = [], he_Payload = payload, he_CreatedAt = 0\<rparr>"

definition newAssistantTextEntryWithProviderMetadata where
  "newAssistantTextEntryWithProviderMetadata turnSeq requestID txt reasoningContent reasoningSignature
       reasoningSignatureSource reasoningItemID reasoningStatus reasoningSummary =
     new_entry turnSeq requestID ''assistant'' ''assistant_text'' []
       (or_nil (marshal_assistant_text \<lparr>ap_Text = txt, ap_ReasoningContent = reasoningContent,
          ap_ReasoningSignature = trim_space reasoningSignature,
          ap_ReasoningSignatureSource = trim_space reasoningSignatureSource,
          ap_ReasoningItemID = trim_space reasoningItemID, ap_ReasoningStatus = trim_space reasoningStatus,
          ap_ReasoningSummary = reasoningSummary\<rparr>))"

definition newToolCallEntryWithProviderMetadata where
  "newToolCallEntryWithProviderMetadata turnSeq requestID toolCallID toolName argsJSON reasoningContent reasoningSignature
       reasoningSignatureSource reasoningItemID reasoningStatus reasoningSummary providerItemID providerCallID
       providerStatus toolCall =
     new_entry turnSeq requestID ''assistant'' ''tool_call'' (trim_space toolCallID)
       (or_nil (marshal_tool_call \<lparr>tp_ToolCallID = trim_space toolCallID, tp_ToolName = trim_space toolName,
          tp_Arguments = trim_space argsJSON, tp_ReasoningContent = reasoningContent,
          tp_ReasoningSignature = trim_space reasoningSignature,
          tp_ReasoningSignatureSource = trim_space reasoningSignatureSource,
          tp_ReasoningItemID = trim_space reasoningItemID, tp_ReasoningStatus = trim_space reasoningStatus,
          tp_ReasoningSummary = reasoningSummary, tp_ProviderItemID = trim_space providerItemID,
          tp_ProviderCallID = trim_space providerCallID, tp_ProviderStatus = trim_space providerStatus,
          tp_ToolCall = toolCall\<rparr>))"

definition newToolResultEntry ::
    "int \<Rightarrow> string \<Rightarrow> string \<Rightarrow> string \<Rightarrow> string \<Rightarrow> string \<Rightarrow> string \<Rightarrow> raw_json \<Rightarrow> HistoryEntry" where
  "newToolResultEntry turnSeq requestID toolCallID toolName arguments resultText reasoningContent toolCall =
     new_entry turnSeq requestID ''tool'' ''tool_result'' (trim_space toolCallID)
       (or_nil (marshal_tool_result \<lparr>tp_ToolCallID = trim_space toolCallID, tp_ToolName = trim_space toolName,
          tp_Arguments = trim_space arguments, tp_ReasoningContent = trim_space reasoningContent,
          tp_ReasoningSignature = [], tp_ReasoningSignatureSource = [], tp_ReasoningItemID = [], tp_ReasoningStatus = [],
          tp_ReasoningSummary = RawEmpty, tp_ProviderItemID = [], tp_ProviderCallID = [], tp_ProviderStatus = [],
          tp_ToolCall = toolCall, tp_ResultText = trim_space resultText\<rparr>))"

text \<open>\<open>values\<close> is the map as \<open>json.Marshal\<close> lists it, sorted by key.\<close>

definition newMetadataEntry :: "int \<Rightarrow> string \<Rightarrow> string \<Rightarrow> (string \<times> json) list \<Rightarrow> HistoryEntry" where
  "newMetadataEntry turnSeq requestID eventType vals =
     new_entry turnSeq requestID ''system'' ''metadata'' []
       (RawJson (JObject ((''type'', JString (trim_space eventType)) #
          (if vals = [] then [] else [(''value'', JObject vals)]))))"

section \<open>Reading back\<close>

lemma string_field_append:
  "string_field n (fs @ gs) v b = (case string_field n fs v b of (w, c) \<Rightarrow> string_field n gs w c)"
proof (induction fs arbitrary: v b)
  case (Cons kj fs)
  then show ?case by (cases kj) (simp split: json.split)
qed simp

lemma string_field_other [simp]:
  assumes "plain_key n" "plain_key k" "n \<noteq> k"
  shows "string_field n (omit_empty k s) v b = (v, b)" "string_field n (omit_raw k r) v b = (v, b)"
    "decode_field dec n (omit_raw k r) w = Some w"
  using assms by (auto simp: omit_empty_def omit_raw_def key_matches_plain split: raw_json.split)

lemma string_field_same [simp]:
  assumes "plain_key n"
  shows "string_field n (omit_empty n s) [] b = (s, b)"
    "r \<noteq> RawInvalid \<Longrightarrow> decode_field dec_raw n (omit_raw n r) RawEmpty = Some r"
  using assms by (auto simp: omit_empty_def omit_raw_def key_matches_plain dec_raw_def split: raw_json.split)

lemma payload_keys [simp]:
  "plain_key ''text''" "plain_key ''result_text''" "plain_key ''tool_call''" "plain_key ''reasoning_summary''" "plain_key ''tool_call_id''" "plain_key ''arguments''" "plain_key ''reasoning_content''" "plain_key ''reasoning_signature''" "plain_key ''reasoning_signature_source''" "plain_key ''reasoning_item_id''" "plain_key ''reasoning_status''" "plain_key ''provider_item_id''" "plain_key ''provider_call_id''" "plain_key ''provider_status''"
  by code_simp+

lemma reasoning_decode [simp]:
  "string_field ''reasoning_content'' (reasoning_fields content signature source itemID status summary) [] b = (content, b)"
  "string_field ''reasoning_signature'' (reasoning_fields content signature source itemID status summary) [] b = (signature, b)"
  "string_field ''reasoning_signature_source'' (reasoning_fields content signature source itemID status summary) [] b = (source, b)"
  "string_field ''reasoning_item_id'' (reasoning_fields content signature source itemID status summary) [] b = (itemID, b)"
  "string_field ''reasoning_status'' (reasoning_fields content signature source itemID status summary) [] b = (status, b)"
  "summary \<noteq> RawInvalid \<Longrightarrow> decode_field dec_raw ''reasoning_summary'' (reasoning_fields content signature source itemID status summary) RawEmpty = Some summary"
  by (simp_all add: reasoning_fields_def string_field_append decode_field_append)

lemma reasoning_other [simp]:
  assumes "plain_key n" "n \<notin> set [''reasoning_content'', ''reasoning_signature'', ''reasoning_signature_source'',
    ''reasoning_item_id'', ''reasoning_status'', ''reasoning_summary'']"
  shows "string_field n (reasoning_fields content signature source itemID status summary) v b = (v, b)"
    "decode_field dec n (reasoning_fields content signature source itemID status summary) w = Some w"
  using assms by (simp_all add: reasoning_fields_def string_field_append decode_field_append)

lemma common_decode [simp]:
  "string_field ''reasoning_content'' (common_fields p) [] b = (tp_ReasoningContent p, b)"
  "string_field ''reasoning_signature'' (common_fields p) [] b = (tp_ReasoningSignature p, b)"
  "string_field ''reasoning_signature_source'' (common_fields p) [] b = (tp_ReasoningSignatureSource p, b)"
  "string_field ''reasoning_item_id'' (common_fields p) [] b = (tp_ReasoningItemID p, b)"
  "string_field ''reasoning_status'' (common_fields p) [] b = (tp_ReasoningStatus p, b)"
  "string_field ''provider_item_id'' (common_fields p) [] b = (tp_ProviderItemID p, b)"
  "string_field ''provider_call_id'' (common_fields p) [] b = (tp_ProviderCallID p, b)"
  "string_field ''provider_status'' (common_fields p) [] b = (tp_ProviderStatus p, b)"
  "tp_ReasoningSummary p \<noteq> RawInvalid \<Longrightarrow> decode_field dec_raw ''reasoning_summary'' (common_fields p) RawEmpty = Some (tp_ReasoningSummary p)"
  "tp_ToolCall p \<noteq> RawInvalid \<Longrightarrow> decode_field dec_raw ''tool_call'' (common_fields p) RawEmpty = Some (tp_ToolCall p)"
  by (simp_all add: common_fields_def string_field_append decode_field_append)

lemma common_other [simp]:
  assumes "n \<in> set [''tool_call_id'', ''tool_name'', ''arguments'', ''result_text'']"
  shows "string_field n (common_fields p) v b = (v, b)"
  using assms by (auto simp: common_fields_def string_field_append)

lemma tool_result_fields_strings:
  "string_field ''tool_call_id'' (tool_result_fields p) [] b = (tp_ToolCallID p, b)"
  "string_field ''tool_name'' (tool_result_fields p) [] b = (tp_ToolName p, b)"
  "string_field ''arguments'' (tool_result_fields p) [] b = (tp_Arguments p, b)"
  "string_field ''reasoning_content'' (tool_result_fields p) [] b = (tp_ReasoningContent p, b)"
  "string_field ''reasoning_signature'' (tool_result_fields p) [] b = (tp_ReasoningSignature p, b)"
  "string_field ''reasoning_signature_source'' (tool_result_fields p) [] b = (tp_ReasoningSignatureSource p, b)"
  "string_field ''reasoning_item_id'' (tool_result_fields p) [] b = (tp_ReasoningItemID p, b)"
  "string_field ''reasoning_status'' (tool_result_fields p) [] b = (tp_ReasoningStatus p, b)"
  "string_field ''provider_item_id'' (tool_result_fields p) [] b = (tp_ProviderItemID p, b)"
  "string_field ''provider_call_id'' (tool_result_fields p) [] b = (tp_ProviderCallID p, b)"
  "string_field ''provider_status'' (tool_result_fields p) [] b = (tp_ProviderStatus p, b)"
  "string_field ''result_text'' (tool_result_fields p) [] b = (tp_ResultText p, b)"
  by (simp_all add: tool_result_fields_def string_field_append key_matches_plain)

lemma tool_result_fields_raws:
  "tp_ReasoningSummary p \<noteq> RawInvalid \<Longrightarrow> decode_field dec_raw ''reasoning_summary'' (tool_result_fields p) RawEmpty = Some (tp_ReasoningSummary p)"
  "tp_ToolCall p \<noteq> RawInvalid \<Longrightarrow> decode_field dec_raw ''tool_call'' (tool_result_fields p) RawEmpty = Some (tp_ToolCall p)"
  by (simp_all add: tool_result_fields_def decode_field_append key_matches_plain)

lemma tool_call_fields_strings:
  "string_field ''tool_call_id'' (tool_call_fields p) [] b = (tp_ToolCallID p, b)"
  "string_field ''tool_name'' (tool_call_fields p) [] b = (tp_ToolName p, b)"
  "string_field ''arguments'' (tool_call_fields p) [] b = (tp_Arguments p, b)"
  "string_field ''reasoning_content'' (tool_call_fields p) [] b = (tp_ReasoningContent p, b)"
  "string_field ''reasoning_signature'' (tool_call_fields p) [] b = (tp_ReasoningSignature p, b)"
  "string_field ''reasoning_signature_source'' (tool_call_fields p) [] b = (tp_ReasoningSignatureSource p, b)"
  "string_field ''reasoning_item_id'' (tool_call_fields p) [] b = (tp_ReasoningItemID p, b)"
  "string_field ''reasoning_status'' (tool_call_fields p) [] b = (tp_ReasoningStatus p, b)"
  "string_field ''provider_item_id'' (tool_call_fields p) [] b = (tp_ProviderItemID p, b)"
  "string_field ''provider_call_id'' (tool_call_fields p) [] b = (tp_ProviderCallID p, b)"
  "string_field ''provider_status'' (tool_call_fields p) [] b = (tp_ProviderStatus p, b)"
  by (simp_all add: tool_call_fields_def string_field_append key_matches_plain)

lemma tool_call_fields_raws:
  "tp_ReasoningSummary p \<noteq> RawInvalid \<Longrightarrow> decode_field dec_raw ''reasoning_summary'' (tool_call_fields p) RawEmpty = Some (tp_ReasoningSummary p)"
  "tp_ToolCall p \<noteq> RawInvalid \<Longrightarrow> decode_field dec_raw ''tool_call'' (tool_call_fields p) RawEmpty = Some (tp_ToolCall p)"
  by (simp_all add: tool_call_fields_def decode_field_append key_matches_plain)

lemma decode_tool_result:
  "marshal_tool_result p = Some r \<Longrightarrow> decode_tool_result_payload r = Some p"
  by (auto simp: marshal_tool_result_def marshal_object_def decode_tool_result_payload_def unmarshal_strings_def
      tool_payload_strings_def raw_field_def tool_result_fields_strings tool_result_fields_raws split: if_splits)

lemma decode_tool_call:
  "marshal_tool_call p = Some r \<Longrightarrow> decode_tool_call_payload r = Some p"
  by (auto simp: marshal_tool_call_def marshal_object_def decode_tool_call_payload_def unmarshal_strings_def
      tool_payload_strings_def raw_field_def tool_call_fields_strings tool_call_fields_raws split: if_splits)

lemma decode_assistant_text:
  assumes "marshal_assistant_text p = Some r"
  shows "decode_assistant_text_payload r = Some p"
proof -
  have ok: "ap_ReasoningSummary p \<noteq> RawInvalid" and r: "r = RawJson (JObject (assistant_text_fields p))"
    using assms by (auto simp: marshal_assistant_text_def marshal_object_def split: if_splits)
  show ?thesis using ok
    by (simp add: r decode_assistant_text_payload_def unmarshal_strings_def assistant_payload_strings_def raw_field_def
        assistant_text_fields_def key_matches_plain)
qed

lemma decode_raw_Some: "decode_field dec_raw n fs v \<noteq> None"
proof (induction fs arbitrary: v)
  case (Cons kj fs)
  then show ?case by (cases kj) (simp add: dec_raw_def)
qed simp

lemma tool_result_call_decode: "tool_result_call r = map_option tp_ToolCall (decode_tool_result_payload r)"
  by (auto simp: decode_raw_Some tool_result_call_def decode_tool_result_payload_def raw_field_def split: option.split raw_json.split json.split)

end
