(* ===== verification/Interrupted_Turn.thy ===== *)
theory Interrupted_Turn
  imports History_Entries Checkpoint_Memory Replay_Messages Stream_Types
begin

text \<open>
  What is recorded when a turn is cut short, \<open>forwarder/interrupt.go\<close>: the text streamed so far, and a
  result for every tool call that was begun and has none.

  \<open>namer\<close> stands for \<open>protojson.Unmarshal\<close> into \<open>agentv1.ToolCall\<close> followed by \<open>inferToolName\<close> (empty when the
  message cannot be decoded), \<open>raw_text\<close> for the text of a raw JSON message.
\<close>

record interrupt_lib =
  namer :: "raw_json \<Rightarrow> string"
  raw_text :: "raw_json \<Rightarrow> string"

section \<open>What the history has\<close>

definition turn_ids :: "string \<Rightarrow> (raw_json \<Rightarrow> string option) \<Rightarrow> int \<Rightarrow> HistoryEntry list \<Rightarrow> string list" where
  "turn_ids kind dec turnSeq es =
     filter (\<lambda>i. i \<noteq> []) (List.map_filter (\<lambda>e. if he_TurnSeq e = turnSeq \<and> trim_space (he_Kind e) = kind
       then map_option trim_space (dec (he_Payload e)) else None) es)"

definition call_ids :: "int \<Rightarrow> HistoryEntry list \<Rightarrow> string list" where
  "call_ids = turn_ids ''tool_call'' (\<lambda>r. map_option tp_ToolCallID (decode_tool_call_payload r))"

definition result_ids :: "int \<Rightarrow> HistoryEntry list \<Rightarrow> string list" where
  "result_ids = turn_ids ''tool_result'' (\<lambda>r. map_option tp_ToolCallID (decode_tool_result_payload r))"

definition interruptedTurnToolIDs :: "ConversationFile option \<Rightarrow> int \<Rightarrow> string list \<times> string list" where
  "interruptedTurnToolIDs conversation turnSeq = (case conversation of
       None \<Rightarrow> ([], [])
     | Some c \<Rightarrow> if turnSeq \<le> 0 then ([], [])
         else (call_ids turnSeq (cf_Entries c), result_ids turnSeq (cf_Entries c)))"

definition assistantTextEntryExists :: "ConversationFile option \<Rightarrow> int \<Rightarrow> string \<Rightarrow> string \<Rightarrow> string \<Rightarrow> bool" where
  "assistantTextEntryExists conversation turnSeq txt reasoning signature = (case conversation of
       None \<Rightarrow> False
     | Some c \<Rightarrow> turnSeq > 0 \<and> list_ex (\<lambda>e. he_TurnSeq e = turnSeq \<and> trim_space (he_Kind e) = ''assistant_text'' \<and>
         (case decode_assistant_text_payload (he_Payload e) of None \<Rightarrow> False
          | Some p \<Rightarrow> trim_space (ap_Text p) = trim_space txt \<and> trim_space (ap_ReasoningContent p) = trim_space reasoning \<and>
              trim_space (ap_ReasoningSignature p) = trim_space signature)) (cf_Entries c))"

definition interruptedTurnMarkerExists :: "ConversationFile option \<Rightarrow> int \<Rightarrow> string \<Rightarrow> bool" where
  "interruptedTurnMarkerExists conversation turnSeq modelCallID = (case conversation of
       None \<Rightarrow> False
     | Some c \<Rightarrow> turnSeq > 0 \<and> list_ex (\<lambda>e. he_TurnSeq e = turnSeq \<and> trim_space (he_Kind e) = ''metadata'' \<and>
         (case unmarshal_metadata (he_Payload e) of None \<Rightarrow> False
          | Some (ty, vals) \<Rightarrow> trim_space ty = ''interrupted_turn'' \<and>
              (modelCallID = [] \<or> trim_space (readStringValue (obj_get ''model_call_id'' vals)) = modelCallID))) (cf_Entries c))"

section \<open>Names and texts\<close>

definition interruptedToolName :: "interrupt_lib \<Rightarrow> raw_json \<Rightarrow> string" where
  "interruptedToolName lib raw = (if raw_is_empty raw then [] else trim_space (namer lib raw))"

definition interruptedToolResultText :: "string \<Rightarrow> string" where
  "interruptedToolResultText toolName = firstNonEmpty [toolName, ''tool''] @
     '' was interrupted before a terminal result was received; do not replay this external call automatically.''"

definition newInterruptedTurnMarkerEntry :: "int \<Rightarrow> string \<Rightarrow> string \<Rightarrow> HistoryEntry" where
  "newInterruptedTurnMarkerEntry turnSeq requestID modelCallID =
     newMetadataEntry turnSeq requestID ''interrupted_turn''
       [(''model_call_id'', JString (trim_space modelCallID)), (''status'', JString ''interrupted'')]"

definition exec_tool_names :: "(string \<times> string) list" where
  "exec_tool_names = [(''read'', ''Read''), (''write'', ''Write''), (''delete'', ''Delete''), (''glob'', ''Glob''), (''grep'', ''Grep''),
     (''diagnostics'', ''ReadLints''), (''ls'', ''Ls''), (''mcp'', ''CallMcpTool''), (''list_mcp_resources'', ''ListMcpResources''),
     (''read_mcp_resource'', ''FetchMcpResource''), (''shell'', ''Shell''), (''await_shell'', ''AwaitShell''),
     (''write_shell_stdin'', ''WriteShellStdin''), (''force_background_shell'', ''ForceBackgroundShell''), (''subagent'', ''Task'')]"

definition lookup_name :: "(string \<times> string) list \<Rightarrow> string \<Rightarrow> string" where
  "lookup_name table key = (case map_of table (trim_space key) of None \<Rightarrow> [] | Some v \<Rightarrow> v)"

definition deriveToolNameFromPendingExec :: "PendingExec \<Rightarrow> string" where
  "deriveToolNameFromPendingExec p = lookup_name exec_tool_names (pe_ExecKind p)"

definition visiblePendingExecToolName :: "PendingExec \<Rightarrow> string" where
  "visiblePendingExecToolName p = firstNonEmpty [trim_space (pe_VisibleToolName p), deriveToolNameFromPendingExec p]"

definition visiblePendingExecArgsJSON :: "PendingExec \<Rightarrow> raw_json" where
  "visiblePendingExecArgsJSON p = (if \<not> raw_is_empty (pe_VisibleArgsJSON p) then pe_VisibleArgsJSON p else pe_ArgsJSON p)"

definition deriveToolNameFromPendingInteraction :: "PendingInteraction \<Rightarrow> string" where
  "deriveToolNameFromPendingInteraction p = lookup_name
     [(''ask_question'', ''AskQuestion''), (''create_plan'', ''CreatePlan''), (''web_search'', ''WebSearch''),
      (''web_fetch'', ''WebFetch''), (''switch_mode'', ''SwitchMode'')] (pi_InteractionKind p)"

section \<open>The entries of an interruption\<close>

text \<open>What the loops know: the turn, its request, and the calls and results the history has; and what
  they build: the entries and the ids seen.\<close>

record turn_scan =
  ts_lib :: interrupt_lib
  ts_turnSeq :: int
  ts_requestID :: string
  ts_calls :: "string list"
  ts_results :: "string list"

type_synonym built = "HistoryEntry list \<times> string list"

definition partial_tool_name :: "interrupt_lib \<Rightarrow> interruptedToolCall \<Rightarrow> string" where
  "partial_tool_name lib p =
     (let n = trim_space (itc_ToolName p);
          n' = (if n = [] then interruptedToolName lib (itc_ToolCall p) else n)
      in firstNonEmpty [n', ''interrupted_tool''])"

definition partial_step :: "turn_scan \<Rightarrow> interruptedToolCall \<Rightarrow> built \<Rightarrow> built" where
  "partial_step t p b = (case b of (es, seen) \<Rightarrow>
     (let toolCallID = trim_space (itc_ToolCallID p);
          toolName = partial_tool_name (ts_lib t) p;
          arguments = firstNonEmpty [trim_space (itc_Arguments p), ''{}'']
      in if toolCallID = [] then b
         else (es @
           (if toolCallID \<in> set (ts_calls t) then []
            else [newToolCallEntryWithProviderMetadata (ts_turnSeq t) (ts_requestID t) toolCallID toolName arguments
                    (itc_ReasoningContent p) (itc_ReasoningSignature p) (itc_ReasoningSignatureSource p) [] [] RawEmpty
                    (itc_ProviderItemID p) (itc_ProviderCallID p) (itc_ProviderStatus p) (itc_ToolCall p)]) @
           (if toolCallID \<in> set (ts_results t) then []
            else [newToolResultEntry (ts_turnSeq t) (ts_requestID t) toolCallID toolName arguments
                    (interruptedToolResultText toolName) (itc_ReasoningContent p) RawEmpty]),
           toolCallID # seen)))"

definition call_and_result :: "turn_scan \<Rightarrow> string \<Rightarrow> string \<Rightarrow> string \<Rightarrow> string \<Rightarrow> HistoryEntry list" where
  "call_and_result t toolCallID toolName arguments reasoning =
     (if toolCallID \<in> set (ts_calls t) then []
      else [newToolCallEntryWithProviderMetadata (ts_turnSeq t) (ts_requestID t) toolCallID toolName arguments
              reasoning [] [] [] [] RawEmpty [] [] [] RawEmpty]) @
     [newToolResultEntry (ts_turnSeq t) (ts_requestID t) toolCallID toolName arguments
        (interruptedToolResultText toolName) reasoning RawEmpty]"

definition exec_step :: "turn_scan \<Rightarrow> PendingExec \<Rightarrow> built \<Rightarrow> built" where
  "exec_step t p b = (case b of (es, seen) \<Rightarrow>
     (let toolCallID = trim_space (pe_ToolCallID p); toolName = trim_space (visiblePendingExecToolName p) in
      if toolCallID = [] \<or> toolName = [] \<or> toolCallID \<in> set seen then b
      else if toolCallID \<in> set (ts_results t) then (es, toolCallID # seen)
      else (es @ call_and_result t toolCallID toolName (raw_text (ts_lib t) (visiblePendingExecArgsJSON p)) (pe_ReasoningContent p),
            toolCallID # seen)))"

definition interaction_step :: "turn_scan \<Rightarrow> PendingInteraction \<Rightarrow> built \<Rightarrow> built" where
  "interaction_step t p b = (case b of (es, seen) \<Rightarrow>
     (let toolCallID = trim_space (pi_ToolCallID p); toolName = trim_space (deriveToolNameFromPendingInteraction p) in
      if toolCallID = [] \<or> toolName = [] then b
      else if toolCallID \<in> set (ts_results t) then (es, toolCallID # seen)
      else (es @ call_and_result t toolCallID toolName (raw_text (ts_lib t) (pi_ArgsJSON p)) (pi_ReasoningContent p),
            toolCallID # seen)))"

definition interrupted_text :: "ConversationFile option \<Rightarrow> ActiveStream \<Rightarrow> HistoryEntry list" where
  "interrupted_text latest s =
     (let txt = st_ProviderAccumulatedText s; reasoning = st_ProviderAccumulatedReasoning s;
          signature = trim_space (st_ProviderAccumulatedReasoningSignature s);
          source = trim_space (st_ProviderAccumulatedReasoningSignatureSource s)
      in if \<not> assistantTextEntryExists latest (st_TurnSeq s) txt reasoning signature \<and>
            (trim_space txt \<noteq> [] \<or> hasReplayableReasoningPayload reasoning signature source)
         then [newAssistantTextEntryWithProviderMetadata (st_TurnSeq s) (trim_space (st_RequestID s)) txt reasoning signature source
                 (trim_space (st_ProviderAccumulatedReasoningItemID s)) (trim_space (st_ProviderAccumulatedReasoningStatus s))
                 (st_ProviderAccumulatedReasoningSummary s)]
         else [])"

definition turn_scan_of :: "interrupt_lib \<Rightarrow> ConversationFile option \<Rightarrow> ActiveStream \<Rightarrow> turn_scan" where
  "turn_scan_of lib latest s = (case interruptedTurnToolIDs latest (st_TurnSeq s) of (calls, results) \<Rightarrow>
     \<lparr>ts_lib = lib, ts_turnSeq = st_TurnSeq s, ts_requestID = trim_space (st_RequestID s),
      ts_calls = calls, ts_results = results\<rparr>)"

definition interrupted_entries :: "interrupt_lib \<Rightarrow> ConversationFile option \<Rightarrow> ActiveStream \<Rightarrow> HistoryEntry list" where
  "interrupted_entries lib latest s =
     (let t = turn_scan_of lib latest s;
          partials = sort_key (\<lambda>p. trim_space (itc_ToolCallID p)) (map snd (entries (st_PartialToolCalls s)));
          execs = sort_key (\<lambda>p. trim_space (pe_ToolCallID p)) (map snd (entries (st_PendingExecs s)));
          interactions = sort_key (\<lambda>p. trim_space (pi_ToolCallID p)) (map snd (entries (st_PendingInteractions s)))
      in fst (fold (interaction_step t) interactions (fold (exec_step t) execs
           (fold (partial_step t) partials (interrupted_text latest s, [])))))"

section \<open>Recording an interruption\<close>

definition finalizeInterruptedTurn ::
    "store_env \<Rightarrow> interrupt_lib \<Rightarrow> (ConversationFile option \<Rightarrow> ConversationFile option) \<Rightarrow> store option
       \<Rightarrow> ConversationFile option \<Rightarrow> ActiveStream
       \<Rightarrow> store option \<times> ConversationFile option \<times> ActiveStream \<times> checkpoint_error option" where
  "finalizeInterruptedTurn env lib between st checkpoint s =
     (if st_InterruptedTurnFinalized s \<or> checkpoint = None then (st, checkpoint, s, None)
      else
        let s1 = s\<lparr>st_InterruptedTurnFinalized := True\<rparr>;
            conversationID = trim_space (st_ConversationID s);
            modelCallID = trim_space (st_CurrentModelCallID s);
            record = (\<lambda>st latest. case interrupted_entries lib latest s of
                [] \<Rightarrow> (st, checkpoint, s1, None)
              | es \<Rightarrow> (case appendConversationEntries env conversationID
                     (newInterruptedTurnMarkerEntry (st_TurnSeq s) (trim_space (st_RequestID s)) modelCallID # es) between st checkpoint of
                  (st', checkpoint', Inl err) \<Rightarrow> (st', checkpoint', s, Some err)
                | (st', checkpoint', Inr _) \<Rightarrow> (st', checkpoint', s1, None)))
        in case st of
             None \<Rightarrow> record None (map_option cloneConversationFile checkpoint)
           | Some d \<Rightarrow> (case LoadConversation env conversationID d of
                 (d', Inl err) \<Rightarrow> (Some d', checkpoint, s, Some (StoreError err))
               | (d', Inr latest) \<Rightarrow>
                   if interruptedTurnMarkerExists latest (st_TurnSeq s) modelCallID then (Some d', checkpoint, s1, None)
                   else record (Some d') latest))"

definition providerLoopInterruptErr :: "bool \<Rightarrow> string \<Rightarrow> ActiveStream option \<Rightarrow> bool" where
  "providerLoopInterruptErr ctxDone modelCallID stream \<longleftrightarrow> ctxDone \<or> (case stream of
       None \<Rightarrow> False
     | Some s \<Rightarrow> isTerminalStreamStatus (st_Status s) \<or> isTerminalPhase (st_Phase s) \<or>
         (let expected = trim_space modelCallID; current = trim_space (st_CurrentModelCallID s)
          in expected \<noteq> [] \<and> current \<noteq> [] \<and> current \<noteq> expected))"

end
