(* ===== verification/Interrupt_Guarantees.thy ===== *)
theory Interrupt_Guarantees
  imports Interrupted_Turn "HOL-Library.Sublist"
begin

text \<open>
  What an interrupted turn leaves behind: exactly the calls that had a result and the open calls have
  one, where a call is open that is in the table of partial calls, that waits for an execution shown to
  the model under a tool name, or that waits for an interaction.  The hidden stages of an edit have no
  such name (\<open>hidden_stage_skipped\<close>): an edit is open when its call is in the table of partial calls, to
  which the adapters announce it once its path is known.  Recording the interruption again changes nothing.
\<close>

section \<open>The ids of new entries\<close>

lemma turn_ids_append [simp]: "turn_ids kind dec turn (es @ fs) = turn_ids kind dec turn es @ turn_ids kind dec turn fs"
  by (simp add: turn_ids_def List.map_filter_def)

lemma turn_ids_Nil [simp]: "turn_ids kind dec turn [] = []" by (simp add: turn_ids_def List.map_filter_def)

lemma ids_append [simp]:
  "call_ids turn (es @ fs) = call_ids turn es @ call_ids turn fs" "call_ids turn [] = []"
  "result_ids turn (es @ fs) = result_ids turn es @ result_ids turn fs" "result_ids turn [] = []"
  by (simp_all add: call_ids_def result_ids_def)

lemma kinds_trimmed [simp]:
  "trim_space ''tool_call'' = ''tool_call''" "trim_space ''tool_result'' = ''tool_result''"
  "trim_space ''assistant_text'' = ''assistant_text''" "trim_space ''metadata'' = ''metadata''"
  by code_simp+

definition quiet :: "HistoryEntry \<Rightarrow> bool" where
  "quiet e \<longleftrightarrow> canceledReplayPolicyForEntry e = None \<and> trim_space (he_Kind e) \<noteq> ''runtime_state'' \<and>
     (trim_space (he_Kind e) = ''tool_result'' \<longrightarrow> tool_result_call (he_Payload e) = Some RawEmpty)"

definition recordable :: "int \<Rightarrow> HistoryEntry \<Rightarrow> bool" where
  "recordable turn e \<longleftrightarrow> he_TurnSeq e = turn \<and> (\<exists>j. he_Payload e = RawJson j) \<and> he_CreatedAt e = 0 \<and>
     he_Kind e \<in> set [''assistant_text'', ''tool_call'', ''tool_result'', ''metadata''] \<and> quiet e"

lemma new_call:
  assumes "summary \<noteq> RawInvalid" "call \<noteq> RawInvalid"
    and e_def: "e = newToolCallEntryWithProviderMetadata turn req i name args rc rs src item status summary pitem pcall pstatus call"
  shows "recordable turn e" "call_ids turn [e] = filter (\<lambda>i. i \<noteq> []) [trim_space i]" "result_ids turn [e] = []"
proof -
  have "\<exists>p. he_Payload e = or_nil (marshal_tool_call p) \<and> tp_ToolCallID p = trim_space i \<and>
      tp_ReasoningSummary p = summary \<and> tp_ToolCall p = call"
    unfolding e_def newToolCallEntryWithProviderMetadata_def new_entry_def HistoryEntry.simps by (intro exI conjI, rule refl) simp_all
  then obtain p where p: "he_Payload e = or_nil (marshal_tool_call p)" "tp_ToolCallID p = trim_space i"
    "tp_ReasoningSummary p = summary" "tp_ToolCall p = call" by blast
  then obtain j where j: "marshal_tool_call p = Some (RawJson j)"
    using assms(1,2) by (auto simp: marshal_tool_call_def marshal_object_def)
  note m = j p(2) p(1) [unfolded j or_nil_def option.case]
  have e: "he_TurnSeq e = turn" "he_Kind e = ''tool_call''" "he_CreatedAt e = 0"
    by (simp_all add: e_def newToolCallEntryWithProviderMetadata_def new_entry_def)
  show "recordable turn e" "call_ids turn [e] = filter (\<lambda>i. i \<noteq> []) [trim_space i]" "result_ids turn [e] = []"
    using m e decode_tool_call [OF m(1)]
    by (auto simp: recordable_def quiet_def canceledReplayPolicyForEntry_def call_ids_def result_ids_def turn_ids_def List.map_filter_def)
qed

lemma new_result:
  assumes e_def: "e = newToolResultEntry turn req i name args txt rc RawEmpty"
  shows "recordable turn e" "result_ids turn [e] = filter (\<lambda>i. i \<noteq> []) [trim_space i]" "call_ids turn [e] = []"
    "he_ToolCallID e = trim_space i" "he_Kind e = ''tool_result''"
proof -
  have "\<exists>p. he_Payload e = or_nil (marshal_tool_result p) \<and> tp_ToolCallID p = trim_space i \<and>
      tp_ReasoningSummary p = RawEmpty \<and> tp_ToolCall p = RawEmpty"
    unfolding e_def newToolResultEntry_def new_entry_def HistoryEntry.simps by (intro exI conjI, rule refl) simp_all
  then obtain p where p: "he_Payload e = or_nil (marshal_tool_result p)" "tp_ToolCallID p = trim_space i"
    "tp_ReasoningSummary p = RawEmpty" "tp_ToolCall p = RawEmpty" by blast
  then obtain j where j: "marshal_tool_result p = Some (RawJson j)" by (auto simp: marshal_tool_result_def marshal_object_def)
  note m = j p(2) p(1) [unfolded j or_nil_def option.case]
  show e: "he_ToolCallID e = trim_space i" "he_Kind e = ''tool_result''" by (simp_all add: e_def newToolResultEntry_def new_entry_def)
  have "he_TurnSeq e = turn" "he_CreatedAt e = 0" by (simp_all add: e_def newToolResultEntry_def new_entry_def)
  with m e show "recordable turn e" "result_ids turn [e] = filter (\<lambda>i. i \<noteq> []) [trim_space i]" "call_ids turn [e] = []"
    using decode_tool_result [OF m(1)] p(4)
    by (auto simp: recordable_def quiet_def canceledReplayPolicyForEntry_def tool_result_call_decode call_ids_def result_ids_def turn_ids_def List.map_filter_def)
qed

section \<open>The loops\<close>

definition covered :: "turn_scan \<Rightarrow> HistoryEntry list \<Rightarrow> string \<Rightarrow> bool" where
  "covered t es i \<longleftrightarrow> i \<in> set (ts_results t) \<or>
     i \<in> set (result_ids (ts_turnSeq t) es) \<and> i \<in> set (ts_calls t) \<union> set (call_ids (ts_turnSeq t) es)"

definition built_ok :: "turn_scan \<Rightarrow> built \<Rightarrow> bool" where
  "built_ok t b \<longleftrightarrow> (\<forall>e \<in> set (fst b). recordable (ts_turnSeq t) e) \<and> (\<forall>i \<in> set (snd b). covered t (fst b) i) \<and>
     set (result_ids (ts_turnSeq t) (fst b)) \<inter> set (ts_results t) = {}"

text \<open>A step that appends entries for one call.\<close>

definition answers :: "turn_scan \<Rightarrow> bool \<Rightarrow> string \<Rightarrow> (built \<Rightarrow> built) \<Rightarrow> bool" where
  "answers t due i f \<longleftrightarrow> (\<forall>b. built_ok t b \<longrightarrow> built_ok t (f b) \<and> (\<forall>k. covered t (fst b) k \<longrightarrow> covered t (fst (f b)) k) \<and>
     (due \<longrightarrow> covered t (fst (f b)) i))"

lemma covered_append: "covered t es k \<Longrightarrow> covered t (es @ zs) k"
  by (auto simp: covered_def)

lemma answers_extend:
  assumes "\<And>es seen. built_ok t (es, seen) \<Longrightarrow> \<exists>zs seen'. f (es, seen) = (es @ zs, seen') \<and> (\<forall>e \<in> set zs. recordable (ts_turnSeq t) e) \<and>
      set (result_ids (ts_turnSeq t) zs) \<inter> set (ts_results t) = {} \<and> (\<forall>k \<in> set seen'. k \<in> set seen \<or> covered t (es @ zs) k) \<and>
      (due \<longrightarrow> covered t (es @ zs) i)"
  shows "answers t due i f"
  unfolding answers_def
proof (intro allI impI)
  fix b assume ok: "built_ok t b"
  obtain es seen where b: "b = (es, seen)" by (cases b)
  from assms [OF ok [unfolded b]] obtain zs seen' where f: "f (es, seen) = (es @ zs, seen')" "\<forall>e \<in> set zs. recordable (ts_turnSeq t) e"
    "set (result_ids (ts_turnSeq t) zs) \<inter> set (ts_results t) = {}" "\<forall>k \<in> set seen'. k \<in> set seen \<or> covered t (es @ zs) k"
    "due \<longrightarrow> covered t (es @ zs) i" by blast
  have "built_ok t (es @ zs, seen')" using ok f(2-4) covered_append [of t es] unfolding b built_ok_def by (auto simp: Int_Un_distrib2)
  then show "built_ok t (f b) \<and> (\<forall>k. covered t (fst b) k \<longrightarrow> covered t (fst (f b)) k) \<and> (due \<longrightarrow> covered t (fst (f b)) i)"
    using f covered_append by (simp add: b)
qed

lemma answers_fold:
  assumes "\<And>p. p \<in> set ps \<Longrightarrow> answers t (due p) (key p) (f p)" "built_ok t b"
  shows "built_ok t (fold f ps b) \<and> (\<forall>k. covered t (fst b) k \<longrightarrow> covered t (fst (fold f ps b)) k) \<and>
    (\<forall>p \<in> set ps. due p \<longrightarrow> covered t (fst (fold f ps b)) (key p))"
  using assms
proof (induction ps arbitrary: b)
  case (Cons p ps)
  have f: "built_ok t (f p b)" "\<forall>k. covered t (fst b) k \<longrightarrow> covered t (fst (f p b)) k" "due p \<longrightarrow> covered t (fst (f p b)) (key p)"
    using Cons.prems(1) [of p, unfolded answers_def, rule_format, OF _ Cons.prems(2)] by simp_all
  have "\<And>q. q \<in> set ps \<Longrightarrow> answers t (due q) (key q) (f q)" using Cons.prems(1) by simp
  note Cons.IH [OF this f(1)]
  with f show ?case by auto
qed simp

lemma call_and_result_spec:
  assumes "trim_space i = i" "i \<noteq> []"
  shows "\<forall>e \<in> set (call_and_result t i name args rc). recordable (ts_turnSeq t) e"
    "result_ids (ts_turnSeq t) (call_and_result t i name args rc) = [i]"
    "i \<in> set (ts_calls t) \<union> set (call_ids (ts_turnSeq t) (call_and_result t i name args rc))"
  using assms new_call [OF _ _ refl, of RawEmpty RawEmpty] new_result [OF refl]
  by (auto simp: call_and_result_def ids_append(1,3) [of _ "[_]" "[_]", simplified])


lemma call_and_result_covers:
  assumes "trim_space i = i" "i \<noteq> []"
  shows "covered t (es @ call_and_result t i name args rc) i"
  using call_and_result_spec [OF assms, of t name args rc] by (auto simp: covered_def)

lemma partial_answers:
  assumes "itc_ToolCall p \<noteq> RawInvalid"
  shows "answers t (trim_space (itc_ToolCallID p) \<noteq> []) (trim_space (itc_ToolCallID p)) (partial_step t p)"
proof (rule answers_extend)
  fix es seen assume "built_ok t (es, seen)"
  let ?i = "trim_space (itc_ToolCallID p)"
  show "\<exists>zs seen'. partial_step t p (es, seen) = (es @ zs, seen') \<and> (\<forall>e \<in> set zs. recordable (ts_turnSeq t) e) \<and>
      set (result_ids (ts_turnSeq t) zs) \<inter> set (ts_results t) = {} \<and> (\<forall>k \<in> set seen'. k \<in> set seen \<or> covered t (es @ zs) k) \<and>
      (?i \<noteq> [] \<longrightarrow> covered t (es @ zs) ?i)"
  proof (cases "?i = []")
    case True
    then have "partial_step t p (es, seen) = (es @ [], seen)" by (simp add: partial_step_def)
    with True show ?thesis by fastforce
  next
    case False
    let ?name = "partial_tool_name (ts_lib t) p" and ?args = "firstNonEmpty [trim_space (itc_Arguments p), ''{}'']"
    define call where "call = newToolCallEntryWithProviderMetadata (ts_turnSeq t) (ts_requestID t) ?i ?name ?args
      (itc_ReasoningContent p) (itc_ReasoningSignature p) (itc_ReasoningSignatureSource p) [] [] RawEmpty
      (itc_ProviderItemID p) (itc_ProviderCallID p) (itc_ProviderStatus p) (itc_ToolCall p)"
    define result where "result = newToolResultEntry (ts_turnSeq t) (ts_requestID t) ?i ?name ?args
      (interruptedToolResultText ?name) (itc_ReasoningContent p) RawEmpty"
    let ?zs = "(if ?i \<in> set (ts_calls t) then [] else [call]) @ (if ?i \<in> set (ts_results t) then [] else [result])"
    note c = new_call [OF _ assms call_def] and r = new_result [OF result_def]
    have "partial_step t p (es, seen) = (es @ ?zs, ?i # seen)"
      using False by (simp add: partial_step_def Let_def call_def result_def)
    moreover have "\<forall>e \<in> set ?zs. recordable (ts_turnSeq t) e" using c r by simp
    moreover have "result_ids (ts_turnSeq t) ?zs = (if ?i \<in> set (ts_results t) then [] else [?i])"
      using c r False by (simp only: ids_append) simp
    moreover have "call_ids (ts_turnSeq t) ?zs = (if ?i \<in> set (ts_calls t) then [] else [?i])"
      using c r False by (simp only: ids_append) simp
    ultimately show ?thesis by (intro exI [of _ ?zs] exI [of _ "?i # seen"]) (auto simp: covered_def)
  qed
qed

lemma exec_answers:
  "answers t (trim_space (pe_ToolCallID p) \<noteq> [] \<and> trim_space (visiblePendingExecToolName p) \<noteq> []) (trim_space (pe_ToolCallID p)) (exec_step t p)"
proof (rule answers_extend)
  fix es seen assume ok: "built_ok t (es, seen)"
  let ?i = "trim_space (pe_ToolCallID p)" and ?n = "trim_space (visiblePendingExecToolName p)"
  let ?zs = "call_and_result t ?i ?n (raw_text (ts_lib t) (visiblePendingExecArgsJSON p)) (pe_ReasoningContent p)"
  consider (skip) "?i = [] \<or> ?n = [] \<or> ?i \<in> set seen" | (old) "?i \<in> set (ts_results t)" "\<not> (?i = [] \<or> ?n = [] \<or> ?i \<in> set seen)"
    | (new) "?i \<noteq> []" "?n \<noteq> []" "?i \<notin> set seen" "?i \<notin> set (ts_results t)" by blast
  then show "\<exists>zs seen'. exec_step t p (es, seen) = (es @ zs, seen') \<and> (\<forall>e \<in> set zs. recordable (ts_turnSeq t) e) \<and>
      set (result_ids (ts_turnSeq t) zs) \<inter> set (ts_results t) = {} \<and> (\<forall>k \<in> set seen'. k \<in> set seen \<or> covered t (es @ zs) k) \<and>
      (?i \<noteq> [] \<and> ?n \<noteq> [] \<longrightarrow> covered t (es @ zs) ?i)"
  proof cases
    case skip
    then have "exec_step t p (es, seen) = (es @ [], seen)" by (simp add: exec_step_def Let_def)
    moreover have "?i \<noteq> [] \<and> ?n \<noteq> [] \<longrightarrow> covered t (es @ []) ?i" using skip ok by (auto simp: built_ok_def)
    ultimately show ?thesis by (intro exI [of _ "[]"] exI [of _ seen]) simp
  next
    case old
    then have "exec_step t p (es, seen) = (es @ [], ?i # seen)" by (simp add: exec_step_def Let_def)
    with old show ?thesis by (intro exI [of _ "[]"] exI [of _ "?i # seen"]) (simp add: covered_def)
  next
    case new
    then have "exec_step t p (es, seen) = (es @ ?zs, ?i # seen)" by (simp add: exec_step_def Let_def)
    moreover have "covered t (es @ ?zs) ?i" using new(1) by (simp add: call_and_result_covers)
    ultimately show ?thesis using new call_and_result_spec [OF trim_space_idem new(1)]
      by (intro exI [of _ ?zs] exI [of _ "?i # seen"]) simp
  qed
qed

lemma interaction_answers:
  "answers t (trim_space (pi_ToolCallID p) \<noteq> [] \<and> trim_space (deriveToolNameFromPendingInteraction p) \<noteq> [])
     (trim_space (pi_ToolCallID p)) (interaction_step t p)"
proof (rule answers_extend)
  fix es seen assume ok: "built_ok t (es, seen)"
  let ?i = "trim_space (pi_ToolCallID p)" and ?n = "trim_space (deriveToolNameFromPendingInteraction p)"
  let ?zs = "call_and_result t ?i ?n (raw_text (ts_lib t) (pi_ArgsJSON p)) (pi_ReasoningContent p)"
  consider (skip) "?i = [] \<or> ?n = []" | (old) "?i \<in> set (ts_results t)" "\<not> (?i = [] \<or> ?n = [])"
    | (new) "?i \<noteq> []" "?n \<noteq> []" "?i \<notin> set (ts_results t)" by blast
  then show "\<exists>zs seen'. interaction_step t p (es, seen) = (es @ zs, seen') \<and> (\<forall>e \<in> set zs. recordable (ts_turnSeq t) e) \<and>
      set (result_ids (ts_turnSeq t) zs) \<inter> set (ts_results t) = {} \<and> (\<forall>k \<in> set seen'. k \<in> set seen \<or> covered t (es @ zs) k) \<and>
      (?i \<noteq> [] \<and> ?n \<noteq> [] \<longrightarrow> covered t (es @ zs) ?i)"
  proof cases
    case skip
    then have "interaction_step t p (es, seen) = (es @ [], seen)" by (simp add: interaction_step_def Let_def)
    with skip show ?thesis by (intro exI [of _ "[]"] exI [of _ seen]) auto
  next
    case old
    then have "interaction_step t p (es, seen) = (es @ [], ?i # seen)" by (simp add: interaction_step_def Let_def)
    with old show ?thesis by (intro exI [of _ "[]"] exI [of _ "?i # seen"]) (simp add: covered_def)
  next
    case new
    then have "interaction_step t p (es, seen) = (es @ ?zs, ?i # seen)" by (simp add: interaction_step_def Let_def)
    moreover have "covered t (es @ ?zs) ?i" using new(1) by (simp add: call_and_result_covers)
    ultimately show ?thesis using new call_and_result_spec [OF trim_space_idem new(1)]
      by (intro exI [of _ ?zs] exI [of _ "?i # seen"]) simp
  qed
qed

section \<open>All entries\<close>

text \<open>The tool calls an interruption finds open, by their trimmed ids: the partial calls
  announced since the run began, the pending executions that have a tool name the model knows, given with the call or
  derived from the kind of the execution, and the pending interactions of a known kind.\<close>

definition open_calls :: "ActiveStream \<Rightarrow> string list" where
  "open_calls s = filter (\<lambda>i. i \<noteq> []) (
     map (\<lambda>p. trim_space (itc_ToolCallID p)) (map snd (entries (st_PartialToolCalls s))) @
     map (\<lambda>p. trim_space (pe_ToolCallID p))
       (filter (\<lambda>p. trim_space (visiblePendingExecToolName p) \<noteq> []) (map snd (entries (st_PendingExecs s)))) @
     map (\<lambda>p. trim_space (pi_ToolCallID p))
       (filter (\<lambda>p. trim_space (deriveToolNameFromPendingInteraction p) \<noteq> []) (map snd (entries (st_PendingInteractions s)))))"

text \<open>The stages of an edit are executions of kinds that have no tool name.\<close>

lemma hidden_stage_skipped:
  assumes "pe_ExecKind p \<in> {''patch_edit_read'', ''patch_edit_write'', ''patch_edit_post_read''}" "pe_VisibleToolName p = []"
  shows "exec_step t p b = b"
proof -
  have "deriveToolNameFromPendingExec p = []" using assms(1) by (auto simp: deriveToolNameFromPendingExec_def) code_simp+
  then show ?thesis by (simp add: exec_step_def visiblePendingExecToolName_def assms(2) split: prod.split)
qed

text \<open>No other call is answered.\<close>

lemma answered_fold:
  assumes "\<And>p b. p \<in> set ps \<Longrightarrow> set (result_ids turn (fst (f p b))) \<subseteq> set (result_ids turn (fst b)) \<union> A"
  shows "set (result_ids turn (fst (fold f ps b))) \<subseteq> set (result_ids turn (fst b)) \<union> A"
  using assms
proof (induction ps arbitrary: b)
  case (Cons p ps)
  have "set (result_ids turn (fst (fold f ps (f p b)))) \<subseteq> set (result_ids turn (fst (f p b))) \<union> A"
    by (rule Cons.IH) (use Cons.prems in simp)
  then show ?case using Cons.prems [of p b] by auto
qed simp

lemma partial_only:
  assumes "itc_ToolCall p \<noteq> RawInvalid"
  shows "set (result_ids (ts_turnSeq t) (fst (partial_step t p b)))
    \<subseteq> set (result_ids (ts_turnSeq t) (fst b)) \<union> ({trim_space (itc_ToolCallID p)} - {[]})"
  using new_call(3) [OF _ assms refl, of RawEmpty "ts_turnSeq t"] new_result(2) [OF refl, of "ts_turnSeq t"]
  by (cases b) (auto simp: partial_step_def Let_def)

lemma exec_only:
  "set (result_ids (ts_turnSeq t) (fst (exec_step t p b))) \<subseteq> set (result_ids (ts_turnSeq t) (fst b)) \<union>
     (if trim_space (visiblePendingExecToolName p) = [] then {} else {trim_space (pe_ToolCallID p)} - {[]})"
  using call_and_result_spec(2) [OF trim_space_idem] by (cases b) (auto simp: exec_step_def Let_def)

lemma interaction_only:
  "set (result_ids (ts_turnSeq t) (fst (interaction_step t p b))) \<subseteq> set (result_ids (ts_turnSeq t) (fst b)) \<union>
     (if trim_space (deriveToolNameFromPendingInteraction p) = [] then {} else {trim_space (pi_ToolCallID p)} - {[]})"
  using call_and_result_spec(2) [OF trim_space_idem] by (cases b) (auto simp: interaction_step_def Let_def)

lemma interrupted_text_answers [simp]: "result_ids turn (interrupted_text latest s) = []"
  by (simp add: interrupted_text_def Let_def newAssistantTextEntryWithProviderMetadata_def new_entry_def result_ids_def turn_ids_def
      List.map_filter_def)

lemma open_calls_mem:
  "p \<in> snd ` set (entries (st_PartialToolCalls s)) \<Longrightarrow> {trim_space (itc_ToolCallID p)} - {[]} \<subseteq> set (open_calls s)"
  "e \<in> snd ` set (entries (st_PendingExecs s)) \<Longrightarrow>
     (if trim_space (visiblePendingExecToolName e) = [] then {} else {trim_space (pe_ToolCallID e)} - {[]}) \<subseteq> set (open_calls s)"
  "i \<in> snd ` set (entries (st_PendingInteractions s)) \<Longrightarrow>
     (if trim_space (deriveToolNameFromPendingInteraction i) = [] then {} else {trim_space (pi_ToolCallID i)} - {[]}) \<subseteq> set (open_calls s)"
  unfolding open_calls_def by auto

lemma interrupted_answers_open:
  assumes "\<forall>kp \<in> set (entries (st_PartialToolCalls s)). itc_ToolCall (snd kp) \<noteq> RawInvalid"
  shows "set (result_ids (st_TurnSeq s) (interrupted_entries lib latest s)) \<subseteq> set (open_calls s)"
proof -
  define t where "t = turn_scan_of lib latest s"
  have turn: "ts_turnSeq t = st_TurnSeq s" by (simp add: t_def turn_scan_of_def split: prod.split)
  let ?ids = "\<lambda>b. set (result_ids (st_TurnSeq s) (fst b))" and ?A = "set (open_calls s)"
  have partials: "?ids (fold (partial_step t) (sort_key (\<lambda>p. trim_space (itc_ToolCallID p)) (map snd (entries (st_PartialToolCalls s)))) b) \<subseteq> ?ids b \<union> ?A" for b
  proof (rule answered_fold)
    fix p b assume "p \<in> set (sort_key (\<lambda>p. trim_space (itc_ToolCallID p)) (map snd (entries (st_PartialToolCalls s))))"
    then have "p \<in> snd ` set (entries (st_PartialToolCalls s))" by simp
    then show "?ids (partial_step t p b) \<subseteq> ?ids b \<union> ?A"
      using partial_only [of p t b, unfolded turn] open_calls_mem(1) assms by blast
  qed
  have execs: "?ids (fold (exec_step t) (sort_key (\<lambda>p. trim_space (pe_ToolCallID p)) (map snd (entries (st_PendingExecs s)))) b) \<subseteq> ?ids b \<union> ?A" for b
  proof (rule answered_fold)
    fix p b assume "p \<in> set (sort_key (\<lambda>p. trim_space (pe_ToolCallID p)) (map snd (entries (st_PendingExecs s))))"
    then have "p \<in> snd ` set (entries (st_PendingExecs s))" by simp
    then show "?ids (exec_step t p b) \<subseteq> ?ids b \<union> ?A" using exec_only [of t p b, unfolded turn] open_calls_mem(2) by blast
  qed
  have interactions: "?ids (fold (interaction_step t) (sort_key (\<lambda>p. trim_space (pi_ToolCallID p)) (map snd (entries (st_PendingInteractions s)))) b) \<subseteq> ?ids b \<union> ?A" for b
  proof (rule answered_fold)
    fix p b assume "p \<in> set (sort_key (\<lambda>p. trim_space (pi_ToolCallID p)) (map snd (entries (st_PendingInteractions s))))"
    then have "p \<in> snd ` set (entries (st_PendingInteractions s))" by simp
    then show "?ids (interaction_step t p b) \<subseteq> ?ids b \<union> ?A" using interaction_only [of t p b, unfolded turn] open_calls_mem(3) by blast
  qed
  have start: "?ids (interrupted_text latest s, []) = {}" by simp
  show ?thesis unfolding interrupted_entries_def Let_def t_def [symmetric]
    by (rule subset_trans [OF interactions Un_least [OF subset_trans [OF execs Un_least [OF subset_trans [OF partials]]] subset_refl]])
      (simp_all only: start Un_empty_left subset_refl)
qed

lemma interrupted_text_ok:
  assumes "st_ProviderAccumulatedReasoningSummary s \<noteq> RawInvalid" "ts_turnSeq t = st_TurnSeq s"
  shows "built_ok t (interrupted_text latest s, [])"
  using assms by (simp add: built_ok_def interrupted_text_def Let_def recordable_def quiet_def canceledReplayPolicyForEntry_def newAssistantTextEntryWithProviderMetadata_def
      new_entry_def or_nil_def marshal_assistant_text_def marshal_object_def result_ids_def turn_ids_def List.map_filter_def)

lemma interrupted_entries_spec:
  assumes "\<forall>kp \<in> set (entries (st_PartialToolCalls s)). itc_ToolCall (snd kp) \<noteq> RawInvalid"
    and "st_ProviderAccumulatedReasoningSummary s \<noteq> RawInvalid"
  shows "\<forall>e \<in> set (interrupted_entries lib latest s). recordable (st_TurnSeq s) e"
    "\<forall>i \<in> set (open_calls s). covered (turn_scan_of lib latest s) (interrupted_entries lib latest s) i"
    "set (result_ids (st_TurnSeq s) (interrupted_entries lib latest s)) \<inter> set (ts_results (turn_scan_of lib latest s)) = {}"
proof -
  define t where "t = turn_scan_of lib latest s"
  have turn: "ts_turnSeq t = st_TurnSeq s" by (simp add: t_def turn_scan_of_def split: prod.split)
  define ps where "ps = sort_key (\<lambda>p. trim_space (itc_ToolCallID p)) (map snd (entries (st_PartialToolCalls s)))"
  define xs where "xs = sort_key (\<lambda>p. trim_space (pe_ToolCallID p)) (map snd (entries (st_PendingExecs s)))"
  define qs where "qs = sort_key (\<lambda>p. trim_space (pi_ToolCallID p)) (map snd (entries (st_PendingInteractions s)))"
  have sets: "set ps = snd ` set (entries (st_PartialToolCalls s))" "set xs = snd ` set (entries (st_PendingExecs s))"
    "set qs = snd ` set (entries (st_PendingInteractions s))" by (simp_all add: ps_def xs_def qs_def)
  let ?b = "(interrupted_text latest s, [])" and ?p = "fold (partial_step t) ps" and ?x = "fold (exec_step t) xs"
    and ?i = "fold (interaction_step t) qs"
  have es: "interrupted_entries lib latest s = fst (?i (?x (?p ?b)))"
    by (simp add: interrupted_entries_def Let_def t_def ps_def xs_def qs_def)
  have ok: "itc_ToolCall p \<noteq> RawInvalid" if "p \<in> set ps" for p using that assms(1) sets by auto
  note p = answers_fold [where f = "partial_step t" and ps = ps, OF partial_answers [OF ok] interrupted_text_ok [OF assms(2) turn]]
  note x = answers_fold [where f = "exec_step t" and ps = xs, OF exec_answers conjunct1 [OF p]]
  note i = answers_fold [where f = "interaction_step t" and ps = qs, OF interaction_answers conjunct1 [OF x]]
  show "\<forall>e \<in> set (interrupted_entries lib latest s). recordable (st_TurnSeq s) e"
    "set (result_ids (st_TurnSeq s) (interrupted_entries lib latest s)) \<inter> set (ts_results (turn_scan_of lib latest s)) = {}"
    using conjunct1 [OF i] turn by (simp_all add: es built_ok_def flip: t_def)
  show "\<forall>k \<in> set (open_calls s). covered (turn_scan_of lib latest s) (interrupted_entries lib latest s) k"
  proof
    fix k assume "k \<in> set (open_calls s)"
    then have "k \<noteq> []" and k: "(\<exists>q \<in> set ps. k = trim_space (itc_ToolCallID q)) \<or>
      (\<exists>q \<in> set xs. k = trim_space (pe_ToolCallID q) \<and> trim_space (visiblePendingExecToolName q) \<noteq> []) \<or>
      (\<exists>q \<in> set qs. k = trim_space (pi_ToolCallID q) \<and> trim_space (deriveToolNameFromPendingInteraction q) \<noteq> [])"
      by (auto simp: open_calls_def simp flip: sets simp del: map_map list.map_comp)
    from k have "covered t (fst (?i (?x (?p ?b)))) k"
      using \<open>k \<noteq> []\<close> p x i by (elim disjE bexE) (auto simp del: split_paired_All)
    then show "covered (turn_scan_of lib latest s) (interrupted_entries lib latest s) k" by (simp add: es flip: t_def)
  qed
qed

section \<open>Writing them\<close>

lemma turn_ids_number [simp]:
  "turn_ids kind dec turn (number_from now n (resetEntrySequences es)) = turn_ids kind dec turn es"
proof (induction es arbitrary: n)
  case (Cons e es)
  have cons: "turn_ids kind dec turn (x # xs) = turn_ids kind dec turn [x] @ turn_ids kind dec turn xs" for x xs
    using turn_ids_append [of kind dec turn "[x]" xs] by simp
  have "turn_ids kind dec turn [(stamp now (e\<lparr>he_Seq := 0\<rparr>))\<lparr>he_Seq := n\<rparr>] = turn_ids kind dec turn [e]"
    by (auto simp: turn_ids_def List.map_filter_def stamp_def)
  with Cons show ?case by (simp add: resetEntrySequences_def cons [of _ "number_from _ _ _"] cons [of e es])
qed (simp add: resetEntrySequences_def)

lemma recordable_kept:
  "\<forall>e \<in> set es. recordable turn e \<Longrightarrow> filterDuplicatePromptContextEntries sha old (resetEntrySequences es) = resetEntrySequences es"
proof -
  assume r: "\<forall>e \<in> set es. recordable turn e"
  have "filter_new (historyPromptContextKey sha) seen (resetEntrySequences es) = resetEntrySequences es" for seen
    using r
  proof (induction es arbitrary: seen)
    case (Cons e es)
    have "trim_space (he_Kind e) \<noteq> ''prompt_context''" using Cons.prems by (auto simp: recordable_def)
    then show ?case using Cons by (simp add: resetEntrySequences_def historyPromptContextKey_def)
  qed (simp add: resetEntrySequences_def)
  then show ?thesis by (simp add: filterDuplicatePromptContextEntries_def)
qed

lemma recordable_fresh:
  "\<forall>e \<in> set es. recordable turn e \<Longrightarrow>
   fresh_entries env c (resetEntrySequences es) = number_from (se_now env) (cf_NextEntrySeq c) (resetEntrySequences es)"
  by (simp add: fresh_entries_def recordable_kept)

lemma recordable_stored: "\<forall>e \<in> set es. recordable turn e \<Longrightarrow> stored_entries es = Some es"
proof (induction es)
  case (Cons e es)
  then obtain j where "he_Payload e = RawJson j" by (auto simp: recordable_def)
  moreover from this have "e\<lparr>he_Payload := RawJson j\<rparr> = e" by (cases e) simp
  ultimately show ?case using Cons by (simp add: stored_payload_def)
qed simp

lemma marker_decodes:
  "unmarshal_metadata (he_Payload (newInterruptedTurnMarkerEntry turn req m)) =
     Some (''interrupted_turn'', [(''model_call_id'', JString (trim_space m)), (''status'', JString ''interrupted'')])"
proof -
  have keys: "plain_key ''type''" "plain_key ''value''" "trim_space ''interrupted_turn'' = ''interrupted_turn''" by code_simp+
  show ?thesis
    by (simp add: newInterruptedTurnMarkerEntry_def newMetadataEntry_def new_entry_def unmarshal_metadata_def key_matches_plain keys)
qed

lemma marker_recordable: "recordable turn (newInterruptedTurnMarkerEntry turn req m)"
proof -
  have "trim_space ''interrupted_turn'' = ''interrupted_turn''" by code_simp
  then show ?thesis using marker_decodes [of turn req m]
    by (simp add: recordable_def quiet_def canceledReplayPolicyForEntry_def) (simp add: newInterruptedTurnMarkerEntry_def newMetadataEntry_def new_entry_def)
qed

lemma marker_found:
  assumes "0 < turn" "cf_Entries c' = cf_Entries c @ number_from now n (resetEntrySequences (newInterruptedTurnMarkerEntry turn req m # es))"
  shows "interruptedTurnMarkerExists (Some c') turn (trim_space m)"
proof -
  let ?m = "newInterruptedTurnMarkerEntry turn req m" and ?e = "(stamp now ((newInterruptedTurnMarkerEntry turn req m)\<lparr>he_Seq := 0\<rparr>))\<lparr>he_Seq := n\<rparr>"
  have "?e \<in> set (cf_Entries c')" using assms(2) by (simp add: resetEntrySequences_def)
  moreover have "he_TurnSeq ?e = turn" "he_Kind ?e = ''metadata''" "he_Payload ?e = he_Payload ?m"
    by (simp_all add: stamp_def newInterruptedTurnMarkerEntry_def newMetadataEntry_def new_entry_def)
  moreover have "trim_space ''interrupted_turn'' = ''interrupted_turn''" by code_simp
  ultimately show ?thesis using assms(1) marker_decodes [of turn req m]
    by (auto simp: interruptedTurnMarkerExists_def list_ex_iff obj_get_def readStringValue_def intro!: bexI [of _ ?e])
qed

lemma marker_ids: "call_ids turn (newInterruptedTurnMarkerEntry t r m # es) = call_ids turn es"
  "result_ids turn (newInterruptedTurnMarkerEntry t r m # es) = result_ids turn es"
  by (simp_all add: call_ids_def result_ids_def turn_ids_def List.map_filter_def newInterruptedTurnMarkerEntry_def newMetadataEntry_def new_entry_def)

lemma ids_number [simp]:
  "call_ids turn (number_from now n (resetEntrySequences es)) = call_ids turn es"
  "result_ids turn (number_from now n (resetEntrySequences es)) = result_ids turn es"
  by (simp_all add: call_ids_def result_ids_def)

lemma turn_scan_some:
  assumes "0 < st_TurnSeq s"
  shows "ts_results (turn_scan_of lib (Some c) s) = result_ids (st_TurnSeq s) (cf_Entries c)"
    "ts_calls (turn_scan_of lib (Some c) s) = call_ids (st_TurnSeq s) (cf_Entries c)"
    "ts_turnSeq (turn_scan_of lib latest s) = st_TurnSeq s"
  using assms by (simp_all add: turn_scan_of_def interruptedTurnToolIDs_def split: prod.split)

text \<open>The part of an interruption that writes.\<close>

lemma interruption_recorded:
  assumes "mirrors c (st cid)" "disk_ok (st cid)" "validateConversationID (se_separator env) conversationID = Inr cid"
    and "0 < st_TurnSeq s" "st_TurnSeq s < max_i64" "cf_NextEntrySeq c + int (length es) < max_i64" "0 < se_now env"
    and "\<forall>e \<in> set es. recordable (st_TurnSeq s) e"
    and "appendConversationEntries env conversationID (newInterruptedTurnMarkerEntry (st_TurnSeq s) req m # es) id (Some st) (Some c) = (st', checkpoint, Inr assigned)"
  shows "\<exists>d c'. st' = Some d \<and> checkpoint = Some c' \<and> LoadConversation env conversationID d = (d, Inr (Some c')) \<and>
    cf_Entries c' = cf_Entries c @ number_from (se_now env) (cf_NextEntrySeq c)
      (resetEntrySequences (newInterruptedTurnMarkerEntry (st_TurnSeq s) req m # es))"
proof -
  let ?es = "newInterruptedTurnMarkerEntry (st_TurnSeq s) req m # es"
  have r: "\<forall>e \<in> set ?es. recordable (st_TurnSeq s) e" using assms(8) marker_recordable by simp
  then have t: "turns_ok ?es" "\<forall>e \<in> set ?es. 0 \<le> he_CreatedAt e" using assms(4,5) by (auto simp: turns_ok_def recordable_def)
  have n: "cf_NextEntrySeq c + int (length ?es) \<le> max_i64" using assms(6) by simp
  have "\<exists>d c'. st' = Some d \<and> checkpoint = Some c' \<and> mirrors c' (d cid) \<and> disk_ok (d cid) \<and> cf_Entries c' = cf_Entries c @ assigned \<and>
      assigned = fresh_entries env c (resetEntrySequences ?es) \<and> LoadConversation env conversationID d = (d, Inr (Some c'))"
    by (rule append_through_checkpoint [OF assms(1-3) t(1) _ n recordable_stored [OF r] assms(7) t(2) assms(9)]) simp
  then show ?thesis unfolding recordable_fresh [OF r] by blast
qed

text \<open>C19. An interrupted turn leaves no open call without a result.  A call is open that was announced as a
  partial call since the run began, that waits for an execution with a tool name the model knows, or
  that waits for an interaction of a known kind; the hidden stages of an edit, whose kinds have no tool
  name, do not make a call open by themselves.  When the stream's checkpoint is what the store loads and recording
  the interruption succeeds, then what was stored stays at the front of the stored conversation, the
  calls of the turn with a result are exactly those that had one stored before and the open ones, each
  open call that had no result stored before has a stored call, no call with a result stored before gets
  a further one, and recording the interruption again changes nothing.  That a call which had no
  result stored before gets only one is not claimed, and does not hold (C40).\<close>

theorem interrupted_turn_answered:
  assumes "mirrors c (st cid)" "disk_ok (st cid)" "validateConversationID (se_separator env) (trim_space (st_ConversationID s)) = Inr cid"
    and "se_mkdir env" "se_lock env" "0 < se_now env" "0 < st_TurnSeq s" "st_TurnSeq s < max_i64"
    and "cf_NextEntrySeq c + int (length (interrupted_entries lib (Some c) s)) < max_i64"
    and "\<forall>kp \<in> set (entries (st_PartialToolCalls s)). itc_ToolCall (snd kp) \<noteq> RawInvalid"
    and "st_ProviderAccumulatedReasoningSummary s \<noteq> RawInvalid"
    and "\<not> st_InterruptedTurnFinalized s"
    and "\<not> interruptedTurnMarkerExists (Some c) (st_TurnSeq s) (trim_space (st_CurrentModelCallID s))"
    and "finalizeInterruptedTurn env lib id (Some st) (Some c) s = (st', checkpoint, s', None)"
  shows "\<exists>d c'. st' = Some d \<and> checkpoint = Some c' \<and>
    LoadConversation env (trim_space (st_ConversationID s)) d = (d, Inr (Some c')) \<and> prefix (cf_Entries c) (cf_Entries c') \<and>
    set (result_ids (st_TurnSeq s) (cf_Entries c')) = set (result_ids (st_TurnSeq s) (cf_Entries c)) \<union> set (open_calls s) \<and>
    set (open_calls s) \<subseteq> set (result_ids (st_TurnSeq s) (cf_Entries c)) \<union> set (call_ids (st_TurnSeq s) (cf_Entries c')) \<and>
    (\<forall>i \<in> set (result_ids (st_TurnSeq s) (cf_Entries c)).
       count_list (result_ids (st_TurnSeq s) (cf_Entries c')) i = count_list (result_ids (st_TurnSeq s) (cf_Entries c)) i) \<and>
    finalizeInterruptedTurn env lib id (Some d) (Some c') (s'\<lparr>st_InterruptedTurnFinalized := False\<rparr>) = (Some d, Some c', s', None)"
proof -
  let ?cid = "trim_space (st_ConversationID s)" and ?m = "trim_space (st_CurrentModelCallID s)"
  let ?es = "interrupted_entries lib (Some c) s" and ?t = "st_TurnSeq s"
  have load: "LoadConversation env ?cid st = (st, Inr (Some c))" using assms(1-5) by (rule mirrors_load)
  note spec = interrupted_entries_spec [OF assms(10,11), of lib "Some c", unfolded covered_def turn_scan_some [OF assms(7)]]
  note only = interrupted_answers_open [OF assms(10), of lib "Some c"]
  have again: "interrupted_entries lib latest (s\<lparr>st_InterruptedTurnFinalized := b\<rparr>) = interrupted_entries lib latest s" for latest b
    by (simp add: interrupted_entries_def interrupted_text_def turn_scan_of_def Let_def)
  show ?thesis
  proof (cases "?es = []")
    case True
    then have r: "st' = Some st" "checkpoint = Some c" "s' = s\<lparr>st_InterruptedTurnFinalized := True\<rparr>"
      using assms(12-14) load by (simp_all add: finalizeInterruptedTurn_def)
    show ?thesis using r load spec True assms(13) again by (intro exI [of _ st] exI [of _ c]) (auto simp: finalizeInterruptedTurn_def)
  next
    case False
    then obtain e es where es: "?es = e # es" by (cases ?es) auto
    obtain assigned where a: "appendConversationEntries env ?cid (newInterruptedTurnMarkerEntry ?t (trim_space (st_RequestID s)) ?m # ?es)
        id (Some st) (Some c) = (st', checkpoint, Inr assigned)" "s' = s\<lparr>st_InterruptedTurnFinalized := True\<rparr>"
      using assms(12-14) load es by (auto simp: finalizeInterruptedTurn_def Let_def split: prod.splits sum.splits)
    from interruption_recorded [OF assms(1-3,7-9,6) spec(1) a(1)] obtain d c' where d: "st' = Some d" "checkpoint = Some c'"
      "LoadConversation env ?cid d = (d, Inr (Some c'))"
      "cf_Entries c' = cf_Entries c @ number_from (se_now env) (cf_NextEntrySeq c)
        (resetEntrySequences (newInterruptedTurnMarkerEntry ?t (trim_space (st_RequestID s)) ?m # ?es))" by blast
    have ids: "result_ids ?t (cf_Entries c') = result_ids ?t (cf_Entries c) @ result_ids ?t ?es"
      "call_ids ?t (cf_Entries c') = call_ids ?t (cf_Entries c) @ call_ids ?t ?es"
      unfolding d(4) by (simp_all only: ids_append ids_number marker_ids)
    have "count_list (result_ids ?t ?es) i = 0" if "i \<in> set (result_ids ?t (cf_Entries c))" for i
      using that spec(3) by (auto simp: count_list_0_iff)
    moreover have "interruptedTurnMarkerExists (Some c') ?t ?m" using marker_found [OF assms(7) d(4)] by simp
    then have "finalizeInterruptedTurn env lib id (Some d) (Some c') (s'\<lparr>st_InterruptedTurnFinalized := False\<rparr>) = (Some d, Some c', s', None)"
      using d(3) a(2) by (simp add: finalizeInterruptedTurn_def Let_def)
    moreover have "set (result_ids ?t (cf_Entries c')) = set (result_ids ?t (cf_Entries c)) \<union> set (open_calls s)"
      using spec(2) only unfolding ids by auto
    ultimately show ?thesis using d ids spec(2) by (intro exI [of _ d] exI [of _ c']) auto
  qed
qed

section \<open>Interactions\<close>

definition results_for :: "int \<Rightarrow> string \<Rightarrow> built \<Rightarrow> nat" where
  "results_for turn i b = count_list (result_ids turn (fst b)) i"

lemma results_fold:
  assumes "\<And>p b. results_for turn i b \<le> results_for turn i (f p b)"
  shows "results_for turn i b \<le> results_for turn i (fold f ps b)"
    "p \<in> set ps \<Longrightarrow> (\<And>b. results_for turn i b < results_for turn i (f p b)) \<Longrightarrow> results_for turn i b < results_for turn i (fold f ps b)"
proof -
  show mono: "results_for turn i b \<le> results_for turn i (fold f ps b)" for ps b
  proof (induction ps arbitrary: b)
    case (Cons p ps)
    show ?case using assms [of b p] Cons [of "f p b"] by simp
  qed simp
  assume "p \<in> set ps" and p: "\<And>b. results_for turn i b < results_for turn i (f p b)"
  then obtain xs ys where ps: "ps = xs @ p # ys" by (auto simp: in_set_conv_decomp)
  show "results_for turn i b < results_for turn i (fold f ps b)"
    using mono [of b xs] p [of "fold f xs b"] mono [of "f p (fold f xs b)" ys] by (simp add: ps)
qed

lemma results_append: "results_for turn i (es, seen) \<le> results_for turn i (es @ zs, seen')"
  by (simp add: results_for_def count_list_append)

lemma results_grow:
  "results_for (ts_turnSeq t) i b \<le> results_for (ts_turnSeq t) i (partial_step t p b)"
  "results_for (ts_turnSeq t) i b \<le> results_for (ts_turnSeq t) i (exec_step t x b)"
  "results_for (ts_turnSeq t) i b \<le> results_for (ts_turnSeq t) i (interaction_step t q b)"
  by (cases b; simp add: partial_step_def exec_step_def interaction_step_def Let_def results_for_def count_list_append)+

text \<open>C40. A call of an interaction tool that was streamed is answered twice.  The table of partial calls keeps a
  call after it has been invoked, and the loop over the pending interactions does not look at the calls
  seen before: when a turn is interrupted while the user is asked, the call gets two results.\<close>

theorem interaction_answered_twice:
  assumes "(k, p) \<in> set (entries (st_PartialToolCalls s))" "(j, q) \<in> set (entries (st_PendingInteractions s))"
    and "trim_space (itc_ToolCallID p) = i" "trim_space (pi_ToolCallID q) = i" "i \<noteq> []"
    and "trim_space (deriveToolNameFromPendingInteraction q) \<noteq> []"
    and "i \<notin> set (snd (interruptedTurnToolIDs latest (st_TurnSeq s)))"
  shows "2 \<le> count_list (result_ids (st_TurnSeq s) (interrupted_entries lib latest s)) i"
proof -
  define t where "t = turn_scan_of lib latest s"
  have t: "ts_turnSeq t = st_TurnSeq s" "i \<notin> set (ts_results t)"
    using assms(7) by (auto simp: t_def turn_scan_of_def split: prod.split)
  define ps where "ps = sort_key (\<lambda>p. trim_space (itc_ToolCallID p)) (map snd (entries (st_PartialToolCalls s)))"
  define xs where "xs = sort_key (\<lambda>p. trim_space (pe_ToolCallID p)) (map snd (entries (st_PendingExecs s)))"
  define qs where "qs = sort_key (\<lambda>p. trim_space (pi_ToolCallID p)) (map snd (entries (st_PendingInteractions s)))"
  have mem: "p \<in> set ps" "q \<in> set qs" using assms(1,2) by (force simp: ps_def qs_def)+
  let ?c = "results_for (ts_turnSeq t) i" and ?b = "(interrupted_text latest s, [])"
  let ?p = "fold (partial_step t) ps ?b" and ?x = "fold (exec_step t) xs (fold (partial_step t) ps (interrupted_text latest s, []))"
  note one = new_result(2) [OF refl, of "ts_turnSeq t" _ i]
  have ti: "trim_space i = i" using assms(3) trim_space_idem by blast
  have "?c b < ?c (partial_step t p b)" for b
  proof -
    obtain es seen where b: "b = (es, seen)" by (cases b)
    have "\<exists>zs seen' name args txt rc. partial_step t p b = (es @ zs @ [newToolResultEntry (ts_turnSeq t) (ts_requestID t) i name args txt rc RawEmpty], seen')"
      using assms(3,5) t(2) by (auto simp: b partial_step_def Let_def)
    then show ?thesis using one ti assms(5) by (auto simp: b results_for_def count_list_append)
  qed
  with mem(1) have "?c ?b < ?c ?p" by (intro results_fold(2) [OF results_grow(1)])
  moreover have "?c ?p \<le> ?c ?x" by (rule results_fold(1) [OF results_grow(2)])
  moreover have "?c b < ?c (interaction_step t q b)" for b
    using assms(4-6) t(2) call_and_result_spec(2) [OF ti assms(5)]
    by (cases b) (simp add: interaction_step_def Let_def results_for_def count_list_append)
  with mem(2) have "?c ?x < ?c (fold (interaction_step t) qs ?x)" by (intro results_fold(2) [OF results_grow(3)])
  ultimately have "2 \<le> ?c (fold (interaction_step t) qs ?x)" by linarith
  then show ?thesis
    by (simp add: results_for_def interrupted_entries_def Let_def t(1) flip: t_def ps_def xs_def qs_def)
qed

section \<open>A canceled question\<close>

definition demo_lib :: interrupt_lib where
  "demo_lib = \<lparr>namer = (\<lambda>_. []), raw_text = (\<lambda>_. ''{}'')\<rparr>"

definition demo_asked :: ActiveStream where
  "demo_asked = (new_stream 3 ''r1'' ''c1'' 1 ''m'' ''m'' AGENT_MODE_AGENT ''hi'')\<lparr>
     st_PartialToolCalls := Some [(''t1'', \<lparr>itc_ToolCallID = ''t1'', itc_ToolName = ''CreatePlan'', itc_Arguments = ''{}'',
       itc_ReasoningContent = [], itc_ReasoningSignature = [], itc_ReasoningSignatureSource = [], itc_ProviderItemID = [],
       itc_ProviderCallID = [], itc_ProviderStatus = [], itc_ModelCallID = [], itc_ToolCall = RawEmpty\<rparr>)],
     st_PendingInteractions := Some [(''1'', \<lparr>pi_InteractionID = ''1'', pi_ProviderPass = 1, pi_ModelCallID = [], pi_ToolCallID = ''t1'',
       pi_ArgsJSON = RawEmpty, pi_ReasoningContent = [], pi_ReasoningSignature = [], pi_ReasoningSignatureSource = [],
       pi_InteractionKind = ''create_plan'', pi_OpenedAt = 3, pi_ArtifactPath = []\<rparr>)]\<rparr>"

lemma no_policies: "\<forall>e \<in> set es. canceledReplayPolicyForEntry e = None \<Longrightarrow> sanitizeCanceledReplayEntries es = es"
proof -
  assume "\<forall>e \<in> set es. canceledReplayPolicyForEntry e = None"
  then have "fold add_policy es m = m" for m by (induction es arbitrary: m) (simp_all add: add_policy_def)
  then show ?thesis by (simp add: sanitizeCanceledReplayEntries_def canceledReplayPolicies_def survives_def)
qed

lemma project_quiet: "\<forall>e \<in> set es. quiet e \<Longrightarrow> project_entries cd now es st = Inr st"
  by (induction es arbitrary: st) (auto simp: quiet_def Let_def raw_is_empty_def)

lemma write_quiet:
  assumes "\<forall>e \<in> set (cf_Entries c). quiet e" "stored_entries (cf_Entries c) = Some es" "se_context_write env = WriteOk" "se_state_write env = WriteOk"
  shows "\<exists>d' c'. writeConversationLocked env cid c d = (d', None, c')"
proof -
  have "sanitizeCanceledReplayEntries (cf_Entries c) = cf_Entries c" using assms(1) by (intro no_policies) (simp add: quiet_def)
  then have "projectConversationStructuredState cd now x = Inr emptyStructuredState" if "cf_Entries x = cf_Entries c" for cd now x
    using that project_quiet [OF assms(1)] by (simp add: projectConversationStructuredState_def checkpointProjectionEntries_def)
  then show ?thesis using assms(2-4)
    by (simp add: writeConversationLocked_def writeContextLocked_def writeConversationMetaLocked_def writeJSONFileAtomic_def
        refreshConversationRuntimeState_def restore_loop_def Let_def split: prod.split)
qed

lemma quiet_cong: "quiet ((stamp now (e\<lparr>he_Seq := m\<rparr>))\<lparr>he_Seq := n\<rparr>) = quiet e"
  by (simp add: quiet_def canceledReplayPolicyForEntry_def stamp_def)

lemma quiet_number: "\<forall>e \<in> set es. quiet e \<Longrightarrow> \<forall>e \<in> set (number_from now n (resetEntrySequences es)). quiet e"
  by (induction es arbitrary: n) (simp_all add: resetEntrySequences_def quiet_cong)

lemma payload_number:
  "\<forall>e \<in> set es. \<exists>j. he_Payload e = RawJson j \<Longrightarrow>
   \<forall>e \<in> set (number_from now n (resetEntrySequences es)). \<exists>j. he_Payload e = RawJson j"
  by (induction es arbitrary: n) (simp_all add: resetEntrySequences_def stamp_def)

lemma quiet_append:
  assumes "mirrors c (st cid)" "disk_ok (st cid)" "validateConversationID (se_separator env) conversationID = Inr cid" "se_mkdir env" "se_lock env"
    and "se_context_write env = WriteOk" "se_state_write env = WriteOk" "0 < cf_NextEntrySeq c" "cf_NextEntrySeq c + int (length es) \<le> max_i64"
    and "\<forall>e \<in> set es. recordable turn e" "es \<noteq> []" "\<forall>e \<in> set (cf_Entries c). quiet e"
  shows "\<exists>st' cp r. appendConversationEntries env conversationID es id (Some st) (Some c) = (st', cp, Inr r)"
proof -
  let ?es = "resetEntrySequences es" and ?new = "number_from (se_now env) (cf_NextEntrySeq c) (resetEntrySequences es)"
  have n: "normal c" "cloneConversationFile c = c" and d: "st cid = \<lparr>cd_state = FileOk (c\<lparr>cf_Entries := []\<rparr>), cd_context = FileOk (cf_Entries c)\<rparr>"
    using assms(1) by (simp_all add: mirrors_def)
  have ne: "?es \<noteq> []" using assms(11) by (simp add: resetEntrySequences_def)
  have body: "append_snapshot_body env c ?es cid (st cid) = append_to env cid cloneConversationFile ?es c (st cid)"
    using current_written [OF n d assms(2) ne] mirrors_current [OF assms(1)] assms(2) d by (simp add: append_body_def read_current)
  have fresh: "filterDuplicatePromptContextEntries (se_sha env) (cf_Entries c) ?es = ?es"
    by (rule recordable_kept [OF assms(10)])
  have "snd (appendEntriesInPlace (se_now env) ?es c) = ?new" "cf_Entries (fst (appendEntriesInPlace (se_now env) ?es c)) = cf_Entries c @ ?new"
    using assign_fresh [of ?es "cf_NextEntrySeq c"] assms(8,9) ne by (simp_all add: appendEntriesInPlace_def resetEntrySequences_def Let_def)
  then obtain c1 where c1: "appendEntriesInPlace (se_now env) ?es c = (c1, ?new)" "cf_Entries c1 = cf_Entries c @ ?new" by (metis prod.collapse)
  have "\<exists>d' c'. writeConversationLocked env cid (deriveConversationLoopState c1) (st cid) = (d', None, c')"
  proof (rule write_quiet)
    show "\<forall>e \<in> set (cf_Entries (deriveConversationLoopState c1)). quiet e"
      using assms(10,12) quiet_number [of es] c1(2) by (auto simp: recordable_def)
    have "\<forall>e \<in> set ?new. \<exists>j. he_Payload e = RawJson j" using assms(10) by (intro payload_number) (auto simp: recordable_def)
    then have "stored_entries ?new = Some ?new" by (auto simp: stored_fix_iff)
    then show "stored_entries (cf_Entries (deriveConversationLoopState c1)) = Some (cf_Entries c @ ?new)"
      using disk_ok_history [OF assms(2)] mirrors_current [OF assms(1)] c1(2) by (simp add: stored_entries_append)
  qed (use assms(6,7) in simp_all)
  then obtain d' c' where "append_snapshot_body env c ?es cid (st cid) = (d', Inr (Some c', ?new))"
    using ne c1 fresh body by (auto simp: append_to_def finish_write_def)
  then show ?thesis using assms(3-5,11) ne n(2) by (auto simp: appendConversationEntries_def AppendEntriesFromSnapshot_def locked_def)
qed

lemma demo_counts: "length (interrupted_entries demo_lib (Some demo_snapshot) demo_asked) = 4"
  "0 < cf_NextEntrySeq demo_snapshot" "cf_NextEntrySeq demo_snapshot < 10"
  by code_simp+

lemma demo_finalized:
  "\<exists>st' cp s'. finalizeInterruptedTurn store_env0 demo_lib id (Some (fst demo_append)) (Some demo_snapshot) demo_asked = (st', cp, s', None)"
proof -
  let ?es = "interrupted_entries demo_lib (Some demo_snapshot) demo_asked" and ?m = "newInterruptedTurnMarkerEntry 1 ''r1'' []"
  have d: "trim_space (st_ConversationID demo_asked) = ''c1''" "st_TurnSeq demo_asked = 1" "\<not> st_InterruptedTurnFinalized demo_asked"
    "trim_space (st_CurrentModelCallID demo_asked) = []" "trim_space (st_RequestID demo_asked) = ''r1''"
    "st_ProviderAccumulatedReasoningSummary demo_asked \<noteq> RawInvalid" by code_simp+
  have p: "\<forall>kp \<in> set (entries (st_PartialToolCalls demo_asked)). itc_ToolCall (snd kp) \<noteq> RawInvalid" by code_simp
  note n = demo_counts
  have q: "\<forall>e \<in> set (cf_Entries demo_snapshot). quiet e" by code_simp
  have w: "se_context_write store_env0 = WriteOk" "se_state_write store_env0 = WriteOk" by code_simp+
  have "\<exists>st' cp r. appendConversationEntries store_env0 ''c1'' (?m # ?es) id (Some (fst demo_append)) (Some demo_snapshot) = (st', cp, Inr r)"
  proof (rule quiet_append [of demo_snapshot "fst demo_append" "''c1''", OF demo_mirrors demo_valid demo_flags w n(2) _ _ _ q])
    show "\<forall>e \<in> set (?m # ?es). recordable 1 e" using interrupted_entries_spec(1) [OF p d(6)] marker_recordable by (simp add: d)
  qed (use n in simp_all)
  moreover have "LoadConversation store_env0 ''c1'' (fst demo_append) = (fst demo_append, Inr (Some demo_snapshot))"
    using demo_mirrors demo_valid demo_flags by (rule mirrors_load)
  moreover have "\<not> interruptedTurnMarkerExists (Some demo_snapshot) 1 []" by code_simp
  ultimately show ?thesis using n(1) by (auto simp: finalizeInterruptedTurn_def d Let_def split: list.split)
qed

theorem interrupted_turn_answered_witness:
  "\<exists>d c' s'. finalizeInterruptedTurn store_env0 demo_lib id (Some (fst demo_append)) (Some demo_snapshot) demo_asked = (Some d, Some c', s', None) \<and>
     ''t1'' \<in> set (result_ids 1 (cf_Entries c')) \<and> ''t1'' \<in> set (call_ids 1 (cf_Entries c'))"
proof -
  obtain st' cp s' where f: "finalizeInterruptedTurn store_env0 demo_lib id (Some (fst demo_append)) (Some demo_snapshot) demo_asked = (st', cp, s', None)"
    using demo_finalized by blast
  have d: "st_ConversationID demo_asked = ''c1''" "st_TurnSeq demo_asked = 1" "trim_space ''c1'' = ''c1''" "\<not> st_InterruptedTurnFinalized demo_asked"
    "st_ProviderAccumulatedReasoningSummary demo_asked \<noteq> RawInvalid" "0 < se_now store_env0" by code_simp+
  have p: "\<forall>kp \<in> set (entries (st_PartialToolCalls demo_asked)). itc_ToolCall (snd kp) \<noteq> RawInvalid" by code_simp
  have n: "cf_NextEntrySeq demo_snapshot + int (length (interrupted_entries demo_lib (Some demo_snapshot) demo_asked)) < max_i64"
    using demo_counts by simp
  have m: "\<not> interruptedTurnMarkerExists (Some demo_snapshot) 1 (trim_space (st_CurrentModelCallID demo_asked))"
    "''t1'' \<notin> set (result_ids 1 (cf_Entries demo_snapshot))" "''t1'' \<in> set (open_calls demo_asked)" by code_simp+
  have v: "validateConversationID (se_separator store_env0) (trim_space (st_ConversationID demo_asked)) = Inr ''c1''"
    using demo_valid by (simp add: d)
  have t: "0 < st_TurnSeq demo_asked" "st_TurnSeq demo_asked < max_i64" by (simp_all add: d)
  from interrupted_turn_answered [of demo_snapshot "fst demo_append" "''c1''", OF demo_mirrors v demo_flags d(6) t n p d(5,4) m(1) [folded d(2)] f]
  obtain d c' where "st' = Some d" "cp = Some c'" "set (open_calls demo_asked) \<subseteq> set (result_ids 1 (cf_Entries c'))"
    "set (open_calls demo_asked) \<subseteq> set (result_ids 1 (cf_Entries demo_snapshot)) \<union> set (call_ids 1 (cf_Entries c'))"
    unfolding d(2) by blast
  with f m show ?thesis by blast
qed

theorem interaction_answered_twice_witness:
  "2 \<le> count_list (result_ids 1 (interrupted_entries demo_lib (Some demo_snapshot) demo_asked)) ''t1''"
proof -
  obtain p q where p: "(''t1'', p) \<in> set (entries (st_PartialToolCalls demo_asked))" "(''1'', q) \<in> set (entries (st_PendingInteractions demo_asked))"
    "itc_ToolCallID p = ''t1''" "pi_ToolCallID q = ''t1''" "pi_InteractionKind q = ''create_plan''" by (simp add: demo_asked_def)
  have t: "trim_space ''t1'' = ''t1''" "trim_space ''create_plan'' = ''create_plan''" "trim_space ''CreatePlan'' = ''CreatePlan''"
    "st_TurnSeq demo_asked = 1" "''t1'' \<notin> set (snd (interruptedTurnToolIDs (Some demo_snapshot) 1))" by code_simp+
  show ?thesis using interaction_answered_twice [OF p(1,2), of "''t1''" "Some demo_snapshot" demo_lib] p t
    by (simp add: deriveToolNameFromPendingInteraction_def lookup_name_def)
qed

end
