(* ===== verification/Compaction_Entries.thy ===== *)
theory Compaction_Entries
  imports History_Entries
begin

text \<open>
  How a history is compacted, \<open>forwarder/compaction.go\<close>: which entries of the current turn are kept, how
  kept tool results are cut, and the entries that replace the history.  \<open>projector.go\<close> hides the
  entries before a summary when the history still holds them.

  \<open>compaction_lib\<close> holds what the code takes from elsewhere: \<open>encoding/json\<close> on values and the diff
  library, the bytes of a raw message, \<open>json.Marshal\<close> of the plan and todo messages, and the
  decoders of \<open>Structured_State\<close>.  The code leaves an entry alone when its new payload has the same
  bytes; here, when it has the same value.
\<close>

definition autoCompactionPreservedToolResultLimitBytes :: int where
  "autoCompactionPreservedToolResultLimitBytes = 16 * 1024"

record compaction_lib =
  cl_json :: json_lib
  cl_diff :: diff_lib
  cl_bytes :: "raw_json \<Rightarrow> string"
  cl_encode_state :: "string \<times> plan_registry \<times> TodoItem list \<Rightarrow> raw_json option"
  cl_codecs :: codecs

section \<open>Summary entries\<close>

record compactionSummaryEntryPayload =
  cs_Summary :: string
  cs_Trigger :: string
  cs_CurrentTurnSeq :: int
  cs_CurrentRequestID :: string
  cs_CompactTurnCount :: int
  cs_MessagesToCompact :: int
  cs_PreserveCurrentTurnInputs :: bool

definition omit_false :: "string \<Rightarrow> bool \<Rightarrow> (string \<times> json) list" where
  "omit_false key b = (if b then [(key, JBool True)] else [])"

definition compaction_summary_fields :: "compactionSummaryEntryPayload \<Rightarrow> (string \<times> json) list" where
  "compaction_summary_fields p = (''summary'', JString (cs_Summary p)) # omit_empty ''trigger'' (cs_Trigger p) @
     omit_zero ''current_turn_seq'' (cs_CurrentTurnSeq p) @ omit_empty ''current_request_id'' (cs_CurrentRequestID p) @
     omit_zero ''compact_turn_count'' (cs_CompactTurnCount p) @ omit_zero ''messages_to_compact'' (cs_MessagesToCompact p) @
     omit_false ''preserve_current_turn_inputs'' (cs_PreserveCurrentTurnInputs p)"

fun dec_int64 :: "json \<Rightarrow> int \<Rightarrow> int option" where
  "dec_int64 (JNumber n) v = atoi_go n"
| "dec_int64 JNull v = Some v"
| "dec_int64 _ v = None"

text \<open>\<open>json.Unmarshal\<close> goes on after a value of the wrong type, leaves that field alone, and reports the
  error at the end.  \<open>fill_compaction_summary\<close> is what the call leaves in the struct, with or without an
  error.\<close>

fun lenient_field :: "(json \<Rightarrow> 'v \<Rightarrow> 'v option) \<Rightarrow> string \<Rightarrow> (string \<times> json) list \<Rightarrow> 'v \<Rightarrow> 'v" where
  "lenient_field dec name [] v = v"
| "lenient_field dec name ((k, j) # fs) v =
     lenient_field dec name fs (if key_matches name k then (case dec j v of None \<Rightarrow> v | Some w \<Rightarrow> w) else v)"

definition object_fields :: "raw_json \<Rightarrow> (string \<times> json) list" where
  "object_fields r = (case r of RawJson (JObject fs) \<Rightarrow> fs | _ \<Rightarrow> [])"

definition fill_compaction_summary :: "raw_json \<Rightarrow> compactionSummaryEntryPayload" where
  "fill_compaction_summary r = (let fs = object_fields r in
     \<lparr>cs_Summary = lenient_field dec_string ''summary'' fs [], cs_Trigger = lenient_field dec_string ''trigger'' fs [],
      cs_CurrentTurnSeq = lenient_field dec_int64 ''current_turn_seq'' fs 0,
      cs_CurrentRequestID = lenient_field dec_string ''current_request_id'' fs [],
      cs_CompactTurnCount = lenient_field dec_int32 ''compact_turn_count'' fs 0,
      cs_MessagesToCompact = lenient_field dec_int32 ''messages_to_compact'' fs 0,
      cs_PreserveCurrentTurnInputs = lenient_field dec_bool ''preserve_current_turn_inputs'' fs False\<rparr>)"

definition compaction_summary_ok :: "raw_json \<Rightarrow> bool" where
  "compaction_summary_ok r \<longleftrightarrow> (case r of
       RawJson (JObject fs) \<Rightarrow>
         list_all (\<lambda>n. decode_field dec_string n fs [] \<noteq> None) [''summary'', ''trigger'', ''current_request_id''] \<and>
         list_all (\<lambda>n. decode_field dec_int32 n fs 0 \<noteq> None) [''compact_turn_count'', ''messages_to_compact''] \<and>
         decode_field dec_int64 ''current_turn_seq'' fs 0 \<noteq> None \<and>
         decode_field dec_bool ''preserve_current_turn_inputs'' fs False \<noteq> None
     | RawJson JNull \<Rightarrow> True
     | _ \<Rightarrow> False)"

definition decodeCompactionSummaryEntry :: "HistoryEntry \<Rightarrow> string option" where
  "decodeCompactionSummaryEntry e =
     (if \<not> compaction_summary_ok (he_Payload e) then None
      else let txt = trim_space (cs_Summary (fill_compaction_summary (he_Payload e))) in if txt = [] then None else Some txt)"

definition isCompactionSummaryKind :: "string \<Rightarrow> bool" where
  "isCompactionSummaryKind kind \<longleftrightarrow> trim_space kind \<in> set [''compaction_summary'', ''compacted_summary'']"

definition compactionSummaryTexts :: "ConversationFile \<Rightarrow> string list" where
  "compactionSummaryTexts c =
     List.map_filter decodeCompactionSummaryEntry (filter (\<lambda>e. isCompactionSummaryKind (he_Kind e)) (cf_Entries c))"

definition existingConversationSummaryText :: "ConversationFile \<Rightarrow> string" where
  "existingConversationSummaryText c = (let texts = compactionSummaryTexts c in if texts = [] then [] else trim_space (last texts))"

section \<open>What is kept of the current turn\<close>

definition of_turn :: "int \<Rightarrow> string \<Rightarrow> HistoryEntry \<Rightarrow> bool" where
  "of_turn turnSeq requestID e \<longleftrightarrow> he_TurnSeq e = turnSeq \<and> trim_space (he_RequestID e) = trim_space requestID"

abbreviation kind_of :: "HistoryEntry \<Rightarrow> string" where
  "kind_of e \<equiv> trim_space (he_Kind e)"

definition shouldPreserveAutoCompactionEntry :: "HistoryEntry \<Rightarrow> string \<Rightarrow> bool" where
  "shouldPreserveAutoCompactionEntry e latestToolCallID \<longleftrightarrow>
     (if kind_of e \<in> set [''request_context'', ''user_message''] then True
      else if kind_of e \<in> set [''tool_call'', ''tool_result'']
      then historyEntryToolCallID e \<noteq> [] \<and> historyEntryToolCallID e = trim_space latestToolCallID
      else if kind_of e = ''metadata''
      then (case unmarshal_metadata (he_Payload e) of None \<Rightarrow> False
            | Some (t, _) \<Rightarrow> trim_space t \<in> set [''mode'', ''run_request''])
      else False)"

definition completed_call_id :: "HistoryEntry \<Rightarrow> string" where
  "completed_call_id e =
     (if trim_space (he_ToolCallID e) \<noteq> [] then trim_space (he_ToolCallID e)
      else case decode_tool_result_payload (he_Payload e) of None \<Rightarrow> [] | Some p \<Rightarrow> trim_space (tp_ToolCallID p))"

definition latestCompletedToolCallIDForTurn :: "HistoryEntry list \<Rightarrow> int \<Rightarrow> string \<Rightarrow> string" where
  "latestCompletedToolCallIDForTurn es turnSeq requestID =
     fold (\<lambda>e latest. if of_turn turnSeq requestID e \<and> kind_of e = ''tool_result'' \<and> completed_call_id e \<noteq> []
                      then completed_call_id e else latest) es []"

definition toolCallEntryNeedsReasoningCarrier :: "HistoryEntry \<Rightarrow> bool" where
  "toolCallEntryNeedsReasoningCarrier e \<longleftrightarrow> kind_of e = ''tool_call'' \<and>
     (case decode_tool_call_payload (he_Payload e) of None \<Rightarrow> False
      | Some p \<Rightarrow> trim_space (tp_ReasoningContent p) = [] \<or> trim_space (tp_ReasoningSignature p) = [])"

definition carries_reasoning :: "HistoryEntry \<Rightarrow> bool" where
  "carries_reasoning e \<longleftrightarrow> (case decode_assistant_text_payload (he_Payload e) of None \<Rightarrow> False
     | Some p \<Rightarrow> trim_space (ap_ReasoningContent p) \<noteq> [] \<and> trim_space (ap_ReasoningSignature p) \<noteq> [])"

text \<open>The search runs from the entry before \<open>beforeIndex\<close> to the front; the entries searched are given
  in that order.\<close>

fun carrier_back :: "int \<Rightarrow> string \<Rightarrow> HistoryEntry list \<Rightarrow> nat option" where
  "carrier_back turnSeq requestID [] = None"
| "carrier_back turnSeq requestID (e # es) =
     (if \<not> of_turn turnSeq requestID e then carrier_back turnSeq requestID es
      else if kind_of e = ''assistant_text'' \<and> carries_reasoning e then Some (length es)
      else if kind_of e \<in> set [''user_message'', ''request_context''] then None
      else carrier_back turnSeq requestID es)"

definition latestAssistantReasoningCarrierIndex :: "HistoryEntry list \<Rightarrow> nat \<Rightarrow> int \<Rightarrow> string \<Rightarrow> nat option" where
  "latestAssistantReasoningCarrierIndex es beforeIndex turnSeq requestID =
     carrier_back turnSeq requestID (rev (take beforeIndex es))"

definition autoCompactionPreservedEntryIndexes :: "HistoryEntry list \<Rightarrow> int \<Rightarrow> string \<Rightarrow> string \<Rightarrow> nat list" where
  "autoCompactionPreservedEntryIndexes es turnSeq requestID latestToolCallID =
     (if turnSeq \<le> 0 then []
      else let current = filter (\<lambda>i. of_turn turnSeq requestID (es ! i)) [0..<length es];
               preserved = filter (\<lambda>i. shouldPreserveAutoCompactionEntry (es ! i) (trim_space latestToolCallID)) current;
               calls = filter (\<lambda>i. kind_of (es ! i) = ''tool_call'' \<and>
                                   historyEntryToolCallID (es ! i) = trim_space latestToolCallID) current
           in if calls = [] \<or> \<not> toolCallEntryNeedsReasoningCarrier (es ! last calls) then preserved
              else case latestAssistantReasoningCarrierIndex es (last calls) turnSeq requestID of
                     None \<Rightarrow> preserved | Some i \<Rightarrow> i # preserved)"

section \<open>Cutting kept tool results\<close>

definition autoCompactionOmittedToolResultText :: "string \<Rightarrow> string" where
  "autoCompactionOmittedToolResultText toolName =
     ''['' @ firstNonEmpty [trim_space toolName, ''tool''] @ '' result omitted by auto compaction because the preserved current turn still exceeded the context budget; rerun the relevant tool if exact output is needed]''"

definition cut_result :: "compaction_lib \<Rightarrow> int \<Rightarrow> bool \<Rightarrow> toolResultEntryPayload \<Rightarrow> toolResultEntryPayload" where
  "cut_result cl limitBytes minimal p =
     (let toolName = firstNonEmpty [trim_space (tp_ToolName p), ''tool''];
          r0 = trim_space (tp_ResultText p);
          r1 = (case compactProjectedEditToolResultReplay (cl_json cl) (cl_diff cl) toolName r0 of Some compacted \<Rightarrow> compacted | None \<Rightarrow> r0);
          r2 = (if minimal \<or> r1 = [] then autoCompactionOmittedToolResultText toolName
                else truncateProjectedReplayText toolName r1 limitBytes);
          call = (if minimal \<or> int (length (cl_bytes cl (tp_ToolCall p))) > limitBytes \<or> int (length (tp_ResultText p)) > limitBytes
                  then RawEmpty else tp_ToolCall p)
      in p\<lparr>tp_ToolCall := call, tp_ResultText := r2\<rparr>)"

definition rewriteAutoCompactionToolResultEntry :: "compaction_lib \<Rightarrow> HistoryEntry \<Rightarrow> int \<Rightarrow> bool \<Rightarrow> HistoryEntry option" where
  "rewriteAutoCompactionToolResultEntry cl e limitBytes minimal =
     (if kind_of e \<noteq> ''tool_result'' then None
      else case decode_tool_result_payload (he_Payload e) of
        None \<Rightarrow> None
      | Some p \<Rightarrow> (case marshal_tool_result (cut_result cl limitBytes minimal p) of
            None \<Rightarrow> None
          | Some encoded \<Rightarrow> if encoded = he_Payload e then None else Some (e\<lparr>he_Payload := encoded\<rparr>)))"

definition rewritten :: "compaction_lib \<Rightarrow> HistoryEntry \<Rightarrow> HistoryEntry" where
  "rewritten cl e = (case rewriteAutoCompactionToolResultEntry cl e autoCompactionPreservedToolResultLimitBytes False of
       Some e' \<Rightarrow> e' | None \<Rightarrow> e)"

section \<open>The entries that replace a history\<close>

definition buildAutoCompactionPreservedCurrentTurnEntries ::
    "compaction_lib \<Rightarrow> HistoryEntry list \<Rightarrow> PendingCompaction \<Rightarrow> HistoryEntry list" where
  "buildAutoCompactionPreservedCurrentTurnEntries cl es plan =
     (if \<not> pc_PreserveCurrentTurnInputs plan then []
      else let latest = latestCompletedToolCallIDForTurn es (pc_CurrentTurnSeq plan) (pc_CurrentRequestID plan);
               preserved = autoCompactionPreservedEntryIndexes es (pc_CurrentTurnSeq plan) (pc_CurrentRequestID plan) latest;
               kept = map (\<lambda>i. es ! i) (filter (\<lambda>i. i \<in> set preserved) [0..<length es])
           in map (rewritten cl)
                (filter (\<lambda>e. kind_of e \<notin> set [''compaction_summary'', ''compacted_summary'', ''compaction_request'']) kept))"

definition newCompactionSummaryEntry :: "PendingCompaction \<Rightarrow> string \<Rightarrow> HistoryEntry" where
  "newCompactionSummaryEntry plan summaryText =
     new_entry (pc_CurrentTurnSeq plan) (pc_CurrentRequestID plan) ''system'' ''compacted_summary'' []
       (RawJson (JObject (compaction_summary_fields
          \<lparr>cs_Summary = trim_space summaryText, cs_Trigger = trim_space (pc_Trigger plan), cs_CurrentTurnSeq = pc_CurrentTurnSeq plan,
           cs_CurrentRequestID = trim_space (pc_CurrentRequestID plan), cs_CompactTurnCount = pc_CompactTurnCount plan,
           cs_MessagesToCompact = pc_MessagesToCompact plan, cs_PreserveCurrentTurnInputs = pc_PreserveCurrentTurnInputs plan\<rparr>)))"

datatype compaction_error = BadState structured_error | BadStateEncoding

definition newCompactedRuntimeStateEntry ::
    "compaction_lib \<Rightarrow> go_time \<Rightarrow> ConversationFile \<Rightarrow> PendingCompaction \<Rightarrow> compaction_error + HistoryEntry option" where
  "newCompactedRuntimeStateEntry cl now c plan = (case projectConversationStructuredState (cl_codecs cl) now c of
       Inl err \<Rightarrow> Inl (BadState err)
     | Inr state \<Rightarrow>
         (let plans = clonePlanRegistryEntries (ss_Plans state); todos = ss_Todos state in
          if trim_space (ss_PlanText state) = [] \<and> plans = [] \<and> todos = [] then Inr None
          else case cl_encode_state cl (ss_PlanText state, plans, todos) of
            None \<Rightarrow> Inl BadStateEncoding
          | Some encoded \<Rightarrow>
              Inr (Some (new_entry (pc_CurrentTurnSeq plan) (pc_CurrentRequestID plan) ''system'' ''runtime_state'' [] encoded))))"

definition buildCompactedContextEntries ::
    "compaction_lib \<Rightarrow> go_time \<Rightarrow> ConversationFile \<Rightarrow> PendingCompaction \<Rightarrow> string \<Rightarrow> compaction_error + HistoryEntry list" where
  "buildCompactedContextEntries cl now c plan summaryText = (case newCompactedRuntimeStateEntry cl now c plan of
       Inl err \<Rightarrow> Inl err
     | Inr state \<Rightarrow>
         Inr (newCompactionSummaryEntry plan summaryText # (case state of None \<Rightarrow> [] | Some e \<Rightarrow> [e]) @
              (if \<not> pc_PreserveCurrentTurnInputs plan then []
               else buildAutoCompactionPreservedCurrentTurnEntries cl (cf_Entries c) plan)))"

section \<open>Entries hidden from the prompt\<close>

definition isPromptReplayEntryKind :: "string \<Rightarrow> bool" where
  "isPromptReplayEntryKind kind \<longleftrightarrow>
     trim_space kind \<in> set [''model_message'', ''compaction_summary'', ''compacted_summary'', ''user_message'', ''request_context'',
       ''prompt_context'', ''assistant_text'', ''tool_call'', ''tool_result'']"

definition compactedProjectionPreservedEntry :: "compaction_lib \<Rightarrow> HistoryEntry \<Rightarrow> HistoryEntry option" where
  "compactedProjectionPreservedEntry cl e = (if kind_of e \<noteq> ''tool_result'' then None else Some (rewritten cl e))"

definition compactedPromptProjectionEntries :: "compaction_lib \<Rightarrow> HistoryEntry list \<Rightarrow> HistoryEntry list" where
  "compactedPromptProjectionEntries cl es =
     (let summaries = filter (\<lambda>i. isCompactionSummaryKind (he_Kind (es ! i))) [0..<length es] in
      if summaries = [] then es
      else let compactionIndex = last summaries;
               p = fill_compaction_summary (he_Payload (es ! compactionIndex));
               latest = latestCompletedToolCallIDForTurn es (cs_CurrentTurnSeq p) (cs_CurrentRequestID p);
               preserved = (if cs_PreserveCurrentTurnInputs p
                            then autoCompactionPreservedEntryIndexes es (cs_CurrentTurnSeq p) (cs_CurrentRequestID p) latest else []);
               visible = filter (\<lambda>i. \<not> (i < compactionIndex \<and> isPromptReplayEntryKind (he_Kind (es ! i)) \<and> i \<notin> set preserved))
                           [0..<length es]
           in map (\<lambda>i. if i < compactionIndex
                       then (case compactedProjectionPreservedEntry cl (es ! i) of Some e \<Rightarrow> e | None \<Rightarrow> es ! i)
                       else es ! i) visible)"

definition replayablePromptProjectionEntries :: "compaction_lib \<Rightarrow> HistoryEntry list \<Rightarrow> HistoryEntry list" where
  "replayablePromptProjectionEntries cl es = sanitizeCanceledReplayEntries (compactedPromptProjectionEntries cl es)"

end
