(* ===== verification/Compaction_Plan.thy ===== *)
theory Compaction_Plan
  imports Compaction_Entries Run_Rewind
begin

text \<open>
  When a conversation is compacted, \<open>forwarder/compaction.go\<close> and \<open>token_estimator.go\<close>: the estimate of a
  prompt's tokens, what of a history can be summarised, the plan of a manual (\<open>/compact\<close>) or an
  automatic compaction, and its application to a conversation.

  \<open>compaction_texts\<close> holds what is read from generated messages: the text of a user message and the
  name and detail of a tool call (by protobuf reflection).  The fingerprint of a compiled prompt
  (SHA-256 of its JSON) is a parameter.  Sums of token estimates are below the bytes in memory and
  do not overflow; counts of messages are 32 bits wide.  The usage as a percentage, a float that is only
  reported to the client, is left out.
\<close>

record compaction_texts =
  ct_user_text :: "raw_json \<Rightarrow> string option"
  ct_tool_call :: "raw_json \<Rightarrow> (string \<times> string) option"

definition compactionAutoReserveTokens :: int where
  "compactionAutoReserveTokens = 10000"

definition compactionTurnSnippetMaxChars :: nat where
  "compactionTurnSnippetMaxChars = 900"

definition compactionSummaryMaxChars :: nat where
  "compactionSummaryMaxChars = 12000"

section \<open>Runes and tokens\<close>

text \<open>The runes of a string, each encoded again: a byte that starts no valid encoding is the rune U+FFFD.\<close>

definition rune_size :: "string \<Rightarrow> nat option" where
  "rune_size s = find (\<lambda>n. n \<le> length s \<and> valid_string (take n s)) [1, 2, 3, 4]"

lemma rune_size_pos: "rune_size s = Some n \<Longrightarrow> 0 < n"
  by (auto simp: rune_size_def split: if_splits)

function runes :: "string \<Rightarrow> string list" where
  "runes [] = []"
| "runes (c # s) = (case rune_size (c # s) of
       Some n \<Rightarrow> take n (c # s) # runes (drop n (c # s))
     | None \<Rightarrow> [CHR 0xEF, CHR 0xBF, CHR 0xBD] # runes s)"
  by pat_completeness auto
termination
  by (relation "measure length") (auto dest: rune_size_pos)

definition truncateCompactionText :: "string \<Rightarrow> nat \<Rightarrow> string" where
  "truncateCompactionText txt maxChars =
     (let trimmed = trim_space txt; rs = runes trimmed in
      if trimmed = [] \<or> maxChars = 0 then []
      else if length rs \<le> maxChars then trimmed
      else concat (take maxChars rs) @ ''...'')"

definition estimateTextTokens :: "string \<Rightarrow> int" where
  "estimateTextTokens txt =
     (let trimmed = trim_space txt; runeCount = int (length (runes trimmed)) in
      if trimmed = [] \<or> runeCount \<le> 0 then 0
      else max 1 ((runeCount + 3) div 4 + int (count_sub trimmed [LF])))"

definition estimatedTokensPerMessageOverhead :: int where
  "estimatedTokensPerMessageOverhead = 8"

definition estimatedTokensPerToolCallOverhead :: int where
  "estimatedTokensPerToolCallOverhead = 6"

definition estimatedTokensPerImagePart :: int where
  "estimatedTokensPerImagePart = 1024"

definition estimateModelContentPartsTokens :: "string \<Rightarrow> ContentPart list \<Rightarrow> int" where
  "estimateModelContentPartsTokens content parts = sum_list (map (\<lambda>part.
     let kind = trim_space (to_lower (part_Type part)) in
     if kind \<in> set ['''', ''text''] then (if trim_space content = [] then estimateTextTokens (part_Text part) else 0)
     else if kind = ''image''
     then estimatedTokensPerImagePart + (case part_Image part of None \<Rightarrow> 0
       | Some img \<Rightarrow> estimateTextTokens (img_MIMEType img) + estimateTextTokens (img_Path img))
     else 0) parts)"

definition estimateModelMessageTokens :: "Message \<Rightarrow> int" where
  "estimateModelMessageTokens m =
     estimatedTokensPerMessageOverhead + estimateTextTokens (msg_Role m) + estimateTextTokens (msg_Content m) +
     estimateModelContentPartsTokens (msg_Content m) (msg_ContentParts m) +
     estimateTextTokens (msg_ReasoningContent m) + estimateTextTokens (msg_ReasoningSignature m) +
     estimateTextTokens (msg_ToolCallID m) + estimateTextTokens (msg_Name m) +
     sum_list (map (\<lambda>c. estimatedTokensPerToolCallOverhead + estimateTextTokens (tcd_ID c) + estimateTextTokens (tcd_Type c) +
       estimateTextTokens (tcd_Name c) + estimateTextTokens (tcd_Arguments c)) (msg_ToolCalls m))"

definition estimateModelMessagesTokens :: "Message list \<Rightarrow> int" where
  "estimateModelMessagesTokens ms = sum_list (map estimateModelMessageTokens ms)"

definition estimateToolDescriptorsTokens :: "(raw_json \<Rightarrow> string) \<Rightarrow> raw_json list \<Rightarrow> int" where
  "estimateToolDescriptorsTokens bytes tools = sum_list (map (\<lambda>t. estimateTextTokens (bytes t)) tools)"

definition estimateCompiledPromptTokens :: "(raw_json \<Rightarrow> string) \<Rightarrow> CompiledConversation \<Rightarrow> int" where
  "estimateCompiledPromptTokens bytes compiled =
     estimateModelMessagesTokens (cc_Messages compiled) + estimateToolDescriptorsTokens bytes (cc_Tools compiled)"

definition clampInt64ToInt32 :: "int \<Rightarrow> int" where
  "clampInt64ToInt32 n = (if n \<le> 0 then 0 else if n > 2147483647 then 2147483647 else n)"

record providerContextMeasurement =
  pm_ModelCallID :: string
  pm_CompiledFingerprint :: string
  pm_EstimatedPromptTokens :: int
  pm_ReportedPromptTokens :: int
  pm_ProviderProjectionDiffs :: bool

definition matchingProviderContextMeasurement ::
    "(CompiledConversation \<Rightarrow> string) \<Rightarrow> providerContextMeasurement \<Rightarrow> CompiledConversation \<Rightarrow> providerContextMeasurement option" where
  "matchingProviderContextMeasurement fingerprint measurement compiled =
     (if fingerprint compiled \<noteq> [] \<and> pm_CompiledFingerprint measurement = fingerprint compiled then Some measurement else None)"

section \<open>What can be summarised\<close>

definition currentTurnUserText :: "compaction_texts \<Rightarrow> HistoryEntry \<Rightarrow> string" where
  "currentTurnUserText tx e = (case ct_user_text tx (he_Payload e) of None \<Rightarrow> []
     | Some txt \<Rightarrow> truncateCompactionText txt (compactionTurnSnippetMaxChars div 3))"

definition summarizeCurrentTurnAssistantEntry :: "HistoryEntry \<Rightarrow> string" where
  "summarizeCurrentTurnAssistantEntry e = (case decode_assistant_text_payload (he_Payload e) of None \<Rightarrow> []
     | Some p \<Rightarrow>
         (let txt = truncateCompactionText (ap_Text p) (compactionTurnSnippetMaxChars div 3);
              thinking = truncateCompactionText (ap_ReasoningContent p) (compactionTurnSnippetMaxChars div 4)
          in if txt \<noteq> [] then ''assistant='' @ txt else if thinking \<noteq> [] then ''thinking='' @ thinking else []))"

definition summarizeCurrentTurnToolCallEntry :: "HistoryEntry \<Rightarrow> string" where
  "summarizeCurrentTurnToolCallEntry e = (case decode_tool_call_payload (he_Payload e) of None \<Rightarrow> []
     | Some p \<Rightarrow> firstNonEmpty [trim_space (tp_ToolName p), ''tool_call''] @ ''=called'')"

definition summarizeCurrentTurnToolResultEntry :: "compaction_texts \<Rightarrow> HistoryEntry \<Rightarrow> string" where
  "summarizeCurrentTurnToolResultEntry tx e = (case decode_tool_result_payload (he_Payload e) of None \<Rightarrow> []
     | Some p \<Rightarrow>
         (let toolName = firstNonEmpty [trim_space (tp_ToolName p), ''tool_result''];
              result = truncateCompactionText (tp_ResultText p) (compactionTurnSnippetMaxChars div 3);
              plain = (if result \<noteq> [] then toolName @ ''='' @ result else toolName @ ''=completed'')
          in if raw_is_empty (tp_ToolCall p) then plain
             else (case ct_tool_call tx (tp_ToolCall p) of
                 Some (name, detail) \<Rightarrow> if name \<noteq> [] then name @ ''='' @ detail else plain
               | None \<Rightarrow> plain)))"

record compactionCandidateTurn =
  cand_Summary :: compactedTurnSummary
  cand_ReplayCount :: int
  cand_EstimatedTokens :: int

text \<open>The step an entry adds to a summary; \<open>None\<close> for the kinds that are not summarised.\<close>

definition summary_step :: "compaction_texts \<Rightarrow> HistoryEntry \<Rightarrow> string option" where
  "summary_step tx e =
     (if kind_of e = ''assistant_text'' then Some (summarizeCurrentTurnAssistantEntry e)
      else if kind_of e = ''tool_call'' then Some (summarizeCurrentTurnToolCallEntry e)
      else if kind_of e = ''tool_result'' then Some (summarizeCurrentTurnToolResultEntry tx e)
      else None)"

definition summary_steps :: "compaction_texts \<Rightarrow> HistoryEntry list \<Rightarrow> string list" where
  "summary_steps tx es = filter (\<lambda>s. s \<noteq> []) (List.map_filter (summary_step tx) es)"

definition first_user_text :: "compaction_texts \<Rightarrow> HistoryEntry list \<Rightarrow> string" where
  "first_user_text tx es =
     fold (\<lambda>e txt. if kind_of e = ''user_message'' \<and> trim_space txt = [] then currentTurnUserText tx e else txt) es []"

definition payload_tokens :: "compaction_lib \<Rightarrow> HistoryEntry list \<Rightarrow> int" where
  "payload_tokens cl es = sum_list (map (\<lambda>e. estimateTextTokens (cl_bytes cl (he_Payload e))) es)"

definition buildCurrentTurnCompactionCandidate ::
    "compaction_lib \<Rightarrow> compaction_texts \<Rightarrow> HistoryEntry list \<Rightarrow> int \<Rightarrow> string \<Rightarrow> compactionCandidateTurn option" where
  "buildCurrentTurnCompactionCandidate cl tx es turnSeq requestID =
     (let latest = latestCompletedToolCallIDForTurn es turnSeq requestID in
      if turnSeq \<le> 0 \<or> trim_space requestID = [] \<or> latest = [] then None
      else let preserved = autoCompactionPreservedEntryIndexes es turnSeq requestID latest;
               mine = filter (\<lambda>i. of_turn turnSeq requestID (es ! i)) [0..<length es];
               removed = map (\<lambda>i. es ! i) (filter (\<lambda>i. i \<notin> set preserved) mine);
               summarised = filter (\<lambda>e. summary_step tx e \<noteq> None) removed;
               steps = summary_steps tx removed;
               replayCount = i32 (int (length summarised))
           in if \<not> list_ex (\<lambda>e. kind_of e \<in> set [''tool_call'', ''tool_result'']) removed \<or> replayCount \<le> 0 then None
              else Some \<lparr>cand_Summary = \<lparr>cts_UserText = first_user_text tx (map (\<lambda>i. es ! i) mine),
                     cts_Steps = (if steps = [] then [''tool_history=earlier current-turn tool history compacted''] else steps)\<rparr>,
                     cand_ReplayCount = replayCount, cand_EstimatedTokens = payload_tokens cl summarised\<rparr>)"

definition buildContextTurnCompactionCandidate ::
    "compaction_lib \<Rightarrow> compaction_texts \<Rightarrow> HistoryEntry list \<Rightarrow> compactionCandidateTurn option" where
  "buildContextTurnCompactionCandidate cl tx es =
     (let counted = filter (\<lambda>e. kind_of e = ''user_message'' \<or> summary_step tx e \<noteq> None) es;
          userText = first_user_text tx es; steps = summary_steps tx es; replayCount = i32 (int (length counted))
      in if replayCount \<le> 0 \<or> (trim_space userText = [] \<and> steps = []) then None
         else Some \<lparr>cand_Summary = \<lparr>cts_UserText = userText, cts_Steps = steps\<rparr>,
                cand_ReplayCount = replayCount, cand_EstimatedTokens = payload_tokens cl counted\<rparr>)"

definition buildContextCompactionCandidates ::
    "compaction_lib \<Rightarrow> compaction_texts \<Rightarrow> HistoryEntry list \<Rightarrow> int \<Rightarrow> string \<Rightarrow> compactionCandidateTurn list" where
  "buildContextCompactionCandidates cl tx es currentTurnSeq currentRequestID =
     (let old = filter (\<lambda>e. \<not> (he_TurnSeq e \<le> 0 \<or> isCompactionSummaryKind (he_Kind e)) \<and>
                            \<not> of_turn currentTurnSeq currentRequestID e) es;
          turnOrder = rev (remdups (rev (map he_TurnSeq old)))
      in List.map_filter (\<lambda>t. buildContextTurnCompactionCandidate cl tx (filter (\<lambda>e. he_TurnSeq e = t) old)) turnOrder)"

section \<open>Plans\<close>

record compactionPlan =
  cp_Trigger :: string
  cp_ContextTokens :: int
  cp_ContextWindowSize :: int
  cp_ReserveTokens :: int
  cp_MessageCount :: int
  cp_MessagesToCompact :: int
  cp_CompactTurnCount :: int
  cp_IsFirstCompaction :: bool
  cp_ExistingSummary :: string
  cp_CompactedTurns :: "compactedTurnSummary list"
  cp_ManualInstruction :: string
  cp_RequestSource :: string
  cp_CurrentTurnSeq :: int
  cp_CurrentRequestID :: string
  cp_CurrentUserText :: string
  cp_PreserveCurrentTurnInputs :: bool

definition newPendingCompaction :: "compactionPlan \<Rightarrow> PendingCompaction" where
  "newPendingCompaction plan =
     \<lparr>pc_Trigger = cp_Trigger plan, pc_ContextTokens = cp_ContextTokens plan, pc_ContextWindowSize = cp_ContextWindowSize plan,
      pc_ReserveTokens = cp_ReserveTokens plan, pc_MessageCount = cp_MessageCount plan,
      pc_MessagesToCompact = cp_MessagesToCompact plan, pc_CompactTurnCount = cp_CompactTurnCount plan,
      pc_IsFirstCompaction = cp_IsFirstCompaction plan, pc_ExistingSummary = cp_ExistingSummary plan,
      pc_CompactedTurns = cp_CompactedTurns plan, pc_ManualInstruction = cp_ManualInstruction plan,
      pc_RequestSource = cp_RequestSource plan, pc_CurrentTurnSeq = cp_CurrentTurnSeq plan,
      pc_CurrentRequestID = cp_CurrentRequestID plan, pc_CurrentUserText = cp_CurrentUserText plan,
      pc_PreserveCurrentTurnInputs = cp_PreserveCurrentTurnInputs plan,
      pc_HookMessage = [], pc_SummaryModelCallID = [], pc_StartedAt = 0\<rparr>"

definition buildLegacyCompactionPlan ::
    "compaction_lib \<Rightarrow> compaction_texts \<Rightarrow> compactionPlan \<Rightarrow> ConversationFile \<Rightarrow> compactionPlan option" where
  "buildLegacyCompactionPlan cl tx base c =
     (let candidates = buildContextCompactionCandidates cl tx (checkpointProjectionEntries (cf_Entries c))
            (cp_CurrentTurnSeq base) (cp_CurrentRequestID base)
      in if candidates = [] then None
         else Some (base\<lparr>cp_RequestSource := ''prompt_asset'',
                cp_MessagesToCompact := i32 (sum_list (map cand_ReplayCount candidates)),
                cp_CompactTurnCount := clampInt64ToInt32 (int (length candidates)),
                cp_CompactedTurns := map cand_Summary candidates\<rparr>))"

definition buildAutoCompactionPlanFromHistory ::
    "compaction_lib \<Rightarrow> compaction_texts \<Rightarrow> compactionPlan \<Rightarrow> ConversationFile \<Rightarrow> compactionPlan option" where
  "buildAutoCompactionPlanFromHistory cl tx base c =
     (let legacy = buildLegacyCompactionPlan cl tx base c in
      case buildCurrentTurnCompactionCandidate cl tx (checkpointProjectionEntries (cf_Entries c))
             (cp_CurrentTurnSeq base) (cp_CurrentRequestID base) of
        None \<Rightarrow> legacy
      | Some cand \<Rightarrow> Some (case legacy of
            None \<Rightarrow> base\<lparr>cp_RequestSource := ''current_turn_compaction'', cp_MessagesToCompact := cand_ReplayCount cand,
              cp_CompactTurnCount := 1, cp_CompactedTurns := [cand_Summary cand]\<rparr>
          | Some plan \<Rightarrow> plan\<lparr>cp_RequestSource := ''current_turn_compaction'',
              cp_MessagesToCompact := i32 (cp_MessagesToCompact plan + cand_ReplayCount cand),
              cp_CompactTurnCount := i32 (cp_CompactTurnCount plan + 1),
              cp_CompactedTurns := cp_CompactedTurns plan @ [cand_Summary cand]\<rparr>))"

definition parseManualCompactionDirective :: "string \<Rightarrow> string option" where
  "parseManualCompactionDirective latestUserText =
     (let trimmed = trim_space latestUserText in
      if trimmed = ''/compact'' then Some []
      else if has_prefix trimmed ''/compact '' then Some (trim_space (trim_prefix trimmed ''/compact''))
      else None)"

definition compactionContextWindowSize :: "ConversationFile \<Rightarrow> int" where
  "compactionContextWindowSize c =
     (if cf_TokenDetailsMaxTokens c > 0 then cf_TokenDetailsMaxTokens c else projectedConversationMaxTokens)"

definition maxPositiveInt64 :: "int list \<Rightarrow> int" where
  "maxPositiveInt64 xs = fold (\<lambda>x m. if x > m then x else m) xs 0"

text \<open>What the plans read of the stream.\<close>

record compaction_stream =
  cst_TurnSeq :: int
  cst_RequestID :: string
  cst_LatestUserText :: string
  cst_Measurement :: providerContextMeasurement

definition plan_base ::
    "string \<Rightarrow> int \<Rightarrow> int \<Rightarrow> string \<Rightarrow> bool \<Rightarrow> compaction_stream \<Rightarrow> ConversationFile \<Rightarrow> CompiledConversation \<Rightarrow> compactionPlan" where
  "plan_base trigger contextTokens reserveTokens instruction preserve s c compiled =
     \<lparr>cp_Trigger = trigger, cp_ContextTokens = contextTokens, cp_ContextWindowSize = compactionContextWindowSize c,
      cp_ReserveTokens = reserveTokens, cp_MessageCount = clampInt64ToInt32 (int (length (cc_Messages compiled))),
      cp_MessagesToCompact = 0, cp_CompactTurnCount = 0, cp_IsFirstCompaction = (compactionSummaryTexts c = []),
      cp_ExistingSummary = existingConversationSummaryText c, cp_CompactedTurns = [],
      cp_ManualInstruction = trim_space instruction, cp_RequestSource = [], cp_CurrentTurnSeq = cst_TurnSeq s,
      cp_CurrentRequestID = trim_space (cst_RequestID s), cp_CurrentUserText = trim_space (cst_LatestUserText s),
      cp_PreserveCurrentTurnInputs = preserve\<rparr>"

text \<open>\<open>loaded\<close> is what \<open>loadLatestSummaryPromptTokens\<close> finds for the conversation: an error, or the tokens
  if there are any.\<close>

definition resolveCompactionBaselineTokens ::
    "compaction_lib \<Rightarrow> string + int option \<Rightarrow> string \<Rightarrow> CompiledConversation \<Rightarrow> ConversationFile \<Rightarrow> string + int" where
  "resolveCompactionBaselineTokens cl loaded conversationID compiled c =
     (let estimated = estimateCompiledPromptTokens (cl_bytes cl) compiled in
      if estimated > 0 then Inr estimated
      else if cf_TokenDetailsUsedTokens c > 0 then Inr (cf_TokenDetailsUsedTokens c)
      else if compactionSummaryTexts c \<noteq> [] \<or> trim_space conversationID = [] then Inr 0
      else case loaded of
        Inl err \<Rightarrow> Inl err
      | Inr (Some promptTokens) \<Rightarrow> Inr (if promptTokens > 0 then promptTokens else 0)
      | Inr None \<Rightarrow> Inr 0)"

datatype plan_error = ContextOverflow int int | LoadFailed string

definition buildManualCompactionPlan ::
    "compaction_lib \<Rightarrow> compaction_texts \<Rightarrow> string + int option \<Rightarrow> string \<Rightarrow> compaction_stream \<Rightarrow> ConversationFile
       \<Rightarrow> CompiledConversation \<Rightarrow> string \<Rightarrow> plan_error + compactionPlan option" where
  "buildManualCompactionPlan cl tx loaded conversationID s c compiled instruction =
     (if compactionContextWindowSize c \<le> 0 then Inr None
      else case resolveCompactionBaselineTokens cl loaded conversationID compiled c of
        Inl err \<Rightarrow> Inl (LoadFailed err)
      | Inr contextTokens \<Rightarrow>
          if contextTokens \<le> 0 then Inr None
          else Inr (buildLegacyCompactionPlan cl tx
                 (plan_base ''manual'' contextTokens compactionAutoReserveTokens instruction False s c compiled) c))"

definition resolveCompactionReserveTokens :: int where
  "resolveCompactionReserveTokens = compactionAutoReserveTokens"

definition auto_reserve :: "ConversationFile \<Rightarrow> int" where
  "auto_reserve c =
     (let r0 = resolveCompactionReserveTokens; r1 = (if r0 \<le> 0 then cf_AutoCompactionReserveTokens c else r0)
      in if r1 \<le> 0 then compactionAutoReserveTokens else r1)"

definition auto_context_tokens ::
    "compaction_lib \<Rightarrow> (CompiledConversation \<Rightarrow> string) \<Rightarrow> compaction_stream \<Rightarrow> ConversationFile \<Rightarrow> CompiledConversation \<Rightarrow> bool \<times> int" where
  "auto_context_tokens cl fingerprint s c compiled =
     (let estimated = estimateCompiledPromptTokens (cl_bytes cl) compiled;
          usual = (False, maxPositiveInt64 [cf_AutoCompactionPromptTokens c, estimated, cf_TokenDetailsUsedTokens c])
      in case matchingProviderContextMeasurement fingerprint (cst_Measurement s) compiled of
           None \<Rightarrow> usual
         | Some m \<Rightarrow> if pm_ProviderProjectionDiffs m
             then (True, if pm_ReportedPromptTokens m > 0 then pm_ReportedPromptTokens m else estimated) else usual)"

definition buildAutoCompactionPlan ::
    "compaction_lib \<Rightarrow> compaction_texts \<Rightarrow> (CompiledConversation \<Rightarrow> string) \<Rightarrow> compaction_stream \<Rightarrow> ConversationFile
       \<Rightarrow> CompiledConversation \<Rightarrow> plan_error + compactionPlan option" where
  "buildAutoCompactionPlan cl tx fingerprint s c compiled =
     (let window = compactionContextWindowSize c; reserve = auto_reserve c; budget = i64 (window - reserve);
          (differs, tokens) = auto_context_tokens cl fingerprint s c compiled;
          preflightExceeded = (tokens > 0 \<and> tokens > budget);
          pendingExceeded = (\<not> differs \<and> cf_AutoCompactionPending c \<and> tokens > 0 \<and> tokens > budget)
      in if window \<le> 0 \<or> (\<not> pendingExceeded \<and> \<not> preflightExceeded) then Inr None
         else case buildAutoCompactionPlanFromHistory cl tx (plan_base ''auto'' tokens reserve [] True s c compiled) c of
           None \<Rightarrow> if preflightExceeded then Inl (ContextOverflow tokens budget) else Inr None
         | Some plan \<Rightarrow> Inr (Some plan))"

definition buildCompactionPlan where
  "buildCompactionPlan cl tx fingerprint loaded conversationID s c compiled manual =
     (case manual of
        Some instruction \<Rightarrow> buildManualCompactionPlan cl tx loaded conversationID s c compiled instruction
      | None \<Rightarrow> buildAutoCompactionPlan cl tx fingerprint s c compiled)"

section \<open>Applying a plan\<close>

definition applyCompactionToConversation ::
    "compaction_lib \<Rightarrow> go_time \<Rightarrow> PendingCompaction \<Rightarrow> string \<Rightarrow> ConversationFile \<Rightarrow> compaction_error + ConversationFile" where
  "applyCompactionToConversation cl now plan summaryText c =
     (case buildCompactedContextEntries cl now c plan summaryText of
        Inl err \<Rightarrow> Inl err
      | Inr replacement \<Rightarrow>
          (let c1 = c\<lparr>cf_Entries := [], cf_NextEntrySeq := 1, cf_NextTurnSeq := 1\<rparr>;
               c2 = fst (appendEntriesInPlace now (resetEntrySequences replacement) c1);
               c3 = clearConversationAutoCompactionState (c2\<lparr>cf_TokenDetailsUsedTokens := 0\<rparr>)
           in Inr (if cf_TokenDetailsMaxTokens c3 = 0 then c3\<lparr>cf_TokenDetailsMaxTokens := projectedConversationMaxTokens\<rparr> else c3)))"

definition validateCompactionCandidateBudget ::
    "compaction_lib \<Rightarrow> CompiledConversation \<Rightarrow> PendingCompaction \<Rightarrow> plan_error option" where
  "validateCompactionCandidateBudget cl compiled plan =
     (let budget = i64 (pc_ContextWindowSize plan - pc_ReserveTokens plan);
          estimated = estimateCompiledPromptTokens (cl_bytes cl) compiled
      in if budget > 0 \<and> estimated \<le> budget then None else Some (ContextOverflow estimated budget))"

section \<open>The summary the code writes itself\<close>

definition turn_parts :: "compactedTurnSummary \<Rightarrow> string list" where
  "turn_parts item =
     (if trim_space (cts_UserText item) \<noteq> [] then [''user='' @ truncateCompactionText (cts_UserText item) 400] else []) @
     map (\<lambda>step. truncateCompactionText step 400) (filter (\<lambda>step. trim_space step \<noteq> []) (cts_Steps item))"

fun turn_lines :: "int \<Rightarrow> compactedTurnSummary list \<Rightarrow> string list" where
  "turn_lines n [] = []"
| "turn_lines n (item # items) =
     (if turn_parts item = [] then turn_lines (n + 1) items
      else (int_dec n @ ''. '' @ join_with '' | '' (turn_parts item)) # turn_lines (n + 1) items)"

definition titled :: "string \<Rightarrow> string \<Rightarrow> nat \<Rightarrow> string list" where
  "titled title txt limit = (if trim_space txt = [] then [] else [title @ [LF] @ truncateCompactionText txt limit])"

definition buildFallbackCompactionSummary :: "PendingCompaction \<Rightarrow> string" where
  "buildFallbackCompactionSummary plan =
     (let items = turn_lines 1 (pc_CompactedTurns plan);
          sections = [''Conversation summary'',
              ''Earlier context was compacted into this summary. Preserve the facts, decisions, tool results, and user intent below when continuing the conversation.''] @
            titled ''Previous summary:'' (pc_ExistingSummary plan) (compactionSummaryMaxChars div 4) @
            (if items = [] then []
             else [''Compacted turns:'' @ [LF] @ truncateCompactionText (join_with [LF] items) (compactionSummaryMaxChars div 2)]) @
            titled ''Compaction note:'' (pc_HookMessage plan) 800 @
            titled ''Manual compact instruction:'' (pc_ManualInstruction plan) 800
      in trim_space (truncateCompactionText (join_with [LF, LF] sections) compactionSummaryMaxChars))"

end
