(* ===== verification/Compaction_Guarantees.thy ===== *)
theory Compaction_Guarantees
  imports Compaction_Plan Interrupt_Guarantees
begin

text \<open>
  What a compaction keeps and that it is not repeated.
\<close>

section \<open>Kept entries\<close>

lemma completed_call_id_entry:
  assumes "kind_of e = ''tool_result''"
  shows "completed_call_id e = historyEntryToolCallID e"
  using assms by (auto simp: completed_call_id_def historyEntryToolCallID_def decode_tool_result_payload_def Let_def split: option.split)

lemma rewritten_cases:
  "rewritten cl e = e \<or> (\<exists>p r. kind_of e = ''tool_result'' \<and> decode_tool_result_payload (he_Payload e) = Some p \<and>
     marshal_tool_result (cut_result cl autoCompactionPreservedToolResultLimitBytes False p) = Some r \<and> rewritten cl e = e\<lparr>he_Payload := r\<rparr>)"
  by (auto simp: rewritten_def rewriteAutoCompactionToolResultEntry_def split: option.splits if_splits)

lemma rewritten_same [simp]:
  "he_TurnSeq (rewritten cl e) = he_TurnSeq e" "he_RequestID (rewritten cl e) = he_RequestID e" "he_Kind (rewritten cl e) = he_Kind e"
  "he_ToolCallID (rewritten cl e) = he_ToolCallID e" "he_CreatedAt (rewritten cl e) = he_CreatedAt e"
  using rewritten_cases [of cl e] by auto

lemma rewritten_other [simp]: "kind_of e \<noteq> ''tool_result'' \<Longrightarrow> rewritten cl e = e"
  using rewritten_cases [of cl e] by auto

lemma cut_result_id [simp]: "tp_ToolCallID (cut_result cl n m p) = tp_ToolCallID p"
  by (simp add: cut_result_def Let_def)

lemma rewritten_id [simp]: "historyEntryToolCallID (rewritten cl e) = historyEntryToolCallID e"
proof (cases "kind_of e = ''tool_result''")
  case True
  then have "completed_call_id (rewritten cl e) = completed_call_id e"
    using rewritten_cases [of cl e] by (auto simp: completed_call_id_def dest!: decode_tool_result)
  with True show ?thesis by (metis completed_call_id_entry rewritten_same(3))
qed simp

text \<open>An entry as it is stored: numbered, and with a time stamp if it had none.\<close>

definition stored_as :: "HistoryEntry \<Rightarrow> HistoryEntry \<Rightarrow> bool" where
  "stored_as e e' \<longleftrightarrow> (\<exists>n t. e' = e\<lparr>he_Seq := n, he_CreatedAt := t\<rparr> \<and> (t = he_CreatedAt e \<or> isZeroTime (he_CreatedAt e)))"

lemma stored_asD:
  assumes "stored_as e e'"
  shows "he_TurnSeq e' = he_TurnSeq e" "he_RequestID e' = he_RequestID e" "he_Kind e' = he_Kind e" "he_ToolCallID e' = he_ToolCallID e"
    "he_Payload e' = he_Payload e" "\<not> isZeroTime (he_CreatedAt e) \<Longrightarrow> he_CreatedAt e' = he_CreatedAt e"
  using assms by (auto simp: stored_as_def)

lemma stored_id: "stored_as e e' \<Longrightarrow> historyEntryToolCallID e' = historyEntryToolCallID e"
  unfolding historyEntryToolCallID_def by (simp only: stored_asD)

lemma assign_stored: "list_all2 stored_as es (snd (snd (assign_entries now (resetEntrySequences es) n t)))"
proof (induction es arbitrary: n t)
  case (Cons e es)
  let ?e = "if isZeroTime (he_CreatedAt e) then e\<lparr>he_CreatedAt := now, he_Seq := n\<rparr> else e\<lparr>he_Seq := n\<rparr>"
  have "stored_as e ?e"
    unfolding stored_as_def by (rule exI [of _ n], rule exI [of _ "if isZeroTime (he_CreatedAt e) then now else he_CreatedAt e"]) simp
  then show ?case using Cons by (auto simp: resetEntrySequences_def Let_def split: prod.split) (metis snd_conv)+
qed (simp add: resetEntrySequences_def)

lemma compacted_entries:
  assumes "applyCompactionToConversation cl now plan txt c = Inr c'"
  obtains es where "buildCompactedContextEntries cl now c plan txt = Inr es" "list_all2 stored_as es (cf_Entries c')"
proof -
  obtain es where es: "buildCompactedContextEntries cl now c plan txt = Inr es"
    using assms by (auto simp: applyCompactionToConversation_def split: sum.splits)
  let ?c1 = "c\<lparr>cf_Entries := [], cf_NextEntrySeq := 1, cf_NextTurnSeq := 1\<rparr>"
  have "cf_Entries c' = cf_Entries (fst (appendEntriesInPlace now (resetEntrySequences es) ?c1))"
    using assms es by (auto simp: applyCompactionToConversation_def clearConversationAutoCompactionState_def Let_def split: if_splits)
  moreover have "list_all2 stored_as es (cf_Entries (fst (appendEntriesInPlace now (resetEntrySequences es) ?c1)))"
    using assign_stored [of es now 1 "i64 (1 - 1)"]
    by (auto simp: appendEntriesInPlace_def resetEntrySequences_def Let_def split: prod.split)
  ultimately show thesis using es that by simp
qed

lemma list_all2_mem: "list_all2 P xs ys \<Longrightarrow> y \<in> set ys \<Longrightarrow> \<exists>x \<in> set xs. P x y"
  by (induction rule: list_all2_induct) auto

lemma compacted_shape:
  assumes "applyCompactionToConversation cl now plan txt c = Inr c'"
  obtains state z rs ks where "newCompactedRuntimeStateEntry cl now c plan = Inr state"
    "cf_Entries c' = z # rs @ ks" "stored_as (newCompactionSummaryEntry plan txt) z"
    "list_all2 stored_as (case state of None \<Rightarrow> [] | Some e \<Rightarrow> [e]) rs"
    "list_all2 stored_as (buildAutoCompactionPreservedCurrentTurnEntries cl (cf_Entries c) plan) ks"
proof -
  let ?kept = "buildAutoCompactionPreservedCurrentTurnEntries cl (cf_Entries c) plan"
  obtain es where es: "buildCompactedContextEntries cl now c plan txt = Inr es" "list_all2 stored_as es (cf_Entries c')"
    by (rule compacted_entries [OF assms])
  have "(if \<not> pc_PreserveCurrentTurnInputs plan then [] else ?kept) = ?kept"
    by (simp add: buildAutoCompactionPreservedCurrentTurnEntries_def)
  with es(1) obtain state where state: "newCompactedRuntimeStateEntry cl now c plan = Inr state"
    "es = newCompactionSummaryEntry plan txt # (case state of None \<Rightarrow> [] | Some e \<Rightarrow> [e]) @ ?kept"
    by (auto simp: buildCompactedContextEntries_def split: sum.splits)
  then show thesis using that es(2) by (auto simp: list_all2_Cons1 list_all2_append1)
qed

section \<open>A compacted turn\<close>

abbreviation tool_kind :: "HistoryEntry \<Rightarrow> bool" where
  "tool_kind e \<equiv> kind_of e \<in> set [''tool_call'', ''tool_result'']"

definition settled :: "int \<Rightarrow> string \<Rightarrow> HistoryEntry list \<Rightarrow> bool" where
  "settled turn req es \<longleftrightarrow> (\<forall>e \<in> set es. of_turn turn req e \<and> canceledReplayPolicyForEntry e = None) \<and>
     (\<exists>i. \<forall>e \<in> set es. tool_kind e \<longrightarrow> historyEntryToolCallID e \<noteq> [] \<and> historyEntryToolCallID e = i)"

lemma latest_mem:
  "latestCompletedToolCallIDForTurn es turn req = [] \<or>
     (\<exists>e \<in> set es. kind_of e = ''tool_result'' \<and> historyEntryToolCallID e = latestCompletedToolCallIDForTurn es turn req)"
proof -
  let ?f = "\<lambda>e latest. if of_turn turn req e \<and> kind_of e = ''tool_result'' \<and> completed_call_id e \<noteq> [] then completed_call_id e else latest"
  have "fold ?f es x = x \<or> (\<exists>e \<in> set es. kind_of e = ''tool_result'' \<and> completed_call_id e = fold ?f es x)" for x
  proof (induction es arbitrary: x)
    case (Cons e es)
    from Cons [of "?f e x"] show ?case by (auto split: if_splits)
  qed simp
  from this [of "[]"] show ?thesis unfolding latestCompletedToolCallIDForTurn_def by (auto simp: completed_call_id_entry)
qed

lemma call_id_trimmed: "trim_space (historyEntryToolCallID e) = historyEntryToolCallID e"
  by (auto simp: historyEntryToolCallID_def Let_def split: option.split)

lemma preserve_trim: "shouldPreserveAutoCompactionEntry e (trim_space i) = shouldPreserveAutoCompactionEntry e i"
  by (simp add: shouldPreserveAutoCompactionEntry_def)

lemma preservedI:
  assumes "k < length es" "of_turn turn req (es ! k)" "shouldPreserveAutoCompactionEntry (es ! k) latest" "0 < turn"
  shows "k \<in> set (autoCompactionPreservedEntryIndexes es turn req latest)"
  using assms by (auto simp: autoCompactionPreservedEntryIndexes_def preserve_trim Let_def split: option.split)

lemma settled_no_candidate:
  assumes "settled turn req es"
  shows "buildCurrentTurnCompactionCandidate cl tx es turn req = None"
proof (cases "turn \<le> 0 \<or> latestCompletedToolCallIDForTurn es turn req = []")
  case False
  let ?l = "latestCompletedToolCallIDForTurn es turn req"
  let ?p = "autoCompactionPreservedEntryIndexes es turn req ?l"
  obtain i where i: "\<And>e. e \<in> set es \<Longrightarrow> tool_kind e \<Longrightarrow> historyEntryToolCallID e \<noteq> [] \<and> historyEntryToolCallID e = i"
    using assms unfolding settled_def by blast
  obtain e where "e \<in> set es" "kind_of e = ''tool_result''" "historyEntryToolCallID e = ?l" using latest_mem [of es turn req] False by blast
  then have l: "?l = i" "trim_space ?l = ?l" using i [of e] call_id_trimmed [of e] by auto
  have "k \<in> set ?p" if "k < length es" "tool_kind (es ! k)" for k
  proof -
    have "of_turn turn req (es ! k)" using assms that(1) by (simp add: settled_def)
    moreover have "shouldPreserveAutoCompactionEntry (es ! k) ?l"
      using i [of "es ! k"] that l by (auto simp: shouldPreserveAutoCompactionEntry_def)
    ultimately show ?thesis using that(1) False by (intro preservedI) auto
  qed
  then show ?thesis by (fastforce simp: buildCurrentTurnCompactionCandidate_def Let_def list_ex_iff)
qed (auto simp: buildCurrentTurnCompactionCandidate_def Let_def)

lemma settled_no_plan:
  assumes "settled (cp_CurrentTurnSeq base) (cp_CurrentRequestID base) (cf_Entries c)"
  shows "buildAutoCompactionPlanFromHistory cl tx base c = None"
proof -
  have "checkpointProjectionEntries (cf_Entries c) = cf_Entries c"
    using assms by (simp add: checkpointProjectionEntries_def settled_def no_policies)
  moreover have "filter (\<lambda>e. \<not> (he_TurnSeq e \<le> 0 \<or> isCompactionSummaryKind (he_Kind e)) \<and>
      \<not> of_turn (cp_CurrentTurnSeq base) (cp_CurrentRequestID base) e) (cf_Entries c) = []"
    using assms by (auto simp: settled_def filter_empty_conv)
  ultimately show ?thesis using settled_no_candidate [OF assms]
    by (simp add: buildAutoCompactionPlanFromHistory_def buildLegacyCompactionPlan_def buildContextCompactionCandidates_def
        List.map_filter_def Let_def)
qed

lemma preserved_current:
  assumes "k \<in> set (autoCompactionPreservedEntryIndexes es turn req latest)"
  shows "k < length es" "of_turn turn req (es ! k)"
    "shouldPreserveAutoCompactionEntry (es ! k) latest \<or> kind_of (es ! k) = ''assistant_text''"
proof -
  have carrier: "k < length xs \<and> of_turn turn req (rev xs ! k) \<and> kind_of (rev xs ! k) = ''assistant_text''"
    if "carrier_back turn req xs = Some k" for k xs
    using that by (induction turn req xs rule: carrier_back.induct) (auto simp: nth_append split: if_splits)
  have "k < length es \<and> of_turn turn req (es ! k) \<and> kind_of (es ! k) = ''assistant_text''"
    if "latestAssistantReasoningCarrierIndex es n turn req = Some k" for n
    using carrier [OF that [unfolded latestAssistantReasoningCarrierIndex_def]] by (auto simp: nth_take)
  then show "k < length es" "of_turn turn req (es ! k)"
    "shouldPreserveAutoCompactionEntry (es ! k) latest \<or> kind_of (es ! k) = ''assistant_text''"
    using assms by (auto simp: autoCompactionPreservedEntryIndexes_def preserve_trim Let_def split: if_splits option.splits)
qed

lemma preserved_unpoliced: "shouldPreserveAutoCompactionEntry e i \<Longrightarrow> canceledReplayPolicyForEntry e = None"
  by (auto simp: shouldPreserveAutoCompactionEntry_def canceledReplayPolicyForEntry_def split: option.splits if_splits)

lemma kept_entry:
  assumes "e \<in> set (buildAutoCompactionPreservedCurrentTurnEntries cl es plan)"
  shows "of_turn (pc_CurrentTurnSeq plan) (pc_CurrentRequestID plan) e" "canceledReplayPolicyForEntry e = None"
    "tool_kind e \<Longrightarrow> historyEntryToolCallID e \<noteq> [] \<and>
       historyEntryToolCallID e = latestCompletedToolCallIDForTurn es (pc_CurrentTurnSeq plan) (pc_CurrentRequestID plan)"
proof -
  let ?l = "latestCompletedToolCallIDForTurn es (pc_CurrentTurnSeq plan) (pc_CurrentRequestID plan)"
  obtain k where e: "e = rewritten cl (es ! k)"
    and k: "k \<in> set (autoCompactionPreservedEntryIndexes es (pc_CurrentTurnSeq plan) (pc_CurrentRequestID plan) ?l)"
    using assms by (auto simp: buildAutoCompactionPreservedCurrentTurnEntries_def Let_def split: if_splits)
  note p = preserved_current [OF k]
  show "of_turn (pc_CurrentTurnSeq plan) (pc_CurrentRequestID plan) e" using p(2) by (simp add: e of_turn_def)
  show "canceledReplayPolicyForEntry e = None"
  proof (cases "kind_of (es ! k) = ''tool_result'' \<or> kind_of (es ! k) = ''assistant_text''")
    case False
    then show ?thesis using preserved_unpoliced p(3) by (auto simp: e)
  qed (auto simp: e canceledReplayPolicyForEntry_def)
  have "trim_space ?l = ?l" using latest_mem [of es "pc_CurrentTurnSeq plan" "pc_CurrentRequestID plan"] call_id_trimmed by (metis trim_Nil(3))
  then show "tool_kind e \<Longrightarrow> historyEntryToolCallID e \<noteq> [] \<and> historyEntryToolCallID e = ?l"
    using p(3) by (auto simp: e shouldPreserveAutoCompactionEntry_def split: if_splits)
qed

lemma new_entry_fields [simp]:
  "he_TurnSeq (new_entry t r role k i p) = t" "he_RequestID (new_entry t r role k i p) = trim_space r" "he_Kind (new_entry t r role k i p) = k"
  "he_Payload (new_entry t r role k i p) = p" "he_ToolCallID (new_entry t r role k i p) = i"
  by (simp_all add: new_entry_def)

lemma compaction_kinds [simp]:
  "trim_space ''compacted_summary'' = ''compacted_summary''" "trim_space ''runtime_state'' = ''runtime_state''"
  by code_simp+

lemma built_settled:
  assumes "buildCompactedContextEntries cl now c plan txt = Inr es"
  shows "settled (pc_CurrentTurnSeq plan) (pc_CurrentRequestID plan) es"
proof -
  let ?t = "pc_CurrentTurnSeq plan" and ?r = "pc_CurrentRequestID plan"
  let ?kept = "buildAutoCompactionPreservedCurrentTurnEntries cl (cf_Entries c) plan"
  let ?l = "latestCompletedToolCallIDForTurn (cf_Entries c) ?t ?r"
  obtain state where "newCompactedRuntimeStateEntry cl now c plan = Inr state"
    and es: "set es \<subseteq> {newCompactionSummaryEntry plan txt} \<union> set_option state \<union> set ?kept"
    using assms by (auto simp: buildCompactedContextEntries_def split: sum.splits option.splits if_splits)
  then have state: "he_TurnSeq e = ?t \<and> he_RequestID e = trim_space ?r \<and> he_Kind e = ''runtime_state''" if "e \<in> set_option state" for e
    using that by (auto simp: newCompactedRuntimeStateEntry_def Let_def split: sum.splits if_splits option.splits)
  have "of_turn ?t ?r e \<and> canceledReplayPolicyForEntry e = None \<and>
      (tool_kind e \<longrightarrow> historyEntryToolCallID e \<noteq> [] \<and> historyEntryToolCallID e = ?l)" if mem: "e \<in> set es" for e
  proof -
    consider "e = newCompactionSummaryEntry plan txt" | "e \<in> set_option state" | "e \<in> set ?kept" using subsetD [OF es mem] by blast
    then show ?thesis
    proof cases
      case 3
      then show ?thesis using kept_entry by blast
    qed (use state in \<open>auto simp: newCompactionSummaryEntry_def of_turn_def canceledReplayPolicyForEntry_def\<close>)
  qed
  then show ?thesis unfolding settled_def by (metis (no_types, lifting))
qed

lemma same_settled:
  assumes "settled turn req es" "list_all2 stored_as es es'"
  shows "settled turn req es'"
proof -
  have same: "of_turn turn req e' = of_turn turn req e \<and> canceledReplayPolicyForEntry e' = canceledReplayPolicyForEntry e \<and>
      kind_of e' = kind_of e \<and> historyEntryToolCallID e' = historyEntryToolCallID e" if "stored_as e e'" for e e'
    unfolding of_turn_def canceledReplayPolicyForEntry_def historyEntryToolCallID_def stored_asD [OF that] by simp
  have "\<exists>e \<in> set es. stored_as e e'" if "e' \<in> set es'" for e' using list_all2_mem [OF assms(2) that] .
  then show ?thesis using assms(1) same unfolding settled_def by (smt (verit))
qed

lemma settled_append:
  "settled turn req es \<Longrightarrow> \<forall>e \<in> set fs. of_turn turn req e \<and> \<not> tool_kind e \<and> canceledReplayPolicyForEntry e = None \<Longrightarrow>
     settled turn req (es @ fs)"
  by (auto simp: settled_def)

lemma compacted_settled:
  assumes "applyCompactionToConversation cl now plan txt c = Inr c'"
  shows "settled (pc_CurrentTurnSeq plan) (pc_CurrentRequestID plan) (cf_Entries c')"
  using compacted_entries [OF assms] built_settled same_settled by metis

text \<open>C9.  A turn is compacted once.  After a compaction of a turn, and with any entries added to the
  turn since that are no tool calls or results and do not cancel it, the history offers nothing more
  to compact: a prompt that exceeds the budget ends in the overflow error, any other prompt is sent.\<close>

theorem compaction_not_repeated:
  assumes "applyCompactionToConversation cl now plan txt c = Inr c'"
    and "cf_Entries d = cf_Entries c' @ later"
    and "\<forall>e \<in> set later. of_turn (pc_CurrentTurnSeq plan) (pc_CurrentRequestID plan) e \<and> \<not> tool_kind e \<and>
           canceledReplayPolicyForEntry e = None"
    and "cst_TurnSeq s = pc_CurrentTurnSeq plan" "trim_space (cst_RequestID s) = trim_space (pc_CurrentRequestID plan)"
  shows "buildAutoCompactionPlan cl tx fingerprint s d compiled =
    (let tokens = snd (auto_context_tokens cl fingerprint s d compiled); budget = i64 (compactionContextWindowSize d - auto_reserve d)
     in if 0 < tokens \<and> budget < tokens then Inl (ContextOverflow tokens budget) else Inr None)"
proof -
  have "settled (pc_CurrentTurnSeq plan) (pc_CurrentRequestID plan) (cf_Entries d)"
    unfolding assms(2) by (rule settled_append [OF compacted_settled [OF assms(1)] assms(3)])
  then have "settled (cst_TurnSeq s) (trim_space (cst_RequestID s)) (cf_Entries d)"
    by (simp add: assms(4,5) settled_def of_turn_def)
  then have "buildAutoCompactionPlanFromHistory cl tx (plan_base ''auto'' tokens reserve [] True s d compiled) d = None" for tokens reserve
    by (intro settled_no_plan) (simp add: plan_base_def)
  moreover have "0 < compactionContextWindowSize d" by (simp add: compactionContextWindowSize_def projectedConversationMaxTokens_def)
  ultimately show ?thesis by (auto simp: buildAutoCompactionPlan_def Let_def split: prod.split)
qed

section \<open>An example\<close>

lemma compaction_applies:
  assumes "projectConversationStructuredState (cl_codecs cl) now c = Inr st" "\<forall>x. cl_encode_state cl x \<noteq> None"
  obtains c' where "applyCompactionToConversation cl now plan txt c = Inr c'"
proof -
  obtain r where "cl_encode_state cl (ss_PlanText st, clonePlanRegistryEntries (ss_Plans st), ss_Todos st) = Some r" using assms(2) by blast
  then have "\<exists>state. newCompactedRuntimeStateEntry cl now c plan = Inr state" using assms(1) by (simp add: newCompactedRuntimeStateEntry_def Let_def)
  then have "\<exists>c'. applyCompactionToConversation cl now plan txt c = Inr c'"
    by (auto simp: applyCompactionToConversation_def buildCompactedContextEntries_def Let_def)
  then show thesis using that by blast
qed

definition demo_compaction_lib :: compaction_lib where
  "demo_compaction_lib = \<lparr>cl_json = \<lparr>jl_decode = \<lambda>_. None, jl_encode = \<lambda>_. None\<rparr>, cl_diff = \<lambda>_ _. ([], []), cl_bytes = \<lambda>_. [],
     cl_encode_state = \<lambda>_. Some (RawJson (JString ''state'')),
     cl_codecs = \<lparr>decode_runtime_state = \<lambda>_. Some ([], [], [Some (demo_todo ''a'' TODO_STATUS_PENDING)]),
       decode_tool_call = \<lambda>_. Some (UpdateTodosToolCall (Some ([Some (demo_todo ''a'' TODO_STATUS_PENDING)], True)))\<rparr>\<rparr>"

definition demo_turn :: "HistoryEntry list" where
  "demo_turn = map (\<lambda>e. e\<lparr>he_CreatedAt := 1\<rparr>)
     [new_entry 1 ''r'' ''user'' ''user_message'' [] (RawJson (JString ''hi'')),
      newToolResultEntry 1 ''r'' ''a'' ''Read'' [] ''x'' [] RawEmpty,
      newToolResultEntry 1 ''r'' ''b'' ''TodoWrite'' [] ''ok'' [] (RawJson (JString ''todo''))]"

definition demo_full :: ConversationFile where
  "demo_full = emptyConversation\<lparr>cf_Entries := demo_turn\<rparr>"

definition demo_base :: compactionPlan where
  "demo_base = \<lparr>cp_Trigger = ''auto'', cp_ContextTokens = 1, cp_ContextWindowSize = 1, cp_ReserveTokens = 1, cp_MessageCount = 0,
     cp_MessagesToCompact = 0, cp_CompactTurnCount = 0, cp_IsFirstCompaction = True, cp_ExistingSummary = [], cp_CompactedTurns = [],
     cp_ManualInstruction = [], cp_RequestSource = [], cp_CurrentTurnSeq = 1, cp_CurrentRequestID = ''r'', cp_CurrentUserText = [],
     cp_PreserveCurrentTurnInputs = True\<rparr>"

definition demo_plan :: PendingCompaction where
  "demo_plan = newPendingCompaction demo_base"

lemma demo_state:
  "projectConversationStructuredState (cl_codecs demo_compaction_lib) 5 demo_full =
     Inr \<lparr>ss_PlanText = [], ss_HasPlan = False, ss_Plans = [], ss_Todos = [demo_todo ''a'' TODO_STATUS_PENDING], ss_HasTodos = True\<rparr>"
  by code_simp

lemma demo_due: "buildAutoCompactionPlanFromHistory demo_compaction_lib \<lparr>ct_user_text = \<lambda>_. None, ct_tool_call = \<lambda>_. None\<rparr> demo_base demo_full \<noteq> None"
  by code_simp

lemma demo_applies: obtains c' where "applyCompactionToConversation demo_compaction_lib 5 demo_plan ''s'' demo_full = Inr c'"
  by (rule compaction_applies [OF demo_state]) (simp_all add: demo_compaction_lib_def)

definition demo_measurement :: providerContextMeasurement where
  "demo_measurement = \<lparr>pm_ModelCallID = [], pm_CompiledFingerprint = [], pm_EstimatedPromptTokens = 0, pm_ReportedPromptTokens = 0,
     pm_ProviderProjectionDiffs = False\<rparr>"

definition demo_compaction_stream :: compaction_stream where
  "demo_compaction_stream = \<lparr>cst_TurnSeq = 1, cst_RequestID = ''r'', cst_LatestUserText = [], cst_Measurement = demo_measurement\<rparr>"

definition demo_overfull :: CompiledConversation where
  "demo_overfull = \<lparr>cc_Mode = AGENT_MODE_AGENT, cc_PromptProfile = [], cc_Messages = [], cc_StableMessageCount = 0, cc_Tools = [],
     cc_CompileSummary = [], cc_ProviderProjectionApplied = False, cc_ProviderProjectionFallback = False,
     cc_RequiresToolCapabilityProjection = False\<rparr>"

theorem compaction_not_repeated_witness:
  "buildAutoCompactionPlanFromHistory demo_compaction_lib \<lparr>ct_user_text = \<lambda>_. None, ct_tool_call = \<lambda>_. None\<rparr> demo_base demo_full \<noteq> None \<and>
   (\<exists>c'. applyCompactionToConversation demo_compaction_lib 5 demo_plan ''s'' demo_full = Inr c' \<and>
     (\<forall>p. buildAutoCompactionPlan demo_compaction_lib \<lparr>ct_user_text = \<lambda>_. None, ct_tool_call = \<lambda>_. None\<rparr> (\<lambda>_. [])
       demo_compaction_stream c' demo_overfull \<noteq> Inr (Some p)))"
proof -
  obtain c' where c': "applyCompactionToConversation demo_compaction_lib 5 demo_plan ''s'' demo_full = Inr c'" by (rule demo_applies)
  have "cst_TurnSeq demo_compaction_stream = pc_CurrentTurnSeq demo_plan" "cst_RequestID demo_compaction_stream = pc_CurrentRequestID demo_plan"
    by (simp_all add: demo_compaction_stream_def demo_plan_def newPendingCompaction_def demo_base_def)
  then show ?thesis using demo_due c' compaction_not_repeated [OF c', of c' "[]" demo_compaction_stream]
    by (auto simp: Let_def split: if_splits)
qed

end
