(* ===== verification/Compaction_State.thy ===== *)
theory Compaction_State
  imports Compaction_Guarantees
begin

text \<open>
  The plan and the todos survive a compaction.
\<close>

section \<open>One entry\<close>

definition project_step ::
    "codecs \<Rightarrow> go_time \<Rightarrow> HistoryEntry \<Rightarrow> structuredConversationState \<Rightarrow> structured_error + structuredConversationState" where
  "project_step cd now e st = project_entries cd now [e] st"

lemma project_Cons:
  "project_entries cd now (e # es) st = (case project_step cd now e st of Inl err \<Rightarrow> Inl err | Inr s \<Rightarrow> project_entries cd now es s)"
  by (simp add: project_step_def Let_def split: sum.split)

lemma project_append:
  "project_entries cd now (es @ fs) st = (case project_entries cd now es st of Inl err \<Rightarrow> Inl err | Inr s \<Rightarrow> project_entries cd now fs s)"
  by (induction es arbitrary: st) (simp_all add: project_Cons split: sum.split del: project_entries.simps(2))

lemma project_other: "kind_of e \<notin> set [''runtime_state'', ''tool_result''] \<Longrightarrow> project_step cd now e st = Inr st"
  by (simp add: project_step_def)

lemma project_result:
  assumes "kind_of e = ''tool_result''"
  shows "project_step cd now e st = (case decode_tool_result_payload (he_Payload e) of
      None \<Rightarrow> Inl BadToolResult
    | Some p \<Rightarrow> if raw_is_empty (tp_ToolCall p) then Inr st
        else (case decode_tool_call cd (tp_ToolCall p) of
            None \<Rightarrow> Inl BadToolCall
          | Some call \<Rightarrow> project_tool_call (timestampMillis now (he_CreatedAt e)) call st))"
  using assms by (simp add: project_step_def tool_result_call_decode split: option.split sum.split)

section \<open>Well-formed states\<close>

definition state_ok :: "structuredConversationState \<Rightarrow> bool" where
  "state_ok s \<longleftrightarrow> trim_space (ss_PlanText s) = ss_PlanText s \<and> plans_normal (ss_Plans s) \<and>
     (ss_HasPlan s \<or> ss_PlanText s = []) \<and> (ss_HasTodos s \<or> ss_Todos s = [])"

definition shown :: "structuredConversationState \<Rightarrow> string \<times> plan_registry \<times> TodoItem list" where
  "shown s = (ss_PlanText s, ss_Plans s, ss_Todos s)"

lemma update_normal:
  assumes "plans_normal ps" "plan_normal (k, v)"
  shows "plans_normal (AList.update k v ps)"
proof -
  have "\<forall>kv \<in> set (AList.update k v ps). plan_normal kv" using assms set_AList_update by (fastforce simp: plans_normal_def)
  then show ?thesis using assms(1) distinct_update [of ps k v] by (simp add: plans_normal_def)
qed

lemma current_trimmed: "trim_space ''current'' = ''current''" by code_simp

lemma upsert_normal: "plans_normal (upsertCurrentPlanRegistryEntry ps uri)"
proof -
  let ?f = "clonePlanRegistryEntries ps"
  have key: "plan_normal (fst (hd ?f), Some \<lparr>pre_Id = fst (hd ?f), pre_Path = trim_space uri\<rparr>)" if "length ?f = 1"
  proof -
    have "hd ?f \<in> set ?f" using that by (cases ?f) simp_all
    then have "plan_normal (hd ?f)" using clone_plans_normal [of ps] by (simp add: plans_normal_def)
    then show ?thesis by (auto simp: plan_normal_def split: prod.splits option.splits)
  qed
  then show ?thesis
    using clone_plans_normal [of ps] current_trimmed
    by (auto simp: upsertCurrentPlanRegistryEntry_def Let_def intro!: update_normal) (auto simp: plan_normal_def)
qed

lemma upsert_idem: "upsertCurrentPlanRegistryEntry (upsertCurrentPlanRegistryEntry ps uri) uri = upsertCurrentPlanRegistryEntry ps uri"
proof (cases "trim_space uri = []")
  case False
  let ?f = "clonePlanRegistryEntries ps"
  define key where "key = (if map_of ?f ''current'' = None \<and> length ?f = 1 then fst (hd ?f) else ''current'')"
  define v where "v = Some \<lparr>pre_Id = key, pre_Path = trim_space uri\<rparr>"
  define g where "g = AList.update key v ?f"
  have u: "upsertCurrentPlanRegistryEntry ps uri = g"
    using False by (simp add: upsertCurrentPlanRegistryEntry_def Let_def key_def v_def g_def)
  then have c: "clonePlanRegistryEntries g = g" using clone_normal upsert_normal by metis
  have key2: "(if map_of g ''current'' = None \<and> length g = 1 then fst (hd g) else ''current'') = key"
  proof (cases "map_of ?f ''current'' = None \<and> length ?f = 1")
    case True
    then obtain k w where f: "?f = [(k, w)]" by (cases ?f) auto
    with True have "key = k" "k \<noteq> ''current''" by (auto simp: key_def split: if_splits)
    then show ?thesis by (simp add: f g_def)
  qed (auto simp: key_def g_def update_conv')
  have "upsertCurrentPlanRegistryEntry g uri = AList.update key v g"
    unfolding upsertCurrentPlanRegistryEntry_def Let_def c key2 v_def [symmetric] using False by simp
  then show ?thesis by (simp add: u) (simp add: g_def)
qed (simp add: upsertCurrentPlanRegistryEntry_def)

lemma project_tool_call_ok:
  assumes "project_tool_call base call s = Inr s'" "state_ok s"
  shows "state_ok s'"
  using assms by (auto simp: project_tool_call_def state_ok_def upsert_normal split: tool_call_view.splits sum.splits option.splits if_splits)

lemma project_step_ok:
  assumes "project_step cd now e s = Inr s'" "state_ok s"
  shows "state_ok s'"
proof -
  consider "kind_of e = ''runtime_state''" | "kind_of e = ''tool_result''" | "kind_of e \<notin> set [''runtime_state'', ''tool_result'']" by auto
  then show ?thesis
  proof cases
    case 1
    then have "project_runtime_state cd e s = Inr s'" using assms(1) by (auto simp: project_step_def split: sum.splits)
    then show ?thesis using assms(2)
      by (auto simp: project_runtime_state_def state_ok_def clone_plans_normal Let_def split: option.splits if_splits)
  next
    case 2
    show ?thesis using assms project_tool_call_ok unfolding project_result [OF 2] by (auto split: option.splits if_splits)
  next
    case 3
    then show ?thesis using assms project_other [OF 3] by simp
  qed
qed

lemma project_entries_ok: "project_entries cd now es s = Inr s' \<Longrightarrow> state_ok s \<Longrightarrow> state_ok s'"
  by (induction es arbitrary: s) (auto simp: project_Cons project_step_ok split: sum.splits simp del: project_entries.simps(2))

lemma empty_state_ok: "state_ok emptyStructuredState"
  by (simp add: state_ok_def emptyStructuredState_def plans_normal_def)

section \<open>Applying a result again\<close>

text \<open>A recorded todo update that merged, or that names every unfinished todo of the list it replaced.\<close>

definition complete_update :: "int \<Rightarrow> tool_call_view \<Rightarrow> structuredConversationState \<Rightarrow> bool" where
  "complete_update base call s \<longleftrightarrow> (case call of
       UpdateTodosToolCall (Some (todos, False)) \<Rightarrow>
         (case normalizeTodoItems todos base False of Inl _ \<Rightarrow> True
          | Inr items \<Rightarrow> missingActiveTodoReplacementIDs (map Some (ss_Todos s)) (map Some items) = [])
     | _ \<Rightarrow> True)"

lemma missing_self: "missingActiveTodoReplacementIDs (map Some ts) (map Some ts) = []"
proof -
  have "set (active_ids (map Some ts)) \<subseteq> set (item_ids (map Some ts))" by (auto simp: set_active_ids)
  then show ?thesis by (auto simp: missingActiveTodoReplacementIDs_def filter_empty_conv simp flip: set_empty)
qed

lemma tool_call_again:
  assumes "project_tool_call base call s = Inr st" "complete_update base call s" "shown s' = shown st" "state_ok s'" "state_ok st"
  shows "\<exists>s''. project_tool_call base call s' = Inr s'' \<and> shown s'' = shown st"
proof (cases call)
  case (CreatePlanToolCall success planURI plan todos phases)
  then show ?thesis using assms(1,3) upsert_idem
    by (auto simp: project_tool_call_def shown_def split: sum.splits if_splits)
next
  case (UpdateTodosToolCall u)
  show ?thesis
  proof (cases u)
    case (Some tw)
    obtain todos wasMerge where tw: "tw = (todos, wasMerge)" by (cases tw)
    then show ?thesis using assms(1-3) missing_self
      by (auto simp: UpdateTodosToolCall Some project_tool_call_def shown_def complete_update_def split: sum.splits if_splits bool.splits)
  qed (use assms UpdateTodosToolCall in \<open>simp add: project_tool_call_def\<close>)
qed (use assms in \<open>simp add: project_tool_call_def\<close>)

section \<open>A compacted conversation\<close>

definition surviving :: "ConversationFile \<Rightarrow> HistoryEntry list \<Rightarrow> HistoryEntry list" where
  "surviving c = filter (survives (canceledReplayPolicies (cf_Entries c)) (canceledReplayActivityTurns (cf_Entries c)))"

definition kept_result :: "PendingCompaction \<Rightarrow> HistoryEntry list \<Rightarrow> HistoryEntry \<Rightarrow> bool" where
  "kept_result plan es e \<longleftrightarrow> pc_CurrentTurnSeq plan > 0 \<and> of_turn (pc_CurrentTurnSeq plan) (pc_CurrentRequestID plan) e \<and>
     kind_of e = ''tool_result'' \<and>
     historyEntryToolCallID e = latestCompletedToolCallIDForTurn es (pc_CurrentTurnSeq plan) (pc_CurrentRequestID plan)"

text \<open>Behind a kept result the history holds no other result and no runtime state, and a kept todo
  update is complete.\<close>

definition complete_result :: "codecs \<Rightarrow> go_time \<Rightarrow> HistoryEntry \<Rightarrow> structuredConversationState \<Rightarrow> bool" where
  "complete_result cd now e s \<longleftrightarrow> (case decode_tool_result_payload (he_Payload e) of None \<Rightarrow> True
     | Some p \<Rightarrow> (case decode_tool_call cd (tp_ToolCall p) of None \<Rightarrow> True
         | Some call \<Rightarrow> complete_update (timestampMillis now (he_CreatedAt e)) call s))"

definition kept_results_last :: "codecs \<Rightarrow> go_time \<Rightarrow> PendingCompaction \<Rightarrow> ConversationFile \<Rightarrow> bool" where
  "kept_results_last cd now plan c \<longleftrightarrow> (\<forall>k < length (cf_Entries c). kept_result plan (cf_Entries c) (cf_Entries c ! k) \<longrightarrow>
     (\<forall>x \<in> set (drop (Suc k) (cf_Entries c)). kind_of x \<notin> set [''runtime_state'', ''tool_result'']) \<and>
     (case project_entries cd now (surviving c (take k (cf_Entries c))) emptyStructuredState of Inl _ \<Rightarrow> True
      | Inr s \<Rightarrow> complete_result cd now (cf_Entries c ! k) s))"

lemma project_others: "\<forall>x \<in> set es. kind_of x \<notin> set [''runtime_state'', ''tool_result''] \<Longrightarrow> project_entries cd now es s = Inr s"
  by (induction es) (simp_all add: project_Cons project_other del: project_entries.simps(2))

lemma activity_survives:
  assumes "e \<in> set (cf_Entries c)" "0 < he_TurnSeq e" "kind_of e = ''tool_result''"
  shows "surviving c [e] = [e]"
proof -
  have "isCanceledTurnActivityEntry e" using assms(3) by (simp add: isCanceledTurnActivityEntry_def)
  then have "he_TurnSeq e \<in> canceledReplayActivityTurns (cf_Entries c)" using assms by (auto simp: canceledReplayActivityTurns_def)
  then show ?thesis using \<open>isCanceledTurnActivityEntry e\<close> by (auto simp: surviving_def survives_def split: option.split)
qed

lemma surviving_append: "surviving c (es @ fs) = surviving c es @ surviving c fs"
  by (simp add: surviving_def)

lemma split_at:
  assumes "k < length (cf_Entries c)" "kept_result plan (cf_Entries c) (cf_Entries c ! k)"
  shows "sanitizeCanceledReplayEntries (cf_Entries c) =
    surviving c (take k (cf_Entries c)) @ cf_Entries c ! k # surviving c (drop (Suc k) (cf_Entries c))"
proof -
  have "surviving c [cf_Entries c ! k] = [cf_Entries c ! k]"
    using assms by (intro activity_survives) (auto simp: kept_result_def of_turn_def)
  moreover have "sanitizeCanceledReplayEntries (cf_Entries c) =
      surviving c ((take k (cf_Entries c) @ [cf_Entries c ! k]) @ drop (Suc k) (cf_Entries c))"
    using id_take_nth_drop [OF assms(1)] by (simp add: sanitizeCanceledReplayEntries_def surviving_def Let_def)
  ultimately show ?thesis by (simp add: surviving_append del: append_Cons)
qed

lemma rewritten_call:
  assumes "kind_of e = ''tool_result''" "decode_tool_result_payload (he_Payload e) = Some p"
  obtains p' where "decode_tool_result_payload (he_Payload (rewritten cl e)) = Some p'" "tp_ToolCall p' = RawEmpty \<or> tp_ToolCall p' = tp_ToolCall p"
proof -
  have "tp_ToolCall (cut_result cl n m p) = RawEmpty \<or> tp_ToolCall (cut_result cl n m p) = tp_ToolCall p" for n m
    by (simp add: cut_result_def Let_def)
  then show thesis using rewritten_cases [of cl e] assms that by (auto dest!: decode_tool_result)
qed

lemma kept_again:
  assumes st: "projectConversationStructuredState cd now c = Inr st" and last: "kept_results_last cd now plan c"
    and k: "k < length (cf_Entries c)" "kept_result plan (cf_Entries c) (cf_Entries c ! k)"
    and e': "he_Payload e' = he_Payload (rewritten cl (cf_Entries c ! k))" "he_Kind e' = he_Kind (cf_Entries c ! k)"
      "he_CreatedAt e' = he_CreatedAt (cf_Entries c ! k)" "\<not> isZeroTime (he_CreatedAt e')"
    and s': "state_ok s'" "shown s' = shown st"
  shows "\<exists>s''. project_step cd now' e' s' = Inr s'' \<and> shown s'' = shown st"
proof -
  let ?e = "cf_Entries c ! k" and ?base = "timestampMillis now (he_CreatedAt (cf_Entries c ! k))"
  have kind: "kind_of ?e = ''tool_result''" using k(2) by (simp add: kept_result_def)
  obtain s1 st1 where s1: "project_entries cd now (surviving c (take k (cf_Entries c))) emptyStructuredState = Inr s1"
    and step: "project_step cd now ?e s1 = Inr st1"
    and rest: "project_entries cd now (surviving c (drop (Suc k) (cf_Entries c))) st1 = Inr st"
    using st unfolding projectConversationStructuredState_def checkpointProjectionEntries_def split_at [OF k]
    by (auto simp: project_append project_Cons split: sum.splits simp del: project_entries.simps(2))
  have "\<forall>x \<in> set (surviving c (drop (Suc k) (cf_Entries c))). kind_of x \<notin> set [''runtime_state'', ''tool_result'']"
    using last k by (auto simp: kept_results_last_def surviving_def)
  from project_others [OF this] rest have "st1 = st" by simp
  note step = step [unfolded this project_result [OF kind]]
  have ok: "state_ok s1" "state_ok st"
    using project_entries_ok [OF s1 empty_state_ok] project_entries_ok [OF st [unfolded projectConversationStructuredState_def] empty_state_ok] by auto
  obtain p where p: "decode_tool_result_payload (he_Payload ?e) = Some p" using step by (auto split: option.splits)
  obtain p' where p': "decode_tool_result_payload (he_Payload (rewritten cl ?e)) = Some p'" "tp_ToolCall p' = RawEmpty \<or> tp_ToolCall p' = tp_ToolCall p"
    by (rule rewritten_call [OF kind p])
  have kind': "kind_of e' = ''tool_result''" using kind e'(2) by simp
  have base: "timestampMillis now' (he_CreatedAt e') = ?base" using e'(3,4) by (simp add: timestampMillis_def)
  note step' = project_result [OF kind', of cd now' s', unfolded e'(1) p'(1) base option.case]
  show ?thesis
  proof (cases "raw_is_empty (tp_ToolCall p')")
    case True
    then show ?thesis using s'(2) by (simp add: step')
  next
    case False
    then have same: "tp_ToolCall p' = tp_ToolCall p" "\<not> raw_is_empty (tp_ToolCall p)" using p'(2) by (auto simp: raw_is_empty_def)
    then obtain call where call: "decode_tool_call cd (tp_ToolCall p) = Some call" "project_tool_call ?base call s1 = Inr st"
      using step p by (auto split: option.splits)
    have "complete_update ?base call s1"
      using last k s1 p call(1) by (auto simp: kept_results_last_def complete_result_def split: sum.splits)
    from tool_call_again [OF call(2) this s'(2) s'(1) ok(2)] show ?thesis using False same call(1) by (simp add: step')
  qed
qed

lemma keeps_shown:
  assumes "\<forall>e \<in> set es. \<forall>s. state_ok s \<and> shown s = x \<longrightarrow> (\<exists>s'. project_step cd now e s = Inr s' \<and> shown s' = x)"
    and "state_ok s" "shown s = x"
  shows "\<exists>s'. project_entries cd now es s = Inr s' \<and> shown s' = x"
  using assms
proof (induction es arbitrary: s)
  case (Cons e es)
  then obtain s' where s': "project_step cd now e s = Inr s'" "shown s' = x" by (metis list.set_intros(1))
  then have "state_ok s'" using project_step_ok Cons.prems(2) by blast
  from Cons.IH [OF _ this s'(2)] Cons.prems(1) s'(1) show ?case by (simp add: project_Cons del: project_entries.simps(2))
qed simp

text \<open>What the metadata of a conversation shows of the state: plan, plan registry and todos.\<close>

definition runtime_view :: "codecs \<Rightarrow> go_time \<Rightarrow> ConversationFile \<Rightarrow> (string \<times> plan_registry \<times> TodoItem list) option" where
  "runtime_view cd now c = (case refreshConversationRuntimeState cd now c of Inl _ \<Rightarrow> None
     | Inr d \<Rightarrow> Some (cf_CurrentPlanText d, cf_CurrentPlans d, cf_CurrentTodos d))"

lemma view_shown:
  assumes "projectConversationStructuredState cd now c = Inr st"
  shows "state_ok st" "runtime_view cd now c = Some (shown st)"
proof -
  show ok: "state_ok st" using project_entries_ok [OF assms [unfolded projectConversationStructuredState_def] empty_state_ok] .
  then show "runtime_view cd now c = Some (shown st)"
    by (auto simp: runtime_view_def refreshConversationRuntimeState_def assms state_ok_def shown_def clone_normal)
qed

text \<open>\<open>encoding/json\<close> reads back what it wrote of the plan and todo messages.\<close>

definition state_reads_back :: "compaction_lib \<Rightarrow> string \<times> plan_registry \<times> TodoItem list \<Rightarrow> bool" where
  "state_reads_back cl x \<longleftrightarrow> (\<forall>r. cl_encode_state cl x = Some r \<longrightarrow>
     decode_runtime_state (cl_codecs cl) r = Some (fst x, fst (snd x), map Some (snd (snd x))))"

lemma state_entry:
  assumes st: "projectConversationStructuredState (cl_codecs cl) now c = Inr st" "newCompactedRuntimeStateEntry cl now c plan = Inr state"
    and rb: "state_reads_back cl (shown st)" and zs: "list_all2 stored_as (case state of None \<Rightarrow> [] | Some e \<Rightarrow> [e]) zs"
  shows "\<exists>s. project_entries (cl_codecs cl) now' zs emptyStructuredState = Inr s \<and> shown s = shown st"
proof -
  have ok: "state_ok st" using view_shown [OF st(1)] by blast
  then have pl: "clonePlanRegistryEntries (ss_Plans st) = ss_Plans st" "trim_space (ss_PlanText st) = ss_PlanText st"
    by (simp_all add: state_ok_def clone_normal)
  show ?thesis
  proof (cases state)
    case None
    then have "shown st = shown emptyStructuredState"
      using st pl by (auto simp: newCompactedRuntimeStateEntry_def shown_def emptyStructuredState_def Let_def split: if_splits option.splits)
    then show ?thesis using zs None by simp
  next
    case (Some e)
    then obtain r where r: "cl_encode_state cl (shown st) = Some r" "he_Payload e = r" "he_Kind e = ''runtime_state''"
      using st pl by (auto simp: newCompactedRuntimeStateEntry_def shown_def Let_def split: if_splits option.splits)
    obtain z where z: "zs = [z]" "stored_as e z" using zs Some by (auto simp: list_all2_Cons1)
    have "decode_runtime_state (cl_codecs cl) (he_Payload z) = Some (ss_PlanText st, ss_Plans st, map Some (ss_Todos st))"
      using rb r stored_asD(5) [OF z(2)] by (simp add: state_reads_back_def shown_def)
    moreover have "kind_of z = ''runtime_state''" using stored_asD(3) [OF z(2)] r(3) by simp
    ultimately show ?thesis
      using ok pl unfolding z(1)
      by (auto simp: project_runtime_state_def cloneTodoItems_def shown_def emptyStructuredState_def state_ok_def clone_normal Let_def)
  qed
qed

lemma kept_steps:
  assumes st: "projectConversationStructuredState (cl_codecs cl) now c = Inr st" and last: "kept_results_last (cl_codecs cl) now plan c"
    and times: "\<forall>e \<in> set (cf_Entries c). \<not> isZeroTime (he_CreatedAt e)"
    and e: "e \<in> set (buildAutoCompactionPreservedCurrentTurnEntries cl (cf_Entries c) plan)" "stored_as e z" and s: "state_ok s" "shown s = shown st"
  shows "\<exists>s'. project_step (cl_codecs cl) now' z s = Inr s' \<and> shown s' = shown st"
proof -
  let ?es = "cf_Entries c" and ?t = "pc_CurrentTurnSeq plan" and ?r = "pc_CurrentRequestID plan"
  let ?l = "latestCompletedToolCallIDForTurn ?es ?t ?r"
  obtain k where k: "e = rewritten cl (?es ! k)" "k \<in> set (autoCompactionPreservedEntryIndexes ?es ?t ?r ?l)"
    using e(1) by (auto simp: buildAutoCompactionPreservedCurrentTurnEntries_def Let_def split: if_splits)
  note p = preserved_current [OF k(2)]
  show ?thesis
  proof (cases "kind_of (?es ! k) = ''tool_result''")
    case True
    have "0 < ?t" using k(2) by (auto simp: autoCompactionPreservedEntryIndexes_def split: if_splits)
    moreover have "historyEntryToolCallID (?es ! k) = ?l" using kept_entry(3) [OF e(1)] True k(1) by simp
    ultimately have kept: "kept_result plan ?es (?es ! k)" using p(2) True by (simp add: kept_result_def)
    have "\<not> isZeroTime (he_CreatedAt (?es ! k))" using times p(1) by simp
    then show ?thesis using stored_asD [OF e(2)] by (intro kept_again [OF st last p(1) kept _ _ _ _ s]) (simp_all add: k(1))
  next
    case False
    then have "kind_of (?es ! k) \<notin> set [''runtime_state'', ''tool_result'']"
      using p(3) by (auto simp: shouldPreserveAutoCompactionEntry_def split: if_splits)
    then show ?thesis using s stored_asD(3) [OF e(2)] by (simp add: project_other k(1))
  qed
qed

text \<open>C10.  The plan and the todos survive a compaction.  Let the tool result a compaction keeps be the
  last entry that carries state, as it is when the current turn is the last one, and a recorded
  todo update be complete, as the todo tool makes it.  Then the compacted conversation has the plan
  text, the plan registry and the todo list of the original, although the entries they were built
  from are gone and the kept result is applied to them once more.\<close>

theorem compaction_keeps_plan_and_todos:
  assumes "applyCompactionToConversation cl now plan txt c = Inr c'"
    and "kept_results_last (cl_codecs cl) now plan c"
    and "\<forall>e \<in> set (cf_Entries c). \<not> isZeroTime (he_CreatedAt e)"
    and "\<forall>x. runtime_view (cl_codecs cl) now c = Some x \<longrightarrow> state_reads_back cl x"
  shows "\<exists>x. runtime_view (cl_codecs cl) now c = Some x \<and> runtime_view (cl_codecs cl) now' c' = Some x"
proof -
  let ?cd = "cl_codecs cl"
  obtain state z rs ks where state: "newCompactedRuntimeStateEntry cl now c plan = Inr state"
    and z: "cf_Entries c' = z # rs @ ks" "stored_as (newCompactionSummaryEntry plan txt) z"
      "list_all2 stored_as (case state of None \<Rightarrow> [] | Some e \<Rightarrow> [e]) rs"
      "list_all2 stored_as (buildAutoCompactionPreservedCurrentTurnEntries cl (cf_Entries c) plan) ks"
    by (rule compacted_shape [OF assms(1)])
  obtain st where st: "projectConversationStructuredState ?cd now c = Inr st"
    using state by (auto simp: newCompactedRuntimeStateEntry_def split: sum.splits)
  have "kind_of z = ''compacted_summary''" using stored_asD(3) [OF z(2)] by (simp add: newCompactionSummaryEntry_def)
  then have first: "project_step ?cd now' z emptyStructuredState = Inr emptyStructuredState" by (simp add: project_other)
  have rb: "state_reads_back cl (shown st)" using assms(4) view_shown(2) [OF st] by blast
  obtain s where s: "project_entries ?cd now' rs emptyStructuredState = Inr s" "shown s = shown st"
    using state_entry [OF st state rb z(3), of now'] by blast
  have ok: "state_ok s" by (rule project_entries_ok [OF s(1) empty_state_ok])
  have steps: "\<forall>k \<in> set ks. \<forall>s. state_ok s \<and> shown s = shown st \<longrightarrow> (\<exists>s'. project_step ?cd now' k s = Inr s' \<and> shown s' = shown st)"
    using kept_steps [OF st assms(2,3)] list_all2_mem [OF z(4)] by blast
  obtain s' where s': "project_entries ?cd now' ks s = Inr s'" "shown s' = shown st" using keeps_shown [OF steps ok s(2)] by blast
  have "sanitizeCanceledReplayEntries (cf_Entries c') = cf_Entries c'"
    using compacted_settled [OF assms(1)] by (intro no_policies) (simp add: settled_def)
  then have "projectConversationStructuredState ?cd now' c' = Inr s'"
    using first s(1) s'(1) by (simp add: projectConversationStructuredState_def checkpointProjectionEntries_def z(1) project_Cons project_append
        del: project_entries.simps(2))
  then show ?thesis using view_shown(2) [OF st] view_shown(2) s'(2) by (metis (no_types))
qed

lemma demo_last: "kept_results_last (cl_codecs demo_compaction_lib) 5 demo_plan demo_full"
proof -
  let ?es = "cf_Entries demo_full"
  have len: "length ?es = 3" and rest: "drop (Suc 2) ?es = []" by code_simp+
  have skip: "\<not> kept_result demo_plan ?es (?es ! 0)" "\<not> kept_result demo_plan ?es (?es ! 1)" by code_simp+
  have last: "case project_entries (cl_codecs demo_compaction_lib) 5 (surviving demo_full (take 2 ?es)) emptyStructuredState of Inl _ \<Rightarrow> True
      | Inr s \<Rightarrow> complete_result (cl_codecs demo_compaction_lib) 5 (?es ! 2) s" by code_simp
  show ?thesis unfolding kept_results_last_def
  proof (intro allI impI)
    fix k assume k3: "k < length ?es" and kept: "kept_result demo_plan ?es (?es ! k)"
    have "k \<noteq> 0" "k \<noteq> 1" using skip kept by metis+
    then have k: "k = 2" using k3 len by simp
    show "(\<forall>x \<in> set (drop (Suc k) ?es). kind_of x \<notin> set [''runtime_state'', ''tool_result'']) \<and>
      (case project_entries (cl_codecs demo_compaction_lib) 5 (surviving demo_full (take k ?es)) emptyStructuredState of Inl _ \<Rightarrow> True
       | Inr s \<Rightarrow> complete_result (cl_codecs demo_compaction_lib) 5 (?es ! k) s)"
      unfolding k rest using last by (intro conjI) simp_all
  qed
qed

theorem compaction_keeps_plan_and_todos_witness:
  "\<exists>c'. applyCompactionToConversation demo_compaction_lib 5 demo_plan ''s'' demo_full = Inr c' \<and>
     runtime_view (cl_codecs demo_compaction_lib) 9 c' = Some ([], [], [demo_todo ''a'' TODO_STATUS_PENDING])"
proof -
  obtain c' where c': "applyCompactionToConversation demo_compaction_lib 5 demo_plan ''s'' demo_full = Inr c'" by (rule demo_applies)
  have view: "runtime_view (cl_codecs demo_compaction_lib) 5 demo_full = Some ([], [], [demo_todo ''a'' TODO_STATUS_PENDING])"
    using view_shown(2) [OF demo_state] by (simp add: shown_def)
  then have "\<forall>x. runtime_view (cl_codecs demo_compaction_lib) 5 demo_full = Some x \<longrightarrow> state_reads_back demo_compaction_lib x"
    by (simp add: state_reads_back_def demo_compaction_lib_def)
  moreover have "\<forall>e \<in> set (cf_Entries demo_full). \<not> isZeroTime (he_CreatedAt e)"
    by (simp add: demo_full_def demo_turn_def isZeroTime_def)
  ultimately show ?thesis using compaction_keeps_plan_and_todos [OF c' demo_last, of 9] view c' by simp
qed

end
