(* ===== verification/Compaction_Inputs.thy ===== *)
theory Compaction_Inputs
  imports Compaction_Guarantees
begin

text \<open>
  What a compacted conversation consists of, and that its prompt hides none of it.
\<close>

section \<open>Reading the summary back\<close>

lemma lenient_append: "lenient_field dec n (fs @ gs) v = lenient_field dec n gs (lenient_field dec n fs v)"
  by (induction fs arbitrary: v) auto

lemma omit_decode [simp]:
  assumes "plain_key n" "plain_key k"
  shows "decode_field dec_string n (omit_empty k s) [] = Some (if n = k then s else [])"
    "in_i64 x \<Longrightarrow> decode_field dec_int64 n (omit_zero k x) 0 = Some (if n = k then x else 0)"
    "in_i64 x \<Longrightarrow> i32 x = x \<Longrightarrow> decode_field dec_int32 n (omit_zero k x) 0 = Some (if n = k then x else 0)"
    "decode_field dec_bool n (omit_false k b) False = Some (if n = k then b else False)"
    "n \<noteq> k \<Longrightarrow> decode_field dec n (omit_empty k s) v = Some v" "n \<noteq> k \<Longrightarrow> decode_field dec n (omit_zero k x) v = Some v"
    "n \<noteq> k \<Longrightarrow> decode_field dec n (omit_false k b) v = Some v"
  using assms by (auto simp: omit_empty_def omit_zero_def omit_false_def key_matches_plain atoi_int_dec)

lemma lenient_decode: "decode_field dec n fs v = Some w \<Longrightarrow> lenient_field dec n fs v = w"
  by (induction fs arbitrary: v) (auto split: if_splits option.splits)

lemma summary_keys [simp]:
  "plain_key ''summary''" "plain_key ''trigger''" "plain_key ''current_turn_seq''" "plain_key ''current_request_id''"
  "plain_key ''compact_turn_count''" "plain_key ''messages_to_compact''" "plain_key ''preserve_current_turn_inputs''"
  by code_simp+

lemma i32_i64 [simp]: "i32 x = x \<Longrightarrow> in_i64 x"
proof -
  assume "i32 x = x"
  moreover have "0 \<le> (x + 2 ^ 31) mod 2 ^ 32" "(x + 2 ^ 31) mod 2 ^ 32 < 2 ^ 32" by simp_all
  ultimately show "in_i64 x" by (simp add: i32_def in_i64_def)
qed

lemma summary_decodes:
  assumes "in_i64 (cs_CurrentTurnSeq p)" "i32 (cs_CompactTurnCount p) = cs_CompactTurnCount p" "i32 (cs_MessagesToCompact p) = cs_MessagesToCompact p"
  shows "compaction_summary_ok (RawJson (JObject (compaction_summary_fields p)))"
    "cs_Summary (fill_compaction_summary (RawJson (JObject (compaction_summary_fields p)))) = cs_Summary p"
proof -
  have d: "decode_field dec_string ''summary'' (compaction_summary_fields p) [] = Some (cs_Summary p)"
    using assms by (simp add: compaction_summary_fields_def decode_field_append key_matches_plain)
  then show "cs_Summary (fill_compaction_summary (RawJson (JObject (compaction_summary_fields p)))) = cs_Summary p"
    by (simp add: fill_compaction_summary_def object_fields_def lenient_decode Let_def)
  show "compaction_summary_ok (RawJson (JObject (compaction_summary_fields p)))"
    using assms d by (simp add: compaction_summary_ok_def compaction_summary_fields_def decode_field_append key_matches_plain)
qed

section \<open>Kept lists\<close>

lemma map_nth_filter: "map ((!) es) (filter (\<lambda>i. P (es ! i)) [0..<length es]) = filter P es"
proof -
  have "filter P (map ((!) es) [0..<length es]) = map ((!) es) (filter (\<lambda>i. P (es ! i)) [0..<length es])"
    by (simp add: filter_map o_def del: map_nth)
  then show ?thesis by (simp add: map_nth)
qed

lemma subseq_indices: "subseq (map ((!) es) (filter P [0..<length es])) es"
  using subseq_map [OF subseq_filter_left [of P "[0..<length es]"], of "(!) es"] by (simp add: map_nth)

text \<open>What a compaction keeps of the turn: its inputs, the mode and the run request it was started with,
  and the entries of the tool call that was completed last.\<close>

definition input_kind :: "HistoryEntry \<Rightarrow> bool" where
  "input_kind e \<longleftrightarrow> kind_of e \<in> set [''request_context'', ''user_message'']"

definition setting_entry :: "HistoryEntry \<Rightarrow> bool" where
  "setting_entry e \<longleftrightarrow> kind_of e = ''metadata'' \<and>
     (\<exists>t v. unmarshal_metadata (he_Payload e) = Some (t, v) \<and> trim_space t \<in> set [''mode'', ''run_request''])"

definition wanted :: "int \<Rightarrow> string \<Rightarrow> string \<Rightarrow> HistoryEntry \<Rightarrow> bool" where
  "wanted turn req latest e \<longleftrightarrow> of_turn turn req e \<and>
     (input_kind e \<or> setting_entry e \<or> tool_kind e \<and> latest \<noteq> [] \<and> historyEntryToolCallID e = latest)"

lemma wanted_preserved:
  "trim_space latest = latest \<Longrightarrow> wanted turn req latest e \<longleftrightarrow> of_turn turn req e \<and> shouldPreserveAutoCompactionEntry e latest"
  by (auto simp: wanted_def input_kind_def setting_entry_def shouldPreserveAutoCompactionEntry_def split: option.splits)

lemma preserved_kind:
  "shouldPreserveAutoCompactionEntry e latest \<Longrightarrow>
     kind_of e \<notin> set [''assistant_text'', ''compaction_summary'', ''compacted_summary'', ''compaction_request'']"
  by (auto simp: shouldPreserveAutoCompactionEntry_def split: if_splits)

lemma carrier_carries: "carrier_back turn req xs = Some k \<Longrightarrow> k < length xs \<and> carries_reasoning (rev xs ! k)"
  by (induction turn req xs rule: carrier_back.induct) (auto simp: nth_append split: if_splits)

lemma carrier_index_carries: "latestAssistantReasoningCarrierIndex es n turn req = Some k \<Longrightarrow> carries_reasoning (es ! k)"
  using carrier_carries [of turn req "rev (take n es)" k] by (auto simp: latestAssistantReasoningCarrierIndex_def)

lemma preserved_carrier:
  "\<exists>k. \<forall>i \<in> set (autoCompactionPreservedEntryIndexes es turn req latest). kind_of (es ! i) = ''assistant_text'' \<longrightarrow> i = k \<and> carries_reasoning (es ! i)"
proof -
  have no: "\<not> shouldPreserveAutoCompactionEntry e l" if "kind_of e = ''assistant_text''" for e l
    using preserved_kind [of e l] that by auto
  show ?thesis
    unfolding autoCompactionPreservedEntryIndexes_def Let_def
    by (auto simp: no dest: carrier_index_carries split: option.split)
qed

text \<open>The entries kept, with results cut, in their order.\<close>

lemma kept_list:
  assumes "pc_PreserveCurrentTurnInputs plan" "0 < pc_CurrentTurnSeq plan"
    and l_def: "l = latestCompletedToolCallIDForTurn es (pc_CurrentTurnSeq plan) (pc_CurrentRequestID plan)"
  obtains xs where "buildAutoCompactionPreservedCurrentTurnEntries cl es plan = map (rewritten cl) xs" "subseq xs es"
    "filter (\<lambda>e. kind_of e \<noteq> ''assistant_text'') xs = filter (wanted (pc_CurrentTurnSeq plan) (pc_CurrentRequestID plan) l) es"
    "length (filter (\<lambda>e. kind_of e = ''assistant_text'') xs) \<le> 1" "\<forall>e \<in> set xs. kind_of e = ''assistant_text'' \<longrightarrow> carries_reasoning e"
proof -
  let ?t = "pc_CurrentTurnSeq plan" and ?r = "pc_CurrentRequestID plan"
  let ?p = "set (autoCompactionPreservedEntryIndexes es ?t ?r l)"
  let ?xs = "map ((!) es) (filter (\<lambda>i. i \<in> ?p) [0..<length es])"
  have l: "trim_space l = l" using latest_mem [of es ?t ?r] call_id_trimmed unfolding l_def by (metis trim_Nil(3))
  have "filter (\<lambda>e. kind_of e \<notin> set [''compaction_summary'', ''compacted_summary'', ''compaction_request'']) ?xs = ?xs"
    using preserved_current(3) preserved_kind by (fastforce simp: filter_id_conv)
  then have built: "buildAutoCompactionPreservedCurrentTurnEntries cl es plan = map (rewritten cl) ?xs"
    using assms(1) by (simp add: buildAutoCompactionPreservedCurrentTurnEntries_def Let_def l_def)
  have "(i \<in> ?p \<and> kind_of (es ! i) \<noteq> ''assistant_text'') = wanted ?t ?r l (es ! i)" if "i < length es" for i
    using preserved_current(2,3) [of i es ?t ?r l] preservedI [OF that _ _ assms(2)] preserved_kind [of "es ! i" l]
    by (auto simp: wanted_preserved [OF l])
  then have idx: "filter (\<lambda>i. kind_of (es ! i) \<noteq> ''assistant_text'' \<and> i \<in> ?p) [0..<length es] = filter (\<lambda>i. wanted ?t ?r l (es ! i)) [0..<length es]"
    by (intro filter_cong) auto
  have kept: "filter (\<lambda>e. kind_of e \<noteq> ''assistant_text'') ?xs = filter (wanted ?t ?r l) es"
    unfolding map_nth_filter [symmetric, of "wanted ?t ?r l"] idx [symmetric] by (simp add: filter_map o_def conj_commute)
  obtain k where k: "\<And>i. i \<in> ?p \<Longrightarrow> kind_of (es ! i) = ''assistant_text'' \<Longrightarrow> i = k \<and> carries_reasoning (es ! i)"
    using preserved_carrier by metis
  let ?is = "filter (\<lambda>i. kind_of (es ! i) = ''assistant_text'' \<and> i \<in> ?p) [0..<length es]"
  have "card (set ?is) \<le> card {k}" using k by (intro card_mono) auto
  then have "length ?is \<le> 1" by (simp add: distinct_card del: set_filter)
  then have "length (filter (\<lambda>e. kind_of e = ''assistant_text'') ?xs) \<le> 1" by (simp add: filter_map o_def conj_commute)
  then show thesis using k by (intro that [OF built subseq_indices kept]) auto
qed

section \<open>Nothing is hidden\<close>

lemma summary_first_shown:
  assumes "isCompactionSummaryKind (he_Kind z)" "\<forall>e \<in> set es. \<not> isCompactionSummaryKind (he_Kind e)"
  shows "compactedPromptProjectionEntries cl (z # es) = z # es"
proof -
  have "filter (\<lambda>i. isCompactionSummaryKind (he_Kind ((z # es) ! i))) [0..<length (z # es)] = [0]"
  proof -
    have "[0..<length (z # es)] = 0 # map Suc [0..<length es]" by (simp add: upt_conv_Cons map_Suc_upt del: upt_Suc)
    moreover have "filter (\<lambda>i. isCompactionSummaryKind (he_Kind ((z # es) ! i))) (map Suc [0..<length es]) = []"
      using assms(2) by (auto simp: filter_empty_conv)
    ultimately show ?thesis using assms(1) by simp
  qed
  moreover have "map ((!) (z # es)) [0..<length (z # es)] = z # es" by (rule map_nth)
  ultimately show ?thesis by (simp add: compactedPromptProjectionEntries_def Let_def del: upt_Suc)
qed

text \<open>C15.  What an automatic compaction leaves of a history, and nothing else: first the summary, with the
  text it was given; then at most one entry with the plan and the todos; then entries of the current
  turn in their order, each as it was except that the result of a tool is cut.  These are the inputs
  of the turn, the mode and the run request it was started with, the entries of the tool call completed
  last, and at most one assistant text, which carries the reasoning of that call.  The prompt built
  from the compacted history hides none of this.  (A compaction the user asks for keeps no inputs.)\<close>

theorem compaction_keeps_turn:
  assumes "applyCompactionToConversation cl now plan txt c = Inr c'"
    and "pc_PreserveCurrentTurnInputs plan" "0 < pc_CurrentTurnSeq plan" "trim_space txt \<noteq> []"
    and "in_i64 (pc_CurrentTurnSeq plan)" "i32 (pc_CompactTurnCount plan) = pc_CompactTurnCount plan"
      "i32 (pc_MessagesToCompact plan) = pc_MessagesToCompact plan"
  defines "turn \<equiv> pc_CurrentTurnSeq plan" and "req \<equiv> pc_CurrentRequestID plan"
  shows "\<exists>z rs xs ks. cf_Entries c' = z # rs @ ks \<and> decodeCompactionSummaryEntry z = Some (trim_space txt) \<and>
     length rs \<le> 1 \<and> (\<forall>e \<in> set rs. kind_of e = ''runtime_state'') \<and>
     list_all2 (\<lambda>e k. stored_as (rewritten cl e) k) xs ks \<and> subseq xs (cf_Entries c) \<and>
     filter (\<lambda>e. kind_of e \<noteq> ''assistant_text'') xs =
       filter (wanted turn req (latestCompletedToolCallIDForTurn (cf_Entries c) turn req)) (cf_Entries c) \<and>
     length (filter (\<lambda>e. kind_of e = ''assistant_text'') xs) \<le> 1 \<and>
     (\<forall>e \<in> set xs. kind_of e = ''assistant_text'' \<longrightarrow> carries_reasoning e) \<and>
     (\<forall>e \<in> set (cf_Entries c'). of_turn turn req e) \<and>
     replayablePromptProjectionEntries cl (cf_Entries c') = cf_Entries c'"
proof -
  let ?kept = "buildAutoCompactionPreservedCurrentTurnEntries cl (cf_Entries c) plan"
  obtain state z rs ks where state: "newCompactedRuntimeStateEntry cl now c plan = Inr state"
    and z: "cf_Entries c' = z # rs @ ks" "stored_as (newCompactionSummaryEntry plan txt) z"
      "list_all2 stored_as (case state of None \<Rightarrow> [] | Some e \<Rightarrow> [e]) rs" "list_all2 stored_as ?kept ks"
    by (rule compacted_shape [OF assms(1)])
  obtain xs where xs: "?kept = map (rewritten cl) xs" "subseq xs (cf_Entries c)"
    "filter (\<lambda>e. kind_of e \<noteq> ''assistant_text'') xs = filter (wanted turn req (latestCompletedToolCallIDForTurn (cf_Entries c) turn req)) (cf_Entries c)"
    "length (filter (\<lambda>e. kind_of e = ''assistant_text'') xs) \<le> 1" "\<forall>e \<in> set xs. kind_of e = ''assistant_text'' \<longrightarrow> carries_reasoning e"
    unfolding turn_def req_def by (rule kept_list [OF assms(2,3) refl])
  have ks: "list_all2 (\<lambda>e k. stored_as (rewritten cl e) k) xs ks" using z(4) by (simp add: xs(1) list_all2_map1)
  have sd: "settled turn req (cf_Entries c')" unfolding turn_def req_def by (rule compacted_settled [OF assms(1)])
  have summary: "decodeCompactionSummaryEntry z = Some (trim_space txt)"
    using summary_decodes stored_asD(5) [OF z(2)] assms(4-7)
    by (simp add: decodeCompactionSummaryEntry_def newCompactionSummaryEntry_def)
  have kz: "kind_of z = ''compacted_summary''" using stored_asD(3) [OF z(2)] by (simp add: newCompactionSummaryEntry_def)
  have "he_Kind e = ''runtime_state''" if "e \<in> set (case state of None \<Rightarrow> [] | Some e \<Rightarrow> [e])" for e
    using state that by (auto simp: newCompactedRuntimeStateEntry_def Let_def split: sum.splits if_splits option.splits)
  then have krs: "\<forall>e \<in> set rs. kind_of e = ''runtime_state''" using list_all2_mem [OF z(3)] stored_asD(3) by force
  have "length rs \<le> 1" using list_all2_lengthD [OF z(3)] by (cases state) auto
  moreover have "\<not> isCompactionSummaryKind (he_Kind e)" if mem: "e \<in> set ks" for e
  proof -
    obtain x where x: "x \<in> set ?kept" "stored_as x e" using list_all2_mem [OF z(4) mem] by blast
    then have "\<not> isCompactionSummaryKind (he_Kind x)"
      by (auto simp: buildAutoCompactionPreservedCurrentTurnEntries_def isCompactionSummaryKind_def Let_def split: if_splits)
    then show ?thesis using stored_asD(3) [OF x(2)] by simp
  qed
  then have "isCompactionSummaryKind (he_Kind z)" "\<forall>e \<in> set (rs @ ks). \<not> isCompactionSummaryKind (he_Kind e)"
    using kz krs by (auto simp: isCompactionSummaryKind_def)
  then have "replayablePromptProjectionEntries cl (cf_Entries c') = cf_Entries c'"
    using summary_first_shown no_policies sd by (simp add: replayablePromptProjectionEntries_def z(1) settled_def)
  moreover have "\<forall>e \<in> set (cf_Entries c'). of_turn turn req e" using sd by (simp add: settled_def)
  ultimately show ?thesis using z(1) summary krs ks xs(2-) by blast
qed

theorem compaction_keeps_turn_witness:
  "\<exists>c' z rs xs ks. applyCompactionToConversation demo_compaction_lib 5 demo_plan ''s'' demo_full = Inr c' \<and>
     cf_Entries c' = z # rs @ ks \<and> decodeCompactionSummaryEntry z = Some ''s'' \<and>
     list_all2 (\<lambda>e k. stored_as (rewritten demo_compaction_lib e) k) xs ks \<and>
     filter (\<lambda>e. kind_of e \<noteq> ''assistant_text'') xs = filter (wanted 1 ''r'' ''b'') (cf_Entries demo_full) \<and>
     map kind_of (filter (wanted 1 ''r'' ''b'') (cf_Entries demo_full)) = [''user_message'', ''tool_result'']"
proof -
  obtain c' where c': "applyCompactionToConversation demo_compaction_lib 5 demo_plan ''s'' demo_full = Inr c'" by (rule demo_applies)
  have plan: "pc_PreserveCurrentTurnInputs demo_plan" "pc_CurrentTurnSeq demo_plan = 1" "pc_CurrentRequestID demo_plan = ''r''"
    "pc_CompactTurnCount demo_plan = 0" "pc_MessagesToCompact demo_plan = 0"
    by (simp_all add: demo_plan_def newPendingCompaction_def demo_base_def)
  have eval: "trim_space ''s'' = ''s''" "in_i64 1" "i32 0 = 0"
    "latestCompletedToolCallIDForTurn (cf_Entries demo_full) 1 ''r'' = ''b''" by code_simp+
  have "map kind_of (filter (\<lambda>e. of_turn 1 ''r'' e \<and> shouldPreserveAutoCompactionEntry e ''b'') (cf_Entries demo_full)) = [''user_message'', ''tool_result'']"
    "trim_space ''b'' = ''b''" by code_simp+
  then have shown: "map kind_of (filter (wanted 1 ''r'' ''b'') (cf_Entries demo_full)) = [''user_message'', ''tool_result'']"
    by (metis (no_types, lifting) wanted_preserved filter_cong)
  note kept = compaction_keeps_turn [OF c', unfolded plan eval]
  show ?thesis using c' plan(1) eval(2) kept shown by (intro exI [of _ c']) fastforce
qed

end
