(* ===== verification/Replay_Projection.thy ===== *)
theory Replay_Projection
  imports Compaction_Entries Replay_Order
begin

text \<open>
  The messages a provider is shown of a history, \<open>projectPromptReplay\<close> of \<open>forwarder/projector.go\<close>: one step
  per entry over the messages built so far, the tool calls seen and those still open, and the place
  of each call's message, which its result may still correct; at the end the messages are put in
  order (\<open>Replay_Messages\<close>).

  \<open>replay_lib\<close> holds what the loop takes from generated code and the prompt engine
  (\<open>internal/backend/agent/prompt\<close>): decoding a message and turning it into replay messages.  The outer
  \<open>None\<close> is a decoding error, an inner \<open>None\<close> the engine's \<open>false\<close>.  \<open>toModelMessage\<close> copies all fields
  and is the identity here.
\<close>

record replay_lib =
  rl_compaction :: compaction_lib
  rl_sha :: "string \<Rightarrow> string"
  rl_model_message :: "raw_json \<Rightarrow> Message option"
  rl_user_message :: "raw_json \<Rightarrow> Message option option"
  rl_request_context :: "raw_json \<Rightarrow> Message list option"
  rl_call_message :: "string \<Rightarrow> raw_json \<Rightarrow> Message option option"
  rl_result_message :: "string \<Rightarrow> raw_json \<Rightarrow> Message option option"
  rl_call_and_result :: "string \<Rightarrow> raw_json \<Rightarrow> Message list option option"
  rl_tool_name :: "raw_json \<Rightarrow> string"

datatype replay_error = BadEntry string

record replay_state =
  rs_messages :: "Message list"
  rs_seen :: "string list"
  rs_open :: "string list"
  rs_index :: "(string \<times> nat) list"

section \<open>Names and arguments\<close>

definition hasStructuredToolCallPayload :: "raw_json \<Rightarrow> bool" where
  "hasStructuredToolCallPayload r \<longleftrightarrow> r \<noteq> RawEmpty \<and> r \<noteq> RawJson JNull"

definition isLegacyPlainWriteReplay :: "string \<Rightarrow> bool \<Rightarrow> bool" where
  "isLegacyPlainWriteReplay toolName structured \<longleftrightarrow> \<not> structured \<and> trim_space toolName = ''Write''"

definition isLegacyPatchEditToolName :: "string \<Rightarrow> bool" where
  "isLegacyPatchEditToolName name \<longleftrightarrow> trim_space name \<in> set [''PatchEditLines'', ''PatchEditSpan'']"

definition effectiveReplayToolName :: "string \<Rightarrow> string \<Rightarrow> string" where
  "effectiveReplayToolName currentName overrideName =
     (if isLegacyPatchEditToolName currentName \<or> isLegacyPatchEditToolName overrideName then ''Edit''
      else if trim_space currentName \<in> set [''PatchEdit'', ''Edit'', ''Write'']
      then (if trim_space overrideName \<in> set [''PatchEdit'', ''Edit'', ''Write''] then trim_space overrideName else trim_space currentName)
      else trim_space overrideName)"

definition override_call :: "string \<Rightarrow> string \<Rightarrow> ToolCallDescriptor \<Rightarrow> ToolCallDescriptor" where
  "override_call overrideName overrideArgs c =
     (let args = (if isLegacyPatchEditToolName overrideName then firstNonEmpty [trim_space (tcd_Arguments c), ''{}'']
                  else firstNonEmpty [overrideArgs, trim_space (tcd_Arguments c), ''{}''])
      in c\<lparr>tcd_Name := effectiveReplayToolName (trim_space (tcd_Name c)) overrideName, tcd_Arguments := firstNonEmpty [args, ''{}'']\<rparr>)"

definition overrideModelToolReplayFromEntry :: "string \<Rightarrow> string \<Rightarrow> Message \<Rightarrow> Message" where
  "overrideModelToolReplayFromEntry toolName arguments m =
     (let overrideName = trim_space toolName; overrideArgs = trim_space arguments in
      if overrideName = [] then m
      else if msg_role m = ''assistant'' then m\<lparr>msg_ToolCalls := map (override_call overrideName overrideArgs) (msg_ToolCalls m)\<rparr>
      else if msg_role m = ''tool'' then m\<lparr>msg_Name := effectiveReplayToolName (trim_space (msg_Name m)) overrideName\<rparr>
      else m)"

definition overrideToolReplayFromEntry :: "string \<Rightarrow> string \<Rightarrow> Message list \<Rightarrow> Message list" where
  "overrideToolReplayFromEntry toolName arguments ms = map (overrideModelToolReplayFromEntry toolName arguments) ms"

definition provider_ids :: "('a) toolCallEntryPayload_scheme \<Rightarrow> Message \<Rightarrow> Message" where
  "provider_ids p m = m\<lparr>msg_ToolCalls := (case msg_ToolCalls m of [] \<Rightarrow> []
     | c # cs \<Rightarrow> c\<lparr>tcd_OpenAIResponsesID := trim_space (tp_ProviderItemID p), tcd_OpenAIResponsesCallID := trim_space (tp_ProviderCallID p),
                  tcd_OpenAIResponsesStatus := trim_space (tp_ProviderStatus p)\<rparr> # cs)\<rparr>"

definition with_reasoning :: "('a) toolCallEntryPayload_scheme \<Rightarrow> Message \<Rightarrow> Message" where
  "with_reasoning p m = m\<lparr>msg_ReasoningContent := tp_ReasoningContent p, msg_ReasoningSignature := tp_ReasoningSignature p,
     msg_ReasoningSignatureSource := tp_ReasoningSignatureSource p, msg_OpenAIResponsesReasoningID := tp_ReasoningItemID p,
     msg_OpenAIResponsesReasoningStatus := tp_ReasoningStatus p, msg_OpenAIResponsesReasoningSummary := tp_ReasoningSummary p\<rparr>"

definition plain_call :: "string \<Rightarrow> string \<Rightarrow> string \<Rightarrow> Message" where
  "plain_call toolCallID toolName arguments = (text_message ''assistant'' [])\<lparr>msg_ToolCalls :=
     [\<lparr>tcd_ID = toolCallID, tcd_Index = 0, tcd_Type = ''function'', tcd_Name = toolName, tcd_Arguments = arguments,
       tcd_OpenAIResponsesID = [], tcd_OpenAIResponsesCallID = [], tcd_OpenAIResponsesStatus = []\<rparr>]\<rparr>"

definition plain_result :: "string \<Rightarrow> string \<Rightarrow> string \<Rightarrow> Message" where
  "plain_result toolCallID toolName content = (text_message ''tool'' content)\<lparr>msg_Name := toolName, msg_ToolCallID := toolCallID\<rparr>"

section \<open>The steps\<close>

definition isHistoricalReplayToolResult :: "ConversationFile \<Rightarrow> HistoryEntry \<Rightarrow> bool" where
  "isHistoricalReplayToolResult c e \<longleftrightarrow> he_TurnSeq e > 0 \<and>
     (let currentTurnSeq = i64 (cf_NextTurnSeq c - 1) in currentTurnSeq > 0 \<and> he_TurnSeq e < currentTurnSeq)"

definition emit :: "Message list \<Rightarrow> replay_state \<Rightarrow> replay_state" where
  "emit ms st = st\<lparr>rs_messages := rs_messages st @ ms\<rparr>"

definition replay_model_message :: "replay_lib \<Rightarrow> HistoryEntry \<Rightarrow> replay_state \<Rightarrow> replay_error + replay_state" where
  "replay_model_message rl e st = (case rl_model_message rl (he_Payload e) of
       None \<Rightarrow> Inl (BadEntry ''model_message'')
     | Some m \<Rightarrow> Inr (if msg_role m \<noteq> [] then emit [m] st else st))"

definition replay_summary :: "HistoryEntry \<Rightarrow> replay_state \<Rightarrow> replay_state" where
  "replay_summary e st = (case decodeCompactionSummaryEntry e of
       None \<Rightarrow> st
     | Some summary \<Rightarrow> emit [text_message ''user'' (''<conversation_summary>'' @ [LF] @ summary @ [LF] @ ''</conversation_summary>'')] st)"

definition replay_prompt_context :: "replay_lib \<Rightarrow> HistoryEntry \<Rightarrow> replay_state \<Rightarrow> replay_error + replay_state" where
  "replay_prompt_context rl e st = (case entry_context (he_Payload e) of
       None \<Rightarrow> Inl (BadEntry ''prompt_context'')
     | Some m \<Rightarrow>
         (let ctx = normalizePromptContextMessage (rl_sha rl)
                (m\<lparr>pcm_Role := firstNonEmpty [trim_space (pcm_Role m), ''user''], pcm_Content := trim_space (pcm_Content m)\<rparr>)
          in Inr (if isReplayablePromptContext (rl_sha rl) ctx then emit [text_message (pcm_Role ctx) (pcm_Content ctx)] st else st)))"

definition replay_assistant_text :: "HistoryEntry \<Rightarrow> replay_state \<Rightarrow> replay_error + replay_state" where
  "replay_assistant_text e st = (case decode_assistant_text_payload (he_Payload e) of
       None \<Rightarrow> Inl (BadEntry ''assistant_text'')
     | Some p \<Rightarrow>
         Inr (if trim_space (ap_Text p) = [] \<and> trim_space (ap_ReasoningContent p) \<noteq> [] \<and> rs_open st \<noteq> [] then st
              else if trim_space (ap_Text p) = [] \<and>
                \<not> hasReplayableReasoningPayload (ap_ReasoningContent p) (ap_ReasoningSignature p) (ap_ReasoningSignatureSource p) then st
              else emit [(text_message ''assistant'' (trim_space (ap_Text p)))\<lparr>msg_ReasoningContent := ap_ReasoningContent p,
                msg_ReasoningSignature := ap_ReasoningSignature p, msg_ReasoningSignatureSource := ap_ReasoningSignatureSource p,
                msg_OpenAIResponsesReasoningID := ap_ReasoningItemID p, msg_OpenAIResponsesReasoningStatus := ap_ReasoningStatus p,
                msg_OpenAIResponsesReasoningSummary := ap_ReasoningSummary p\<rparr>] st))"

definition record_call :: "string \<Rightarrow> replay_state \<Rightarrow> replay_state" where
  "record_call i st = (if i = [] then st else st\<lparr>rs_index := AList.update i (length (rs_messages st) - 1) (rs_index st),
     rs_seen := List.insert i (rs_seen st), rs_open := List.insert i (rs_open st)\<rparr>)"

definition replay_tool_call :: "replay_lib \<Rightarrow> HistoryEntry \<Rightarrow> replay_state \<Rightarrow> replay_error + replay_state" where
  "replay_tool_call rl e st = (case decode_tool_call_payload (he_Payload e) of
       None \<Rightarrow> Inl (BadEntry ''tool_call'')
     | Some p \<Rightarrow>
         (let i = trim_space (tp_ToolCallID p); name = trim_space (tp_ToolName p);
              finish = (\<lambda>m. Inr (record_call i (emit [provider_ids p (with_reasoning p m)] st)))
          in if hasStructuredToolCallPayload (tp_ToolCall p)
             then (case rl_call_message rl (tp_ToolCallID p) (tp_ToolCall p) of
                 None \<Rightarrow> Inl (BadEntry ''tool_call payload'') | Some None \<Rightarrow> Inr st | Some (Some m) \<Rightarrow> finish m)
             else if i = [] \<or> name = [] then Inr st
             else finish (plain_call i name (firstNonEmpty [trim_space (tp_Arguments p), ''{}'']))))"

text \<open>A result whose call was replayed: the call's message is corrected and the result added.\<close>

definition replay_seen_result ::
    "replay_lib \<Rightarrow> bool \<Rightarrow> toolResultEntryPayload \<Rightarrow> replay_state \<Rightarrow> replay_state" where
  "replay_seen_result rl historical p st =
     (let i = trim_space (tp_ToolCallID p); structured = hasStructuredToolCallPayload (tp_ToolCall p);
          st1 = st\<lparr>rs_open := removeAll i (rs_open st)\<rparr>;
          st2 = (case map_of (rs_index st1) i of
              Some k \<Rightarrow> if k < length (rs_messages st1)
                then st1\<lparr>rs_messages := (rs_messages st1)[k := overrideModelToolReplayFromEntry (tp_ToolName p) (tp_Arguments p) (rs_messages st1 ! k)],
                     rs_index := AList.delete i (rs_index st1)\<rparr>
                else st1
            | None \<Rightarrow> st1);
          built = (if structured then rl_result_message rl i (tp_ToolCall p) else None);
          name = (if trim_space (tp_ToolName p) = [] \<and> built \<noteq> None then rl_tool_name rl (tp_ToolCall p) else trim_space (tp_ToolName p));
          limit = limitProjectedToolResultReplay (cl_json (rl_compaction rl)) (cl_diff (rl_compaction rl)) name
      in if i = [] \<or> name = [] \<or> isLegacyPlainWriteReplay name structured then st2
         else case built of
             Some (Some m) \<Rightarrow> emit [m\<lparr>msg_Name := name, msg_Content := limit (msg_Content m) (tp_ResultText p) True historical\<rparr>] st2
           | _ \<Rightarrow> emit [plain_result i name (limit (tp_ResultText p) [] False historical)] st2)"

definition replay_call_part :: "replay_lib \<Rightarrow> bool \<Rightarrow> toolResultEntryPayload \<Rightarrow> Message \<Rightarrow> Message" where
  "replay_call_part rl historical p m =
     (if msg_role m = ''assistant'' \<and> msg_ToolCalls m \<noteq> [] then provider_ids p (with_reasoning p m)
      else if msg_role m = ''tool''
      then m\<lparr>msg_Content := limitProjectedToolResultReplay (cl_json (rl_compaction rl)) (cl_diff (rl_compaction rl))
               (firstNonEmpty [trim_space (msg_Name m), trim_space (tp_ToolName p)]) (msg_Content m) (tp_ResultText p) True historical\<rparr>
      else m)"

text \<open>A result whose call was not replayed brings the call along.\<close>

definition replay_lone_result ::
    "replay_lib \<Rightarrow> bool \<Rightarrow> toolResultEntryPayload \<Rightarrow> replay_state \<Rightarrow> replay_error + replay_state" where
  "replay_lone_result rl historical p st =
     (let i = trim_space (tp_ToolCallID p); name = trim_space (tp_ToolName p);
          args = (if isLegacyPatchEditToolName (tp_ToolName p) then ''{}'' else firstNonEmpty [trim_space (tp_Arguments p), ''{}'']);
          effective = effectiveReplayToolName name name
      in if hasStructuredToolCallPayload (tp_ToolCall p)
         then (case rl_call_and_result rl (tp_ToolCallID p) (tp_ToolCall p) of
             None \<Rightarrow> Inl (BadEntry ''tool_result tool_call'')
           | Some None \<Rightarrow> Inr st
           | Some (Some ms) \<Rightarrow>
               Inr (emit (map (replay_call_part rl historical p) (overrideToolReplayFromEntry (tp_ToolName p) (tp_Arguments p) ms)) st))
         else if i = [] \<or> name = [] \<or> isLegacyPlainWriteReplay name False \<or>
           \<not> hasReplayableReasoningPayload (tp_ReasoningContent p) (tp_ReasoningSignature p) (tp_ReasoningSignatureSource p) then Inr st
         else Inr (emit [provider_ids p (with_reasoning p (plain_call i effective args)),
                plain_result i effective (limitProjectedToolResultReplay (cl_json (rl_compaction rl)) (cl_diff (rl_compaction rl))
                  (tp_ToolName p) (tp_ResultText p) [] False historical)] st))"

definition replay_tool_result :: "replay_lib \<Rightarrow> ConversationFile \<Rightarrow> HistoryEntry \<Rightarrow> replay_state \<Rightarrow> replay_error + replay_state" where
  "replay_tool_result rl c e st = (case decode_tool_result_payload (he_Payload e) of
       None \<Rightarrow> Inl (BadEntry ''tool_result'')
     | Some p \<Rightarrow>
         (let historical = isHistoricalReplayToolResult c e in
          if trim_space (tp_ToolCallID p) \<in> set (rs_seen st) then Inr (replay_seen_result rl historical p st)
          else replay_lone_result rl historical p st))"

definition replay_step :: "replay_lib \<Rightarrow> ConversationFile \<Rightarrow> HistoryEntry \<Rightarrow> replay_state \<Rightarrow> replay_error + replay_state" where
  "replay_step rl c e st =
     (let kind = kind_of e in
      if kind = ''model_message'' then replay_model_message rl e st
      else if kind \<in> set [''compaction_summary'', ''compacted_summary''] then Inr (replay_summary e st)
      else if kind = ''user_message''
      then (case rl_user_message rl (he_Payload e) of None \<Rightarrow> Inl (BadEntry kind) | Some None \<Rightarrow> Inr st | Some (Some m) \<Rightarrow> Inr (emit [m] st))
      else if kind = ''request_context''
      then (case rl_request_context rl (he_Payload e) of None \<Rightarrow> Inl (BadEntry kind) | Some ms \<Rightarrow> Inr (emit ms st))
      else if kind = ''prompt_context'' then replay_prompt_context rl e st
      else if kind = ''assistant_text'' then replay_assistant_text e st
      else if kind = ''tool_call'' then replay_tool_call rl e st
      else if kind = ''tool_result'' then replay_tool_result rl c e st
      else Inr st)"

fun replay_entries :: "replay_lib \<Rightarrow> ConversationFile \<Rightarrow> HistoryEntry list \<Rightarrow> replay_state \<Rightarrow> replay_error + replay_state" where
  "replay_entries rl c [] st = Inr st"
| "replay_entries rl c (e # es) st = (case replay_step rl c e st of Inl err \<Rightarrow> Inl err | Inr st' \<Rightarrow> replay_entries rl c es st')"

definition projectPromptReplay :: "replay_lib \<Rightarrow> ConversationFile \<Rightarrow> replay_error + Message list" where
  "projectPromptReplay rl c =
     (case replay_entries rl c (replayablePromptProjectionEntries (rl_compaction rl) (cf_Entries c))
             \<lparr>rs_messages = [], rs_seen = [], rs_open = [], rs_index = []\<rparr> of
        Inl err \<Rightarrow> Inl err | Inr st \<Rightarrow> Inr (normalizeReplayMessageSequence (rs_messages st)))"

section \<open>What a projection depends on\<close>

lemma replay_entries_cong:
  assumes "cf_NextTurnSeq c = cf_NextTurnSeq d"
  shows "replay_entries rl c es st = replay_entries rl d es st"
proof (induction es arbitrary: st)
  case (Cons e es)
  have "isHistoricalReplayToolResult c = isHistoricalReplayToolResult d"
    by (intro ext) (simp only: isHistoricalReplayToolResult_def assms)
  then have "replay_tool_result rl c = replay_tool_result rl d" by (intro ext) (simp only: replay_tool_result_def)
  then have "replay_step rl c e st = replay_step rl d e st" for e st by (simp only: replay_step_def)
  then show ?case using Cons by (simp split: sum.split)
qed simp

lemma projectPromptReplay_cong:
  "cf_Entries c = cf_Entries d \<Longrightarrow> cf_NextTurnSeq c = cf_NextTurnSeq d \<Longrightarrow> projectPromptReplay rl c = projectPromptReplay rl d"
  using replay_entries_cong [of c d] by (simp add: projectPromptReplay_def)

end
