(* ===== verification/Replay_Cache.thy ===== *)
theory Replay_Cache
  imports Replay_Projection Run_Rewind "HOL-Library.Word"
begin

text \<open>
  The cache of projected replays, \<open>HistoryProjector\<close> of \<open>forwarder/projector.go\<close>.  It keeps the messages of
  at most sixteen conversations under the version of their history; the conversation used longest
  ago makes room.  A version counts the entries of a history that only grows; the operations that
  rewrite a history (\<open>service.go\<close>: rewind, \<open>compaction.go\<close>) drop the conversation from the cache.

  The map is an association list with the order of the iteration.  A projector and a conversation
  are never nil where the service calls these functions.
\<close>

definition historyProjectionCacheMaxEntries :: nat where
  "historyProjectionCacheMaxEntries = 16"

record historyProjectionCacheEntry =
  ce_contextVersion :: int
  ce_messages :: "Message list"
  ce_stableTurnSeq :: int
  ce_stableMessageCount :: int
  ce_stableCountReady :: bool
  ce_lastAccess :: "64 word"

record HistoryProjector =
  hp_replayCache :: "(string \<times> historyProjectionCacheEntry) list"
  hp_cacheClock :: "64 word"

definition NewHistoryProjector :: HistoryProjector where
  "NewHistoryProjector = \<lparr>hp_replayCache = [], hp_cacheClock = 0\<rparr>"

definition promptReplayCacheIdentity :: "ConversationFile \<Rightarrow> (string \<times> int) option" where
  "promptReplayCacheIdentity c =
     (if cf_ContextVersion c \<le> 0 \<or> trim_space (cf_ConversationID c) = [] then None
      else Some (trim_space (cf_ConversationID c), cf_ContextVersion c))"

text \<open>The entry a lookup finds, marked as used.\<close>

definition access :: "string \<Rightarrow> historyProjectionCacheEntry \<Rightarrow> HistoryProjector \<Rightarrow> HistoryProjector" where
  "access i entry p = (let clock = hp_cacheClock p + 1 in
     p\<lparr>hp_cacheClock := clock, hp_replayCache := AList.update i (entry\<lparr>ce_lastAccess := clock\<rparr>) (hp_replayCache p)\<rparr>)"

definition cachedPromptReplay :: "ConversationFile \<Rightarrow> HistoryProjector \<Rightarrow> HistoryProjector \<times> Message list option" where
  "cachedPromptReplay c p = (case promptReplayCacheIdentity c of
       None \<Rightarrow> (p, None)
     | Some (i, version) \<Rightarrow> (case map_of (hp_replayCache p) i of
           None \<Rightarrow> (p, None)
         | Some entry \<Rightarrow> if ce_contextVersion entry \<noteq> version then (p, None) else (access i entry p, Some (ce_messages entry))))"

definition cachedStablePromptReplayMessageCount :: "ConversationFile \<Rightarrow> int \<Rightarrow> HistoryProjector \<Rightarrow> HistoryProjector \<times> int option" where
  "cachedStablePromptReplayMessageCount c currentTurnSeq p = (case promptReplayCacheIdentity c of
       None \<Rightarrow> (p, None)
     | Some (i, version) \<Rightarrow> (case map_of (hp_replayCache p) i of
           None \<Rightarrow> (p, None)
         | Some entry \<Rightarrow>
             if ce_contextVersion entry \<noteq> version \<or> \<not> ce_stableCountReady entry \<or> ce_stableTurnSeq entry \<noteq> currentTurnSeq then (p, None)
             else (access i entry p, Some (ce_stableMessageCount entry))))"

definition cacheStablePromptReplayMessageCount :: "ConversationFile \<Rightarrow> int \<Rightarrow> int \<Rightarrow> HistoryProjector \<Rightarrow> HistoryProjector" where
  "cacheStablePromptReplayMessageCount c currentTurnSeq n p = (case promptReplayCacheIdentity c of
       None \<Rightarrow> p
     | Some (i, version) \<Rightarrow> (case map_of (hp_replayCache p) i of
           None \<Rightarrow> p
         | Some entry \<Rightarrow> if ce_contextVersion entry \<noteq> version then p
             else access i (entry\<lparr>ce_stableTurnSeq := currentTurnSeq, ce_stableMessageCount := n, ce_stableCountReady := True\<rparr>) p))"

text \<open>The loop over the map that looks for the entry used longest ago; \<open>[]\<close> when every access is
  the largest number.\<close>

definition older :: "string \<times> historyProjectionCacheEntry \<Rightarrow> string \<times> 64 word \<Rightarrow> string \<times> 64 word" where
  "older kv best = (if ce_lastAccess (snd kv) < snd best then (fst kv, ce_lastAccess (snd kv)) else best)"

definition oldest :: "(string \<times> historyProjectionCacheEntry) list \<Rightarrow> string" where
  "oldest m = fst (fold older m ([], - 1))"

lemma fold_older:
  "(fold older m best = best \<or> (\<exists>kv \<in> set m. fold older m best = (fst kv, ce_lastAccess (snd kv)))) \<and>
   snd (fold older m best) \<le> snd best \<and> (\<forall>kv \<in> set m. snd (fold older m best) \<le> ce_lastAccess (snd kv))"
proof (induction m arbitrary: best)
  case (Cons kv m)
  have "older kv best = best \<or> older kv best = (fst kv, ce_lastAccess (snd kv))"
    "snd (older kv best) \<le> snd best" "snd (older kv best) \<le> ce_lastAccess (snd kv)"
    by (auto simp: older_def)
  with Cons [of "older kv best"] show ?case by (auto intro: order_trans)
qed simp

lemma oldest_mem: "oldest m \<noteq> [] \<Longrightarrow> oldest m \<in> fst ` set m"
  using fold_older [of m "([], - 1)"] unfolding oldest_def by (metis fst_conv imageI)

function evict :: "(string \<times> historyProjectionCacheEntry) list \<Rightarrow> (string \<times> historyProjectionCacheEntry) list" where
  "evict m = (if length m \<le> historyProjectionCacheMaxEntries \<or> oldest m = [] then m else evict (AList.delete (oldest m) m))"
  by pat_completeness auto
termination
proof (relation "measure length")
  fix m :: "(string \<times> historyProjectionCacheEntry) list"
  assume "\<not> (length m \<le> historyProjectionCacheMaxEntries \<or> oldest m = [])"
  then have "oldest m \<in> fst ` set m" using oldest_mem by blast
  then show "(AList.delete (oldest m) m, m) \<in> measure length" unfolding AList.delete_eq by (auto intro: length_filter_less)
qed simp

declare evict.simps [simp del]

definition cachePromptReplay :: "ConversationFile \<Rightarrow> Message list \<Rightarrow> HistoryProjector \<Rightarrow> HistoryProjector" where
  "cachePromptReplay c messages p = (case promptReplayCacheIdentity c of
       None \<Rightarrow> p
     | Some (i, version) \<Rightarrow>
         (let clock = hp_cacheClock p + 1;
              entry = \<lparr>ce_contextVersion = version, ce_messages = messages, ce_stableTurnSeq = 0, ce_stableMessageCount = 0,
                ce_stableCountReady = False, ce_lastAccess = clock\<rparr>
          in p\<lparr>hp_cacheClock := clock, hp_replayCache := evict (AList.update i entry (hp_replayCache p))\<rparr>))"

definition ProjectPromptReplay ::
    "replay_lib \<Rightarrow> ConversationFile \<Rightarrow> HistoryProjector \<Rightarrow> HistoryProjector \<times> (replay_error + Message list)" where
  "ProjectPromptReplay rl c p = (case cachedPromptReplay c p of
       (p', Some messages) \<Rightarrow> (p', Inr messages)
     | (p', None) \<Rightarrow> (case projectPromptReplay rl c of
           Inl err \<Rightarrow> (p', Inl err)
         | Inr messages \<Rightarrow> (cachePromptReplay c messages p', Inr messages)))"

definition stableReplayEntriesBeforeTurn :: "HistoryEntry list \<Rightarrow> int \<Rightarrow> HistoryEntry list" where
  "stableReplayEntriesBeforeTurn es currentTurnSeq =
     (if currentTurnSeq \<le> 0 then [] else filter (\<lambda>e. \<not> (he_TurnSeq e > 0 \<and> he_TurnSeq e \<ge> currentTurnSeq)) es)"

definition StablePromptReplayMessageCount ::
    "replay_lib \<Rightarrow> ConversationFile \<Rightarrow> int \<Rightarrow> HistoryProjector \<Rightarrow> HistoryProjector \<times> (replay_error + int)" where
  "StablePromptReplayMessageCount rl c currentTurnSeq p =
     (if currentTurnSeq \<le> 0 then (p, Inr 0)
      else case cachedStablePromptReplayMessageCount c currentTurnSeq p of
        (p', Some n) \<Rightarrow> (p', Inr n)
      | (p', None) \<Rightarrow>
          (case projectPromptReplay rl (c\<lparr>cf_Entries := stableReplayEntriesBeforeTurn (cf_Entries c) currentTurnSeq\<rparr>) of
             Inl err \<Rightarrow> (p', Inl err)
           | Inr messages \<Rightarrow>
               (cacheStablePromptReplayMessageCount c currentTurnSeq (int (length messages)) p', Inr (int (length messages)))))"

definition InvalidateConversation :: "string \<Rightarrow> HistoryProjector \<Rightarrow> HistoryProjector" where
  "InvalidateConversation conversationID p =
     (if trim_space conversationID = [] then p
      else p\<lparr>hp_replayCache := AList.delete (trim_space conversationID) (hp_replayCache p)\<rparr>)"

end
