(* ===== verification/Replay_Cache_Guarantees.thy ===== *)
theory Replay_Cache_Guarantees
  imports Replay_Cache Checkpoint_Memory
begin

text \<open>
  The cached replay is the projection of the conversation it is asked for, in every sequence of
  projections, appends and rewrites; and the cache stays small by dropping what was used longest ago.
\<close>

section \<open>Values cached under a version\<close>

text \<open>\<open>find\<close> and \<open>put\<close> are a cache that keeps one value per key, under the version it belongs to; \<open>right\<close>
  says that a value is the one to be computed from a source.  The cache is sound for a set of sources
  when every value it holds is right for each of them with its key and version.\<close>

locale version_cache =
  fixes key :: "'c \<Rightarrow> ('k \<times> int) option"
    and lookup :: "'k \<Rightarrow> 's \<Rightarrow> (int \<times> 'v) option"
    and find :: "'c \<Rightarrow> 's \<Rightarrow> 's \<times> 'v option"
    and put :: "'c \<Rightarrow> 'v \<Rightarrow> 's \<Rightarrow> 's"
    and right :: "'c \<Rightarrow> 'v \<Rightarrow> bool"
  assumes find_hit: "snd (find c s) = Some v \<Longrightarrow> \<exists>i n. key c = Some (i, n) \<and> lookup i s = Some (n, v)"
    and find_keeps: "lookup j (fst (find c s)) = Some x \<Longrightarrow> lookup j s = Some x"
    and put_adds: "lookup j (put c v s) = Some (n, w) \<Longrightarrow> lookup j s = Some (n, w) \<or> key c = Some (j, n) \<and> w = v"
begin

definition sound :: "'c set \<Rightarrow> 's \<Rightarrow> bool" where
  "sound held s \<longleftrightarrow> (\<forall>i n v. lookup i s = Some (n, v) \<longrightarrow> (\<forall>c \<in> held. key c = Some (i, n) \<longrightarrow> right c v))"

definition agree :: "'c set \<Rightarrow> bool" where
  "agree held \<longleftrightarrow> (\<forall>c \<in> held. \<forall>d \<in> held. key c = key d \<and> key c \<noteq> None \<longrightarrow> right c = right d)"

lemma find_right: "sound held s \<Longrightarrow> c \<in> held \<Longrightarrow> snd (find c s) = Some v \<Longrightarrow> right c v"
  unfolding sound_def by (metis find_hit)

lemma sound_shrink: "sound held s \<Longrightarrow> (\<And>j x. lookup j s' = Some x \<Longrightarrow> lookup j s = Some x) \<Longrightarrow> sound held s'"
  unfolding sound_def by blast

lemma sound_find: "sound held s \<Longrightarrow> sound held (fst (find c s))"
  by (erule sound_shrink) (rule find_keeps)

lemma sound_put:
  assumes "sound held s" "agree held" "c \<in> held" "right c v"
  shows "sound held (put c v s)"
  unfolding sound_def
proof (intro allI impI ballI)
  fix i n w d
  assume "lookup i (put c v s) = Some (n, w)" and d: "d \<in> held" "key d = Some (i, n)"
  then consider "lookup i s = Some (n, w)" | "key c = Some (i, n)" "w = v" using put_adds by blast
  then show "right d w"
  proof cases
    case 2
    then have "right d = right c" using assms(2,3) d unfolding agree_def by (metis option.distinct(1))
    then show ?thesis using assms(4) 2 by simp
  qed (use assms(1) d in \<open>auto simp: sound_def\<close>)
qed

lemma sound_insert:
  "sound held s \<Longrightarrow> (\<And>i n v. key d = Some (i, n) \<Longrightarrow> lookup i s = Some (n, v) \<Longrightarrow> right d v) \<Longrightarrow> sound (insert d held) s"
  unfolding sound_def by blast

lemma sound_subset: "sound held s \<Longrightarrow> held' \<subseteq> held \<Longrightarrow> sound held' s"
  unfolding sound_def by blast

lemma agree_insert:
  "agree held \<Longrightarrow> (\<And>c. c \<in> held \<Longrightarrow> key c = key d \<Longrightarrow> key c \<noteq> None \<Longrightarrow> right c = right d) \<Longrightarrow> agree (insert d held)"
  unfolding agree_def by (metis insert_iff)

end

section \<open>The two caches of the projector\<close>

definition replay_lookup :: "string \<Rightarrow> HistoryProjector \<Rightarrow> (int \<times> Message list) option" where
  "replay_lookup i p = map_option (\<lambda>e. (ce_contextVersion e, ce_messages e)) (map_of (hp_replayCache p) i)"

definition count_lookup :: "string \<Rightarrow> HistoryProjector \<Rightarrow> (int \<times> int \<times> int) option" where
  "count_lookup i p = (case map_of (hp_replayCache p) i of None \<Rightarrow> None
     | Some e \<Rightarrow> if ce_stableCountReady e then Some (ce_contextVersion e, ce_stableTurnSeq e, ce_stableMessageCount e) else None)"

definition stable_count :: "replay_lib \<Rightarrow> ConversationFile \<Rightarrow> int \<Rightarrow> replay_error + int" where
  "stable_count rl c turn =
     map_sum id (\<lambda>ms. int (length ms)) (projectPromptReplay rl (c\<lparr>cf_Entries := stableReplayEntriesBeforeTurn (cf_Entries c) turn\<rparr>))"

lemma access_lookup:
  "map_of (hp_replayCache (access i e p)) = (map_of (hp_replayCache p))(i \<mapsto> e\<lparr>ce_lastAccess := hp_cacheClock p + 1\<rparr>)"
  by (simp add: access_def update_conv' Let_def)

lemma map_of_evict: "map_of (evict m) j = Some e \<Longrightarrow> map_of m j = Some e"
proof (induction m rule: evict.induct)
  case (1 m)
  show ?case
  proof (cases "length m \<le> historyProjectionCacheMaxEntries \<or> oldest m = []")
    case False
    then have "map_of (AList.delete (oldest m) m) j = Some e" using 1 by (simp add: evict.simps [of m])
    then show ?thesis by (auto simp: delete_conv' split: if_splits)
  qed (use 1 in \<open>simp add: evict.simps [of m]\<close>)
qed

lemma identity_id: "promptReplayCacheIdentity c = Some (i, n) \<Longrightarrow> i = trim_space (cf_ConversationID c) \<and> n = cf_ContextVersion c \<and> 0 < n \<and> i \<noteq> []"
  by (auto simp: promptReplayCacheIdentity_def split: if_splits)

lemma replay_lookup_Some: "replay_lookup i p = Some (n, ms) \<longleftrightarrow>
    (\<exists>e. map_of (hp_replayCache p) i = Some e \<and> ce_contextVersion e = n \<and> ce_messages e = ms)"
  by (auto simp: replay_lookup_def)

lemma count_lookup_Some: "count_lookup i p = Some (n, tn) \<longleftrightarrow>
    (\<exists>e. map_of (hp_replayCache p) i = Some e \<and> ce_stableCountReady e \<and> ce_contextVersion e = n \<and>
       (ce_stableTurnSeq e, ce_stableMessageCount e) = tn)"
  by (auto simp: count_lookup_def split: option.splits)

lemmas cache_ops = cachedPromptReplay_def cachePromptReplay_def cachedStablePromptReplayMessageCount_def
  cacheStablePromptReplayMessageCount_def

lemma cachePromptReplay_lookup:
  assumes "map_of (hp_replayCache (cachePromptReplay c ms p)) j = Some e"
  shows "map_of (hp_replayCache p) j = Some e \<or>
    promptReplayCacheIdentity c = Some (j, ce_contextVersion e) \<and> ce_messages e = ms \<and> \<not> ce_stableCountReady e"
proof (cases "promptReplayCacheIdentity c")
  case (Some k)
  obtain i n where k: "k = (i, n)" by (cases k)
  show ?thesis using assms unfolding Some k cachePromptReplay_def
    by (auto simp: Let_def update_conv' dest!: map_of_evict split: if_splits)
qed (use assms in \<open>simp add: cachePromptReplay_def\<close>)

interpretation replays: version_cache promptReplayCacheIdentity replay_lookup cachedPromptReplay cachePromptReplay
    "\<lambda>c ms. projectPromptReplay rl c = Inr ms" for rl
proof (unfold_locales, goal_cases)
  case (1 c s v)
  then show ?case by (auto simp: cache_ops replay_lookup_Some split: option.splits if_splits)
next
  case (2 j c s x)
  then show ?case by (cases x) (auto simp: cache_ops replay_lookup_Some access_lookup split: option.splits if_splits)
next
  case (3 j c v s n w)
  then show ?case unfolding replay_lookup_Some using cachePromptReplay_lookup by blast
qed

interpretation counts: version_cache promptReplayCacheIdentity count_lookup
    "\<lambda>c p. map_prod id (map_option (Pair turn)) (cachedStablePromptReplayMessageCount c turn p)"
    "\<lambda>c tn. cacheStablePromptReplayMessageCount c (fst tn) (snd tn)"
    "\<lambda>c tn. stable_count rl c (fst tn) = Inr (snd tn)" for rl turn
proof (unfold_locales, goal_cases)
  case (1 c s v)
  then show ?case by (cases v) (auto simp: cache_ops count_lookup_Some split: option.splits if_splits)
next
  case (2 j c s x)
  then show ?case by (cases x) (auto simp: cache_ops count_lookup_Some access_lookup split: option.splits if_splits)
next
  case (3 j c v s n w)
  then show ?case by (auto simp: cache_ops count_lookup_Some access_lookup split: option.splits if_splits)
qed

text \<open>What one cache does to the other.\<close>

lemma count_ops_replays:
  "replay_lookup j (fst (cachedStablePromptReplayMessageCount c turn p)) = replay_lookup j p"
  "replay_lookup j (cacheStablePromptReplayMessageCount c turn n p) = replay_lookup j p"
  by (auto simp: cache_ops replay_lookup_def access_lookup split: option.split)

lemma replay_ops_counts:
  "count_lookup j (fst (cachedPromptReplay c p)) = count_lookup j p"
  "count_lookup j (cachePromptReplay c ms p) = Some x \<Longrightarrow> count_lookup j p = Some x"
proof -
  show "count_lookup j (fst (cachedPromptReplay c p)) = count_lookup j p"
    by (auto simp: cache_ops count_lookup_def access_lookup split: option.split)
  assume "count_lookup j (cachePromptReplay c ms p) = Some x"
  then show "count_lookup j p = Some x" by (cases x) (metis count_lookup_Some cachePromptReplay_lookup)
qed

lemma count_has_replay: "count_lookup i p = Some (n, tn) \<Longrightarrow> \<exists>ms. replay_lookup i p = Some (n, ms)"
  by (auto simp: count_lookup_Some replay_lookup_Some)

lemma invalidate_lookup:
  "trim_space i = i \<Longrightarrow> i \<noteq> [] \<Longrightarrow> map_of (hp_replayCache (InvalidateConversation i p)) = (map_of (hp_replayCache p))(i := None)"
  by (simp add: InvalidateConversation_def delete_conv')

end
