(* ===== verification/Replay_World.thy ===== *)
theory Replay_World
  imports Replay_Cache_Guarantees
begin

text \<open>
  The projector in the life of the service: conversations are opened, their metadata changes, entries
  are appended, a history is rewritten, and snapshots of all of them are projected in any order.
\<close>

section \<open>Histories and the snapshots of them\<close>

definition conversation_id :: "ConversationFile \<Rightarrow> string" where
  "conversation_id c = trim_space (cf_ConversationID c)"

text \<open>A conversation as the store leaves it: numbered, with the version of its entries.\<close>

definition versioned :: "ConversationFile \<Rightarrow> bool" where
  "versioned c \<longleftrightarrow> seq_ok c \<and> cf_ContextVersion c = contextVersionForEntries (cf_Entries c) \<and> conversation_id c \<noteq> []"

text \<open>Two conversations whose entries a reader cannot tell apart.\<close>

definition same_history :: "ConversationFile \<Rightarrow> ConversationFile \<Rightarrow> bool" where
  "same_history c d \<longleftrightarrow> cf_Entries c = cf_Entries d \<and> cf_ContextVersion c = cf_ContextVersion d \<and>
     cf_NextEntrySeq c = cf_NextEntrySeq d \<and> conversation_id c = conversation_id d"

text \<open>\<open>pw_held\<close> are the snapshots taken since the history was last rewritten.  Two fields record what
  happened and are read by no step: \<open>pw_strayed\<close> has the conversations of which another snapshot was
  projected since then, \<open>pw_uses\<close> the conversations whose cached replay was read or written, the last
  first.\<close>

record projector_world =
  pw_projector :: HistoryProjector
  pw_current :: "string \<Rightarrow> ConversationFile option"
  pw_held :: "ConversationFile set"
  pw_strayed :: "string set"
  pw_uses :: "string list"

definition start_world :: projector_world where
  "start_world = \<lparr>pw_projector = NewHistoryProjector, pw_current = (\<lambda>_. None), pw_held = {}, pw_strayed = {}, pw_uses = []\<rparr>"

text \<open>A snapshot that has no version (a compaction before it is applied, the replay of a provider) leaves
  the cache alone.\<close>

definition stray :: "projector_world \<Rightarrow> ConversationFile \<Rightarrow> string set" where
  "stray w c = (if c \<in> pw_held w \<or> cf_ContextVersion c \<le> 0 then {} else {conversation_id c})"

text \<open>A projection that succeeds uses the replay of its conversation: it finds it in the cache or puts it
  there.  Counting the stable messages uses it when it is cached under the version counted.\<close>

definition replay_use :: "replay_lib \<Rightarrow> ConversationFile \<Rightarrow> HistoryProjector \<Rightarrow> string list" where
  "replay_use rl c p = (case (promptReplayCacheIdentity c, snd (ProjectPromptReplay rl c p)) of
       (Some (i, _), Inr _) \<Rightarrow> [i] | _ \<Rightarrow> [])"

definition count_use :: "replay_lib \<Rightarrow> ConversationFile \<Rightarrow> int \<Rightarrow> HistoryProjector \<Rightarrow> string list" where
  "count_use rl c turn p = (case (promptReplayCacheIdentity c, snd (StablePromptReplayMessageCount rl c turn p)) of
       (Some (i, v), Inr _) \<Rightarrow> if 0 < turn \<and> map_option ce_contextVersion (map_of (hp_replayCache p) i) = Some v then [i] else []
     | _ \<Rightarrow> [])"

text \<open>A run appends to its conversation after it took the number of the new turn
  (\<open>bootstrapRuntimeConversation\<close>), so \<open>appends\<close> may change \<open>NextTurnSeq\<close>, and \<open>settles\<close>, which changes
  metadata only, may not.  A rewind or a compaction writes the new history, drops the conversation from
  the cache and installs the new checkpoint.  Streams that are not canceled by then, such as those of
  prewarm requests, keep the snapshots they have and may still project them: \<open>projects\<close> and \<open>measures\<close>
  take any snapshot.\<close>

inductive world_step :: "replay_lib \<Rightarrow> projector_world \<Rightarrow> projector_world \<Rightarrow> bool" for rl where
  opens: "versioned d \<Longrightarrow> pw_current w (conversation_id d) = None \<Longrightarrow>
    world_step rl w (w\<lparr>pw_current := (pw_current w)(conversation_id d \<mapsto> d), pw_held := insert d (pw_held w)\<rparr>)"
| settles: "pw_current w i = Some c \<Longrightarrow> same_history c d \<Longrightarrow> cf_NextTurnSeq d = cf_NextTurnSeq c \<Longrightarrow>
    world_step rl w (w\<lparr>pw_current := (pw_current w)(i \<mapsto> d), pw_held := insert d (pw_held w)\<rparr>)"
| appends: "pw_current w i = Some c \<Longrightarrow> same_history c c' \<Longrightarrow> es \<noteq> [] \<Longrightarrow> unnumbered es \<Longrightarrow>
    cf_NextEntrySeq c' + int (length es) \<le> max_i64 \<Longrightarrow> d = fst (appendEntriesInPlace now es c') \<Longrightarrow>
    world_step rl w (w\<lparr>pw_current := (pw_current w)(i \<mapsto> d), pw_held := insert d (pw_held w)\<rparr>)"
| replaces: "versioned d \<Longrightarrow> i = conversation_id d \<Longrightarrow>
    world_step rl w (w\<lparr>pw_projector := InvalidateConversation i (pw_projector w), pw_strayed := pw_strayed w - {i},
      pw_current := (pw_current w)(i \<mapsto> d), pw_held := insert d {c \<in> pw_held w. conversation_id c \<noteq> i}\<rparr>)"
| projects: "world_step rl w (w\<lparr>pw_projector := fst (ProjectPromptReplay rl c (pw_projector w)),
      pw_strayed := pw_strayed w \<union> stray w c, pw_uses := replay_use rl c (pw_projector w) @ pw_uses w\<rparr>)"
| measures: "world_step rl w (w\<lparr>pw_projector := fst (StablePromptReplayMessageCount rl c turn (pw_projector w)),
      pw_strayed := pw_strayed w \<union> stray w c, pw_uses := count_use rl c turn (pw_projector w) @ pw_uses w\<rparr>)"

inductive world_runs :: "replay_lib \<Rightarrow> nat \<Rightarrow> projector_world \<Rightarrow> bool" for rl where
  start: "world_runs rl 0 start_world"
| step: "world_runs rl n w \<Longrightarrow> world_step rl w w' \<Longrightarrow> world_runs rl (Suc n) w'"

section \<open>What an append and a projection do\<close>

lemma conversation_id_append [simp]: "conversation_id (fst (appendEntriesInPlace now es c)) = conversation_id c"
  by (simp add: appendEntriesInPlace_def conversation_id_def Let_def split: prod.split)

lemma append_versioned:
  assumes "versioned c" "es \<noteq> []" "unnumbered es" "cf_NextEntrySeq c + int (length es) \<le> max_i64"
  shows "versioned (fst (appendEntriesInPlace now es c))"
    "cf_ContextVersion c < cf_ContextVersion (fst (appendEntriesInPlace now es c))"
proof -
  let ?d = "fst (appendEntriesInPlace now es c)"
  have c: "seq_ok c" "cf_ContextVersion c = contextVersionForEntries (cf_Entries c)" using assms(1) by (auto simp: versioned_def)
  note new = appendEntriesInPlace_fresh(1) [OF c(1) assms(3,4), of now]
  have d: "cf_ContextVersion ?d = contextVersionForEntries (cf_Entries ?d)" "cf_NextEntrySeq ?d = cf_NextEntrySeq c + int (length es)"
    using assms c(1) assign_fresh [of es "cf_NextEntrySeq c" now "i64 (cf_NextTurnSeq c - 1)"]
    by (simp_all add: appendEntriesInPlace_def Let_def seq_ok_def unnumbered_def)
  have "he_Seq e < cf_NextEntrySeq c + int (length es)" if "e \<in> set (cf_Entries c @ number_from now (cf_NextEntrySeq c) es)" for e
  proof -
    have "he_Seq e \<in> set (map he_Seq (cf_Entries c)) \<or> he_Seq e \<in> set (map he_Seq (number_from now (cf_NextEntrySeq c) es))"
      using that by auto
    then show ?thesis unfolding number_from_seqs using c(1) assms(2) by (auto simp: seq_ok_def)
  qed
  then have "seq_ok ?d"
    using numbers_ok_number_from [OF c(1) assms(3,4), of now] c(1) d(2) by (simp add: seq_ok_def new)
  then show "versioned ?d" using d(1) assms(1) by (simp add: versioned_def)
  show "cf_ContextVersion c < cf_ContextVersion ?d" using version_grows [OF c(1) assms(2)] d(1) c(2) new by simp
qed

lemma same_history_versioned: "same_history c d \<Longrightarrow> versioned c \<Longrightarrow> versioned d"
  by (auto simp: same_history_def versioned_def seq_ok_def)

lemma ProjectPromptReplay_unversioned: "cf_ContextVersion c \<le> 0 \<Longrightarrow> fst (ProjectPromptReplay rl c p) = p"
  by (simp add: ProjectPromptReplay_def cache_ops promptReplayCacheIdentity_def split: sum.split)

lemma Stable_unversioned: "cf_ContextVersion c \<le> 0 \<Longrightarrow> fst (StablePromptReplayMessageCount rl c turn p) = p"
  by (simp add: StablePromptReplayMessageCount_def cache_ops promptReplayCacheIdentity_def split: sum.split)

lemma stable_count_cong:
  assumes "cf_Entries c = cf_Entries d" "cf_NextTurnSeq c = cf_NextTurnSeq d"
  shows "stable_count rl c turn = stable_count rl d turn"
proof -
  have "projectPromptReplay rl (c\<lparr>cf_Entries := es\<rparr>) = projectPromptReplay rl (d\<lparr>cf_Entries := es\<rparr>)" for es
    using assms(2) by (intro projectPromptReplay_cong) simp_all
  then show ?thesis by (simp add: stable_count_def assms(1))
qed

section \<open>The invariant of the cache\<close>

definition coherent :: "ConversationFile set \<Rightarrow> bool" where
  "coherent held \<longleftrightarrow> (\<forall>c \<in> held. \<forall>d \<in> held. conversation_id c = conversation_id d \<and> cf_ContextVersion c = cf_ContextVersion d
     \<longrightarrow> cf_Entries c = cf_Entries d \<and> cf_NextTurnSeq c = cf_NextTurnSeq d)"

definition tracked :: "projector_world \<Rightarrow> bool" where
  "tracked w \<longleftrightarrow> (\<forall>i d. pw_current w i = Some d \<longrightarrow> versioned d \<and> conversation_id d = i \<and> d \<in> pw_held w) \<and>
     (\<forall>c \<in> pw_held w. \<exists>d. pw_current w (conversation_id c) = Some d \<and> cf_ContextVersion c \<le> cf_ContextVersion d)"

text \<open>The cache is right for the conversations that did not stray.\<close>

definition clean :: "string set \<Rightarrow> ConversationFile set \<Rightarrow> ConversationFile set" where
  "clean strayed held = {c \<in> held. conversation_id c \<notin> strayed}"

definition known :: "string set \<Rightarrow> ConversationFile set \<Rightarrow> HistoryProjector \<Rightarrow> bool" where
  "known strayed held p \<longleftrightarrow> (\<forall>i n ms. i \<notin> strayed \<and> replay_lookup i p = Some (n, ms) \<longrightarrow>
     (\<exists>c \<in> held. conversation_id c = i \<and> cf_ContextVersion c = n))"

definition cache_ok :: "replay_lib \<Rightarrow> string set \<Rightarrow> ConversationFile set \<Rightarrow> HistoryProjector \<Rightarrow> bool" where
  "cache_ok rl strayed held p \<longleftrightarrow> known strayed held p \<and> replays.sound rl (clean strayed held) p \<and> counts.sound rl (clean strayed held) p"

definition kept :: "replay_lib \<Rightarrow> projector_world \<Rightarrow> bool" where
  "kept rl w \<longleftrightarrow> tracked w \<and> coherent (pw_held w) \<and> cache_ok rl (pw_strayed w) (pw_held w) (pw_projector w)"

lemma identity_eq: "promptReplayCacheIdentity c = Some (i, n) \<longleftrightarrow> i = conversation_id c \<and> n = cf_ContextVersion c \<and> 0 < n \<and> i \<noteq> []"
  by (auto simp: promptReplayCacheIdentity_def conversation_id_def)

lemma identity_same: "promptReplayCacheIdentity c = promptReplayCacheIdentity d \<Longrightarrow> promptReplayCacheIdentity c \<noteq> None \<Longrightarrow>
    conversation_id c = conversation_id d \<and> cf_ContextVersion c = cf_ContextVersion d"
  by (auto simp: promptReplayCacheIdentity_def conversation_id_def split: if_splits)

lemma coherent_agree:
  assumes "coherent held" shows "replays.agree rl held" "counts.agree rl held"
proof -
  have "cf_Entries c = cf_Entries d \<and> cf_NextTurnSeq c = cf_NextTurnSeq d"
    if "c \<in> held" "d \<in> held" "promptReplayCacheIdentity c = promptReplayCacheIdentity d" "promptReplayCacheIdentity c \<noteq> None" for c d
    using assms that identity_same unfolding coherent_def by blast
  then show "replays.agree rl held" "counts.agree rl held"
    unfolding replays.agree_def counts.agree_def using projectPromptReplay_cong [where rl=rl] stable_count_cong [where rl=rl]
    by (intro ballI impI ext; metis)+
qed

text \<open>Each cache operation keeps a sound cache.\<close>

lemma cache_ok_mono:
  assumes "cache_ok rl strayed held p" "\<And>j x. replay_lookup j p' = Some x \<Longrightarrow> replay_lookup j p = Some x"
    "\<And>j x. count_lookup j p' = Some x \<Longrightarrow> count_lookup j p = Some x"
  shows "cache_ok rl strayed held p'"
  using assms unfolding cache_ok_def known_def replays.sound_def counts.sound_def by blast

lemma cache_ok_shrink:
  assumes "cache_ok rl strayed held p" "\<And>j e. map_of (hp_replayCache p') j = Some e \<Longrightarrow> map_of (hp_replayCache p) j = Some e"
  shows "cache_ok rl strayed held p'"
proof (rule cache_ok_mono [OF assms(1)])
  show "replay_lookup j p = Some x" if "replay_lookup j p' = Some x" for j x
    using that assms(2) by (cases x) (auto simp: replay_lookup_Some)
  show "count_lookup j p = Some x" if "count_lookup j p' = Some x" for j x
    using that assms(2) by (cases x) (auto simp: count_lookup_Some)
qed

lemma clean_coherent: "coherent held \<Longrightarrow> coherent (clean strayed held)"
  by (auto simp: coherent_def clean_def)

lemma strayed_other:
  assumes "conversation_id c \<in> strayed" "d \<in> clean strayed held"
  shows "promptReplayCacheIdentity d \<noteq> promptReplayCacheIdentity c \<or> promptReplayCacheIdentity d = None"
  using identity_same [of d c] assms unfolding clean_def by (metis (mono_tags, lifting) mem_Collect_eq)

lemma cache_ok_strays: "cache_ok rl strayed held p \<Longrightarrow> cache_ok rl (strayed \<union> others) held p"
  using replays.sound_subset [of rl "clean strayed held" p "clean (strayed \<union> others) held"]
    counts.sound_subset [of rl "clean strayed held" p "clean (strayed \<union> others) held"]
  by (auto simp: cache_ok_def known_def clean_def)

text \<open>A value put into the cache is right, or the conversation it is put under has strayed.\<close>

lemma cache_ok_put:
  assumes "cache_ok rl strayed held p" "coherent held" "conversation_id c \<in> strayed \<or> c \<in> held"
    and right: "conversation_id c \<notin> strayed \<Longrightarrow> projectPromptReplay rl c = Inr ms"
  shows "cache_ok rl strayed held (cachePromptReplay c ms p)"
proof -
  let ?p = "cachePromptReplay c ms p" and ?H = "clean strayed held"
  have s: "replays.sound rl ?H p" "counts.sound rl ?H p" "known strayed held p" using assms(1) by (auto simp: cache_ok_def)
  have "known strayed held ?p"
    unfolding known_def
  proof (intro allI impI, elim conjE)
    fix i n x
    assume i: "i \<notin> strayed" "replay_lookup i ?p = Some (n, x)"
    then consider "replay_lookup i p = Some (n, x)" | "promptReplayCacheIdentity c = Some (i, n)" using replays.put_adds by blast
    then show "\<exists>c \<in> held. conversation_id c = i \<and> cf_ContextVersion c = n"
      using s(3) assms(3) i(1) by cases (auto simp: known_def identity_eq)
  qed
  moreover have "replays.sound rl ?H ?p"
  proof (cases "conversation_id c \<in> strayed")
    case True
    then have "promptReplayCacheIdentity d \<noteq> promptReplayCacheIdentity c \<or> promptReplayCacheIdentity d = None" if "d \<in> ?H" for d
      using that by (rule strayed_other)
    then show ?thesis using s(1) unfolding replays.sound_def using replays.put_adds by (metis option.distinct(1))
  next
    case False
    then show ?thesis
      using s(1) assms(3) coherent_agree(1) [OF clean_coherent [OF assms(2)]] right by (intro replays.sound_put) (auto simp: clean_def)
  qed
  moreover have "counts.sound rl ?H ?p" using s(2) replay_ops_counts(2) unfolding counts.sound_def by blast
  ultimately show ?thesis by (simp add: cache_ok_def)
qed

lemma cache_ok_put_count:
  assumes "cache_ok rl strayed held p" "coherent held" "conversation_id c \<in> strayed \<or> c \<in> held"
    and right: "conversation_id c \<notin> strayed \<Longrightarrow> stable_count rl c turn = Inr n"
  shows "cache_ok rl strayed held (cacheStablePromptReplayMessageCount c turn n p)"
proof -
  let ?p = "cacheStablePromptReplayMessageCount c turn n p" and ?H = "clean strayed held"
  have s: "replays.sound rl ?H p" "counts.sound rl ?H p" "known strayed held p" using assms(1) by (auto simp: cache_ok_def)
  have "counts.sound rl ?H ?p"
  proof (cases "conversation_id c \<in> strayed")
    case True
    then have "promptReplayCacheIdentity d \<noteq> promptReplayCacheIdentity c \<or> promptReplayCacheIdentity d = None" if "d \<in> ?H" for d
      using that by (rule strayed_other)
    then show ?thesis using s(2) counts.put_adds [of _ c "(turn, n)" p] unfolding counts.sound_def by (metis fst_conv option.distinct(1) snd_conv)
  next
    case False
    then have c: "c \<in> ?H" using assms(3) by (simp add: clean_def)
    show ?thesis
      using counts.sound_put [OF s(2) coherent_agree(2) [OF clean_coherent [OF assms(2)]] c, of "(turn, n)"] right False by simp
  qed
  then show ?thesis using s count_ops_replays(2) [of _ c turn n p] replays.sound_shrink [of rl ?H p ?p]
    by (simp add: cache_ok_def known_def)
qed

lemma cache_ok_replay:
  assumes "cache_ok rl strayed held p" "coherent held" "conversation_id c \<in> strayed \<or> c \<in> held"
  shows "cache_ok rl strayed held (fst (ProjectPromptReplay rl c p))"
    "conversation_id c \<notin> strayed \<Longrightarrow> snd (ProjectPromptReplay rl c p) = projectPromptReplay rl c"
proof -
  obtain p' r where hit: "cachedPromptReplay c p = (p', r)" by (cases "cachedPromptReplay c p")
  have p': "cache_ok rl strayed held p'"
    using replays.find_keeps [of _ c p] replay_ops_counts(1) [of _ c p] hit by (intro cache_ok_mono [OF assms(1)]) simp_all
  then show "cache_ok rl strayed held (fst (ProjectPromptReplay rl c p))"
    using hit cache_ok_put [OF p' assms(2,3)] by (auto simp: ProjectPromptReplay_def split: option.split sum.split)
  assume c: "conversation_id c \<notin> strayed"
  have "projectPromptReplay rl c = Inr ms" if "r = Some ms" for ms
    using replays.find_right [of rl "clean strayed held" p c] hit that c assms by (auto simp: cache_ok_def clean_def)
  then show "snd (ProjectPromptReplay rl c p) = projectPromptReplay rl c"
    using hit by (auto simp: ProjectPromptReplay_def split: option.split sum.split)
qed

lemma cache_ok_count:
  assumes "cache_ok rl strayed held p" "coherent held" "conversation_id c \<in> strayed \<or> c \<in> held"
  shows "cache_ok rl strayed held (fst (StablePromptReplayMessageCount rl c turn p))"
    "conversation_id c \<notin> strayed \<Longrightarrow> 0 < turn \<Longrightarrow> snd (StablePromptReplayMessageCount rl c turn p) = stable_count rl c turn"
proof -
  obtain p' r where hit: "cachedStablePromptReplayMessageCount c turn p = (p', r)" by (cases "cachedStablePromptReplayMessageCount c turn p")
  have p': "cache_ok rl strayed held p'"
    using counts.find_keeps [of _ turn c p] count_ops_replays(1) [of _ c turn p] hit by (intro cache_ok_mono [OF assms(1)]) simp_all
  then show "cache_ok rl strayed held (fst (StablePromptReplayMessageCount rl c turn p))"
    using hit assms(1) cache_ok_put_count [OF p' assms(2,3)]
    by (auto simp: StablePromptReplayMessageCount_def stable_count_def split: option.split sum.split)
  assume c: "conversation_id c \<notin> strayed" and t: "0 < turn"
  have found: "stable_count rl c turn = Inr n" if "r = Some n" for n
    using counts.find_right [of rl "clean strayed held" p c turn "(turn, n)"] hit that c assms by (auto simp: cache_ok_def clean_def)
  show "snd (StablePromptReplayMessageCount rl c turn p) = stable_count rl c turn"
  proof (cases r)
    case None
    then show ?thesis using hit t by (auto simp: StablePromptReplayMessageCount_def stable_count_def split: sum.split)
  qed (use hit t found in \<open>simp add: StablePromptReplayMessageCount_def\<close>)
qed

section \<open>Every step keeps it\<close>

lemma kept_insert:
  assumes k: "kept rl w" and d: "versioned d"
    and le: "\<And>c. c \<in> pw_held w \<Longrightarrow> conversation_id c = conversation_id d \<Longrightarrow> cf_ContextVersion c \<le> cf_ContextVersion d"
    and eq: "\<And>c. c \<in> pw_held w \<Longrightarrow> conversation_id c = conversation_id d \<Longrightarrow> cf_ContextVersion c = cf_ContextVersion d \<Longrightarrow>
      cf_Entries c = cf_Entries d \<and> cf_NextTurnSeq c = cf_NextTurnSeq d"
  shows "kept rl (w\<lparr>pw_current := (pw_current w)(conversation_id d \<mapsto> d), pw_held := insert d (pw_held w)\<rparr>)"
proof -
  let ?p = "pw_projector w" and ?H = "pw_held w" and ?S = "pw_strayed w"
  let ?C = "clean ?S ?H"
  have H: "tracked w" "coherent ?H" "known ?S ?H ?p" "replays.sound rl ?C ?p" "counts.sound rl ?C ?p"
    using k by (auto simp: kept_def cache_ok_def)
  have "cache_ok rl ?S (insert d ?H) ?p"
  proof (cases "conversation_id d \<in> ?S")
    case True
    then show ?thesis using H by (auto simp: cache_ok_def known_def clean_def insert_Collect conj_disj_distribR cong: conj_cong)
  next
    case False
    have twin: "\<exists>c \<in> ?C. promptReplayCacheIdentity c = Some (i, n) \<and> cf_Entries c = cf_Entries d \<and> cf_NextTurnSeq c = cf_NextTurnSeq d"
      if i: "promptReplayCacheIdentity d = Some (i, n)" and l: "replay_lookup i ?p = Some (n, ms)" for i n ms
    proof -
      have "i \<notin> ?S" using False i by (simp add: identity_eq)
      then obtain c where c: "c \<in> ?H" "conversation_id c = i" "cf_ContextVersion c = n" using H(3) l unfolding known_def by blast
      then have "c \<in> ?C" using \<open>i \<notin> ?S\<close> by (simp add: clean_def)
      then show ?thesis using eq [of c] c i by (intro bexI [of _ c]) (auto simp: identity_eq)
    qed
    have "replays.sound rl (insert d ?C) ?p"
    proof (rule replays.sound_insert [OF H(4)])
      fix i n ms assume "promptReplayCacheIdentity d = Some (i, n)" "replay_lookup i ?p = Some (n, ms)"
      then show "projectPromptReplay rl d = Inr ms"
        using twin H(4) projectPromptReplay_cong unfolding replays.sound_def by metis
    qed
    moreover have "counts.sound rl (insert d ?C) ?p"
    proof (rule counts.sound_insert [OF H(5)])
      fix i n tn assume "promptReplayCacheIdentity d = Some (i, n)" "count_lookup i ?p = Some (n, tn)"
      then show "stable_count rl d (fst tn) = Inr (snd tn)"
        using twin count_has_replay H(5) stable_count_cong unfolding counts.sound_def by metis
    qed
    moreover have "clean ?S (insert d ?H) = insert d ?C" using False by (auto simp: clean_def)
    ultimately show ?thesis using H(3) by (auto simp: cache_ok_def known_def)
  qed
  moreover have "coherent (insert d ?H)" using H(2) eq unfolding coherent_def by (metis insert_iff)
  moreover have "tracked (w\<lparr>pw_current := (pw_current w)(conversation_id d \<mapsto> d), pw_held := insert d ?H\<rparr>)"
    using H(1) d le by (auto simp: tracked_def)
  ultimately show ?thesis by (simp add: kept_def)
qed

lemma kept_replace:
  assumes k: "kept rl w" and d: "versioned d" "i = conversation_id d"
  shows "kept rl (w\<lparr>pw_projector := InvalidateConversation i (pw_projector w), pw_strayed := pw_strayed w - {i},
      pw_current := (pw_current w)(i \<mapsto> d), pw_held := insert d {c \<in> pw_held w. conversation_id c \<noteq> i}\<rparr>)"
proof -
  let ?H = "{c \<in> pw_held w. conversation_id c \<noteq> i}" and ?p = "InvalidateConversation i (pw_projector w)"
  let ?S = "pw_strayed w - {i}"
  let ?w = "w\<lparr>pw_projector := ?p, pw_current := (pw_current w)(i := None), pw_held := ?H, pw_strayed := ?S\<rparr>"
  have i: "trim_space i = i" "i \<noteq> []" using d by (auto simp: versioned_def conversation_id_def)
  note gone = invalidate_lookup [OF i, of "pw_projector w"]
  have ok: "cache_ok rl (pw_strayed w) (pw_held w) ?p"
    using k gone by (auto simp: kept_def split: if_splits intro: cache_ok_shrink [where p="pw_projector w" and p'="?p"])
  have none: "replay_lookup i ?p = None" using gone by (simp add: replay_lookup_def)
  have "known ?S ?H ?p" unfolding known_def
  proof (intro allI impI, elim conjE)
    fix j n ms assume j: "j \<notin> ?S" "replay_lookup j ?p = Some (n, ms)"
    then have "j \<noteq> i" using none by auto
    then show "\<exists>c \<in> ?H. conversation_id c = j \<and> cf_ContextVersion c = n"
      using ok j unfolding cache_ok_def known_def by (metis (mono_tags, lifting) Diff_iff mem_Collect_eq singletonD)
  qed
  moreover have "clean ?S ?H \<subseteq> clean (pw_strayed w) (pw_held w)" by (auto simp: clean_def)
  ultimately have "cache_ok rl ?S ?H ?p" using ok replays.sound_subset counts.sound_subset unfolding cache_ok_def by blast
  moreover have "tracked ?w" "coherent ?H" using k by (auto simp: kept_def tracked_def coherent_def)
  ultimately have "kept rl ?w" by (simp add: kept_def)
  from kept_insert [OF this d(1)] show ?thesis using d(2) by simp
qed

text \<open>After a projection the snapshot belongs to the held ones, or its conversation has strayed.\<close>

lemma projected_stray:
  assumes "\<not> cf_ContextVersion c \<le> 0"
  shows "conversation_id c \<in> pw_strayed w \<union> stray w c \<or> c \<in> pw_held w"
  using assms by (simp add: stray_def)

lemma kept_step:
  assumes "world_step rl w w'" "kept rl w"
  shows "kept rl w'"
  using assms
proof cases
  case (opens d)
  have "conversation_id c \<noteq> conversation_id d" if "c \<in> pw_held w" for c
    using assms(2) opens(3) that by (force simp: kept_def tracked_def)
  then show ?thesis using kept_insert [OF assms(2) opens(2)] opens(1) by blast
next
  case (settles i c d)
  have c: "versioned c" "conversation_id c = i" "c \<in> pw_held w" using assms(2) settles(2) by (auto simp: kept_def tracked_def)
  then have d: "versioned d" "conversation_id d = i" "cf_ContextVersion d = cf_ContextVersion c" "cf_Entries d = cf_Entries c"
    using settles(3) same_history_versioned by (auto simp: same_history_def)
  have "cf_ContextVersion b \<le> cf_ContextVersion d \<and>
      (cf_ContextVersion b = cf_ContextVersion d \<longrightarrow> cf_Entries b = cf_Entries d \<and> cf_NextTurnSeq b = cf_NextTurnSeq d)"
    if "b \<in> pw_held w" "conversation_id b = i" for b
    using assms(2) that c d settles(2,4) unfolding kept_def tracked_def coherent_def by (metis option.inject)
  then show ?thesis using kept_insert [OF assms(2) d(1)] settles(1) d(2) by blast
next
  case (appends i c c' es d now)
  have c: "versioned c" "conversation_id c = i" using assms(2) appends(2) by (auto simp: kept_def tracked_def)
  then have c': "versioned c'" "conversation_id c' = i" "cf_ContextVersion c' = cf_ContextVersion c"
    using appends(3) same_history_versioned by (auto simp: same_history_def)
  have d: "versioned d" "conversation_id d = i" "cf_ContextVersion c < cf_ContextVersion d"
    using append_versioned [OF c'(1) appends(4-6), of now] appends(7) c'(2,3) by auto
  have "cf_ContextVersion b < cf_ContextVersion d" if "b \<in> pw_held w" "conversation_id b = i" for b
    using assms(2) that appends(2) d(3) unfolding kept_def tracked_def by (metis option.inject le_less_trans)
  then show ?thesis using kept_insert [OF assms(2) d(1)] appends(1) d(2) by (metis order_less_imp_le order_less_irrefl)
next
  case (replaces d i)
  then show ?thesis using kept_replace [OF assms(2)] by blast
next
  case (projects c)
  have "cache_ok rl (pw_strayed w \<union> stray w c) (pw_held w) (fst (ProjectPromptReplay rl c (pw_projector w)))"
    using cache_ok_replay(1) [OF cache_ok_strays _ projected_stray] ProjectPromptReplay_unversioned cache_ok_strays assms(2)
    by (cases "cf_ContextVersion c \<le> 0") (auto simp: kept_def)
  then show ?thesis using assms(2) projects(1) by (simp add: kept_def tracked_def)
next
  case (measures c turn)
  have "cache_ok rl (pw_strayed w \<union> stray w c) (pw_held w) (fst (StablePromptReplayMessageCount rl c turn (pw_projector w)))"
    using cache_ok_count(1) [OF cache_ok_strays _ projected_stray] Stable_unversioned cache_ok_strays assms(2)
    by (cases "cf_ContextVersion c \<le> 0") (auto simp: kept_def)
  then show ?thesis using assms(2) measures(1) by (simp add: kept_def tracked_def)
qed

lemma kept_runs: "world_runs rl n w \<Longrightarrow> kept rl w"
proof (induction rule: world_runs.induct)
  case start
  have "map_of (hp_replayCache NewHistoryProjector) = Map.empty" by (simp add: NewHistoryProjector_def)
  then show ?case
    by (simp add: kept_def start_world_def tracked_def coherent_def cache_ok_def known_def replays.sound_def counts.sound_def
        replay_lookup_def count_lookup_def)
qed (rule kept_step)

end
