(* ===== verification/Replay_Bound.thy ===== *)
theory Replay_Bound
  imports Replay_World
begin

text \<open>
  The size of the projector's cache and the order in which it forgets: the clock that counts the
  accesses does not wrap around within the steps considered, so that the smallest number is the oldest.
\<close>

section \<open>The entry used longest ago\<close>

definition key_entries_ok :: "64 word \<Rightarrow> (string \<times> historyProjectionCacheEntry) list \<Rightarrow> bool" where
  "key_entries_ok clock m \<longleftrightarrow> distinct (map fst m) \<and> (\<forall>(k, e) \<in> set m. k \<noteq> [] \<and> ce_lastAccess e \<le> clock)"

definition small :: "nat \<Rightarrow> HistoryProjector \<Rightarrow> bool" where
  "small n p \<longleftrightarrow> key_entries_ok (hp_cacheClock p) (hp_replayCache p) \<and> length (hp_replayCache p) \<le> historyProjectionCacheMaxEntries \<and>
     unat (hp_cacheClock p) \<le> n"

lemma oldest_least:
  assumes "\<exists>kv \<in> set m. ce_lastAccess (snd kv) < - 1"
  shows "\<exists>kv \<in> set m. oldest m = fst kv \<and> (\<forall>kv' \<in> set m. ce_lastAccess (snd kv) \<le> ce_lastAccess (snd kv'))"
proof -
  let ?r = "fold older m ([], - 1)"
  note f = fold_older [of m "([], - 1)"]
  have "?r \<noteq> ([], - 1)" using assms f by (metis leD snd_conv)
  then obtain kv where "kv \<in> set m" "?r = (fst kv, ce_lastAccess (snd kv))" using f by blast
  then show ?thesis using f unfolding oldest_def by (metis fst_conv snd_conv)
qed

lemma tick: "Suc n < 2 ^ 64 \<Longrightarrow> unat (clock :: 64 word) \<le> n \<Longrightarrow> unat (clock + 1) = Suc (unat clock) \<and> clock < clock + 1"
proof -
  assume "Suc n < 2 ^ 64" "unat clock \<le> n"
  then have "unat clock + unat (1 :: 64 word) < 2 ^ LENGTH(64)" by simp
  then show ?thesis by (simp add: unat_add_lem [THEN iffD1] word_less_nat_alt)
qed

lemma evict_one:
  assumes keys: "distinct (map fst m)" "\<forall>(k, e) \<in> set m. k \<noteq> []" and len: "length m \<le> Suc historyProjectionCacheMaxEntries"
    and old: "\<exists>kv \<in> set m. ce_lastAccess (snd kv) < - 1"
  shows "length (evict m) \<le> historyProjectionCacheMaxEntries"
    "evict m = m \<or> length m = Suc historyProjectionCacheMaxEntries \<and> evict m = AList.delete (oldest m) m"
proof -
  obtain kv where kv: "kv \<in> set m" "oldest m = fst kv" using oldest_least [OF old] by blast
  then have "oldest m \<noteq> []" using keys(2) by (metis (mono_tags) case_prodE fst_conv prod.collapse case_prod_unfold)
  have short: "length (AList.delete (oldest m) m) < length m"
    using kv unfolding AList.delete_eq by (metis (mono_tags, lifting) length_filter_less case_prod_unfold)
  have "length (evict m) \<le> historyProjectionCacheMaxEntries \<and>
    (evict m = m \<or> length m = Suc historyProjectionCacheMaxEntries \<and> evict m = AList.delete (oldest m) m)"
  proof (cases "length m \<le> historyProjectionCacheMaxEntries")
    case False
    then have "evict m = evict (AList.delete (oldest m) m)" using \<open>oldest m \<noteq> []\<close> by (simp add: evict.simps [of m])
    also have "\<dots> = AList.delete (oldest m) m" using short len by (simp add: evict.simps)
    finally show ?thesis using False len short by simp
  qed (simp add: evict.simps [of m])
  then show "length (evict m) \<le> historyProjectionCacheMaxEntries"
    "evict m = m \<or> length m = Suc historyProjectionCacheMaxEntries \<and> evict m = AList.delete (oldest m) m" by blast+
qed

section \<open>What the operations do to the size\<close>

lemma delete_subset: "set (AList.delete i m) \<subseteq> set m"
  by (auto simp: AList.delete_eq)

lemma update_subset: "set (AList.update i x m) \<subseteq> insert (i, x) (set m)"
  by (induction m) auto

lemma update_length: "length (AList.update i x m) = (if map_of m i = None then Suc (length m) else length m)"
  by (induction m) auto

lemma map_of_keys: "key_entries_ok clock m \<Longrightarrow> (k, e) \<in> set m \<longleftrightarrow> map_of m k = Some e"
  by (simp add: key_entries_ok_def)

text \<open>An entry is written with the next number of the clock.\<close>

definition written :: "string \<Rightarrow> historyProjectionCacheEntry \<Rightarrow> HistoryProjector \<Rightarrow> (string \<times> historyProjectionCacheEntry) list" where
  "written i e p = AList.update i (e\<lparr>ce_lastAccess := hp_cacheClock p + 1\<rparr>) (hp_replayCache p)"

lemma clock_moves: "small n p \<Longrightarrow> Suc n < 2 ^ 64 \<Longrightarrow> hp_cacheClock p < hp_cacheClock p + 1 \<and> unat (hp_cacheClock p + 1) \<le> Suc n"
  using tick [of n "hp_cacheClock p"] by (simp add: small_def)

lemma written_ok:
  assumes "small n p" "Suc n < 2 ^ 64" "i \<noteq> []"
  shows "key_entries_ok (hp_cacheClock p + 1) (written i e p)"
    "length (written i e p) \<le> Suc (length (hp_replayCache p))"
    "map_of (hp_replayCache p) i \<noteq> None \<Longrightarrow> length (written i e p) = length (hp_replayCache p)"
proof -
  let ?m = "hp_replayCache p"
  have m: "key_entries_ok (hp_cacheClock p) ?m" using assms(1) by (simp add: small_def)
  have "k \<noteq> [] \<and> ce_lastAccess x \<le> hp_cacheClock p + 1" if "(k, x) \<in> set (written i e p)" for k x
  proof -
    have "(k, x) = (i, e\<lparr>ce_lastAccess := hp_cacheClock p + 1\<rparr>) \<or> (k, x) \<in> set ?m"
      using that update_subset unfolding written_def by fast
    then show ?thesis using m clock_moves [OF assms(1,2)] assms(3) unfolding key_entries_ok_def by force
  qed
  then show "key_entries_ok (hp_cacheClock p + 1) (written i e p)"
    using m distinct_update [of ?m i] unfolding key_entries_ok_def written_def by blast
  show "length (written i e p) \<le> Suc (length ?m)" by (simp add: written_def update_length)
  show "length (written i e p) = length ?m" if "map_of ?m i \<noteq> None" using that by (simp add: written_def update_length)
qed

lemma small_access:
  assumes "small n p" "Suc n < 2 ^ 64" "map_of (hp_replayCache p) i \<noteq> None"
  shows "small (Suc n) (access i e p)"
proof -
  have "i \<noteq> []" using assms(1,3) by (auto simp: small_def key_entries_ok_def dest: map_of_SomeD)
  from written_ok [OF assms(1,2) this, of e] show ?thesis
    using clock_moves [OF assms(1,2)] assms(1,3) by (simp add: small_def access_def Let_def written_def)
qed

lemma put_writes:
  assumes "promptReplayCacheIdentity c = Some (i, v)"
  obtains e where "cachePromptReplay c ms p = p\<lparr>hp_cacheClock := hp_cacheClock p + 1, hp_replayCache := evict (written i e p)\<rparr>"
    "ce_messages e = ms" "ce_contextVersion e = v"
proof
  let ?e = "\<lparr>ce_contextVersion = v, ce_messages = ms, ce_stableTurnSeq = 0, ce_stableMessageCount = 0, ce_stableCountReady = False,
    ce_lastAccess = hp_cacheClock p + 1\<rparr>"
  show "cachePromptReplay c ms p = p\<lparr>hp_cacheClock := hp_cacheClock p + 1, hp_replayCache := evict (written i ?e p)\<rparr>"
    by (simp add: cachePromptReplay_def assms Let_def written_def)
qed simp_all

text \<open>Of seventeen entries the one with the smallest number goes, which is never the new one.\<close>

definition forgets_oldest :: "(string \<times> historyProjectionCacheEntry) list \<Rightarrow> (string \<times> historyProjectionCacheEntry) list \<Rightarrow> bool" where
  "forgets_oldest m m' \<longleftrightarrow> (\<forall>j x k y. map_of m j = Some x \<and> map_of m' j = None \<and> map_of m' k = Some y \<longrightarrow> ce_lastAccess x \<le> ce_lastAccess y)"

lemma evict_written:
  assumes s: "small n p" "Suc n < 2 ^ 64" and i: "i \<noteq> []"
  shows "key_entries_ok (hp_cacheClock p + 1) (evict (written i e p)) \<and>
    length (evict (written i e p)) \<le> historyProjectionCacheMaxEntries \<and>
    map_of (evict (written i e p)) i = Some (e\<lparr>ce_lastAccess := hp_cacheClock p + 1\<rparr>) \<and> forgets_oldest (written i e p) (evict (written i e p))"
proof -
  let ?m = "written i e p" and ?new = "e\<lparr>ce_lastAccess := hp_cacheClock p + 1\<rparr>"
  note w = written_ok [OF s i, of e]
  have keys: "distinct (map fst ?m)" "\<forall>(k, e) \<in> set ?m. k \<noteq> []" using w(1) by (auto simp: key_entries_ok_def)
  have len: "length ?m \<le> Suc historyProjectionCacheMaxEntries" using w(2) s(1) by (simp add: small_def)
  have new: "map_of ?m i = Some ?new" by (simp add: written_def update_conv')
  show ?thesis
  proof (cases "length ?m \<le> historyProjectionCacheMaxEntries")
    case True
    then have "evict ?m = ?m" by (simp add: evict.simps [of ?m])
    then show ?thesis using True new w(1) by (auto simp: forgets_oldest_def)
  next
    case False
    have clock: "hp_cacheClock p < hp_cacheClock p + 1" using clock_moves [OF s] by blast
    have "hp_replayCache p \<noteq> []" using w(2) False by (auto simp: historyProjectionCacheMaxEntries_def)
    then obtain j0 x0 where j0: "(j0, x0) \<in> set (hp_replayCache p)" by (cases "hp_replayCache p") auto
    have "map_of (hp_replayCache p) i = None" using w(3) False s(1) unfolding small_def by linarith
    then have "j0 \<noteq> i" using j0 weak_map_of_SomeI by fastforce
    have "map_of (hp_replayCache p) j0 = Some x0" using j0 s(1) by (simp add: small_def key_entries_ok_def)
    then have "map_of ?m j0 = Some x0" using \<open>j0 \<noteq> i\<close> by (simp add: written_def update_conv')
    then have x0: "(j0, x0) \<in> set ?m" by (rule map_of_SomeD)
    have x0_old: "ce_lastAccess x0 \<le> hp_cacheClock p" using j0 s(1) by (auto simp: small_def key_entries_ok_def)
    then have "ce_lastAccess x0 < - 1"
      using less_le_trans [OF le_less_trans [OF x0_old clock] word_order.extremum] by simp
    then have old: "\<exists>kv \<in> set ?m. ce_lastAccess (snd kv) < - 1" using x0 by force
    then obtain a z where a: "(a, z) \<in> set ?m" "oldest ?m = a" "\<forall>kv' \<in> set ?m. ce_lastAccess z \<le> ce_lastAccess (snd kv')"
      using oldest_least by (metis prod.collapse)
    note ev = evict_one [OF keys len old]
    have del: "evict ?m = AList.delete a ?m" using ev(1,2) False a(2) by fastforce
    have z: "map_of ?m a = Some z" using a(1) keys(1) by simp
    have least: "ce_lastAccess z \<le> ce_lastAccess y" if "map_of ?m k = Some y" for y k
      using a(3) map_of_SomeD [OF that] by fastforce
    have "a \<noteq> i" using least [OF \<open>map_of ?m j0 = Some x0\<close>] z new x0_old clock by auto
    moreover have "key_entries_ok (hp_cacheClock p + 1) (AList.delete a ?m)"
      using w(1) distinct_delete [of ?m a] delete_subset [of a ?m] unfolding key_entries_ok_def by blast
    moreover have "forgets_oldest ?m (AList.delete a ?m)"
      unfolding forgets_oldest_def delete_conv' using z least by (auto split: if_splits)
    ultimately show ?thesis using ev(1) new del by (simp add: delete_conv')
  qed
qed

lemma small_mono: "small n p \<Longrightarrow> n \<le> k \<Longrightarrow> small k p"
  by (simp add: small_def)

lemma small_put: "small n p \<Longrightarrow> Suc n < 2 ^ 64 \<Longrightarrow> small (Suc n) (cachePromptReplay c ms p)"
proof (cases "promptReplayCacheIdentity c")
  case (Some k)
  assume s: "small n p" "Suc n < 2 ^ 64"
  obtain i v where k: "promptReplayCacheIdentity c = Some (i, v)" using Some by (cases k) simp
  obtain e where "cachePromptReplay c ms p = p\<lparr>hp_cacheClock := hp_cacheClock p + 1, hp_replayCache := evict (written i e p)\<rparr>"
    using put_writes [OF k] by metis
  moreover have "i \<noteq> []" using k identity_eq by blast
  ultimately show ?thesis using evict_written [OF s, of i e] clock_moves [OF s] by (simp add: small_def)
qed (simp add: cachePromptReplay_def small_mono [of n p "Suc n"])

lemma small_replay:
  assumes "small n p" "Suc n < 2 ^ 64"
  shows "small (Suc n) (fst (ProjectPromptReplay rl c p))"
proof -
  have "small (Suc n) (fst (cachedPromptReplay c p))" "snd (cachedPromptReplay c p) = None \<longrightarrow> fst (cachedPromptReplay c p) = p"
    using small_mono [OF assms(1), of "Suc n"] small_access [OF assms] by (auto simp: cachedPromptReplay_def split: option.split)
  then show ?thesis using small_put [OF assms] by (auto simp: ProjectPromptReplay_def split: prod.split option.split sum.split)
qed

lemma small_count:
  assumes "small n p" "Suc n < 2 ^ 64"
  shows "small (Suc n) (fst (StablePromptReplayMessageCount rl c turn p))"
proof -
  let ?find = "cachedStablePromptReplayMessageCount c turn p"
  have s: "small (Suc n) p" using small_mono [OF assms(1), of "Suc n"] by simp
  have "small (Suc n) (fst ?find)" "snd ?find = None \<longrightarrow> fst ?find = p"
    using s small_access [OF assms] by (auto simp: cachedStablePromptReplayMessageCount_def split: option.split)
  moreover have "small (Suc n) (cacheStablePromptReplayMessageCount c turn k p)" for k
    using s small_access [OF assms] by (auto simp: cacheStablePromptReplayMessageCount_def split: option.split)
  ultimately show ?thesis using s by (auto simp: StablePromptReplayMessageCount_def split: prod.split option.split sum.split)
qed

lemma small_invalidate: "small n p \<Longrightarrow> small n (InvalidateConversation i p)"
  using length_delete_le [of "trim_space i" "hp_replayCache p"] distinct_delete [of "hp_replayCache p" "trim_space i"]
    delete_subset [of "trim_space i" "hp_replayCache p"]
  by (auto simp: InvalidateConversation_def small_def key_entries_ok_def)

lemma small_runs: "world_runs rl n w \<Longrightarrow> n < 2 ^ 64 \<Longrightarrow> small n (pw_projector w)"
proof (induction rule: world_runs.induct)
  case start
  then show ?case by (simp add: start_world_def NewHistoryProjector_def small_def key_entries_ok_def)
next
  case (step n w w')
  then have s: "small n (pw_projector w)" "Suc n < 2 ^ 64" by simp_all
  from step(2) show ?case
    by cases (auto intro: small_mono [OF s(1)] small_mono [OF small_invalidate [OF s(1)]] small_replay [OF s] small_count [OF s])
qed

section \<open>The order of the uses\<close>

text \<open>How many uses of other conversations there were after the last use of \<open>j\<close>.\<close>

definition since :: "string list \<Rightarrow> string \<Rightarrow> nat" where
  "since uses j = length (takeWhile (\<lambda>i. i \<noteq> j) uses)"

lemma since_Cons [simp]: "since (i # uses) j = (if i = j then 0 else Suc (since uses j))"
  by (simp add: since_def)

text \<open>The numbers of the cache order its entries as they were used.\<close>

definition in_order :: "string list \<Rightarrow> HistoryProjector \<Rightarrow> bool" where
  "in_order uses p \<longleftrightarrow> dom (map_of (hp_replayCache p)) \<subseteq> set uses \<and> (\<forall>j x k y. map_of (hp_replayCache p) j = Some x \<and> map_of (hp_replayCache p) k = Some y \<and> j \<noteq> k \<longrightarrow>
     (ce_lastAccess x < ce_lastAccess y \<longleftrightarrow> since uses k < since uses j))"

lemma in_order_shrink:
  "in_order uses p \<Longrightarrow> (\<And>j x. map_of (hp_replayCache p') j = Some x \<Longrightarrow> map_of (hp_replayCache p) j = Some x) \<Longrightarrow> in_order uses p'"
  unfolding in_order_def by (auto simp: subset_iff domIff)

lemma since_inj: "j \<in> set uses \<Longrightarrow> k \<in> set uses \<Longrightarrow> since uses j = since uses k \<Longrightarrow> j = k"
  by (induction uses) (auto split: if_splits)

text \<open>So an entry with the smaller number was used before.\<close>

lemma in_order_less:
  assumes "in_order uses p" "map_of (hp_replayCache p) j = Some x" "map_of (hp_replayCache p) k = Some y" "j \<noteq> k"
    "ce_lastAccess x \<le> ce_lastAccess y"
  shows "since uses k < since uses j"
proof -
  have "\<not> since uses j < since uses k" using assms unfolding in_order_def by (metis leD)
  moreover have "j \<in> set uses" "k \<in> set uses" using assms(1-3) unfolding in_order_def by (auto simp: subset_iff domIff)
  ultimately show ?thesis using since_inj [of j uses k] assms(4) by linarith
qed

definition uses_entry :: "string \<Rightarrow> HistoryProjector \<Rightarrow> HistoryProjector \<Rightarrow> bool" where
  "uses_entry i p p' \<longleftrightarrow> (\<forall>j x. map_of (hp_replayCache p') j = Some x \<longrightarrow>
     (if j = i then ce_lastAccess x = hp_cacheClock p + 1 else map_of (hp_replayCache p) j = Some x))"

lemma in_order_use:
  assumes "in_order uses p" "small n p" "Suc n < 2 ^ 64" "uses_entry i p p'"
  shows "in_order (i # uses) p'"
  unfolding in_order_def
proof (intro conjI allI impI, goal_cases)
  case 1
  show ?case using assms(1,4) unfolding in_order_def uses_entry_def by (auto simp: subset_iff domIff split: if_splits)
next
  case (2 j x k y)
  then show ?case
  proof (elim conjE)
    assume e: "map_of (hp_replayCache p') j = Some x" "map_of (hp_replayCache p') k = Some y" "j \<noteq> k"
    have old: "ce_lastAccess x < hp_cacheClock p + 1" if "map_of (hp_replayCache p) j = Some x" for j x
      using assms(2) map_of_SomeD [OF that] clock_moves [OF assms(2,3)] unfolding small_def key_entries_ok_def
      by (metis (mono_tags, lifting) case_prodD le_less_trans)
    have jk: "if j = i then ce_lastAccess x = hp_cacheClock p + 1 else map_of (hp_replayCache p) j = Some x"
      "if k = i then ce_lastAccess y = hp_cacheClock p + 1 else map_of (hp_replayCache p) k = Some y"
      using assms(4) e(1,2) unfolding uses_entry_def by blast+
    show "(ce_lastAccess x < ce_lastAccess y) = (since (i # uses) k < since (i # uses) j)"
    proof (cases "j = i \<or> k = i")
      case True
      then show ?thesis using jk e(3) old [of k y] old [of j x] by auto
    next
      case False
      then have "(ce_lastAccess x < ce_lastAccess y) = (since uses k < since uses j)"
        using jk e(3) assms(1) unfolding in_order_def by (metis (full_types))
      then show ?thesis using False by auto
    qed
  qed
qed

lemma access_uses: "uses_entry i p (access i e p)"
  by (auto simp: uses_entry_def access_lookup)

lemma put_uses:
  assumes "promptReplayCacheIdentity c = Some (i, v)"
  shows "uses_entry i p (cachePromptReplay c ms p)"
  using assms by (auto simp: uses_entry_def cachePromptReplay_def Let_def update_conv' dest!: map_of_evict)

lemma find_use:
  assumes "cachedPromptReplay c p = (p', r)"
  shows "r = None \<and> p' = p \<or> (\<exists>i v. promptReplayCacheIdentity c = Some (i, v) \<and> r \<noteq> None \<and> uses_entry i p p')"
  using assms access_uses by (auto simp: cachedPromptReplay_def split: option.splits if_splits)

lemma replay_effect:
  "replay_use rl c p = [] \<and> fst (ProjectPromptReplay rl c p) = p \<or>
   (\<exists>i. replay_use rl c p = [i] \<and> uses_entry i p (fst (ProjectPromptReplay rl c p)))"
proof -
  obtain p' r where hit: "cachedPromptReplay c p = (p', r)" by (cases "cachedPromptReplay c p")
  from find_use [OF this] consider (miss) "r = None" "p' = p" | (found) i v ms where "promptReplayCacheIdentity c = Some (i, v)" "r = Some ms" "uses_entry i p p'"
    by blast
  then show ?thesis
  proof cases
    case miss
    then show ?thesis using hit put_uses [of c _ _ p]
      by (cases "promptReplayCacheIdentity c") (auto simp: replay_use_def ProjectPromptReplay_def cachePromptReplay_def split: sum.split)
  qed (use hit in \<open>simp add: replay_use_def ProjectPromptReplay_def\<close>)
qed

lemma count_effect:
  "count_use rl c turn p = [] \<and> fst (StablePromptReplayMessageCount rl c turn p) = p \<or>
   (\<exists>i. count_use rl c turn p = [i] \<and> uses_entry i p (fst (StablePromptReplayMessageCount rl c turn p)))"
proof (cases "promptReplayCacheIdentity c")
  case None
  then show ?thesis
    by (auto simp: count_use_def StablePromptReplayMessageCount_def cache_ops split: sum.split)
next
  case (Some k)
  obtain i v where k: "promptReplayCacheIdentity c = Some (i, v)" using Some by (cases k) simp
  show ?thesis
  proof (cases "map_of (hp_replayCache p) i")
    case None
    then show ?thesis using k by (auto simp: count_use_def StablePromptReplayMessageCount_def cache_ops split: sum.split)
  next
    case e: (Some e)
    show ?thesis
    proof (cases "turn \<le> 0 \<or> ce_contextVersion e \<noteq> v")
      case True
      then show ?thesis using k e by (auto simp: count_use_def StablePromptReplayMessageCount_def cache_ops split: sum.split)
    next
      case False
      then show ?thesis using k e access_uses
        by (auto simp: count_use_def StablePromptReplayMessageCount_def cache_ops split: sum.split)
    qed
  qed
qed

lemma runs_in_order: "world_runs rl n w \<Longrightarrow> n < 2 ^ 64 \<Longrightarrow> in_order (pw_uses w) (pw_projector w)"
proof (induction rule: world_runs.induct)
  case start
  then show ?case by (simp add: start_world_def NewHistoryProjector_def in_order_def)
next
  case (step n w w')
  then have o: "in_order (pw_uses w) (pw_projector w)" "Suc n < 2 ^ 64" and s: "small n (pw_projector w)"
    using small_runs by auto
  from step(2) show ?case
  proof cases
    case (replaces d i)
    have "in_order (pw_uses w) (InvalidateConversation i (pw_projector w))"
      by (rule in_order_shrink [OF o(1)]) (auto simp: InvalidateConversation_def delete_conv' split: if_splits)
    then show ?thesis using replaces by simp
  next
    case (projects c)
    then show ?thesis using replay_effect [of rl c "pw_projector w"] o in_order_use [OF o(1) s o(2)] by auto
  next
    case (measures c turn)
    then show ?thesis using count_effect [of rl c turn "pw_projector w"] o in_order_use [OF o(1) s o(2)] by auto
  qed (use o in simp_all)
qed

section \<open>A run of the service\<close>

definition demo_replay_lib :: replay_lib where
  "demo_replay_lib = \<lparr>rl_compaction = \<lparr>cl_json = \<lparr>jl_decode = \<lambda>_. None, jl_encode = \<lambda>_. None\<rparr>, cl_diff = \<lambda>_ _. ([], []), cl_bytes = \<lambda>_. [],
       cl_encode_state = \<lambda>_. None, cl_codecs = \<lparr>decode_runtime_state = \<lambda>_. None, decode_tool_call = \<lambda>_. None\<rparr>\<rparr>,
     rl_sha = id, rl_model_message = \<lambda>_. None, rl_user_message = \<lambda>_. Some (Some (text_message ''user'' ''hi'')),
     rl_request_context = \<lambda>_. None, rl_call_message = \<lambda>_ _. None, rl_result_message = \<lambda>_ _. None, rl_call_and_result = \<lambda>_ _. None,
     rl_tool_name = \<lambda>_. []\<rparr>"

definition demo_replayed :: ConversationFile where
  "demo_replayed = emptyConversation\<lparr>cf_ConversationID := ''c'', cf_ContextVersion := 1, cf_NextEntrySeq := 2, cf_NextTurnSeq := 2,
     cf_Entries := [(new_entry 1 ''r'' ''user'' ''user_message'' [] (RawJson (JString ''hi'')))\<lparr>he_Seq := 1\<rparr>]\<rparr>"

definition demo_world :: projector_world where
  "demo_world = start_world\<lparr>pw_current := [''c'' \<mapsto> demo_replayed], pw_held := {demo_replayed},
     pw_projector := fst (ProjectPromptReplay demo_replay_lib demo_replayed NewHistoryProjector), pw_strayed := {}, pw_uses := [''c'']\<rparr>"

lemma demo_projection: "projectPromptReplay demo_replay_lib demo_replayed = Inr [text_message ''user'' ''hi'']"
  by code_simp

lemma demo_identity: "promptReplayCacheIdentity demo_replayed = Some (''c'', 1)" "conversation_id demo_replayed = ''c''"
  by code_simp+

lemma demo_versioned: "versioned demo_replayed"
proof -
  have "contextVersionForEntries (cf_Entries demo_replayed) = 1" "trim_space (cf_ConversationID demo_replayed) \<noteq> []" by code_simp+
  then show ?thesis
    by (simp add: versioned_def conversation_id_def seq_ok_def entries_ok_def numbers_ok_def demo_replayed_def new_entry_def)
qed

lemma demo_hit: "snd (cachedPromptReplay demo_replayed (pw_projector demo_world)) = Some [text_message ''user'' ''hi'']"
  by (simp add: demo_world_def start_world_def ProjectPromptReplay_def NewHistoryProjector_def cachedPromptReplay_def cachePromptReplay_def
      demo_identity demo_projection evict.simps historyProjectionCacheMaxEntries_def Let_def)

lemma demo_replay_run: "world_runs demo_replay_lib 2 demo_world"
proof -
  let ?w = "start_world\<lparr>pw_current := (pw_current start_world)(conversation_id demo_replayed \<mapsto> demo_replayed), pw_held := insert demo_replayed (pw_held start_world)\<rparr>"
  have "world_step demo_replay_lib start_world ?w" by (rule opens [OF demo_versioned]) (simp add: start_world_def)
  then have "world_runs demo_replay_lib (Suc 0) ?w" by (rule world_runs.step [OF world_runs.start])
  moreover have "world_step demo_replay_lib ?w demo_world"
  proof -
    have use: "replay_use demo_replay_lib demo_replayed NewHistoryProjector = [''c'']"
      by (simp add: replay_use_def ProjectPromptReplay_def cachedPromptReplay_def NewHistoryProjector_def demo_identity demo_projection)
    show ?thesis using projects [of demo_replay_lib ?w demo_replayed] use
      by (simp add: demo_world_def start_world_def demo_identity(2) stray_def)
  qed
  ultimately have "world_runs demo_replay_lib (Suc (Suc 0)) demo_world" by (rule world_runs.step)
  then show ?thesis by (simp add: numeral_2_eq_2)
qed

section \<open>The guarantees\<close>

text \<open>C33.  Whatever conversations were opened, changed, appended to, rewritten and projected before, in any
  interleaving, a snapshot taken since the last rewrite of its history is shown to the provider as
  an uncached projection of it would be, and the number of its stable messages is the length of the
  projection of the earlier turns; unless, since that rewrite, a snapshot from before it was projected,
  by a stream that was not canceled.\<close>

theorem cached_replay_is_projection:
  assumes "world_runs rl n w" "c \<in> pw_held w" "conversation_id c \<notin> pw_strayed w" "0 < turn"
  shows "snd (ProjectPromptReplay rl c (pw_projector w)) = projectPromptReplay rl c \<and>
    snd (StablePromptReplayMessageCount rl c turn (pw_projector w)) = stable_count rl c turn"
proof -
  have "cache_ok rl (pw_strayed w) (pw_held w) (pw_projector w)" "coherent (pw_held w)"
    using kept_runs [OF assms(1)] by (simp_all add: kept_def)
  then show ?thesis using assms(2-4) by (simp add: cache_ok_replay(2) cache_ok_count(2))
qed

theorem cached_replay_is_projection_witness:
  "world_runs demo_replay_lib 2 demo_world \<and> demo_replayed \<in> pw_held demo_world \<and>
   snd (cachedPromptReplay demo_replayed (pw_projector demo_world)) = Some [text_message ''user'' ''hi''] \<and>
   snd (ProjectPromptReplay demo_replay_lib demo_replayed (pw_projector demo_world)) = projectPromptReplay demo_replay_lib demo_replayed \<and>
   snd (StablePromptReplayMessageCount demo_replay_lib demo_replayed 1 (pw_projector demo_world)) = stable_count demo_replay_lib demo_replayed 1"
  using cached_replay_is_projection [OF demo_replay_run, of demo_replayed 1] demo_replay_run demo_hit by (simp add: demo_world_def)

text \<open>A stale snapshot does harm: projected first, it is what the current history of the same version is
  shown as.\<close>

lemma stale_snapshot_shown:
  assumes "promptReplayCacheIdentity c = Some (i, v)" "promptReplayCacheIdentity d = Some (i, v)" "projectPromptReplay rl c = Inr ms"
  shows "snd (ProjectPromptReplay rl d (fst (ProjectPromptReplay rl c NewHistoryProjector))) = Inr ms"
proof -
  let ?p = "cachePromptReplay c ms NewHistoryProjector"
  have s: "small 0 NewHistoryProjector" by (simp add: small_def key_entries_ok_def NewHistoryProjector_def)
  obtain e where e: "?p = NewHistoryProjector\<lparr>hp_cacheClock := hp_cacheClock NewHistoryProjector + 1, hp_replayCache := evict (written i e NewHistoryProjector)\<rparr>"
    "ce_messages e = ms" "ce_contextVersion e = v" by (rule put_writes [OF assms(1)])
  have "i \<noteq> []" using assms(1) identity_eq by blast
  then have "map_of (hp_replayCache ?p) i = Some (e\<lparr>ce_lastAccess := hp_cacheClock NewHistoryProjector + 1\<rparr>)"
    using evict_written [OF s, of i e] by (simp add: e(1))
  moreover have "fst (ProjectPromptReplay rl c NewHistoryProjector) = ?p"
    using assms(1,3) by (simp add: ProjectPromptReplay_def cachedPromptReplay_def NewHistoryProjector_def)
  ultimately show ?thesis using assms(2) e(2,3) by (simp add: ProjectPromptReplay_def cachedPromptReplay_def)
qed

text \<open>C23.  Within the first \<open>2 ^ 64 - 1\<close> steps of a run of the service the cache holds at most sixteen
  conversations; a conversation that was just projected is one of them, under its version and with the
  messages returned; and of a conversation that was dropped to make room the last use, that is the
  last time its replay was read or written, lies further back than that of every conversation that
  stayed.\<close>

theorem cache_keeps_most_recent:
  assumes w: "world_runs rl n w" "Suc n < 2 ^ 64" and c: "promptReplayCacheIdentity c = Some (i, v)"
    "ProjectPromptReplay rl c (pw_projector w) = (p', Inr ms)"
  defines "uses \<equiv> i # pw_uses w"
  shows "length (hp_replayCache p') \<le> 16 \<and>
    (\<exists>e. map_of (hp_replayCache p') i = Some e \<and> ce_contextVersion e = v \<and> ce_messages e = ms) \<and>
    (\<forall>j k. map_of (hp_replayCache (pw_projector w)) j \<noteq> None \<and> map_of (hp_replayCache p') j = None \<and> map_of (hp_replayCache p') k \<noteq> None \<longrightarrow>
       since uses k < since uses j)"
proof -
  let ?p = "pw_projector w"
  have s: "small n ?p" using small_runs [OF w(1)] w(2) by simp
  have len: "length (hp_replayCache p') \<le> 16"
    using small_replay [OF s w(2), of rl c] c(2) by (simp add: small_def historyProjectionCacheMaxEntries_def)
  show ?thesis
  proof (cases "snd (cachedPromptReplay c ?p)")
    case None
    then have miss: "cachedPromptReplay c ?p = (?p, None)" by (auto simp: cachedPromptReplay_def split: option.splits if_splits)
    then have "p' = cachePromptReplay c ms ?p" using c(2) by (auto simp: ProjectPromptReplay_def split: sum.splits)
    then obtain e where e: "p' = ?p\<lparr>hp_cacheClock := hp_cacheClock ?p + 1, hp_replayCache := evict (written i e ?p)\<rparr>"
      "ce_messages e = ms" "ce_contextVersion e = v" using put_writes [OF c(1)] by metis
    have i: "i \<noteq> []" using c(1) identity_eq by blast
    note ev = evict_written [OF s w(2) i, of e]
    let ?q = "?p\<lparr>hp_replayCache := written i e ?p\<rparr>"
    have q: "in_order uses ?q"
      unfolding uses_def using runs_in_order [OF w(1)] s w(2)
      by (intro in_order_use [where p = ?p and n = n]) (auto simp: uses_entry_def written_def update_conv' split: if_splits)
    have "since uses k < since uses j"
      if d: "map_of (hp_replayCache ?p) j \<noteq> None" "map_of (hp_replayCache p') j = None" "map_of (hp_replayCache p') k \<noteq> None" for j k
    proof -
      have "j \<noteq> i" "j \<noteq> k" using d(2,3) ev by (auto simp: e(1))
      then obtain x where x: "map_of (hp_replayCache ?q) j = Some x" using d(1) by (auto simp: written_def update_conv')
      obtain y where y: "map_of (evict (written i e ?p)) k = Some y" using d(3) by (auto simp: e(1))
      have "ce_lastAccess x \<le> ce_lastAccess y" using x y ev d(2) unfolding forgets_oldest_def e(1) by simp
      then show ?thesis using in_order_less [OF q x _ \<open>j \<noteq> k\<close>, of y] map_of_evict [OF y] by simp
    qed
    then show ?thesis using len ev e by simp
  next
    case (Some hit)
    then obtain e where e: "map_of (hp_replayCache ?p) i = Some e" "ce_contextVersion e = v" "hit = ce_messages e"
      "cachedPromptReplay c ?p = (access i e ?p, Some hit)"
      using c(1) by (auto simp: cachedPromptReplay_def split: option.splits if_splits)
    then have "hit = ms" "p' = access i e ?p" using c(2) by (auto simp: ProjectPromptReplay_def)
    then show ?thesis using len e by (auto simp: access_lookup)
  qed
qed

theorem cache_keeps_most_recent_witness:
  "world_runs demo_replay_lib 2 demo_world \<and> length (hp_replayCache (fst (ProjectPromptReplay demo_replay_lib demo_replayed (pw_projector demo_world)))) \<le> 16 \<and>
   (\<exists>e. map_of (hp_replayCache (fst (ProjectPromptReplay demo_replay_lib demo_replayed (pw_projector demo_world)))) ''c'' = Some e \<and>
      ce_contextVersion e = 1 \<and> ce_messages e = [text_message ''user'' ''hi''])"
proof -
  have "ProjectPromptReplay demo_replay_lib demo_replayed (pw_projector demo_world) =
      (fst (ProjectPromptReplay demo_replay_lib demo_replayed (pw_projector demo_world)), Inr [text_message ''user'' ''hi''])"
    using demo_hit by (auto simp: ProjectPromptReplay_def split: prod.split)
  from cache_keeps_most_recent [OF demo_replay_run _ demo_identity(1) this] show ?thesis using demo_replay_run by simp
qed

end
