(* ===== verification/Think_Tags.thy ===== *)
theory Think_Tags
  imports Go_Replace
begin

text \<open>
  Reasoning that a provider sends inside the answer, between \<open><think>\<close> and \<open></think>\<close>.  The parser of
  \<open>agent/model/openai.go\<close> takes the text in the pieces the stream delivers; \<open>agent/model/anthropic.go\<close> has
  the same parser under other names.  A tag may be cut anywhere: what could become one is carried over.
\<close>

definition openAIThinkOpenTag :: string where
  "openAIThinkOpenTag = ''<think>''"

definition openAIThinkCloseTag :: string where
  "openAIThinkCloseTag = ''</think>''"

datatype openAIContentPartKind = openAIContentPartText | openAIContentPartReasoning | openAIContentPartThinkingCompleted

record openAIContentPart =
  cp_Kind :: openAIContentPartKind
  cp_Text :: string

record openAIThinkTagParser =
  tt_carry :: string
  tt_inThink :: bool

fun tag_tail :: "string \<Rightarrow> string \<Rightarrow> nat \<Rightarrow> nat" where
  "tag_tail txt tag 0 = 0"
| "tag_tail txt tag (Suc n) = (if has_suffix txt (take (Suc n) tag) then Suc n else tag_tail txt tag n)"

definition trailingTagPrefixLength :: "string \<Rightarrow> string \<Rightarrow> nat" where
  "trailingTagPrefixLength txt tag = tag_tail txt tag (min (length txt) (length tag - 1))"

text \<open>A part is left out when its text is empty.\<close>

definition content_part :: "openAIContentPartKind \<Rightarrow> string \<Rightarrow> openAIContentPart list" where
  "content_part kind txt = (if txt = [] then [] else [\<lparr>cp_Kind = kind, cp_Text = txt\<rparr>])"

definition mode_tag :: "bool \<Rightarrow> string" where
  "mode_tag inThink = (if inThink then openAIThinkCloseTag else openAIThinkOpenTag)"

definition mode_kind :: "bool \<Rightarrow> openAIContentPartKind" where
  "mode_kind inThink = (if inThink then openAIContentPartReasoning else openAIContentPartText)"

definition mode_end :: "bool \<Rightarrow> openAIContentPart list" where
  "mode_end inThink = (if inThink then [\<lparr>cp_Kind = openAIContentPartThinkingCompleted, cp_Text = []\<rparr>] else [])"

lemma mode_tag_not_Nil [simp]: "mode_tag b \<noteq> []" "[] \<noteq> mode_tag b"
  by (simp_all add: mode_tag_def openAIThinkOpenTag_def openAIThinkCloseTag_def)

text \<open>The loop of \<open>Consume\<close>; the two halves of its body, inside and outside of the tags, differ in the tag,
  the kind of the part and the mark at the end.\<close>

function consume_loop :: "bool \<Rightarrow> string \<Rightarrow> openAIContentPart list \<times> openAIThinkTagParser" where
  "consume_loop inThink input =
     (if input = [] then ([], \<lparr>tt_carry = [], tt_inThink = inThink\<rparr>)
      else case index_of input (mode_tag inThink) of
        Some i \<Rightarrow>
          (case consume_loop (\<not> inThink) (drop (i + length (mode_tag inThink)) input) of
             (parts, p) \<Rightarrow> (content_part (mode_kind inThink) (take i input) @ mode_end inThink @ parts, p))
      | None \<Rightarrow>
          (let keep = length input - trailingTagPrefixLength input (mode_tag inThink)
           in (content_part (mode_kind inThink) (take keep input), \<lparr>tt_carry = drop keep input, tt_inThink = inThink\<rparr>)))"
  by pat_completeness auto
termination
  by (relation "measure (\<lambda>(_, input). length input)") (auto simp: mode_tag_def openAIThinkOpenTag_def openAIThinkCloseTag_def)

declare consume_loop.simps [simp del]

definition Consume :: "string \<Rightarrow> openAIThinkTagParser \<Rightarrow> openAIContentPart list \<times> openAIThinkTagParser" where
  "Consume txt p = (if txt = [] then ([], p) else consume_loop (tt_inThink p) (tt_carry p @ txt))"

definition Flush :: "openAIThinkTagParser \<Rightarrow> openAIContentPart list \<times> openAIThinkTagParser" where
  "Flush p = (content_part (mode_kind (tt_inThink p)) (tt_carry p), p\<lparr>tt_carry := []\<rparr>)"

text \<open>A stream: its pieces in order, and \<open>Flush\<close> at the end.\<close>

fun parse_chunks :: "string list \<Rightarrow> openAIThinkTagParser \<Rightarrow> openAIContentPart list" where
  "parse_chunks [] p = fst (Flush p)"
| "parse_chunks (c # cs) p = (case Consume c p of (parts, p') \<Rightarrow> parts @ parse_chunks cs p')"

section \<open>The reference\<close>

text \<open>The bytes of a text with the mode each is in; an end of thinking is a mark of its own.\<close>

datatype atom = Byte bool char | ThinkingDone

definition end_atoms :: "bool \<Rightarrow> atom list" where
  "end_atoms inThink = (if inThink then [ThinkingDone] else [])"

function tagged :: "bool \<Rightarrow> string \<Rightarrow> atom list" where
  "tagged inThink s =
     (if has_prefix s (mode_tag inThink) then end_atoms inThink @ tagged (\<not> inThink) (drop (length (mode_tag inThink)) s)
      else case s of [] \<Rightarrow> [] | c # s' \<Rightarrow> Byte inThink c # tagged inThink s')"
  by pat_completeness auto
termination
proof (relation "measure (\<lambda>(_, s). length s)", goal_cases)
  case (2 b s)
  then obtain r where "s = mode_tag b @ r" by (auto simp: has_prefix_iff)
  then show ?case by (cases "mode_tag b") auto
qed auto

declare tagged.simps [simp del]

definition part_atoms :: "openAIContentPart \<Rightarrow> atom list" where
  "part_atoms p = (case cp_Kind p of
       openAIContentPartText \<Rightarrow> map (Byte False) (cp_Text p)
     | openAIContentPartReasoning \<Rightarrow> map (Byte True) (cp_Text p)
     | openAIContentPartThinkingCompleted \<Rightarrow> [ThinkingDone])"

definition atoms :: "openAIContentPart list \<Rightarrow> atom list" where
  "atoms ps = concat (map part_atoms ps)"

lemma atoms_simps [simp]:
  "atoms [] = []" "atoms (ps @ qs) = atoms ps @ atoms qs"
  "atoms (content_part (mode_kind b) s) = map (Byte b) s" "atoms (mode_end b) = end_atoms b"
  by (auto simp: atoms_def content_part_def mode_kind_def mode_end_def end_atoms_def part_atoms_def)

section \<open>Where a tag can begin\<close>

lemma tagged_Nil [simp]: "tagged b [] = []"
  by (subst tagged.simps) (simp add: has_prefix_def)

lemma tagged_skip:
  "\<forall>j<n. \<not> has_prefix (drop j s) (mode_tag b) \<Longrightarrow> n \<le> length s \<Longrightarrow> tagged b s = map (Byte b) (take n s) @ tagged b (drop n s)"
proof (induction n arbitrary: s)
  case (Suc n)
  then obtain c s' where s: "s = c # s'" by (cases s) auto
  have "\<forall>j<n. \<not> has_prefix (drop j s') (mode_tag b)" using Suc.prems(1) s by (metis Suc_less_eq drop_Suc_Cons)
  moreover have "\<not> has_prefix s (mode_tag b)" using Suc.prems(1) by (metis drop0 zero_less_Suc)
  ultimately show ?case using Suc.IH [of s'] Suc.prems(2) s by (subst tagged.simps) simp
qed simp

lemma has_prefix_split: "has_prefix (drop j s) t \<Longrightarrow> j \<le> length s \<Longrightarrow> s = take j s @ t @ drop (j + length t) s"
  by (metis append_take_drop_id drop_drop add.commute has_prefix_def)

lemma index_first: "index_of s t = Some i \<Longrightarrow> j < i \<Longrightarrow> \<not> has_prefix (drop j s) t"
proof
  assume "index_of s t = Some i" "j < i" "has_prefix (drop j s) t"
  moreover have "j \<le> length s" using index_of_bound [of s t i] calculation by simp
  ultimately show False using has_prefix_split index_of_before [of s t i "take j s"] by fastforce
qed

lemma index_none: "index_of s t = None \<Longrightarrow> j \<le> length s \<Longrightarrow> \<not> has_prefix (drop j s) t"
  using has_prefix_split [of j s t] contains_iff [of s t] unfolding contains_def by blast

lemma prefix_of_append: "has_prefix (s @ r) t \<Longrightarrow> length t \<le> length s \<Longrightarrow> has_prefix s t"
  by (simp add: has_prefix_def)

text \<open>An occurrence that starts in \<open>s\<close> and ends behind it starts in the carried suffix.\<close>

lemma tag_tail_le: "tag_tail s t n \<le> n"
  by (induction n) auto

lemma tag_tail_max: "has_suffix s (take k t) \<Longrightarrow> k \<le> n \<Longrightarrow> k \<le> tag_tail s t n"
  by (induction n) (auto simp: le_Suc_eq)

lemma trailing_less: "t \<noteq> [] \<Longrightarrow> trailingTagPrefixLength s t < length t"
  using tag_tail_le [of s t "min (length s) (length t - 1)"] by (cases t) (auto simp: trailingTagPrefixLength_def)

lemma trailing_max: "has_suffix s (take k t) \<Longrightarrow> k \<le> length s \<Longrightarrow> k < length t \<Longrightarrow> k \<le> trailingTagPrefixLength s t"
  unfolding trailingTagPrefixLength_def by (rule tag_tail_max) simp_all

lemma no_tag_before_carry:
  assumes "index_of s t = None" "j < length s - trailingTagPrefixLength s t"
  shows "\<not> has_prefix (drop j (s @ r)) t"
proof
  assume h: "has_prefix (drop j (s @ r)) t"
  have j: "j < length s" using assms(2) by linarith
  then have d: "drop j (s @ r) = drop j s @ r" by simp
  show False
  proof (cases "length t \<le> length (drop j s)")
    case True
    then show False using h d prefix_of_append index_none [OF assms(1), of j] j by auto
  next
    case False
    then have "take (length s - j) t = drop j s" using h d by (auto simp: has_prefix_def take_append) (metis append_eq_conv_conj append_take_drop_id length_drop take_append)
    then have "has_suffix s (take (length s - j) t)" using j by (simp add: has_suffix_def)
    then have "length s - j \<le> trailingTagPrefixLength s t" using trailing_max False by simp
    then show False using assms(2) j by linarith
  qed
qed

section \<open>The parser follows the reference\<close>

definition parser_ok :: "openAIThinkTagParser \<Rightarrow> bool" where
  "parser_ok p \<longleftrightarrow> length (tt_carry p) < length (mode_tag (tt_inThink p))"

lemma tagged_tag: "tagged b (mode_tag b @ s) = end_atoms b @ tagged (\<not> b) s"
  by (subst tagged.simps) simp

lemma consume_loop_tagged:
  "consume_loop b input = (parts, p) \<Longrightarrow>
   parser_ok p \<and> tagged b (input @ rest) = atoms parts @ tagged (tt_inThink p) (tt_carry p @ rest)"
proof (induction b input arbitrary: parts p rest rule: consume_loop.induct)
  case (1 b input)
  let ?t = "mode_tag b"
  consider "input = []" | i where "input \<noteq> []" "index_of input ?t = Some i" | "input \<noteq> []" "index_of input ?t = None"
    by fastforce
  then show ?case
  proof cases
    case 1
    then show ?thesis using "1.prems" by (auto simp: consume_loop.simps [of b "[]"] parser_ok_def)
  next
    case (2 i)
    obtain ps where ps: "consume_loop (\<not> b) (drop (i + length ?t) input) = (ps, p)"
        "parts = content_part (mode_kind b) (take i input) @ mode_end b @ ps"
      using "1.prems" 2 by (auto simp: consume_loop.simps [of b input] split: prod.splits)
    have split: "input = take i input @ ?t @ drop (i + length ?t) input" by (rule index_of_split [OF 2(2)])
    have bound: "i + length ?t \<le> length input" by (rule index_of_bound [OF 2(2)])
    have none: "\<not> has_prefix (drop j (input @ rest)) ?t" if "j < i" for j
    proof -
      have "drop j (input @ rest) = drop j input @ rest" "length ?t \<le> length (drop j input)" using that bound by simp_all
      then show ?thesis using index_first [OF 2(2) that] prefix_of_append by metis
    qed
    have "drop i (input @ rest) = ?t @ (drop (i + length ?t) input @ rest)"
      using split bound by (metis (no_types, lifting) append.assoc append_eq_conv_conj add_leD1 length_take min_absorb2)
    then have "tagged b (input @ rest) = map (Byte b) (take i input) @ end_atoms b @ tagged (\<not> b) (drop (i + length ?t) input @ rest)"
      using tagged_skip [of i "input @ rest" b] none bound by (simp add: tagged_tag)
    then show ?thesis using "1.IH" [OF 2 ps(1)] ps(2) by simp
  next
    case 3
    let ?k = "length input - trailingTagPrefixLength input ?t"
    have p: "p = \<lparr>tt_carry = drop ?k input, tt_inThink = b\<rparr>" "parts = content_part (mode_kind b) (take ?k input)"
      using "1.prems" 3 by (auto simp: consume_loop.simps [of b input] Let_def)
    have "tagged b (input @ rest) = map (Byte b) (take ?k input) @ tagged b (drop ?k input @ rest)"
      using tagged_skip [of ?k "input @ rest" b] no_tag_before_carry [OF 3(2), of _ rest] by simp
    moreover have "length (drop ?k input) < length ?t" using trailing_less [of ?t input] by simp
    ultimately show ?thesis using p by (simp add: parser_ok_def)
  qed
qed

lemma Consume_tagged:
  "parser_ok p \<Longrightarrow> Consume txt p = (parts, p') \<Longrightarrow>
   parser_ok p' \<and> tagged (tt_inThink p) (tt_carry p @ txt @ rest) = atoms parts @ tagged (tt_inThink p') (tt_carry p' @ rest)"
  using consume_loop_tagged [of "tt_inThink p" "tt_carry p @ txt" parts p' rest] by (auto simp: Consume_def split: if_splits)

lemma Flush_tagged: "parser_ok p \<Longrightarrow> tagged (tt_inThink p) (tt_carry p) = atoms (fst (Flush p))"
proof -
  assume "parser_ok p"
  then have "\<not> has_prefix (drop j (tt_carry p)) (mode_tag (tt_inThink p))" for j
    by (auto simp: parser_ok_def has_prefix_def dest: arg_cong [where f = length])
  then show ?thesis using tagged_skip [of "length (tt_carry p)" "tt_carry p" "tt_inThink p"] by (simp add: Flush_def)
qed

lemma parse_chunks_tagged:
  "parser_ok p \<Longrightarrow> atoms (parse_chunks cs p) = tagged (tt_inThink p) (tt_carry p @ concat cs)"
proof (induction cs arbitrary: p)
  case Nil
  then show ?case by (simp add: Flush_tagged)
next
  case (Cons c cs)
  obtain parts p' where c: "Consume c p = (parts, p')" by (cases "Consume c p")
  then show ?case using Consume_tagged [OF Cons.prems c, of "concat cs"] Cons.IH by simp
qed

text \<open>C32.  However a provider's answer is cut into pieces, each byte of it reaches the client once and in
  order, in the mode the whole answer gives it: reasoning exactly between an opening tag and the next
  closing tag, with the end of the reasoning reported there, and text everywhere else.  The tags
  themselves are removed, a tag that is cut in two included.\<close>

theorem think_tags_any_chunks:
  "atoms (parse_chunks cs \<lparr>tt_carry = [], tt_inThink = False\<rparr>) = tagged False (concat cs)"
  by (subst parse_chunks_tagged) (simp_all add: parser_ok_def)

end
