(* ===== verification/Anthropic_Messages.thy ===== *)
theory Anthropic_Messages
  imports Replay_Order Replay_Truncation
begin

text \<open>
  The messages of a request to Anthropic's API, \<open>normalizeAnthropicProviderMessages\<close> of
  \<open>agent/model/anthropic.go\<close>, with the content blocks of \<open>content_parts.go\<close> and the identifiers of
  \<open>tool_call_id.go\<close>.  A content block, a map in the code, is a value of \<open>anthropic_block\<close>; its field \<open>type\<close> is
  the constructor, an absent signature the empty one.

  \<open>anthropic_lib\<close> holds what is not computed here: decoding JSON, SHA-256 in hexadecimal, reading a
  file, \<open>http.DetectContentType\<close> and the separators of the system's paths.
\<close>

record anthropic_lib =
  al_json :: json_lib
  al_sha :: "string \<Rightarrow> string"
  al_read_file :: "string \<Rightarrow> string option"
  al_detect :: "string \<Rightarrow> string"
  al_separator :: "char \<Rightarrow> bool"

datatype anthropic_block =
    TextBlock string
  | ImageBlock string string
  | ThinkingBlock string string
  | ToolUseBlock string string json
  | ToolResultBlock string string

datatype anthropic_error =
    ImageRequired | ImageWithoutSource | ImageUnreadable | UnsupportedPart string
  | SystemImage | ToolMessageWithoutID | BadToolInput

record anthropicMessage =
  am_Role :: string
  am_Content :: "anthropic_block list"

section \<open>Identifiers\<close>

definition maxProviderToolCallIDLen :: nat where "maxProviderToolCallIDLen = 64"

definition toolCallNamespaceHashLen :: nat where "toolCallNamespaceHashLen = 12"

definition toolCallValueHashLen :: nat where "toolCallValueHashLen = 12"

definition shortToolCallHash :: "(string \<Rightarrow> string) \<Rightarrow> string \<Rightarrow> nat \<Rightarrow> string" where
  "shortToolCallHash sha v width =
     (let encoded = sha (trim_space v) in if width = 0 \<or> width > length encoded then encoded else take width encoded)"

definition buildProviderSafeToolCallID :: "(string \<Rightarrow> string) \<Rightarrow> string \<Rightarrow> string \<Rightarrow> string" where
  "buildProviderSafeToolCallID sha namespace raw =
     (let trimmedRaw = trim_space raw;
          pre = ''tc'' @ (if namespace = [] then [] else ''_'' @ namespace);
          candidate = pre @ ''_'' @ trimmedRaw;
          rawHash = shortToolCallHash sha trimmedRaw toolCallValueHashLen;
          remaining = int maxProviderToolCallIDLen - int (length pre) - int (length rawHash) - 2
      in if trimmedRaw = [] then []
         else if namespace = [] \<and> length trimmedRaw \<le> maxProviderToolCallIDLen \<and> \<not> contains trimmedRaw ''::'' then trimmedRaw
         else if length candidate \<le> maxProviderToolCallIDLen then candidate
         else if remaining \<le> 0 then pre @ ''_'' @ rawHash
         else pre @ ''_'' @ rawHash @ ''_'' @ drop (length trimmedRaw - nat remaining) trimmedRaw)"

definition splitLegacyToolCallID :: "string \<Rightarrow> (string \<times> string) option" where
  "splitLegacyToolCallID v =
     (let s = trim_space v in
      case index_of s ''::'' of
        None \<Rightarrow> None
      | Some i \<Rightarrow>
          (let namespace = trim_space (take i s); raw = trim_space (drop (i + 2) s)
           in if namespace = [] \<or> raw = [] then None else Some (namespace, raw)))"

definition providerToolCallID :: "(string \<Rightarrow> string) \<Rightarrow> string \<Rightarrow> string" where
  "providerToolCallID sha toolCallID =
     (let trimmed = trim_space toolCallID in
      if trimmed = [] then []
      else case splitLegacyToolCallID trimmed of
        Some (namespace, raw) \<Rightarrow>
          buildProviderSafeToolCallID sha (shortToolCallHash sha namespace toolCallNamespaceHashLen) raw
      | None \<Rightarrow>
          if length trimmed \<le> maxProviderToolCallIDLen then trimmed else buildProviderSafeToolCallID sha [] trimmed)"

definition namespaceToolCallID :: "(string \<Rightarrow> string) \<Rightarrow> string \<Rightarrow> string \<Rightarrow> string" where
  "namespaceToolCallID sha modelCallID rawToolCallID =
     (let raw = trim_space rawToolCallID; model = trim_space modelCallID in
      if raw = [] then []
      else if contains raw ''::'' \<or> model = [] then providerToolCallID sha raw
      else buildProviderSafeToolCallID sha (shortToolCallHash sha model toolCallNamespaceHashLen) raw)"

section \<open>Content\<close>

definition normalizeContentPartType :: "string \<Rightarrow> string" where
  "normalizeContentPartType v = (let trimmed = trim_space (to_lower v) in if trimmed = [] then ''text'' else trimmed)"

definition hasImageContentParts :: "ContentPart list \<Rightarrow> bool" where
  "hasImageContentParts parts \<longleftrightarrow> list_ex (\<lambda>p. normalizeContentPartType (part_Type p) = ''image'') parts"

definition collapseTextContentParts :: "ContentPart list \<Rightarrow> string" where
  "collapseTextContentParts parts =
     concat (map part_Text (filter (\<lambda>p. normalizeContentPartType (part_Type p) = ''text'' \<and> trim_space (part_Text p) \<noteq> []) parts))"

text \<open>\<open>base64.StdEncoding\<close> and \<open>filepath.Ext\<close>.\<close>

definition base64_digits :: string where
  "base64_digits = ''ABCDEFGHIJKLMNOPQRSTUVWXYZabcdefghijklmnopqrstuvwxyz0123456789+/''"

fun base64_encode :: "nat list \<Rightarrow> string" where
  "base64_encode [] = []"
| "base64_encode [a] = map (\<lambda>d. base64_digits ! d) [a div 4, (a mod 4) * 16] @ ''==''"
| "base64_encode [a, b] = map (\<lambda>d. base64_digits ! d) [a div 4, (a mod 4) * 16 + b div 16, (b mod 16) * 4] @ ''=''"
| "base64_encode (a # b # c # bs) =
     map (\<lambda>d. base64_digits ! d) [a div 4, (a mod 4) * 16 + b div 16, (b mod 16) * 4 + c div 64, c mod 64] @ base64_encode bs"

definition filepath_ext :: "(char \<Rightarrow> bool) \<Rightarrow> string \<Rightarrow> string" where
  "filepath_ext separator path =
     (let name = rev (takeWhile (\<lambda>c. \<not> separator c) (rev path)) in
      if CHR ''.'' \<in> set name then CHR ''.'' # rev (takeWhile (\<lambda>c. c \<noteq> CHR ''.'') (rev name)) else [])"

definition normalizeImageMIMEType :: "anthropic_lib \<Rightarrow> string \<Rightarrow> string \<Rightarrow> string \<Rightarrow> string" where
  "normalizeImageMIMEType al mimeType path payload =
     (let trimmed = trim_space (to_lower mimeType); detected = trim_space (to_lower (al_detect al payload));
          ext = to_lower (filepath_ext (al_separator al) (trim_space path))
      in if trimmed \<noteq> [] then trimmed
         else if payload \<noteq> [] \<and> has_prefix detected ''image/'' then detected
         else if ext \<in> set [''.jpg'', ''.jpeg''] then ''image/jpeg''
         else if ext = ''.png'' then ''image/png''
         else if ext = ''.gif'' then ''image/gif''
         else if ext = ''.webp'' then ''image/webp''
         else ''image/png'')"

definition resolveImageContent :: "anthropic_lib \<Rightarrow> ImageContent option \<Rightarrow> anthropic_error + (string \<times> string)" where
  "resolveImageContent al content = (case content of
       None \<Rightarrow> Inl ImageRequired
     | Some img \<Rightarrow>
         if img_Data img \<noteq> [] then Inr (img_Data img, normalizeImageMIMEType al (img_MIMEType img) (img_Path img) (img_Data img))
         else let path = trim_space (img_Path img) in
           if path = [] then Inl ImageWithoutSource
           else (case al_read_file al path of
               None \<Rightarrow> Inl ImageUnreadable
             | Some payload \<Rightarrow> Inr (payload, normalizeImageMIMEType al (img_MIMEType img) path payload)))"

fun part_blocks :: "anthropic_lib \<Rightarrow> ContentPart list \<Rightarrow> anthropic_error + anthropic_block list" where
  "part_blocks al [] = Inr []"
| "part_blocks al (p # ps) =
     (let kind = normalizeContentPartType (part_Type p);
          cons = (\<lambda>b. case part_blocks al ps of Inl err \<Rightarrow> Inl err | Inr bs \<Rightarrow> Inr (b @ bs))
      in if kind = ''text'' then cons (if part_Text p = [] then [] else [TextBlock (part_Text p)])
         else if kind = ''image''
         then (case resolveImageContent al (part_Image p) of
             Inl err \<Rightarrow> Inl err
           | Inr (payload, mediaType) \<Rightarrow> cons [ImageBlock mediaType (base64_encode (map of_char payload))])
         else Inl (UnsupportedPart (trim_space (part_Type p))))"

definition anthropicContentBlocks :: "anthropic_lib \<Rightarrow> Message \<Rightarrow> anthropic_error + anthropic_block list" where
  "anthropicContentBlocks al m =
     (let own = (if trim_space (msg_Content m) = [] then [] else [TextBlock (msg_Content m)]) in
      if msg_ContentParts m = [] then Inr own
      else case part_blocks al (msg_ContentParts m) of
        Inl err \<Rightarrow> Inl err
      | Inr bs \<Rightarrow> Inr (if bs = [] then own else bs))"

definition anthropicThinkingSignature :: "Message \<Rightarrow> string" where
  "anthropicThinkingSignature m =
     (let signature = trim_space (msg_ReasoningSignature m); source = trim_space (msg_ReasoningSignatureSource m) in
      if signature \<noteq> [] \<and> (source = [] \<or> source = ''anthropic'') then signature else [])"

definition shouldIncludeAnthropicThinkingBlock :: "Message \<Rightarrow> bool \<Rightarrow> bool" where
  "shouldIncludeAnthropicThinkingBlock m thinkingEnabled \<longleftrightarrow>
     thinkingEnabled \<and> msg_role m = ''assistant'' \<and> trim_space (msg_ReasoningContent m) \<noteq> []"

definition anthropicProviderContentBlocks :: "anthropic_lib \<Rightarrow> Message \<Rightarrow> bool \<Rightarrow> anthropic_error + anthropic_block list" where
  "anthropicProviderContentBlocks al m thinkingEnabled = (case anthropicContentBlocks al m of
       Inl err \<Rightarrow> Inl err
     | Inr blocks \<Rightarrow> Inr (if shouldIncludeAnthropicThinkingBlock m thinkingEnabled
         then ThinkingBlock (msg_ReasoningContent m) (anthropicThinkingSignature m) # blocks else blocks))"

definition decodeAnthropicToolInput :: "anthropic_lib \<Rightarrow> string \<Rightarrow> anthropic_error + json" where
  "decodeAnthropicToolInput al arguments =
     (let trimmed = trim_space arguments in
      if trimmed = [] then Inr (JObject [])
      else case jl_decode (al_json al) trimmed of None \<Rightarrow> Inl BadToolInput | Some v \<Rightarrow> Inr v)"

fun use_blocks :: "anthropic_lib \<Rightarrow> ToolCallDescriptor list \<Rightarrow> anthropic_error + anthropic_block list" where
  "use_blocks al [] = Inr []"
| "use_blocks al (c # cs) = (case decodeAnthropicToolInput al (tcd_Arguments c) of
       Inl err \<Rightarrow> Inl err
     | Inr v \<Rightarrow> (case use_blocks al cs of
           Inl err \<Rightarrow> Inl err
         | Inr bs \<Rightarrow> Inr (ToolUseBlock (providerToolCallID (al_sha al) (tcd_ID c)) (trim_space (tcd_Name c)) v # bs)))"

section \<open>Messages\<close>

fun is_thinking_block :: "anthropic_block \<Rightarrow> bool" where
  "is_thinking_block (ThinkingBlock _ _) = True"
| "is_thinking_block _ = False"

definition anthropicMessageHasLeadingThinking :: "anthropicMessage \<Rightarrow> string \<Rightarrow> string \<Rightarrow> bool" where
  "anthropicMessageHasLeadingThinking m reasoning signature \<longleftrightarrow> (case am_Content m of
       ThinkingBlock t s # _ \<Rightarrow> trim_space t = reasoning \<and> trim_space s = signature | _ \<Rightarrow> False)"

definition mergeAnthropicAssistantToolUseWithPrevious ::
    "anthropicMessage list \<Rightarrow> Message \<Rightarrow> anthropic_block list \<Rightarrow> anthropicMessage list option" where
  "mergeAnthropicAssistantToolUseWithPrevious messages m blocks =
     (let reasoning = trim_space (msg_ReasoningContent m);
          toolUseBlocks = filter (\<lambda>b. \<not> is_thinking_block b) blocks
      in if messages = [] \<or> msg_role m \<noteq> ''assistant'' \<or> msg_ToolCalls m = [] \<or> trim_space (msg_Content m) \<noteq> [] \<or>
            msg_ContentParts m \<noteq> [] \<or> reasoning = [] \<or> trim_space (am_Role (last messages)) \<noteq> ''assistant'' \<or>
            \<not> anthropicMessageHasLeadingThinking (last messages) reasoning (anthropicThinkingSignature m) \<or> toolUseBlocks = []
         then None
         else Some (butlast messages @ [(last messages)\<lparr>am_Content := am_Content (last messages) @ toolUseBlocks\<rparr>]))"

record anthropic_state =
  as_system :: "string list"
  as_messages :: "anthropicMessage list"
  as_pending :: "anthropic_block list"

definition flushToolResults :: "anthropic_state \<Rightarrow> anthropic_state" where
  "flushToolResults st = (if as_pending st = [] then st
     else st\<lparr>as_messages := as_messages st @ [\<lparr>am_Role = ''user'', am_Content = as_pending st\<rparr>], as_pending := []\<rparr>)"

definition normalize_spoken :: "anthropic_lib \<Rightarrow> bool \<Rightarrow> Message \<Rightarrow> anthropic_state \<Rightarrow> anthropic_error + anthropic_state" where
  "normalize_spoken al thinkingEnabled m st0 =
     (let st = flushToolResults st0; role = msg_role m in
      case anthropicProviderContentBlocks al m thinkingEnabled of
        Inl err \<Rightarrow> Inl err
      | Inr contentBlocks \<Rightarrow>
          (case (if role = ''assistant'' then use_blocks al (msg_ToolCalls m) else Inr []) of
             Inl err \<Rightarrow> Inl err
           | Inr uses \<Rightarrow>
               (let blocks = contentBlocks @ uses in
                if blocks = [] then Inr st
                else case (if role = ''assistant'' then mergeAnthropicAssistantToolUseWithPrevious (as_messages st) m blocks else None) of
                  Some messages \<Rightarrow> Inr (st\<lparr>as_messages := messages\<rparr>)
                | None \<Rightarrow> Inr (st\<lparr>as_messages := as_messages st @ [\<lparr>am_Role = role, am_Content = blocks\<rparr>]\<rparr>))))"

definition normalize_step :: "anthropic_lib \<Rightarrow> bool \<Rightarrow> Message \<Rightarrow> anthropic_state \<Rightarrow> anthropic_error + anthropic_state" where
  "normalize_step al thinkingEnabled m st =
     (if msg_role m = ''system''
      then if hasImageContentParts (msg_ContentParts m) then Inl SystemImage
           else let content = (if trim_space (msg_Content m) = [] \<and> msg_ContentParts m \<noteq> []
                               then collapseTextContentParts (msg_ContentParts m) else msg_Content m)
                in Inr (if trim_space content = [] then st else st\<lparr>as_system := as_system st @ [content]\<rparr>)
      else if msg_role m = ''tool''
      then let toolUseID = providerToolCallID (al_sha al) (msg_ToolCallID m) in
           if toolUseID = [] then Inl ToolMessageWithoutID
           else Inr (st\<lparr>as_pending := as_pending st @ [ToolResultBlock toolUseID (msg_Content m)]\<rparr>)
      else if msg_role m \<in> set [''user'', ''assistant''] then normalize_spoken al thinkingEnabled m st
      else let st1 = flushToolResults st in
           Inr (if trim_space (msg_Content m) = [] then st1
                else st1\<lparr>as_messages := as_messages st1 @ [\<lparr>am_Role = ''user'', am_Content = [TextBlock (msg_Content m)]\<rparr>]\<rparr>))"

fun normalize_all :: "anthropic_lib \<Rightarrow> bool \<Rightarrow> Message list \<Rightarrow> anthropic_state \<Rightarrow> anthropic_error + anthropic_state" where
  "normalize_all al thinkingEnabled [] st = Inr (flushToolResults st)"
| "normalize_all al thinkingEnabled (m # ms) st = (case normalize_step al thinkingEnabled m st of
       Inl err \<Rightarrow> Inl err | Inr st' \<Rightarrow> normalize_all al thinkingEnabled ms st')"

fun isAnthropicImageBlock :: "anthropic_block \<Rightarrow> bool" where
  "isAnthropicImageBlock (ImageBlock _ _) = True"
| "isAnthropicImageBlock _ = False"

text \<open>Images move to the last message of the user; a message left empty is dropped.\<close>

definition relocateAnthropicImagesToLastUserMessage :: "anthropicMessage list \<Rightarrow> anthropicMessage list" where
  "relocateAnthropicImagesToLastUserMessage messages =
     (let is_user = (\<lambda>m. trim_space (am_Role m) = ''user'');
          users = filter (\<lambda>i. is_user (messages ! i)) [0..<length messages] in
      if users = [] then messages
      else let lastUserIndex = last users;
               others = filter (\<lambda>i. i \<noteq> lastUserIndex) users;
               relocated = concat (map (\<lambda>i. filter isAnthropicImageBlock (am_Content (messages ! i))) others);
               kept = map (\<lambda>i. if i \<in> set others
                                then (messages ! i)\<lparr>am_Content := filter (\<lambda>b. \<not> isAnthropicImageBlock b) (am_Content (messages ! i))\<rparr>
                                else if i = lastUserIndex then (messages ! i)\<lparr>am_Content := am_Content (messages ! i) @ relocated\<rparr>
                                else messages ! i) [0..<length messages]
           in if relocated = [] then messages
              else map (\<lambda>i. kept ! i) (filter (\<lambda>i. \<not> (i \<noteq> lastUserIndex \<and> is_user (kept ! i) \<and> am_Content (kept ! i) = [])) [0..<length messages]))"

definition normalizeAnthropicProviderMessages ::
    "anthropic_lib \<Rightarrow> bool \<Rightarrow> bool \<Rightarrow> Message list \<Rightarrow> anthropic_error + (string list \<times> anthropicMessage list)" where
  "normalizeAnthropicProviderMessages al thinkingEnabled relocateImages input =
     (case normalize_all al thinkingEnabled input \<lparr>as_system = [], as_messages = [], as_pending = []\<rparr> of
        Inl err \<Rightarrow> Inl err
      | Inr st \<Rightarrow> Inr (as_system st, if relocateImages then relocateAnthropicImagesToLastUserMessage (as_messages st) else as_messages st))"

end
