(* ===== verification/Anthropic_Guarantees.thy ===== *)
theory Anthropic_Guarantees
  imports Anthropic_Messages
begin

text \<open>
  What Anthropic's API asks of a conversation: a message that calls tools is followed at once by a
  message of the user with the results of all these calls.
\<close>

section \<open>Calls and results of a message\<close>

fun block_uses :: "anthropic_block \<Rightarrow> string set" where
  "block_uses (ToolUseBlock i _ _) = {i}"
| "block_uses _ = {}"

fun block_results :: "anthropic_block \<Rightarrow> string set" where
  "block_results (ToolResultBlock i _) = {i}"
| "block_results _ = {}"

definition uses_of :: "anthropic_block list \<Rightarrow> string set" where
  "uses_of bs = \<Union> (block_uses ` set bs)"

definition results_of :: "anthropic_block list \<Rightarrow> string set" where
  "results_of bs = \<Union> (block_results ` set bs)"

abbreviation uses :: "anthropicMessage \<Rightarrow> string set" where "uses m \<equiv> uses_of (am_Content m)"

abbreviation results :: "anthropicMessage \<Rightarrow> string set" where "results m \<equiv> results_of (am_Content m)"

lemma of_simps [simp]:
  "uses_of [] = {}" "results_of [] = {}"
  "uses_of (b # bs) = block_uses b \<union> uses_of bs" "results_of (b # bs) = block_results b \<union> results_of bs"
  "uses_of (bs @ cs) = uses_of bs \<union> uses_of cs" "results_of (bs @ cs) = results_of bs \<union> results_of cs"
  by (auto simp: uses_of_def results_of_def)

fun answered_next :: "anthropicMessage list \<Rightarrow> bool" where
  "answered_next [] = True"
| "answered_next (m # ms) = ((uses m \<noteq> {} \<longrightarrow> (case ms of [] \<Rightarrow> False | n # _ \<Rightarrow> am_Role n = ''user'' \<and> uses m \<subseteq> results n)) \<and> answered_next ms)"

text \<open>While messages are still added, the last one may wait for its results.\<close>

definition answers_use :: "anthropicMessage \<Rightarrow> anthropicMessage \<Rightarrow> bool" where
  "answers_use m n \<longleftrightarrow> (uses m \<noteq> {} \<longrightarrow> am_Role n = ''user'' \<and> uses m \<subseteq> results n)"

definition linked :: "anthropicMessage list \<Rightarrow> bool" where
  "linked ms \<longleftrightarrow> (\<forall>i. Suc i < length ms \<longrightarrow> answers_use (ms ! i) (ms ! Suc i))"

lemma linked_simps [simp]: "linked []" "linked [m]" "linked (m # n # ms) \<longleftrightarrow> answers_use m n \<and> linked (n # ms)"
  by (auto simp: linked_def nth_Cons split: nat.split)

lemma linked_append: "linked (ms @ [m]) \<longleftrightarrow> linked ms \<and> (ms \<noteq> [] \<longrightarrow> answers_use (last ms) m)"
  by (induction ms rule: induct_list012) auto

lemma answered_next_iff: "answered_next ms \<longleftrightarrow> linked ms \<and> (ms \<noteq> [] \<longrightarrow> uses (last ms) = {})"
  by (induction ms rule: induct_list012) (auto simp: answers_use_def)

section \<open>Identifiers\<close>

abbreviation sha_hex :: "(string \<Rightarrow> string) \<Rightarrow> bool" where
  "sha_hex sha \<equiv> \<forall>s. length (sha s) = 64"

lemma short_hash_length: "sha_hex sha \<Longrightarrow> length (shortToolCallHash sha v 12) = 12"
  by (simp add: shortToolCallHash_def Let_def)

lemmas id_limits = maxProviderToolCallIDLen_def toolCallNamespaceHashLen_def toolCallValueHashLen_def

lemma safe_id_ok:
  assumes "sha_hex sha" "trim_space raw \<noteq> []" "length namespace \<le> 12"
  shows "buildProviderSafeToolCallID sha namespace raw \<noteq> [] \<and> length (buildProviderSafeToolCallID sha namespace raw) \<le> 64"
  using assms short_hash_length [OF assms(1), of "trim_space raw"] by (auto simp: buildProviderSafeToolCallID_def id_limits Let_def)

lemma provider_id_ok:
  assumes "sha_hex sha" "trim_space i \<noteq> []"
  shows "providerToolCallID sha i \<noteq> [] \<and> length (providerToolCallID sha i) \<le> 64"
proof (cases "splitLegacyToolCallID (trim_space i)")
  case None
  then show ?thesis using assms safe_id_ok [OF assms(1), of "trim_space i" "[]"] by (auto simp: providerToolCallID_def Let_def id_limits)
next
  case (Some nr)
  obtain namespace raw where nr: "nr = (namespace, raw)" by (cases nr)
  have "trim_space raw \<noteq> []" using Some nr by (auto simp: splitLegacyToolCallID_def Let_def split: option.splits if_splits)
  then show ?thesis using assms Some nr safe_id_ok [OF assms(1), of raw] short_hash_length [OF assms(1), of namespace]
    by (simp add: providerToolCallID_def Let_def id_limits)
qed

lemma provider_id_trim: "trim_space i = trim_space j \<Longrightarrow> providerToolCallID sha i = providerToolCallID sha j"
  by (simp add: providerToolCallID_def)

section \<open>Blocks\<close>

lemma part_blocks_plain: "part_blocks al ps = Inr bs \<Longrightarrow> uses_of bs = {} \<and> results_of bs = {}"
proof (induction ps arbitrary: bs)
  case (Cons p ps)
  then show ?case
    by (auto simp: Let_def split: if_splits sum.splits prod.splits)
qed simp

lemma content_blocks_plain: "anthropicProviderContentBlocks al m b = Inr bs \<Longrightarrow> uses_of bs = {} \<and> results_of bs = {}"
  using part_blocks_plain [of al "msg_ContentParts m"]
  by (auto simp: anthropicProviderContentBlocks_def anthropicContentBlocks_def Let_def split: if_splits sum.splits)

lemma use_blocks_ids:
  "use_blocks al cs = Inr bs \<Longrightarrow>
   uses_of bs = (\<lambda>c. providerToolCallID (al_sha al) (tcd_ID c)) ` set cs \<and> results_of bs = {} \<and> (bs = [] \<longleftrightarrow> cs = []) \<and>
   list_all (\<lambda>b. \<not> is_thinking_block b) bs"
  by (induction cs arbitrary: bs) (auto split: sum.splits)

lemma no_thinking_uses: "uses_of (filter (\<lambda>b. \<not> is_thinking_block b) bs) = uses_of bs"
  "results_of (filter (\<lambda>b. \<not> is_thinking_block b) bs) = results_of bs"
  by (induction bs) (auto elim: is_thinking_block.elims)

section \<open>The invariant of the loop\<close>

definition tail_ids :: "anthropic_lib \<Rightarrow> Message list \<Rightarrow> string set" where
  "tail_ids al rest = (\<lambda>t. providerToolCallID (al_sha al) (msg_ToolCallID t)) ` set (takeWhile is_tool_message rest)"

lemma tail_ids_simps [simp]:
  "tail_ids al [] = {}" "\<not> is_tool_message m \<Longrightarrow> tail_ids al (m # rest) = {}"
  "is_tool_message m \<Longrightarrow> tail_ids al (m # rest) = insert (providerToolCallID (al_sha al) (msg_ToolCallID m)) (tail_ids al rest)"
  by (auto simp: tail_ids_def)

definition ids_ok :: "string set \<Rightarrow> bool" where
  "ids_ok A \<longleftrightarrow> (\<forall>i \<in> A. i \<noteq> [] \<and> length i \<le> 64)"

definition messages_ok :: "anthropicMessage list \<Rightarrow> bool" where
  "messages_ok ms \<longleftrightarrow> linked ms \<and> (\<forall>m \<in> set ms. ids_ok (uses m \<union> results m))"

definition waiting :: "anthropic_lib \<Rightarrow> Message list \<Rightarrow> anthropic_state \<Rightarrow> bool" where
  "waiting al rest st \<longleftrightarrow> messages_ok (as_messages st) \<and> uses_of (as_pending st) = {} \<and> ids_ok (results_of (as_pending st)) \<and>
     (as_messages st \<noteq> [] \<longrightarrow> uses (last (as_messages st)) \<subseteq> results_of (as_pending st) \<union> tail_ids al rest)"

definition settled_messages :: "anthropicMessage list \<Rightarrow> bool" where
  "settled_messages ms \<longleftrightarrow> messages_ok ms \<and> (ms \<noteq> [] \<longrightarrow> uses (last ms) = {})"

lemma flush_settled:
  assumes "waiting al rest st" "tail_ids al rest = {}"
  shows "settled_messages (as_messages (flushToolResults st)) \<and> as_pending (flushToolResults st) = []"
  using assms by (auto simp: flushToolResults_def waiting_def settled_messages_def messages_ok_def linked_append answers_use_def ids_ok_def)

lemma settled_add:
  assumes "settled_messages ms" "ids_ok (uses m \<union> results m)"
  shows "messages_ok (ms @ [m])"
  using assms by (auto simp: settled_messages_def messages_ok_def linked_append answers_use_def)

lemma linked_extend_last: "ms \<noteq> [] \<Longrightarrow> linked ms \<Longrightarrow> results (last ms) \<subseteq> results m \<Longrightarrow> am_Role m = am_Role (last ms) \<Longrightarrow> linked (butlast ms @ [m])"
  by (cases ms rule: rev_cases) (auto simp: linked_append answers_use_def)

lemma if_Some_D: "(if b then x else None) = Some y \<Longrightarrow> x = Some y"
  by (simp split: if_splits)

lemma merge_shape:
  "mergeAnthropicAssistantToolUseWithPrevious ms m bs = Some ms' \<Longrightarrow>
   ms \<noteq> [] \<and> ms' = butlast ms @ [(last ms)\<lparr>am_Content := am_Content (last ms) @ filter (\<lambda>b. \<not> is_thinking_block b) bs\<rparr>]"
  by (auto simp: mergeAnthropicAssistantToolUseWithPrevious_def Let_def split: if_splits)

lemma spoken_waiting:
  assumes w: "waiting al (m # rest) st" and m: "\<not> is_tool_message m" "answered (m # rest)" and sha: "sha_hex (al_sha al)"
    and s: "normalize_spoken al b m st = Inr st'"
  shows "waiting al rest st'"
proof -
  let ?st = "flushToolResults st"
  have f: "settled_messages (as_messages ?st)" "as_pending ?st = []" using flush_settled [OF w] m(1) by simp_all
  obtain cbs us where bs: "anthropicProviderContentBlocks al m b = Inr cbs"
      "(if msg_role m = ''assistant'' then use_blocks al (msg_ToolCalls m) else Inr []) = Inr us"
    using s by (auto simp: normalize_spoken_def Let_def split: sum.splits)
  have c: "uses_of cbs = {}" "results_of cbs = {}" using content_blocks_plain [OF bs(1)] by simp_all
  have u: "results_of us = {}" "uses_of us \<subseteq> tail_ids al rest" "ids_ok (uses_of us)"
  proof -
    have "results_of us = {} \<and> uses_of us \<subseteq> tail_ids al rest \<and> ids_ok (uses_of us)"
    proof (cases "msg_role m = ''assistant'' \<and> msg_ToolCalls m \<noteq> []")
      case True
      then have ids: "uses_of us = (\<lambda>c. providerToolCallID (al_sha al) (tcd_ID c)) ` set (msg_ToolCalls m)" "results_of us = {}"
        using use_blocks_ids bs(2) by auto
      have ans: "answered_by m (takeWhile is_tool_message rest)" using m(2) True by (simp add: is_call_message_def)
      have "providerToolCallID (al_sha al) (tcd_ID d) \<in> tail_ids al rest \<and> trim_space (tcd_ID d) \<noteq> []" if "d \<in> set (msg_ToolCalls m)" for d
        using ans that provider_id_trim unfolding answered_by_def tail_ids_def by (metis (no_types, lifting) image_eqI)
      then show ?thesis using ids provider_id_ok [OF sha] by (auto simp: ids_ok_def)
    qed (use bs(2) in \<open>auto simp: ids_ok_def split: if_splits\<close>)
    then show "results_of us = {}" "uses_of us \<subseteq> tail_ids al rest" "ids_ok (uses_of us)" by simp_all
  qed
  define merge where "merge = (if msg_role m = ''assistant'' then mergeAnthropicAssistantToolUseWithPrevious (as_messages ?st) m (cbs @ us) else None)"
  have s': "(if cbs @ us = [] then Inr ?st else case merge of Some ms \<Rightarrow> Inr (?st\<lparr>as_messages := ms\<rparr>)
      | None \<Rightarrow> Inr (?st\<lparr>as_messages := as_messages ?st @ [\<lparr>am_Role = msg_role m, am_Content = cbs @ us\<rparr>]\<rparr>)) = (Inr st' :: anthropic_error + anthropic_state)"
    using s unfolding normalize_spoken_def Let_def bs(1) sum.case bs(2) merge_def .
  consider "cbs @ us = []" | ms where "cbs @ us \<noteq> []" "merge = Some ms" | "cbs @ us \<noteq> []" "merge = None" by (cases merge) blast+
  then show ?thesis
  proof cases
    case 1
    then have "st' = ?st" using s' by simp
    then show ?thesis using f by (simp add: waiting_def settled_messages_def ids_ok_def)
  next
    case (2 ms)
    have st': "st' = ?st\<lparr>as_messages := ms\<rparr>" using s' unfolding if_not_P [OF 2(1)] 2(2) by simp
    have mg: "mergeAnthropicAssistantToolUseWithPrevious (as_messages ?st) m (cbs @ us) = Some ms"
      using 2(2) unfolding merge_def by (rule if_Some_D)
    let ?last = "last (as_messages ?st)"
    have ms: "as_messages ?st \<noteq> []" "ms = butlast (as_messages ?st) @ [?last\<lparr>am_Content := am_Content ?last @ filter (\<lambda>b. \<not> is_thinking_block b) (cbs @ us)\<rparr>]"
      using merge_shape [OF mg] by blast+
    have l: "uses ?last = {}" "linked (as_messages ?st)" "ids_ok (results ?last)" "\<forall>x \<in> set (butlast (as_messages ?st)). ids_ok (uses x \<union> results x)"
      using f(1) ms(1) last_in_set [OF ms(1)] by (auto simp: settled_messages_def messages_ok_def ids_ok_def dest: in_set_butlastD)
    have "linked ms" unfolding ms(2) using ms(1) l(2) by (intro linked_extend_last) simp_all
    then show ?thesis using st' f(2) ms(2) l u c
      by (auto simp: waiting_def messages_ok_def ids_ok_def no_thinking_uses simp del: filter_append)
  next
    case 3
    have "st' = ?st\<lparr>as_messages := as_messages ?st @ [\<lparr>am_Role = msg_role m, am_Content = cbs @ us\<rparr>]\<rparr>" using s' unfolding if_not_P [OF 3(1)] 3(2) by simp
    then show ?thesis using f(2) u c settled_add [OF f(1), of "\<lparr>am_Role = msg_role m, am_Content = cbs @ us\<rparr>"]
      by (simp add: waiting_def ids_ok_def)
  qed
qed

lemma step_waiting:
  assumes w: "waiting al (m # rest) st" and m: "answered (m # rest)" and sha: "sha_hex (al_sha al)"
    and s: "normalize_step al b m st = Inr st'"
  shows "waiting al rest st'"
proof -
  consider (system) "msg_role m = ''system''" | (tool) "is_tool_message m" | (spoken) "msg_role m \<in> set [''user'', ''assistant'']"
    | (other) "msg_role m \<notin> set [''system'', ''tool'', ''user'', ''assistant'']" by (auto simp: is_tool_message_def)
  then show ?thesis
  proof cases
    case system
    then have "\<not> is_tool_message m" by (simp add: is_tool_message_def)
    moreover have "as_messages st' = as_messages st" "as_pending st' = as_pending st"
      using s system by (auto simp: normalize_step_def Let_def split: if_splits)
    ultimately show ?thesis using w by (auto simp: waiting_def)
  next
    case tool
    let ?i = "providerToolCallID (al_sha al) (msg_ToolCallID m)"
    have st': "st' = st\<lparr>as_pending := as_pending st @ [ToolResultBlock ?i (msg_Content m)]\<rparr>" "?i \<noteq> []"
      using s tool by (auto simp: normalize_step_def is_tool_message_def Let_def split: if_splits)
    then have "trim_space (msg_ToolCallID m) \<noteq> []" by (auto simp: providerToolCallID_def)
    then have "ids_ok {?i}" using provider_id_ok [OF sha] by (simp add: ids_ok_def)
    then show ?thesis using w tool st' by (auto simp: waiting_def ids_ok_def)
  next
    case spoken
    then have "\<not> is_tool_message m" "normalize_spoken al b m st = Inr st'" using s by (auto simp: normalize_step_def is_tool_message_def)
    then show ?thesis using spoken_waiting [OF w _ m sha] by blast
  next
    case other
    then have nt: "\<not> is_tool_message m" by (simp add: is_tool_message_def)
    have f: "settled_messages (as_messages (flushToolResults st))" "as_pending (flushToolResults st) = []"
      using flush_settled [OF w] nt by simp_all
    show ?thesis
    proof (cases "trim_space (msg_Content m) = []")
      case True
      then have "st' = flushToolResults st" using s other by (simp add: normalize_step_def Let_def)
      then show ?thesis using f by (simp add: waiting_def settled_messages_def ids_ok_def)
    next
      case False
      then have "st' = (flushToolResults st)\<lparr>as_messages := as_messages (flushToolResults st) @ [\<lparr>am_Role = ''user'', am_Content = [TextBlock (msg_Content m)]\<rparr>]\<rparr>"
        using s other by (simp add: normalize_step_def Let_def)
      then show ?thesis using f settled_add [OF f(1)] by (simp add: waiting_def ids_ok_def)
    qed
  qed
qed

lemma all_settled:
  "waiting al ms st \<Longrightarrow> answered ms \<Longrightarrow> sha_hex (al_sha al) \<Longrightarrow> normalize_all al b ms st = Inr st' \<Longrightarrow> settled_messages (as_messages st')"
proof (induction ms arbitrary: st)
  case Nil
  then show ?case using flush_settled [OF Nil(1)] by simp
next
  case (Cons m ms)
  obtain st1 where s: "normalize_step al b m st = Inr st1" "normalize_all al b ms st1 = Inr st'"
    using Cons.prems(4) by (auto split: sum.splits)
  then show ?case using Cons.IH step_waiting [OF Cons.prems(1-3) s(1)] Cons.prems(2,3) by simp
qed

section \<open>Moving the images\<close>

lemma image_blocks_plain: "uses_of (filter isAnthropicImageBlock bs) = {}" "results_of (filter isAnthropicImageBlock bs) = {}"
  by (induction bs) (auto elim: isAnthropicImageBlock.elims)

lemma other_blocks_keep: "uses_of (filter (\<lambda>b. \<not> isAnthropicImageBlock b) bs) = uses_of bs"
  "results_of (filter (\<lambda>b. \<not> isAnthropicImageBlock b) bs) = results_of bs"
  by (induction bs) (auto elim: isAnthropicImageBlock.elims)

lemma concat_images_plain: "uses_of (concat (map (\<lambda>i. filter isAnthropicImageBlock (f i)) xs)) = {}"
  "results_of (concat (map (\<lambda>i. filter isAnthropicImageBlock (f i)) xs)) = {}"
  by (induction xs) (auto simp: image_blocks_plain)

definition same_tools :: "anthropicMessage \<Rightarrow> anthropicMessage \<Rightarrow> bool" where
  "same_tools m n \<longleftrightarrow> am_Role m = am_Role n \<and> uses m = uses n \<and> results m = results n"

lemma answered_next_same: "list_all2 same_tools ms ns \<Longrightarrow> answered_next ms \<Longrightarrow> answered_next ns"
proof (induction ms ns rule: list_all2_induct)
  case (Cons m ms n ns)
  then show ?case by (cases ms; cases ns) (auto simp: same_tools_def)
qed simp

lemma nths_upt: "map (\<lambda>i. xs ! i) (filter P [0..<length xs]) = nths xs {i. P i}"
proof -
  have "zip xs [0..<length xs] = map (\<lambda>i. (xs ! i, i)) [0..<length xs]" by (rule nth_equalityI) auto
  then show ?thesis by (simp add: nths_def filter_map comp_def)
qed

lemma answered_next_drop:
  "answered_next ms \<Longrightarrow> \<forall>i < length ms. i \<notin> A \<longrightarrow> am_Content (ms ! i) = [] \<Longrightarrow> answered_next (nths ms A)"
proof (induction ms arbitrary: A)
  case (Cons m ms)
  let ?B = "{j. Suc j \<in> A}"
  have "\<forall>i < length ms. i \<notin> ?B \<longrightarrow> am_Content (ms ! i) = []" using Cons.prems(2) by force
  then have ih: "answered_next (nths ms ?B)" using Cons by simp
  show ?case
  proof (cases "0 \<in> A \<and> uses m \<noteq> {}")
    case True
    then obtain n ns where n: "ms = n # ns" "am_Role n = ''user''" "uses m \<subseteq> results n" using Cons.prems(1) by (cases ms) auto
    then have "am_Content n \<noteq> []" using True by auto
    then have "0 \<in> ?B" using Cons.prems(2) n(1) by force
    then show ?thesis using True n ih by (simp add: nths_Cons)
  qed (use ih in \<open>auto simp: nths_Cons\<close>)
qed simp

lemma all2_indices: "(\<And>i. R (xs ! i) (f i)) \<Longrightarrow> list_all2 R xs (map f [0..<length xs])"
  by (simp add: list_all2_conv_all_nth)

lemma relocate_shape:
  obtains A ns where "relocateAnthropicImagesToLastUserMessage ms = nths ns A" "list_all2 same_tools ms ns"
    "\<forall>i < length ns. i \<notin> A \<longrightarrow> am_Content (ns ! i) = []"
proof -
  let ?users = "filter (\<lambda>i. trim_space (am_Role (ms ! i)) = ''user'') [0..<length ms]"
  let ?others = "filter (\<lambda>i. i \<noteq> last ?users) ?users"
  let ?moved = "concat (map (\<lambda>i. filter isAnthropicImageBlock (am_Content (ms ! i))) ?others)"
  let ?f = "\<lambda>i. if i \<in> set ?others then (ms ! i)\<lparr>am_Content := filter (\<lambda>b. \<not> isAnthropicImageBlock b) (am_Content (ms ! i))\<rparr>
    else if i = last ?users then (ms ! i)\<lparr>am_Content := am_Content (ms ! i) @ ?moved\<rparr> else ms ! i"
  let ?kept = "map ?f [0..<length ms]"
  let ?keep = "\<lambda>i. \<not> (i \<noteq> last ?users \<and> trim_space (am_Role (?kept ! i)) = ''user'' \<and> am_Content (?kept ! i) = [])"
  show thesis
  proof (cases "?users = [] \<or> ?moved = []")
    case True
    then have "relocateAnthropicImagesToLastUserMessage ms = nths ms UNIV"
      unfolding relocateAnthropicImagesToLastUserMessage_def Let_def by (auto simp: nths_all)
    then show thesis using that [of ms UNIV] by (simp add: list_all2_refl same_tools_def)
  next
    case False
    then have u: "?users \<noteq> []" and mv: "?moved \<noteq> []" by blast+
    have "relocateAnthropicImagesToLastUserMessage ms = map (\<lambda>i. ?kept ! i) (filter ?keep [0..<length ?kept])"
      unfolding relocateAnthropicImagesToLastUserMessage_def Let_def if_not_P [OF u] if_not_P [OF mv] length_map length_upt diff_zero ..
    then have "relocateAnthropicImagesToLastUserMessage ms = nths ?kept {i. ?keep i}" unfolding nths_upt .
    moreover have "same_tools (ms ! i) (?f i)" for i
      by (auto simp: same_tools_def other_blocks_keep concat_images_plain)
    then have "list_all2 same_tools ms ?kept" by (rule all2_indices)
    ultimately show thesis by (rule that) blast
  qed
qed

lemma relocate_settled:
  assumes "settled_messages ms"
  shows "answered_next (relocateAnthropicImagesToLastUserMessage ms) \<and>
    (\<forall>m \<in> set (relocateAnthropicImagesToLastUserMessage ms). ids_ok (uses m \<union> results m))"
proof -
  obtain A ns where r: "relocateAnthropicImagesToLastUserMessage ms = nths ns A" "list_all2 same_tools ms ns"
    "\<forall>i < length ns. i \<notin> A \<longrightarrow> am_Content (ns ! i) = []" by (rule relocate_shape)
  have "answered_next ms" using assms by (simp add: settled_messages_def messages_ok_def answered_next_iff)
  then have "answered_next (nths ns A)" using answered_next_same [OF r(2)] answered_next_drop r(3) by blast
  moreover have "ids_ok (uses n \<union> results n)" if "n \<in> set ns" for n
  proof -
    obtain i where "i < length ns" "n = ns ! i" using \<open>n \<in> set ns\<close> by (auto simp: in_set_conv_nth)
    then have "same_tools (ms ! i) n" "ms ! i \<in> set ms" using r(2) by (auto simp: list_all2_conv_all_nth)
    then show ?thesis using assms by (auto simp: settled_messages_def messages_ok_def same_tools_def)
  qed
  ultimately show ?thesis using r(1) set_nths_subset by (metis subsetD)
qed

text \<open>C14.  When a request to Anthropic can be built from the messages the router leaves, every message in
  it that calls tools is followed at once by a message of the user with a result for each of these
  calls, whatever images are moved; and every identifier of a call or result has from 1 to 64 bytes.\<close>

theorem anthropic_calls_answered:
  assumes "normalizeAnthropicProviderMessages al thinking relocate (sanitizeProviderMessages ms) = Inr (sys, out)"
    and "\<forall>s. length (al_sha al s) = 64"
  shows "answered_next out \<and> (\<forall>m \<in> set out. \<forall>i \<in> uses m \<union> results m. i \<noteq> [] \<and> length i \<le> 64)"
proof -
  obtain st where st: "normalize_all al thinking (sanitizeProviderMessages ms) \<lparr>as_system = [], as_messages = [], as_pending = []\<rparr> = Inr st"
      "out = (if relocate then relocateAnthropicImagesToLastUserMessage (as_messages st) else as_messages st)"
    using assms(1) by (auto simp: normalizeAnthropicProviderMessages_def split: sum.splits)
  have "waiting al (sanitizeProviderMessages ms) \<lparr>as_system = [], as_messages = [], as_pending = []\<rparr>"
    by (simp add: waiting_def messages_ok_def ids_ok_def)
  moreover have "answered (sanitizeProviderMessages ms)"
    by (simp add: sanitizeProviderMessages_def trimDanglingAssistantToolCalls_def drop_prefill_answered trim_answered)
  ultimately have "settled_messages (as_messages st)" using all_settled st(1) assms(2) by blast
  then show ?thesis using relocate_settled [of "as_messages st"] st(2)
    by (auto simp: settled_messages_def messages_ok_def answered_next_iff ids_ok_def)
qed

definition demo_anthropic_lib :: anthropic_lib where
  "demo_anthropic_lib = \<lparr>al_json = \<lparr>jl_decode = \<lambda>s. if s = ''{}'' then Some (JObject []) else None, jl_encode = \<lambda>_. None\<rparr>,
     al_sha = \<lambda>_. replicate 64 CHR ''0'', al_read_file = \<lambda>_. None, al_detect = \<lambda>_. [], al_separator = \<lambda>c. c = CHR ''/''\<rparr>"

definition demo_request :: "anthropicMessage list" where
  "demo_request = [\<lparr>am_Role = ''user'', am_Content = [TextBlock ''read it'']\<rparr>,
     \<lparr>am_Role = ''assistant'', am_Content = [ToolUseBlock ''tc_1_a'' ''Read'' (JObject [])]\<rparr>,
     \<lparr>am_Role = ''user'', am_Content = [ToolResultBlock ''tc_1_a'' ''contents'']\<rparr>]"

lemma demo_request_built:
  "normalizeAnthropicProviderMessages demo_anthropic_lib False True
     (sanitizeProviderMessages [text_message ''user'' ''read it'', demo_call_message, demo_result]) = Inr ([], demo_request)"
  by code_simp

theorem anthropic_calls_answered_witness:
  "answered_next demo_request \<and> uses (demo_request ! 1) = {''tc_1_a''} \<and> length ''tc_1_a'' \<le> 64"
proof -
  have "\<forall>s. length (al_sha demo_anthropic_lib s) = 64" by (simp add: demo_anthropic_lib_def)
  note built = anthropic_calls_answered [OF demo_request_built this]
  have "demo_request ! 1 \<in> set demo_request" "uses (demo_request ! 1) = {''tc_1_a''}" by (simp_all add: demo_request_def)
  with built show ?thesis by blast
qed

end
