(* ===== verification/Interrupted_Replay.thy ===== *)
theory Interrupted_Replay
  imports Anthropic_Guarantees Interrupt_Guarantees Replay_Projection Compaction_Guarantees
begin

text \<open>
  What becomes of a call whose arguments were still being streamed when the user canceled the turn:
  the interruption is recorded (\<open>interrupt.go\<close>), the history is projected for the next turn
  (\<open>projector.go\<close>), and a request to Anthropic is built from the messages (\<open>anthropic.go\<close>).
\<close>

section \<open>Undecodable arguments\<close>

lemma use_blocks_fails:
  "c \<in> set cs \<Longrightarrow> decodeAnthropicToolInput al (tcd_Arguments c) = Inl err \<Longrightarrow> \<exists>err. use_blocks al cs = Inl err"
  by (induction cs) (auto split: sum.split)

lemma normalize_all_fails:
  assumes "m \<in> set ms" "msg_role m = ''assistant''" "c \<in> set (msg_ToolCalls m)"
    "decodeAnthropicToolInput al (tcd_Arguments c) = Inl err"
  shows "\<exists>err. normalize_all al thinking ms st = Inl err"
  using assms(1)
proof (induction ms arbitrary: st)
  case (Cons n ns)
  show ?case
  proof (cases "n = m")
    case True
    have "\<exists>err. normalize_step al thinking m st = Inl err"
      using assms(2) use_blocks_fails [OF assms(3,4)]
      by (auto simp: normalize_step_def normalize_spoken_def Let_def split: sum.split)
    then show ?thesis using True by auto
  qed (use Cons in \<open>auto split: sum.split\<close>)
qed simp

section \<open>A call with its result\<close>

lemma user_message_simps:
  assumes "msg_role u = ''user''"
  shows "\<not> is_call_message u" "\<not> is_tool_message u" "\<not> canMergeReplayAssistantToolCalls x u" "\<not> canMergeReplayAssistantToolCalls u x"
    "replayAssistantToolGroupID u = []" "\<not> isAssistantPlaceholderMessage u" "\<not> isAssistantPrefillMessage u"
  using assms by (simp_all add: is_call_message_def is_tool_message_def canMergeReplayAssistantToolCalls_def
      replayAssistantToolGroupID_def isAssistantPlaceholderMessage_def isAssistantPrefillMessage_def)

lemma answered_call_stays:
  assumes u: "msg_role u = ''user''" and v: "msg_role v = ''user''"
    and m: "msg_role m = ''assistant''" "msg_ToolCalls m = [c]" "trim_space (tcd_ID c) = i" "i \<noteq> []"
      "\<not> isProviderPromptReplaySuppressedToolName (tcd_Name c)"
    and r: "is_tool_message r" "answer_id r = i" "\<not> isProviderPromptReplaySuppressedToolName (msg_Name r)"
  defines "m' \<equiv> m\<lparr>msg_ToolCalls := [c\<lparr>tcd_Index := 0\<rparr>]\<rparr>"
  shows "sanitizeProviderMessages (normalizeReplayMessageSequence [u, m, r, v]) = [u, m', r, v]"
proof -
  note us = user_message_simps [OF u] user_message_simps [OF v]
  have m': "is_call_message m'" "is_call_message m" "\<not> isAssistantPlaceholderMessage m'" "\<not> is_tool_message m'"
    using m by (simp_all add: m'_def is_call_message_def isAssistantPlaceholderMessage_def is_tool_message_def)
  have rr: "\<not> is_call_message r" "\<not> isAssistantPlaceholderMessage r" "\<not> canMergeReplayAssistantToolCalls x r" for x
    using r(1) by (auto simp: is_call_message_def is_tool_message_def isAssistantPlaceholderMessage_def canMergeReplayAssistantToolCalls_def)
  have merge: "merge_adjacent [u, n, r, v] = [u, n, r, v]" for n
    using us rr by (simp add: merge_adjacent_def merge_step_def mergeReplayAssistantToolCalls_def)
  have sup: "filterProviderSuppressedToolReplayMessages [u, m, r, v] = [u, m', r, v]"
    using us rr r m m' by (simp add: filterProviderSuppressedToolReplayMessages_def Let_def m'_def)
  have "replayToolCallGroupID (msg_ToolCallID r) = replayToolCallGroupID (tcd_ID c)"
    unfolding replayToolCallGroupID_def using r(2) m(3) by simp
  moreover have "replayAssistantToolGroupID m' = replayToolCallGroupID (tcd_ID c)"
    using m' by (simp add: replayAssistantToolGroupID_def m'_def Let_def)
  moreover have "batch_results m' [(i, r)] = [r]" using m(3) by (simp add: batch_results_def m'_def List.map_filter_simps)
  ultimately have coal: "coalesceInterleavedReplayToolBatches [u, m', r, v] = [u, m', r, v]"
    using us rr r by (simp add: Let_def replayAssistantToolGroupID_def [of r])
  have trim: "trim_dangling keeps [u, m', r, v] = [u, m', r, v]" for keeps
    using us m' r m(3,4) by (simp add: answer_block_def Let_def m'_def)
  show ?thesis using merge sup coal trim us rr m'
    by (simp add: normalizeReplayMessageSequence_def sanitizeProviderMessages_def mergeAdjacentAssistantToolCallMessages_def
        trimReplayDanglingAssistantToolCalls_def trimDanglingAssistantToolCalls_def drop_prefill_def)
qed

section \<open>A canceled turn\<close>

text \<open>The entry that marks a turn as canceled, of \<open>handleCancelIntent\<close>.\<close>

definition canceled_entry :: "int \<Rightarrow> string \<Rightarrow> string \<Rightarrow> HistoryEntry" where
  "canceled_entry turnSeq requestID cancelReason = newMetadataEntry turnSeq requestID ''control''
     [(''reason'', JString cancelReason), (''replay_policy'', JString (cancelReplayPolicyForReason cancelReason)), (''status'', JString ''canceled'')]"

lemma trim_kinds: "trim_space ''metadata'' = ''metadata''" "trim_space ''user_message'' = ''user_message''" "trim_space ''tool_call'' = ''tool_call''"
  "trim_space ''tool_result'' = ''tool_result''" "trim_space ''control'' = ''control''" "trim_space ''canceled'' = ''canceled''"
  "trim_space ''Edit'' = ''Edit''" "trim_space ''interrupted_turn'' = ''interrupted_turn''" "trim_space ''CreatePlan'' = ''CreatePlan''"
  by code_simp+

lemma metadata_keys: "key_matches ''value'' ''value''" "\<not> key_matches ''value'' ''type''" "\<not> key_matches ''type'' ''value''" "key_matches ''type'' ''type''"
  by code_simp+

lemma metadata_decoded:
  "vals \<noteq> [] \<Longrightarrow> unmarshal_metadata (he_Payload (newMetadataEntry turn req kind vals)) = Some (trim_space kind, vals)"
  by (simp add: newMetadataEntry_def new_entry_def unmarshal_metadata_def metadata_keys)

lemma canceled_policy:
  "canceledReplayPolicyForEntry (canceled_entry turn req reason) = Some (cancelReplayPolicyForReason reason)"
proof -
  have "trim_space (cancelReplayPolicyForReason reason) = cancelReplayPolicyForReason reason"
    unfolding cancelReplayPolicyForReason_def cancelReplayPolicyDropUnstarted_def cancelReplayPolicyKeepStableInput_def by simp code_simp
  then show ?thesis unfolding canceledReplayPolicyForEntry_def canceled_entry_def metadata_decoded [OF list.distinct(2)]
    by (simp add: newMetadataEntry_def new_entry_def trim_kinds obj_get_def readStringValue_def normalizeCancelReplayPolicy_def Let_def
      cancelReplayPolicyForReason_def cancelReplayPolicyDropUnstarted_def cancelReplayPolicyKeepStableInput_def cancelReplayPolicyDropTurn_def)
qed

lemma marker_policy: "canceledReplayPolicyForEntry (newInterruptedTurnMarkerEntry turn req mc) = None"
  unfolding canceledReplayPolicyForEntry_def newInterruptedTurnMarkerEntry_def metadata_decoded [OF list.distinct(2)]
  by (simp add: trim_kinds)

lemma marker_kinds: "he_TurnSeq (newInterruptedTurnMarkerEntry turn req mc) = turn" "kind_of (newInterruptedTurnMarkerEntry turn req mc) = ''metadata''"
  "he_TurnSeq (canceled_entry turn req reason) = turn" "kind_of (canceled_entry turn req reason) = ''metadata''"
  by (simp_all add: newInterruptedTurnMarkerEntry_def canceled_entry_def newMetadataEntry_def new_entry_def trim_kinds)

lemma stored_as_refl: "stored_as e e"
  unfolding stored_as_def by (rule exI [of _ "he_Seq e"], rule exI [of _ "he_CreatedAt e"]) simp

lemma stored_policy: "stored_as e e' \<Longrightarrow> canceledReplayPolicyForEntry e' = canceledReplayPolicyForEntry e"
  by (auto simp: stored_as_def canceledReplayPolicyForEntry_def)

text \<open>Of a canceled turn with a tool call the input, the call and the result are still replayed.\<close>

lemma canceled_turn_replayed:
  assumes "0 < turn" "he_TurnSeq u = turn" "kind_of u = ''user_message''" "he_TurnSeq v \<noteq> turn" "kind_of v = ''user_message''"
    "he_TurnSeq a = turn" "canceledReplayPolicyForEntry a = None" "kind_of a = ''metadata''"
    "he_TurnSeq b = turn" "kind_of b = ''tool_call''" "he_TurnSeq c = turn" "kind_of c = ''tool_result''"
    "he_TurnSeq d = turn" "canceledReplayPolicyForEntry d = Some (cancelReplayPolicyForReason reason)" "kind_of d = ''metadata''"
  shows "replayablePromptProjectionEntries cl [u, a, b, c, d, v] = [u, b, c, v]"
proof -
  let ?es = "[u, a, b, c, d, v]"
  have "compactedPromptProjectionEntries cl ?es = ?es"
    using assms by (simp add: compactedPromptProjectionEntries_def isCompactionSummaryKind_def upt_rec)
  moreover have "canceledReplayPolicies ?es = [turn \<mapsto> cancelReplayPolicyForReason reason]"
    using assms by (simp add: canceledReplayPolicies_def add_policy_def canceledReplayPolicyForEntry_def)
  moreover have "turn \<in> canceledReplayActivityTurns ?es"
    using assms by (auto simp: canceledReplayActivityTurns_def isCanceledTurnActivityEntry_def)
  moreover have "cancelReplayPolicyForReason reason \<noteq> cancelReplayPolicyDropTurn"
    by (simp add: cancelReplayPolicyForReason_def cancelReplayPolicyDropTurn_def cancelReplayPolicyDropUnstarted_def cancelReplayPolicyKeepStableInput_def)
  ultimately show ?thesis using assms
    by (simp add: replayablePromptProjectionEntries_def sanitizeCanceledReplayEntries_def survives_def Let_def isCanceledTurnActivityEntry_def
      isStableCanceledTurnInputEntry_def cancelReplayPolicyKeepStableInput_def cancelReplayPolicyDropTurn_def cancelReplayPolicyDropUnstarted_def)
qed

section \<open>A call with torn arguments\<close>

lemma override_arguments:
  assumes "trim_space args \<noteq> []"
  shows "tcd_Arguments (override_call ''CreatePlan'' (trim_space args) c) = trim_space args"
    "tcd_ID (override_call ''CreatePlan'' (trim_space args) c) = tcd_ID c"
    "\<not> isProviderPromptReplaySuppressedToolName (tcd_Name (override_call ''CreatePlan'' (trim_space args) c))"
  using assms by (auto simp: override_call_def Let_def isLegacyPatchEditToolName_def effectiveReplayToolName_def
      isProviderPromptReplaySuppressedToolName_def trim_kinds)

lemma torn_call_replayed:
  assumes user: "kind_of u = ''user_message''" "rl_user_message rl (he_Payload u) = Some (Some mu)"
      "kind_of v = ''user_message''" "rl_user_message rl (he_Payload v) = Some (Some mv)"
    and call: "kind_of b = ''tool_call''" "decode_tool_call_payload (he_Payload b) = Some pb" "tp_ToolCallID pb = i"
      "hasStructuredToolCallPayload (tp_ToolCall pb)" "rl_call_message rl i (tp_ToolCall pb) = Some (Some m)"
      "msg_role m = ''assistant''" "msg_ToolCalls m = [c]" "trim_space (tcd_ID c) = i"
    and result: "kind_of r = ''tool_result''" "decode_tool_result_payload (he_Payload r) = Some pr" "tp_ToolCallID pr = i"
      "tp_ToolName pr = ''CreatePlan''" "tp_Arguments pr = trim_space args" "tp_ToolCall pr = RawEmpty"
    and i: "trim_space i = i" "i \<noteq> []" and args: "trim_space args \<noteq> []"
  obtains st n c' t where "replay_entries rl conv [u, b, r, v] \<lparr>rs_messages = [], rs_seen = [], rs_open = [], rs_index = []\<rparr> = Inr st"
    "rs_messages st = [mu, n, t, mv]" "msg_role n = ''assistant''" "msg_ToolCalls n = [c']" "trim_space (tcd_ID c') = i"
    "tcd_Arguments c' = trim_space args" "\<not> isProviderPromptReplaySuppressedToolName (tcd_Name c')"
    "is_tool_message t" "answer_id t = i" "\<not> isProviderPromptReplaySuppressedToolName (msg_Name t)"
proof -
  let ?m = "provider_ids pb (with_reasoning pb m)"
  let ?n = "overrideModelToolReplayFromEntry ''CreatePlan'' (trim_space args) ?m"
  let ?t = "plain_result i ''CreatePlan'' (limitProjectedToolResultReplay (cl_json (rl_compaction rl)) (cl_diff (rl_compaction rl))
    ''CreatePlan'' (tp_ResultText pr) [] False (isHistoricalReplayToolResult conv r))"
  have run: "replay_entries rl conv [u, b, r, v] \<lparr>rs_messages = [], rs_seen = [], rs_open = [], rs_index = []\<rparr> =
      Inr \<lparr>rs_messages = [mu, ?n, ?t, mv], rs_seen = [i], rs_open = [], rs_index = []\<rparr>"
    using assms by (simp add: replay_step_def Let_def replay_tool_call_def record_call_def emit_def replay_tool_result_def replay_seen_result_def
        trim_kinds isLegacyPlainWriteReplay_def hasStructuredToolCallPayload_def)
  obtain c0 where c0: "msg_ToolCalls ?m = [c0]" "tcd_ID c0 = tcd_ID c" "msg_role ?m = ''assistant''"
    using call(6,7) by (simp add: provider_ids_def with_reasoning_def)
  then have n: "msg_role ?n = ''assistant''" "msg_ToolCalls ?n = [override_call ''CreatePlan'' (trim_space args) c0]"
    by (simp_all add: overrideModelToolReplayFromEntry_def Let_def trim_kinds)
  have t: "is_tool_message ?t" "answer_id ?t = i" "\<not> isProviderPromptReplaySuppressedToolName (msg_Name ?t)"
    using i by (simp_all add: plain_result_def is_tool_message_def text_message_def isProviderPromptReplaySuppressedToolName_def trim_kinds) code_simp
  show thesis by (rule that [OF run _ n _ _ _ t]) (use override_arguments [OF args, of c0] call(8) c0 in simp_all)
qed

lemma payload_decoded:
  "tp_ReasoningSummary p \<noteq> RawInvalid \<Longrightarrow> tp_ToolCall p \<noteq> RawInvalid \<Longrightarrow> decode_tool_call_payload (or_nil (marshal_tool_call p)) = Some p"
  "tp_ReasoningSummary q \<noteq> RawInvalid \<Longrightarrow> tp_ToolCall q \<noteq> RawInvalid \<Longrightarrow> decode_tool_result_payload (or_nil (marshal_tool_result q)) = Some q"
  using decode_tool_call [of p] decode_tool_result [of q] by (auto simp: or_nil_def marshal_tool_call_def marshal_tool_result_def marshal_object_def)

lemma torn_entries:
  assumes "entries (st_PartialToolCalls s) = [(k, p)]" "entries (st_PendingExecs s) = []" "entries (st_PendingInteractions s) = []"
    "trim_space (st_ProviderAccumulatedText s) = []"
    "\<not> hasReplayableReasoningPayload (st_ProviderAccumulatedReasoning s) (st_ProviderAccumulatedReasoningSignature s) (st_ProviderAccumulatedReasoningSignatureSource s)"
    "cf_Entries c0 = [u]" "kind_of u = ''user_message''"
    "trim_space (itc_ToolCallID p) \<noteq> []" "trim_space (itc_ToolName p) = ''CreatePlan''" "itc_ToolCall p = RawJson tc" "trim_space (itc_Arguments p) \<noteq> []"
  obtains b r pb pr where "interrupted_entries lib (Some c0) s = [b, r]"
    "he_TurnSeq b = st_TurnSeq s" "kind_of b = ''tool_call''" "decode_tool_call_payload (he_Payload b) = Some pb"
    "tp_ToolCallID pb = trim_space (itc_ToolCallID p)" "tp_ToolCall pb = RawJson tc"
    "he_TurnSeq r = st_TurnSeq s" "kind_of r = ''tool_result''" "decode_tool_result_payload (he_Payload r) = Some pr"
    "tp_ToolCallID pr = trim_space (itc_ToolCallID p)" "tp_ToolName pr = ''CreatePlan''" "tp_Arguments pr = trim_space (itc_Arguments p)" "tp_ToolCall pr = RawEmpty"
proof -
  have none: "interrupted_text (Some c0) s = []"
    using assms(4,5) by (simp add: interrupted_text_def Let_def hasReplayableReasoningPayload_def)
  have ids: "interruptedTurnToolIDs (Some c0) (st_TurnSeq s) = ([], [])"
    using assms(6,7) by (simp add: interruptedTurnToolIDs_def call_ids_def result_ids_def turn_ids_def List.map_filter_simps)
  let ?i = "trim_space (itc_ToolCallID p)" and ?a = "trim_space (itc_Arguments p)" and ?req = "trim_space (st_RequestID s)"
  have name: "partial_tool_name lib p = ''CreatePlan''" using assms(9) by (simp add: partial_tool_name_def trim_kinds)
  have built: "interrupted_entries lib (Some c0) s =
      [newToolCallEntryWithProviderMetadata (st_TurnSeq s) ?req ?i ''CreatePlan'' ?a
         (itc_ReasoningContent p) (itc_ReasoningSignature p) (itc_ReasoningSignatureSource p) [] [] RawEmpty
         (itc_ProviderItemID p) (itc_ProviderCallID p) (itc_ProviderStatus p) (RawJson tc),
       newToolResultEntry (st_TurnSeq s) ?req ?i ''CreatePlan'' ?a (interruptedToolResultText ''CreatePlan'') (itc_ReasoningContent p) RawEmpty]"
    using assms(8,10,11) by (simp add: interrupted_entries_def assms(1-3) none turn_scan_of_def ids partial_step_def Let_def name)
  show thesis by (rule that [OF built])
    (simp add: newToolCallEntryWithProviderMetadata_def newToolResultEntry_def new_entry_def trim_kinds payload_decoded)+
qed

text \<open>C21.  A call to CreatePlan that the user interrupts while its arguments are streamed blocks the
  conversation for Anthropic's models.  The interruption stores the fragment received as the arguments of
  the call and of its result, the next turn replays both, and because the fragment is no JSON text,
  building the request of that turn fails.\<close>

theorem torn_call_blocks_anthropic:
  assumes stream: "entries (st_PartialToolCalls s) = [(k, p)]" "entries (st_PendingExecs s) = []" "entries (st_PendingInteractions s) = []"
      "trim_space (st_ProviderAccumulatedText s) = []"
      "\<not> hasReplayableReasoningPayload (st_ProviderAccumulatedReasoning s) (st_ProviderAccumulatedReasoningSignature s) (st_ProviderAccumulatedReasoningSignatureSource s)"
    and before: "cf_Entries c0 = [u]" "kind_of u = ''user_message''" "he_TurnSeq u = st_TurnSeq s" "0 < st_TurnSeq s"
    and torn: "trim_space (itc_ToolCallID p) \<noteq> []" "trim_space (itc_ToolName p) = ''CreatePlan''" "itc_ToolCall p = RawJson tc"
      "trim_space (itc_Arguments p) \<noteq> []" "jl_decode (al_json al) (trim_space (itc_Arguments p)) = None"
    and stored: "list_all2 stored_as (newInterruptedTurnMarkerEntry (st_TurnSeq s) req mc # interrupted_entries lib (Some c0) s @
        [canceled_entry (st_TurnSeq s) req reason]) es"
    and after: "cf_Entries c1 = u # es @ [v]" "kind_of v = ''user_message''" "he_TurnSeq v \<noteq> st_TurnSeq s"
    and engine: "rl_user_message rl (he_Payload u) = Some (Some mu)" "msg_role mu = ''user''"
      "rl_user_message rl (he_Payload v) = Some (Some mv)" "msg_role mv = ''user''" "tc \<noteq> JNull"
      "rl_call_message rl (trim_space (itc_ToolCallID p)) (RawJson tc) = Some (Some m)" "msg_role m = ''assistant''" "msg_ToolCalls m = [c]"
      "trim_space (tcd_ID c) = trim_space (itc_ToolCallID p)"
  shows "\<exists>ms err. projectPromptReplay rl c1 = Inr ms \<and>
    normalizeAnthropicProviderMessages al thinking relocate (sanitizeProviderMessages ms) = Inl err"
proof -
  obtain b r pb pr where e: "interrupted_entries lib (Some c0) s = [b, r]"
    and b: "he_TurnSeq b = st_TurnSeq s" "kind_of b = ''tool_call''" "decode_tool_call_payload (he_Payload b) = Some pb"
      "tp_ToolCallID pb = trim_space (itc_ToolCallID p)" "tp_ToolCall pb = RawJson tc"
    and r: "he_TurnSeq r = st_TurnSeq s" "kind_of r = ''tool_result''" "decode_tool_result_payload (he_Payload r) = Some pr"
      "tp_ToolCallID pr = trim_space (itc_ToolCallID p)" "tp_ToolName pr = ''CreatePlan''" "tp_Arguments pr = trim_space (itc_Arguments p)" "tp_ToolCall pr = RawEmpty"
    by (rule torn_entries [OF stream before(1,2) torn(1-4)])
  obtain a' b' r' d' where es: "es = [a', b', r', d']" and a': "stored_as (newInterruptedTurnMarkerEntry (st_TurnSeq s) req mc) a'"
    and b': "stored_as b b'" and r': "stored_as r r'" and d': "stored_as (canceled_entry (st_TurnSeq s) req reason) d'"
    using stored by (auto simp: e list_all2_Cons1)
  have shown: "replayablePromptProjectionEntries (rl_compaction rl) (cf_Entries c1) = [u, b', r', v]"
    unfolding after(1) es append.simps
    by (rule canceled_turn_replayed [of "st_TurnSeq s" _ _ _ _ _ _ reason])
      (use before after b r in \<open>simp_all add: stored_asD [OF a'] stored_asD [OF b'] stored_asD [OF r'] stored_asD [OF d'] stored_policy [OF a']
        stored_policy [OF d'] marker_policy canceled_policy marker_kinds\<close>)
  obtain st n c' t where n: "replay_entries rl c1 [u, b', r', v] \<lparr>rs_messages = [], rs_seen = [], rs_open = [], rs_index = []\<rparr> = Inr st"
    "rs_messages st = [mu, n, t, mv]" "msg_role n = ''assistant''" "msg_ToolCalls n = [c']" "trim_space (tcd_ID c') = trim_space (itc_ToolCallID p)"
    "tcd_Arguments c' = trim_space (itc_Arguments p)" "\<not> isProviderPromptReplaySuppressedToolName (tcd_Name c')"
    "is_tool_message t" "answer_id t = trim_space (itc_ToolCallID p)" "\<not> isProviderPromptReplaySuppressedToolName (msg_Name t)"
    by (rule torn_call_replayed [of u rl mu v mv b' pb "trim_space (itc_ToolCallID p)" m c r' pr "itc_Arguments p" c1])
      (use before after b r torn engine in \<open>simp_all add: stored_asD [OF b'] stored_asD [OF r'] hasStructuredToolCallPayload_def\<close>)
  let ?n = "n\<lparr>msg_ToolCalls := [c'\<lparr>tcd_Index := 0\<rparr>]\<rparr>"
  have "projectPromptReplay rl c1 = Inr (normalizeReplayMessageSequence [mu, n, t, mv])" 
    unfolding projectPromptReplay_def shown n(1) by (simp add: n(2))
  moreover have "sanitizeProviderMessages (normalizeReplayMessageSequence [mu, n, t, mv]) = [mu, ?n, t, mv]"
    by (rule answered_call_stays [OF engine(2,4) n(3,4,5) torn(1) n(7,8,9,10)])
  moreover have "decodeAnthropicToolInput al (tcd_Arguments (c'\<lparr>tcd_Index := 0\<rparr>)) = Inl BadToolInput"
    using torn(4,5) n(6) by (simp add: decodeAnthropicToolInput_def Let_def)
  then have "\<exists>err. normalize_all al thinking [mu, ?n, t, mv] st0 = Inl err" for st0

    using n(3) by (intro normalize_all_fails [where m = ?n and c = "c'\<lparr>tcd_Index := 0\<rparr>"]) simp_all
  ultimately show ?thesis by (metis (no_types, lifting) normalizeAnthropicProviderMessages_def old.sum.simps(5))
qed

section \<open>An example\<close>

text \<open>A stream with one call, half of whose arguments had come, and a prompt engine that replays it.\<close>

definition demo_torn :: ActiveStream where
  "demo_torn = demo_asked\<lparr>st_PartialToolCalls := Some [(''t1'', \<lparr>itc_ToolCallID = ''t1'', itc_ToolName = ''CreatePlan'', itc_Arguments = ''{'',
       itc_ReasoningContent = [], itc_ReasoningSignature = [], itc_ReasoningSignatureSource = [], itc_ProviderItemID = [],
       itc_ProviderCallID = [], itc_ProviderStatus = [], itc_ModelCallID = [], itc_ToolCall = RawJson (JObject [])\<rparr>)],
     st_PendingInteractions := None\<rparr>"

definition demo_engine :: replay_lib where
  "demo_engine = \<lparr>rl_compaction = demo_compaction_lib, rl_sha = id, rl_model_message = \<lambda>_. None,
     rl_user_message = \<lambda>_. Some (Some (text_message ''user'' ''hi'')), rl_request_context = \<lambda>_. None,
     rl_call_message = \<lambda>i _. Some (Some (plain_call i ''CreatePlan'' ''{}'')), rl_result_message = \<lambda>_ _. None, rl_call_and_result = \<lambda>_ _. None,
     rl_tool_name = \<lambda>_. []\<rparr>"

definition demo_spoken :: "int \<Rightarrow> HistoryEntry" where
  "demo_spoken n = new_entry n ''r1'' ''user'' ''user_message'' [] (RawJson (JString ''hi''))"

definition demo_recorded :: "HistoryEntry list" where
  "demo_recorded = newInterruptedTurnMarkerEntry 1 ''r1'' [] # interrupted_entries demo_lib (Some (emptyConversation\<lparr>cf_Entries := [demo_spoken 1]\<rparr>)) demo_torn @
     [canceled_entry 1 ''r1'' ''user aborted'']"

theorem torn_call_blocks_anthropic_witness:
  "\<exists>ms err. projectPromptReplay demo_engine (emptyConversation\<lparr>cf_Entries := demo_spoken 1 # demo_recorded @ [demo_spoken 2]\<rparr>) = Inr ms \<and>
     normalizeAnthropicProviderMessages demo_anthropic_lib False True (sanitizeProviderMessages ms) = Inl err"
proof -
  obtain p where p: "entries (st_PartialToolCalls demo_torn) = [(''t1'', p)]" "itc_ToolCallID p = ''t1''" "itc_ToolName p = ''CreatePlan''"
    "itc_Arguments p = ''{''" "itc_ToolCall p = RawJson (JObject [])" by (simp add: demo_torn_def entries_def)
  have s: "entries (st_PendingExecs demo_torn) = []" "entries (st_PendingInteractions demo_torn) = []" "trim_space (st_ProviderAccumulatedText demo_torn) = []"
    "\<not> hasReplayableReasoningPayload (st_ProviderAccumulatedReasoning demo_torn) (st_ProviderAccumulatedReasoningSignature demo_torn) (st_ProviderAccumulatedReasoningSignatureSource demo_torn)"
    "st_TurnSeq demo_torn = 1" by code_simp+
  have t: "trim_space ''t1'' = ''t1''" "trim_space ''{'' = ''{''" "trim_space ''user'' = ''user''" "trim_space ''assistant'' = ''assistant''" by code_simp+
  let ?c0 = "emptyConversation\<lparr>cf_Entries := [demo_spoken 1]\<rparr>"
  have stored: "list_all2 stored_as (newInterruptedTurnMarkerEntry (st_TurnSeq demo_torn) ''r1'' [] # interrupted_entries demo_lib (Some ?c0) demo_torn @
      [canceled_entry (st_TurnSeq demo_torn) ''r1'' ''user aborted'']) demo_recorded"
    unfolding demo_recorded_def s(5) by (rule list_all2_refl) (rule stored_as_refl)
  have turns: "kind_of (demo_spoken n) = ''user_message''" "he_TurnSeq (demo_spoken n) = n" for n
    by (simp_all add: demo_spoken_def new_entry_def trim_kinds)
  have hi: "rl_user_message demo_engine r = Some (Some (text_message ''user'' ''hi''))" "msg_role (text_message ''user'' ''hi'') = ''user''" for r
    by (simp_all add: demo_engine_def text_message_def t)
  have call: "rl_call_message demo_engine i r = Some (Some (plain_call i ''CreatePlan'' ''{}''))" "msg_role (plain_call i ''CreatePlan'' ''{}'') = ''assistant''"
    "msg_ToolCalls (plain_call i ''CreatePlan'' ''{}'') = [hd (msg_ToolCalls (plain_call i ''CreatePlan'' ''{}''))]"
    "tcd_ID (hd (msg_ToolCalls (plain_call i ''CreatePlan'' ''{}''))) = i" for i r
    by (simp_all add: demo_engine_def plain_call_def text_message_def t)
  have torn: "trim_space (itc_ToolCallID p) \<noteq> []" "trim_space (itc_ToolName p) = ''CreatePlan''" "trim_space (itc_Arguments p) \<noteq> []"
    "jl_decode (al_json demo_anthropic_lib) (trim_space (itc_Arguments p)) = None"
    by (simp_all add: p t trim_kinds demo_anthropic_lib_def)
  show ?thesis
    by (rule torn_call_blocks_anthropic [OF p(1) s(1-4) _ turns(1) [of 1] _ _ torn(1,2) p(5) torn(3,4) stored _ turns(1) [of 2] _ hi hi _ call(1,2,3)])
      (simp_all add: s(5) turns call(4) p(2) t)
qed

end
