(* ===== verification/Spec2Isabelle.thy ===== *)
theory Spec2Isabelle
  imports Append_Seq Agent_Modes Todo_Items Mcp_Capabilities Broker_Reach Patch_Guarantees
    History_Views Run_Rewind Checkpoint_Memory Lock_Guarantees Usage_Guarantees
    Replay_Truncation Replay_Order Interrupt_Guarantees Compaction_State Compaction_Inputs Replay_Bound
    Think_Tags Interrupted_Replay
begin

text \<open>
  \<^bold>\<open>A verification library for the request forwarder of cursor-byok-lite\<close>

  The program answers the requests of an editor's agent client with the user's own model provider.
  Its core is the package \<open>src/internal/backend/forwarder\<close>.  The client appends messages to a
  request and reads the answer from a server-sent event stream; in between an actor per request
  drives provider passes, runs the tools the model calls, and records the conversation in two JSON
  files.  All Go file names below are relative to that package.

  \<^bold>\<open>Parts and theories\<close>

  \<^item> \<^emph>\<open>Shared\<close>.  \<open>Forwarder_Prelude\<close>: wrapping \<open>int64\<close>, \<open>int32\<close>, \<open>uint64\<close> and \<open>uint32\<close> over \<open>int\<close> and \<open>nat\<close>, time as an
    instant.  \<open>Go_Strings\<close>, \<open>Go_Replace\<close>: the functions of \<open>strings\<close> and \<open>strconv\<close> the program calls, on
    strings of bytes.  \<open>Json_Values\<close>: JSON values and what \<open>json.Unmarshal\<close> accepts for a Go type.

  \<^item> \<^emph>\<open>Append sequencing\<close> (\<open>append_seq.go\<close>).  \<open>Append_Seq\<close> has the tracker as a heap of objects and closed
    channels, each critical section of \<open>acquire\<close> and \<open>release\<close> as a function and their interleaving as
    \<open>as_step\<close>.  C1 to C4: mutual exclusion and order of the numbered appends of one state object, no lost
    wake-up, and what happens when an idle request's object expires.

  \<^item> \<^emph>\<open>Modes, todos, MCP tools\<close> (\<open>types.go\<close>, \<open>state_tools.go\<close>, \<open>mcp_capabilities.go\<close>, \<open>tool_catalog.go\<close>).
    \<open>Agent_Modes\<close>, \<open>Todo_Items\<close>, \<open>Mcp_Capabilities\<close>.  C6: TodoWrite keeps the ids of unfinished todos; C8: when a name stands for a tool of
    an MCP server; lemmas on the pairs a request may call and the tools offered to the provider.

  \<^item> \<^emph>\<open>Streams\<close> (\<open>broker.go\<close>, the SSE loop of \<open>service.go\<close>).  \<open>Stream_Types\<close> has the record of an active stream,
    \<open>Stream_Broker\<close> one function per operation and critical section.  \<open>Stream_Log\<close> states the contract of
    an event log as a locale and interprets it on the bounded backlog; \<open>Broker_Reach\<close> is the relation of
    all operations.  C11 to C13, C16: the backlog implements the log, messages other than checkpoints
    are delivered in order, the invariant of reachable streams, and a panic; lemmas on final statuses, cleanup and reconnection.

  \<^item> \<^emph>\<open>The actor of a turn\<close> (\<open>actor.go\<close>, \<open>service.go\<close>, \<open>interaction_tools.go\<close>).  \<open>Stream_Actor\<close> has the handlers
    of provider events (text, reasoning, partial tool calls, finish reason, error and end), timers,
    cancellation, lost subscribers and new runs and the end of those of interaction results,
    \<open>Turn_Progress\<close> their sequences.  C17: under these commands terminal turns stay terminal; C18: a turn goes on
    after a pass that ended, without interruption, under the current token; C20: a run that stalls; lemmas on the resume timer and the bound on accumulated text.

  \<^item> \<^emph>\<open>The PatchEdit tool\<close> (\<open>patch_edit_tool.go\<close>, \<open>edit_result_helpers.go\<close>, \<open>edit_recovery.go\<close>).  \<open>Patch_Args\<close>:
    arguments, payloads and the edit itself; \<open>Patch_Edit\<close>: the read, write and read-back stages and the
    queue per path; \<open>Patch_Guarantees\<close>: the queue contract as a locale.  C22, C24, C26, C27.

  \<^item> \<^emph>\<open>The conversation and its store\<close> (\<open>types.go\<close>, \<open>file_store.go\<close>, \<open>state_tools.go\<close>, \<open>projector.go\<close>,
    \<open>prompt_context.go\<close>).  \<open>Conversation_History\<close> has the record and the pure functions on it,
    \<open>Structured_State\<close> the plan and todos projected from it and the treatment of canceled turns,
    \<open>Conversation_Store\<close> every operation on \<open>context.json\<close> and \<open>state.json\<close>.  A store maps a conversation id
    to its two files, each missing, unreadable or holding a value; a write succeeds, fails before or
    fails after the rename.  \<open>Conversation_Invariants\<close> and \<open>Conversation_Guarantees\<close> carry the invariant
    \<open>disk_ok\<close> through every operation and failure; \<open>Store_Log\<close> has the contract of a system with an
    append-only log as a locale (\<open>logged_system\<close>) and its interpretation on the store.  C28 to C30: what
    is stored loads, appends of unnumbered entries are atomic, the history is append-only as long as a
    snapshot with the stored metadata has the stored entries (a lemma shows when it has not).  \<open>Snapshot_Append\<close>, C31: appending
    from a snapshot equals appending after reading the file.  \<open>History_Views\<close>: lemmas on the
    status of a loop and on canceled turns.

  \<^item> \<^emph>\<open>Rewind and checkpoint\<close> (\<open>rewind.go\<close>, \<open>checkpoint_memory.go\<close>, \<open>runtime_summary.go\<close>).  \<open>Run_Rewind\<close>, C34: a run that
    edits an earlier message cuts the stored history there.  \<open>Checkpoint_Memory\<close>, C35: the copy a
    stream keeps of its conversation mirrors the disk.

  \<^item> \<^emph>\<open>Locks\<close> (\<open>file_store.go\<close>).  \<open>Conversation_Lock\<close>, \<open>Lock_Guarantees\<close>, C36 to C38: the counted mutex per path
    excludes, acquiring the lock file ends after a bounded number of waits, and the lock file itself
    does not exclude.

  \<^item> \<^emph>\<open>Usage\<close> (\<open>usage_store.go\<close>).  \<open>Usage_Store\<close>, \<open>Usage_Guarantees\<close>, C39: for at most 500 ids totals and daily
    buckets are sums over the latest record of each id; a lemma on ids pushed out of the recent events, which count again.

  \<^item> \<^emph>\<open>Replay\<close> (\<open>tool_result_replay_truncation.go\<close>, \<open>projector.go\<close>, \<open>reasoning_metadata.go\<close>,
    \<open>../agent/model/router.go\<close>).  \<open>Replay_Truncation\<close>, C5: what a later provider request repeats of a tool's result
    stays within the tool's limit, image results apart, and cuts no character in two.  \<open>Replay_Messages\<close> has the passes that bring
    the replayed messages into the order providers accept, \<open>Replay_Order\<close> their properties.  C7: every
    tool call sent is followed by its results, and no text is lost but that of assistant messages at
    the very end; C25: a result that comes behind a
    text loses its call.  \<open>Replay_Projection\<close> turns the entries of a history into these messages, one step per
    entry; \<open>Replay_Cache\<close> is the cache of the results under the version of a history.
    \<open>Replay_Cache_Guarantees\<close> has the contract of a cache with versions as a locale (\<open>version_cache\<close>) and
    interprets it on the replays and on the counts of stable messages; \<open>Replay_World\<close> is the relation of
    the steps that open, change, append to, rewrite and project conversations, with the order in which
    replays were used as a history variable; \<open>Replay_Bound\<close> has the size of the cache.  C33: for snapshots
    taken since the last rewrite the cache returns what an uncached projection would, unless an older
    snapshot was projected since (a lemma shows what happens then); C23: it keeps the sixteen
    conversations used last.

  \<^item> \<^emph>\<open>Compaction\<close> (\<open>compaction.go\<close>, \<open>token_estimator.go\<close>, \<open>projector.go\<close>).  \<open>Compaction_Entries\<close> has the entries a
    compaction keeps, cuts and adds, \<open>Compaction_Plan\<close> the token estimates, the plan of a compaction, its
    application to a conversation and the summary the code writes itself.  \<open>Compaction_Guarantees\<close>, C9: a
    turn that was compacted is not compacted again before it has more tool calls; \<open>Compaction_State\<close>, C10:
    the plan and the todos survive; \<open>Compaction_Inputs\<close>, C15: what an automatic compaction leaves is exactly
    the summary, the plan and todos, the inputs of the current turn and its last completed tool call.

  \<^item> \<^emph>\<open>Interrupted turns\<close> (\<open>interrupt.go\<close>, the entry constructors of \<open>service.go\<close>).  \<open>History_Entries\<close> has the
    payloads of the entries and what \<open>encoding/json\<close> makes of them, \<open>Interrupted_Turn\<close> the entries that close a
    canceled turn and how they are appended, \<open>Interrupt_Guarantees\<close> their properties.  C19: after a recorded
    interruption exactly the calls that had a result and the open ones have one; C40: calls of interaction tools get two.
    \<open>Interrupted_Replay\<close> follows such a call through the next turn to the request sent, C21: a call whose
    arguments were cut off makes every later request to Anthropic fail.

  \<^item> \<^emph>\<open>Model adapters\<close> (\<open>../agent/model/openai.go\<close>, \<open>anthropic.go\<close>, \<open>content_parts.go\<close>, \<open>tool_call_id.go\<close>).  \<open>Think_Tags\<close> is the
    parser that separates reasoning from the answer in a stream of pieces, C32: it gives what a parser
    of the whole text would.  \<open>Anthropic_Messages\<close> has the messages of a request to Anthropic, their blocks and the
    identifiers of tool calls, \<open>Anthropic_Guarantees\<close> their properties, C14: every tool use is followed
    at once by its result, and identifiers have at most 64 bytes.

  \<^bold>\<open>How the code is rendered\<close>

  Structs are records, with the fields some modelled operation reads or writes; Go's zero values
  are explicit.  A pointer that may be nil is an option.  Maps are HOL maps, or association lists
  where the code iterates and the order could matter.  A handler returns the new state and the
  actions it performs on other parts; a result or an error is a sum.  Where goroutines interleave,
  each critical section is one function and an inductive relation composes them.  The clock, freshly
  generated identifiers and the outcome of I/O are arguments.  Decoding of protobuf messages, the diff
  library, SHA-256 and date formatting are arguments too, with no assumption on them unless a theorem
  states it.

  \<^bold>\<open>Bounds\<close>

  Counters are \<open>int64\<close> and wrap.  Theorems on the store assume room for the new entries below the
  largest \<open>int64\<close>; \<open>append_seq\<close> theorems bound the number of steps by it; C39 asks that the sums fit.  The
  backlog keeps 1024 events, the usage file 500 events; both limits are the code's.  The acquisition of
  the lock file sleeps 10 ms per round for at most 60 s, hence the 6000 waits of C37, and
  for at most 30 s after the removal of a stale lock, hence 3000 more for each.  The cache of
  replays counts its accesses with 64 bits; C23 holds for fewer steps than that.  No definition
  uses fuel: every loop is structurally recursive or has a termination proof.

  \<^bold>\<open>Not modelled\<close>

  Of a compaction, the handlers that run the client's hook and ask a model for the summary, and the
  summaries of turns imported as protobuf messages; the code no handler calls
  (\<open>selectTurnsForCompaction\<close>, \<open>buildCompactionCandidates\<close>).  The assembly of a provider request around the
  replayed messages (\<open>compiler.go\<close>) fills templates from files.  Of the actor, the commands
  for metadata, execution results and control and compaction events, completed reasoning, the dispatch
  of a completed tool call, and what an interaction result does before its end.  The write and shell
  tools and the
  translation of inbound messages work on generated protobuf types.
  The execution and interaction bridges translate to generated protobuf types that are not in the
  repository; of the model adapters, the HTTP calls, the
  reading of the providers' event streams and the requests to OpenAI; server, proxy, certificates,
  updater, desktop shell, prompt templates, indexing handlers and diagnostics are I/O and glue.
\<close>

end
